(* ===== verification/Prelude.thy ===== *)
theory Prelude
  imports Main "HOL-Library.Word" "HOL-Library.AList" "HOL-Library.Code_Target_Numeral"
begin

text \<open>
  The vocabulary every other theory of the development shares: machine integers at their
  width, big-endian byte codecs, Rust evaluation with panics, checked slice access, and
  hash maps and hash sets as association lists and finite sets.

  A Rust expression that can panic (an index out of range, a bad slice range) denotes a
  value of the type \<open>'a eval\<close>: \<open>Panic\<close>, or \<open>Ret\<close> of the value.  A function of the source
  that returns an \<open>Option\<close> and can also panic denotes an \<open>'a option eval\<close>, and the operator
  \<open>?\<close> is \<open>bindO\<close>.  That the code never panics is then a theorem of the form
  \<open>f x = Ret (g x)\<close>.
\<close>

section \<open>Collections of facts\<close>

named_theorems eval_simps \<open>equations of the evaluation combinators\<close>
named_theorems byte_simps \<open>codec equations between words and bytes\<close>
named_theorems str_simps \<open>equations of the string functions on separators and digits\<close>
named_theorems hm_simps \<open>lookup equations of hash maps\<close>

section \<open>Machine integers\<close>

type_synonym u8 = "8 word"
type_synonym u16 = "16 word"
type_synonym u32 = "32 word"
type_synonym u64 = "64 word"
type_synonym bytes = "u8 list"

text \<open>\<open>u16::from_be_bytes\<close>, \<open>u16::to_be_bytes\<close> and their \<open>u32\<close> forms.\<close>

definition from_be16 :: "u8 \<Rightarrow> u8 \<Rightarrow> u16" where
  "from_be16 a b = word_of_nat (256 * unat a + unat b)"

definition to_be16 :: "u16 \<Rightarrow> bytes" where
  "to_be16 w = [word_of_nat (unat w div 256), word_of_nat (unat w mod 256)]"

definition from_be32 :: "u8 \<Rightarrow> u8 \<Rightarrow> u8 \<Rightarrow> u8 \<Rightarrow> u32" where
  "from_be32 a b c d =
     word_of_nat (16777216 * unat a + 65536 * unat b + 256 * unat c + unat d)"

definition to_be32 :: "u32 \<Rightarrow> bytes" where
  "to_be32 w =
     [word_of_nat (unat w div 16777216), word_of_nat (unat w div 65536 mod 256),
      word_of_nat (unat w div 256 mod 256), word_of_nat (unat w mod 256)]"

lemma unat_lt_256 [simp]: "unat (a :: u8) < 256"
  by (rule order_less_le_trans [OF unsigned_less]) simp

lemma unat_lt_65536 [simp]: "unat (a :: u16) < 65536"
  by (rule order_less_le_trans [OF unsigned_less]) simp

lemma unat_lt_u32 [simp]: "unat (a :: u32) < 4294967296"
  by (rule order_less_le_trans [OF unsigned_less]) simp

lemma unat_of_nat_u8 [simp]: "n < 256 \<Longrightarrow> unat (word_of_nat n :: u8) = n"
  by (simp add: unat_of_nat)

lemma unat_of_nat_u16 [simp]: "n < 65536 \<Longrightarrow> unat (word_of_nat n :: u16) = n"
  by (simp add: unat_of_nat)

lemma unat_of_nat_u32 [simp]: "n < 4294967296 \<Longrightarrow> unat (word_of_nat n :: u32) = n"
  by (simp add: unat_of_nat)

lemma of_nat_unat_u8 [simp]: "(word_of_nat (unat (a :: u8)) :: u8) = a"
  by simp

lemma unat_from_be16 [byte_simps]: "unat (from_be16 a b) = 256 * unat a + unat b"
proof -
  have "unat a < 256" "unat b < 256" by simp_all
  then have "256 * unat a + unat b < 65536" by linarith
  then show ?thesis unfolding from_be16_def by (rule unat_of_nat_u16)
qed

lemma to_be16_from_be16 [byte_simps]: "to_be16 (from_be16 a b) = [a, b]"
  by (simp add: to_be16_def unat_from_be16)

lemma length_to_be16 [simp]: "length (to_be16 w) = 2"
  by (simp add: to_be16_def)

lemma length_to_be32 [simp]: "length (to_be32 w) = 4"
  by (simp add: to_be32_def)

lemma from_be16_to_be16 [byte_simps]:
  "from_be16 (word_of_nat (unat w div 256)) (word_of_nat (unat w mod 256)) = w"
proof -
  have "unat w div 256 < 256" using unat_lt_65536 [of w] by linarith
  then have "unat (from_be16 (word_of_nat (unat w div 256)) (word_of_nat (unat w mod 256))) = unat w"
    by (simp add: unat_from_be16)
  then show ?thesis by (simp only: unsigned_word_eqI)
qed

lemma from_be16_nth_to_be16 [byte_simps]: "from_be16 (to_be16 w ! 0) (to_be16 w ! Suc 0) = w"
  by (simp add: to_be16_def from_be16_to_be16)

lemma from_be32_nth_to_be32 [byte_simps]:
  "from_be32 (to_be32 w ! 0) (to_be32 w ! Suc 0) (to_be32 w ! 2) (to_be32 w ! 3) = w"
proof -
  let ?n = "unat w"
  have lt: "?n div 16777216 < 256" using unat_lt_u32 [of w] by linarith
  have "?n = 256 * (?n div 256) + ?n mod 256" by simp
  moreover have "?n div 256 = 256 * (?n div 256 div 256) + ?n div 256 mod 256" by simp
  moreover have "?n div 256 div 256 = ?n div 65536" by (simp add: div_mult2_eq [symmetric])
  moreover have "?n div 65536 = 256 * (?n div 65536 div 256) + ?n div 65536 mod 256" by simp
  moreover have "?n div 65536 div 256 = ?n div 16777216" by (simp add: div_mult2_eq [symmetric])
  ultimately have "16777216 * (?n div 16777216) + 65536 * (?n div 65536 mod 256)
      + 256 * (?n div 256 mod 256) + ?n mod 256 = ?n"
    by linarith
  then have "from_be32 (to_be32 w ! 0) (to_be32 w ! Suc 0) (to_be32 w ! 2) (to_be32 w ! 3)
      = word_of_nat ?n"
    using lt by (simp only: to_be32_def from_be32_def nth_Cons_0 nth_Cons_Suc numeral_2_eq_2
        numeral_3_eq_3 unat_of_nat_u8 mod_less_divisor zero_less_numeral)
  then show ?thesis by simp
qed

section \<open>Evaluation with panics\<close>

datatype 'a eval = Panic | Ret 'a

fun bindE :: "'a eval \<Rightarrow> ('a \<Rightarrow> 'b eval) \<Rightarrow> 'b eval" where
  "bindE Panic f = Panic"
| "bindE (Ret a) f = f a"

text \<open>The operator \<open>?\<close> on an \<open>Option\<close>: \<open>None\<close> returns from the enclosing function.\<close>

fun bindO :: "'a option eval \<Rightarrow> ('a \<Rightarrow> 'b option eval) \<Rightarrow> 'b option eval" where
  "bindO Panic f = Panic"
| "bindO (Ret None) f = Ret None"
| "bindO (Ret (Some a)) f = f a"

text \<open>\<open>xs[i]\<close>, \<open>xs.get(i)\<close> and \<open>&xs[a..b]\<close>.\<close>

definition idx :: "'a list \<Rightarrow> nat \<Rightarrow> 'a eval" where
  "idx xs i = (if i < length xs then Ret (xs ! i) else Panic)"

definition get :: "'a list \<Rightarrow> nat \<Rightarrow> 'a option" where
  "get xs i = (if i < length xs then Some (xs ! i) else None)"

definition slice :: "'a list \<Rightarrow> nat \<Rightarrow> nat \<Rightarrow> 'a list eval" where
  "slice xs a b = (if a \<le> b \<and> b \<le> length xs then Ret (take (b - a) (drop a xs)) else Panic)"

declare bindE.simps [eval_simps] bindO.simps [eval_simps]

lemma idx_ok [eval_simps]: "i < length xs \<Longrightarrow> idx xs i = Ret (xs ! i)"
  by (simp add: idx_def)

lemma slice_ok [eval_simps]:
  "a \<le> b \<Longrightarrow> b \<le> length xs \<Longrightarrow> slice xs a b = Ret (take (b - a) (drop a xs))"
  by (simp add: slice_def)

lemma get_Some_iff: "get xs i = Some x \<longleftrightarrow> i < length xs \<and> x = xs ! i"
  by (auto simp: get_def)

lemma get_None_iff: "get xs i = None \<longleftrightarrow> length xs \<le> i"
  by (auto simp: get_def)

lemma bindO_Ret_Some_conv:
  "bindO m f = Ret (Some b) \<longleftrightarrow> (\<exists>a. m = Ret (Some a) \<and> f a = Ret (Some b))"
  by (cases "(m, f)" rule: bindO.cases) auto

lemma bindE_Ret_conv: "bindE m f = Ret b \<longleftrightarrow> (\<exists>a. m = Ret a \<and> f a = Ret b)"
  by (cases m) auto

section \<open>Hash maps and hash sets\<close>

text \<open>
  A \<open>HashSet\<close> is a finite set.  A \<open>HashMap\<close> is an association list with distinct keys whose
  order stands for the unspecified iteration order of the map.
\<close>

type_synonym ('k, 'v) hashmap = "('k \<times> 'v) list"

abbreviation hm_get :: "('k, 'v) hashmap \<Rightarrow> 'k \<Rightarrow> 'v option" where
  "hm_get \<equiv> map_of"

abbreviation hm_insert :: "'k \<Rightarrow> 'v \<Rightarrow> ('k, 'v) hashmap \<Rightarrow> ('k, 'v) hashmap" where
  "hm_insert \<equiv> AList.update"

abbreviation hm_remove :: "'k \<Rightarrow> ('k, 'v) hashmap \<Rightarrow> ('k, 'v) hashmap" where
  "hm_remove \<equiv> AList.delete"

abbreviation hm_len :: "('k, 'v) hashmap \<Rightarrow> nat" where
  "hm_len \<equiv> length"

abbreviation hm_retain :: "('k \<times> 'v \<Rightarrow> bool) \<Rightarrow> ('k, 'v) hashmap \<Rightarrow> ('k, 'v) hashmap" where
  "hm_retain \<equiv> filter"

definition hm_wf :: "('k, 'v) hashmap \<Rightarrow> bool" where
  "hm_wf m \<longleftrightarrow> distinct (map fst m)"

lemma hm_wf_Nil [simp, intro]: "hm_wf []"
  by (simp add: hm_wf_def)

lemma hm_wf_insert [simp, intro]: "hm_wf m \<Longrightarrow> hm_wf (hm_insert k v m)"
  by (simp add: hm_wf_def distinct_update)

lemma hm_wf_remove [simp, intro]: "hm_wf m \<Longrightarrow> hm_wf (hm_remove k m)"
  by (simp add: hm_wf_def distinct_delete)

lemma hm_wf_retain [simp, intro]: "hm_wf m \<Longrightarrow> hm_wf (hm_retain P m)"
  by (simp add: hm_wf_def distinct_map_filter)

lemma hm_get_insert [simp, hm_simps]:
  "hm_get (hm_insert k v m) k' = (if k' = k then Some v else hm_get m k')"
  by (simp add: update_conv')

lemma hm_get_remove [simp, hm_simps]:
  "hm_get (hm_remove k m) k' = (if k' = k then None else hm_get m k')"
  by (simp add: delete_conv')

lemma hm_len_insert: "hm_len (hm_insert k v m) \<le> Suc (hm_len m)"
  by (induction m) auto

lemma hm_retain_get:
  assumes "hm_wf m"
  shows "hm_get (hm_retain P m) k =
    (case hm_get m k of None \<Rightarrow> None | Some v \<Rightarrow> if P (k, v) then Some v else None)"
  using assms
proof (induction m)
  case (Cons kv m)
  obtain k0 v0 where kv: "kv = (k0, v0)" by force
  from Cons.prems kv have "k0 \<notin> fst ` set m" and wf: "hm_wf m" by (auto simp: hm_wf_def)
  then have none: "hm_get m k0 = None" by (simp add: map_of_eq_None_iff)
  then have "hm_get (hm_retain P m) k0 = None" by (auto simp: map_of_eq_None_iff)
  then show ?case using Cons.IH [OF wf] none kv by auto
qed simp

text \<open>
  The daemon bounds its long-lived maps the same way everywhere: clear when the map holds
  more than a limit, then insert.
\<close>

locale bounded_map =
  fixes cap :: nat
    and put :: "'k \<Rightarrow> 'v \<Rightarrow> ('k, 'v) hashmap \<Rightarrow> ('k, 'v) hashmap"
  assumes put_eq: "put k v m = hm_insert k v (if cap < hm_len m then [] else m)"
begin

lemma put_len: "hm_len m \<le> Suc cap \<Longrightarrow> hm_len (put k v m) \<le> Suc cap"
proof -
  have "hm_len (put k v m) \<le> Suc (hm_len (if cap < hm_len m then [] else m))"
    unfolding put_eq by (rule hm_len_insert)
  also have "\<dots> \<le> Suc cap" by simp
  finally show ?thesis .
qed

lemma put_wf: "hm_wf m \<Longrightarrow> hm_wf (put k v m)"
  by (simp add: put_eq)

lemma put_get: "hm_get (put k v m) k = Some v"
  by (simp add: put_eq)

lemma put_other:
  "k' \<noteq> k \<Longrightarrow> hm_get (put k v m) k' = Some v' \<Longrightarrow> hm_get m k' = Some v'"
  by (simp add: put_eq split: if_splits)

end

end
