(* ===== verification/Rust_Str.thy ===== *)
theory Rust_Str
  imports Prelude "HOL-Library.Sublist"
begin

text \<open>
  The part of Rust's \<open>str\<close>, \<open>String\<close> and \<open>char\<close> that the program uses.

  A Rust string is its UTF-8 byte sequence: a \<open>string\<close> of HOL, one \<open>char\<close> per byte.  All the
  separators the program looks for are ASCII, so searching bytes is searching characters.
  White space is the Unicode property \<open>White_Space\<close> that \<open>char::is_whitespace\<close> tests, in its
  one-, two- and three-byte encodings.  Case mapping is modelled for ASCII letters, the only
  ones host names, modes and hashes of the program are written with; letters beyond ASCII are
  left as they are, which is the one place where the model narrows the library.
\<close>

section \<open>White space, trimming and splitting\<close>

text \<open>The number of bytes of the white-space character a string starts with, 0 if none.\<close>

definition ws_len :: "string \<Rightarrow> nat" where
  "ws_len s = (case s of [] \<Rightarrow> 0 | c # cs \<Rightarrow>
     (let n = (of_char c :: nat) in
      if n = 32 \<or> (9 \<le> n \<and> n \<le> 13) then 1
      else if n = 0xC2 then (case cs of
          d # _ \<Rightarrow> (if of_char d = (0x85 :: nat) \<or> of_char d = (0xA0 :: nat) then 2 else 0)
        | [] \<Rightarrow> 0)
      else if n = 0xE1 \<or> n = 0xE2 \<or> n = 0xE3 then (case cs of
          d # e # _ \<Rightarrow>
            (let a = (of_char d :: nat); b = (of_char e :: nat) in
             if (n = 0xE1 \<and> a = 0x9A \<and> b = 0x80)
              \<or> (n = 0xE2 \<and> a = 0x80 \<and> ((0x80 \<le> b \<and> b \<le> 0x8A) \<or> b = 0xA8 \<or> b = 0xA9 \<or> b = 0xAF))
              \<or> (n = 0xE2 \<and> a = 0x81 \<and> b = 0x9F)
              \<or> (n = 0xE3 \<and> a = 0x80 \<and> b = 0x80)
             then 3 else 0)
        | _ \<Rightarrow> 0)
      else 0))"

lemma ws_len_Nil [simp]: "ws_len [] = 0"
  by (simp add: ws_len_def)

lemma ws_len_le: "ws_len s \<le> length s"
  by (auto simp: ws_len_def Let_def split: list.splits)

function trim_start :: "string \<Rightarrow> string" where
  "trim_start s = (if ws_len s = 0 then s else trim_start (drop (ws_len s) s))"
  by pat_completeness auto
termination
proof (relation "measure length", goal_cases)
  case (2 s)
  then show ?case using ws_len_le [of s] by (cases s) auto
qed simp

declare trim_start.simps [simp del]

text \<open>
  \<open>trim_end\<close> drops the longest suffix that consists of white space.  A suffix that starts
  in the middle of a character starts with a continuation byte and so is never white space.
\<close>

fun trim_end :: "string \<Rightarrow> string" where
  "trim_end [] = []"
| "trim_end (c # cs) = (if trim_start (c # cs) = [] then [] else c # trim_end cs)"

definition trim :: "string \<Rightarrow> string" where
  "trim s = trim_end (trim_start s)"

text \<open>
  \<open>s.splitn(2, char::is_whitespace)\<close>: the part before the first white-space character and,
  if there is one, the part after it.
\<close>

fun splitn2_ws :: "string \<Rightarrow> string \<times> string option" where
  "splitn2_ws [] = ([], None)"
| "splitn2_ws (c # cs) =
     (if 0 < ws_len (c # cs) then ([], Some (drop (ws_len (c # cs)) (c # cs)))
      else (case splitn2_ws cs of (a, b) \<Rightarrow> (c # a, b)))"

text \<open>\<open>it.next().unwrap_or("")\<close>\<close>

definition unwrap_or_empty :: "string option \<Rightarrow> string" where
  "unwrap_or_empty o' = (case o' of None \<Rightarrow> [] | Some s \<Rightarrow> s)"

section \<open>Searching\<close>

fun strip_prefix :: "string \<Rightarrow> string \<Rightarrow> string option" where
  "strip_prefix [] s = Some s"
| "strip_prefix (p # ps) [] = None"
| "strip_prefix (p # ps) (c # cs) = (if p = c then strip_prefix ps cs else None)"

definition starts_with :: "string \<Rightarrow> string \<Rightarrow> bool" where
  "starts_with s p = (strip_prefix p s \<noteq> None)"

definition ends_with :: "string \<Rightarrow> string \<Rightarrow> bool" where
  "ends_with s p = (strip_prefix (rev p) (rev s) \<noteq> None)"

text \<open>\<open>s.contains(pat)\<close>.\<close>

fun text_contains :: "string \<Rightarrow> string \<Rightarrow> bool" where
  "text_contains [] pat \<longleftrightarrow> pat = []"
| "text_contains (c # cs) pat \<longleftrightarrow> strip_prefix pat (c # cs) \<noteq> None \<or> text_contains cs pat"

text \<open>\<open>s.find(c)\<close>, with the parts before and after the character found.\<close>

fun split_at_char :: "char \<Rightarrow> string \<Rightarrow> (string \<times> string) option" where
  "split_at_char c [] = None"
| "split_at_char c (x # xs) =
     (if x = c then Some ([], xs)
      else map_option (\<lambda>(a, b). (x # a, b)) (split_at_char c xs))"

text \<open>\<open>s.rfind(c)\<close>, with the parts before and after.\<close>

definition rsplit_at_char :: "char \<Rightarrow> string \<Rightarrow> (string \<times> string) option" where
  "rsplit_at_char c s = map_option (\<lambda>(a, b). (rev b, rev a)) (split_at_char c (rev s))"

text \<open>\<open>s.split(c).next()\<close> and \<open>s.rsplit(c).next()\<close>.\<close>

definition before_char :: "char \<Rightarrow> string \<Rightarrow> string" where
  "before_char c s = takeWhile (\<lambda>x. x \<noteq> c) s"

definition after_last_char :: "char \<Rightarrow> string \<Rightarrow> string" where
  "after_last_char c s = rev (takeWhile (\<lambda>x. x \<noteq> c) (rev s))"

text \<open>\<open>str::lines\<close>: lines end with a newline or a carriage return and a newline; a last line
without a newline is a line, an empty one is not.\<close>

definition newline :: char where "newline = CHR 0x0A"
definition tab :: char where "tab = CHR 0x09"

fun strip_cr :: "string \<Rightarrow> string" where
  "strip_cr [] = []"
| "strip_cr [c] = (if c = CHR 0x0D then [] else [c])"
| "strip_cr (c # d # cs) = c # strip_cr (d # cs)"

function lines :: "string \<Rightarrow> string list" where
  "lines s = (case split_at_char newline s of
      None \<Rightarrow> (if s = [] then [] else [s])
    | Some (l, rest) \<Rightarrow> strip_cr l # lines rest)"
  by pat_completeness auto

lemma split_at_char_Some:
  "split_at_char c s = Some (a, b) \<longleftrightarrow> s = a @ c # b \<and> c \<notin> set a"
proof (induction s arbitrary: a)
  case (Cons x xs)
  show ?case by (cases a) (auto simp: Cons.IH)
qed simp

lemma split_at_char_None: "split_at_char c s = None \<longleftrightarrow> c \<notin> set s"
  by (induction s) (auto split: if_splits)

lemma split_at_char_shorter: "split_at_char c s = Some (a, b) \<Longrightarrow> length b < length s"
  by (simp add: split_at_char_Some)

termination lines
proof (relation "measure length", goal_cases)
  case (2 s x a b)
  then show ?case using split_at_char_shorter [of newline s a b] by simp
qed simp

declare lines.simps [simp del]

text \<open>\<open>s.splitn(3, c)\<close>: at most three fields.\<close>

definition splitn3 :: "char \<Rightarrow> string \<Rightarrow> (string \<times> string \<times> string) option" where
  "splitn3 c s = (case split_at_char c s of
      None \<Rightarrow> None
    | Some (a, r) \<Rightarrow> (case split_at_char c r of None \<Rightarrow> None | Some (b, d) \<Rightarrow> Some (a, b, d)))"

section \<open>Case and numbers\<close>

definition lower_char :: "char \<Rightarrow> char" where
  "lower_char c = (let n = (of_char c :: nat) in if 65 \<le> n \<and> n \<le> 90 then char_of (n + 32) else c)"

definition to_lowercase :: "string \<Rightarrow> string" where
  "to_lowercase s = map lower_char s"

text \<open>Decimal and hexadecimal printing (\<open>{}\<close> and \<open>{:x}\<close>).\<close>

definition digit_char :: "nat \<Rightarrow> char" where
  "digit_char d = (if d < 10 then char_of (48 + d) else char_of (87 + d))"

fun show_base :: "nat \<Rightarrow> nat \<Rightarrow> string" where
  "show_base b n = (if n < b \<or> b < 2 then [digit_char n] else show_base b (n div b) @ [digit_char (n mod b)])"

declare show_base.simps [simp del]

definition show_nat :: "nat \<Rightarrow> string" where
  "show_nat n = show_base 10 n"

text \<open>\<open>char::to_digit(radix)\<close>\<close>

definition to_digit :: "nat \<Rightarrow> char \<Rightarrow> nat option" where
  "to_digit radix c = (let n = (of_char c :: nat);
      d = (if 48 \<le> n \<and> n \<le> 57 then n - 48
           else if 97 \<le> n \<and> n \<le> 122 then n - 87
           else if 65 \<le> n \<and> n \<le> 90 then n - 55 else radix)
     in if d < radix then Some d else None)"

text \<open>\<open>str::parse\<close> of an unsigned integer with the given maximum: a plus sign is accepted,
an empty string, a lone sign, a stray character and an overflow are errors.\<close>

fun parse_digits :: "nat \<Rightarrow> nat \<Rightarrow> string \<Rightarrow> nat option" where
  "parse_digits m acc [] = Some acc"
| "parse_digits m acc (c # cs) = (case to_digit 10 c of
      None \<Rightarrow> None
    | Some d \<Rightarrow> (if m < acc * 10 + d then None else parse_digits m (acc * 10 + d) cs))"

definition parse_uint :: "nat \<Rightarrow> string \<Rightarrow> nat option" where
  "parse_uint m s = (case s of
      [] \<Rightarrow> None
    | c # cs \<Rightarrow> (if c = CHR ''+'' then (if cs = [] then None else parse_digits m 0 cs)
                 else parse_digits m 0 s))"

definition parse_u16 :: "string \<Rightarrow> u16 option" where
  "parse_u16 s = map_option word_of_nat (parse_uint 65535 s)"

section \<open>UTF-8\<close>

text \<open>
  The first step of decoding a byte sequence: whether it starts with a well-formed character,
  and how many bytes the character (or the maximal ill-formed part) has.
\<close>

definition cont_byte :: "nat \<Rightarrow> bool" where
  "cont_byte n \<longleftrightarrow> 0x80 \<le> n \<and> n \<le> 0xBF"

definition utf8_next :: "nat list \<Rightarrow> bool \<times> nat" where
  "utf8_next bs = (case bs of [] \<Rightarrow> (True, 0) | a # r \<Rightarrow>
     (let b = (case r of [] \<Rightarrow> 0 | x # _ \<Rightarrow> x);
          c = (case r of _ # x # _ \<Rightarrow> x | _ \<Rightarrow> 0);
          d = (case r of _ # _ # x # _ \<Rightarrow> x | _ \<Rightarrow> 0) in
      if a < 0x80 then (True, 1)
      else if 0xC2 \<le> a \<and> a \<le> 0xDF then (if cont_byte b then (True, 2) else (False, 1))
      else if 0xE0 \<le> a \<and> a \<le> 0xEF then
        (if (a = 0xE0 \<and> 0xA0 \<le> b \<and> b \<le> 0xBF) \<or> (a = 0xED \<and> 0x80 \<le> b \<and> b \<le> 0x9F)
            \<or> (a \<noteq> 0xE0 \<and> a \<noteq> 0xED \<and> cont_byte b)
         then (if cont_byte c then (True, 3) else (False, 2)) else (False, 1))
      else if 0xF0 \<le> a \<and> a \<le> 0xF4 then
        (if (a = 0xF0 \<and> 0x90 \<le> b \<and> b \<le> 0xBF) \<or> (a = 0xF4 \<and> 0x80 \<le> b \<and> b \<le> 0x8F)
            \<or> (a \<noteq> 0xF0 \<and> a \<noteq> 0xF4 \<and> cont_byte b)
         then (if cont_byte c then (if cont_byte d then (True, 4) else (False, 3)) else (False, 2))
         else (False, 1))
      else (False, 1)))"

lemma utf8_next_pos: "s \<noteq> [] \<Longrightarrow> 0 < snd (utf8_next s)"
  by (auto simp: utf8_next_def Let_def split: list.splits)

text \<open>\<open>String::from_utf8_lossy\<close>: every ill-formed part becomes U+FFFD.\<close>

definition replacement :: string where
  "replacement = [CHR 0xEF, CHR 0xBF, CHR 0xBD]"

function utf8_lossy :: "nat list \<Rightarrow> string" where
  "utf8_lossy bs = (if bs = [] then [] else
     (case utf8_next bs of (ok, n) \<Rightarrow>
        (if ok then map char_of (take n bs) else replacement) @ utf8_lossy (drop n bs)))"
  by pat_completeness auto
termination
proof (relation "measure length", goal_cases)
  case (2 bs x n)
  then show ?case using utf8_next_pos [of bs] by (cases "utf8_next bs") auto
qed simp

function utf8_valid :: "nat list \<Rightarrow> bool" where
  "utf8_valid bs = (if bs = [] then True else
     (case utf8_next bs of (ok, n) \<Rightarrow> if ok then utf8_valid (drop n bs) else False))"
  by pat_completeness auto
termination
proof (relation "measure length", goal_cases)
  case (2 bs x n)
  then show ?case using utf8_next_pos [of bs] by (cases "utf8_next bs") auto
qed simp

declare utf8_lossy.simps [simp del] utf8_valid.simps [simp del]

definition from_utf8_lossy :: "bytes \<Rightarrow> string" where
  "from_utf8_lossy bs = utf8_lossy (map unat bs)"

definition str_valid :: "string \<Rightarrow> bool" where
  "str_valid s = utf8_valid (map of_char s)"

definition as_bytes :: "string \<Rightarrow> bytes" where
  "as_bytes s = map (\<lambda>c. word_of_nat (of_char c)) s"

section \<open>Printing and reading numbers\<close>

lemma of_char_digit_char: "d < 16 \<Longrightarrow> of_char (digit_char d) = (if d < 10 then 48 + d else 87 + d)"
  by (simp add: digit_char_def)

lemma to_digit_digit_char: "d < b \<Longrightarrow> b \<le> 16 \<Longrightarrow> to_digit b (digit_char d) = Some d"
  by (auto simp: to_digit_def of_char_digit_char Let_def)

lemma show_base_ne [simp]: "show_base b n \<noteq> []"
  by (subst show_base.simps) simp

lemma show_base_digits:
  assumes "2 \<le> b"
  shows "c \<in> set (show_base b n) \<Longrightarrow> \<exists>d < b. c = digit_char d"
  using assms
proof (induction b n rule: show_base.induct)
  case (1 b n)
  show ?case
  proof (cases "n < b")
    case True
    with 1 have "c = digit_char n" by (simp add: show_base.simps [of b n])
    with True show ?thesis by blast
  next
    case False
    with 1 have "c \<in> set (show_base b (n div b)) \<or> c = digit_char (n mod b)"
      by (auto simp: show_base.simps [of b n])
    moreover have "n mod b < b" using 1 by simp
    then have "\<exists>d < b. digit_char (n mod b) = digit_char d" by blast
    ultimately show ?thesis using 1 False by auto
  qed
qed

fun digits_val :: "nat \<Rightarrow> nat \<Rightarrow> string \<Rightarrow> nat" where
  "digits_val b acc [] = acc"
| "digits_val b acc (c # cs) = digits_val b (acc * b + (case to_digit b c of None \<Rightarrow> 0 | Some d \<Rightarrow> d)) cs"

lemma digits_val_append: "digits_val b acc (xs @ ys) = digits_val b (digits_val b acc xs) ys"
  by (induction xs arbitrary: acc) auto

lemma digits_val_show_base:
  assumes "2 \<le> b" "b \<le> 16"
  shows "digits_val b 0 (show_base b n) = n"
  using assms
proof (induction b n rule: show_base.induct)
  case (1 b n)
  then show ?case
    by (subst show_base.simps) (auto simp: digits_val_append to_digit_digit_char)
qed

lemma length_show_base: "2 \<le> b \<Longrightarrow> n < b ^ k \<Longrightarrow> 0 < k \<Longrightarrow> length (show_base b n) \<le> k"
proof (induction k arbitrary: n)
  case (Suc k)
  show ?case
  proof (cases "n < b")
    case True
    then show ?thesis by (subst show_base.simps) simp
  next
    case False
    with Suc.prems have "0 < k" by (cases k) auto
    moreover have "n div b < b ^ k"
      using Suc.prems by (simp add: less_mult_imp_div_less mult.commute)
    ultimately show ?thesis
      using False Suc by (subst show_base.simps) auto
  qed
qed simp

lemma hd_show_base:
  assumes "2 \<le> b" "b \<le> 16"
  shows "hd (show_base b n) = CHR ''0'' \<Longrightarrow> length (show_base b n) = 1"
  using assms
proof (induction b n rule: show_base.induct)
  case (1 b n)
  show ?case
  proof (cases "n < b")
    case True
    then show ?thesis by (subst show_base.simps) simp
  next
    case False
    then have eq: "show_base b n = show_base b (n div b) @ [digit_char (n mod b)]"
      using 1 by (subst show_base.simps) simp
    then have "hd (show_base b (n div b)) = CHR ''0''" using 1 by simp
    then have "length (show_base b (n div b)) = 1" using 1 False by auto
    then have lt: "n div b < b"
      using 1(3) by (subst (asm) show_base.simps) (auto split: if_splits)
    then have "digit_char (n div b) = CHR ''0''"
      using \<open>hd (show_base b (n div b)) = CHR ''0''\<close> by (subst (asm) show_base.simps) simp
    then have "of_char (digit_char (n div b)) = (48 :: nat)" by simp
    then have "n div b = 0" using lt 1(4) by (auto simp: of_char_digit_char split: if_splits)
    then show ?thesis using False 1(3) by (simp add: div_eq_0_iff)
  qed
qed

lemma digits_val_ge: "acc \<le> digits_val 10 acc s"
proof (induction s arbitrary: acc)
  case (Cons c s)
  have "acc \<le> acc * 10 + (case to_digit 10 c of None \<Rightarrow> 0 | Some d \<Rightarrow> d)" by simp
  also have "\<dots> \<le> digits_val 10 \<dots> s" by (rule Cons.IH)
  finally show ?case by simp
qed simp

lemma parse_digits_eq:
  assumes "\<forall>c \<in> set s. to_digit 10 c \<noteq> None" and "digits_val 10 acc s \<le> m"
  shows "parse_digits m acc s = Some (digits_val 10 acc s)"
  using assms
proof (induction s arbitrary: acc)
  case (Cons c s)
  then obtain d where d: "to_digit 10 c = Some d" by auto
  have "acc * 10 + d \<le> digits_val 10 (acc * 10 + d) s" by (rule digits_val_ge)
  with Cons d show ?case by auto
qed simp

lemma show_nat_digit: "c \<in> set (show_nat n) \<Longrightarrow> to_digit 10 c \<noteq> None"
  unfolding show_nat_def by (drule show_base_digits [rotated]) (auto simp: to_digit_digit_char)

lemma parse_uint_show_nat [str_simps]: "n \<le> m \<Longrightarrow> parse_uint m (show_nat n) = Some n"
proof -
  assume n: "n \<le> m"
  have "parse_digits m 0 (show_nat n) = Some n"
    using n show_nat_digit [of _ n]
    by (subst parse_digits_eq) (auto simp: show_nat_def digits_val_show_base)
  moreover have "CHR ''+'' \<notin> set (show_nat n)"
    using show_nat_digit [of "CHR ''+''" n] by (auto simp: to_digit_def)
  moreover have "show_nat n \<noteq> []" by (simp add: show_nat_def)
  ultimately show ?thesis
    by (cases "show_nat n") (auto simp: parse_uint_def)
qed

lemma parse_u16_show_nat [str_simps]: "parse_u16 (show_nat (unat (p :: u16))) = Some p"
proof -
  have "unat p \<le> 65535" using unat_lt_65536 [of p] by linarith
  then show ?thesis by (simp add: parse_u16_def parse_uint_show_nat)
qed

section \<open>Trimming and splitting on plain text\<close>

text \<open>A plain character is printable ASCII without white space.\<close>

definition plain_char :: "char \<Rightarrow> bool" where
  "plain_char c \<longleftrightarrow> 33 \<le> (of_char c :: nat) \<and> (of_char c :: nat) \<le> 126"

definition plain :: "string \<Rightarrow> bool" where
  "plain s \<longleftrightarrow> (\<forall>c \<in> set s. plain_char c)"

definition ws_char :: "char \<Rightarrow> bool" where
  "ws_char c \<longleftrightarrow> (of_char c :: nat) = 32 \<or> (9 \<le> (of_char c :: nat) \<and> (of_char c :: nat) \<le> 13)"

lemma plain_simps [simp]: "plain []" "plain (c # s) \<longleftrightarrow> plain_char c \<and> plain s"
  "plain (s @ t) \<longleftrightarrow> plain s \<and> plain t"
  by (auto simp: plain_def)

lemma plain_not_ws: "plain_char c \<Longrightarrow> \<not> ws_char c"
  by (auto simp: plain_char_def ws_char_def)

lemma ws_char_simps [str_simps]: "ws_char (CHR '' '')" "ws_char tab" "ws_char newline"
  by (simp_all add: ws_char_def tab_def newline_def)

lemma ws_len_plain [str_simps]: "plain_char c \<Longrightarrow> ws_len (c # cs) = 0"
  by (auto simp: ws_len_def plain_char_def Let_def)

lemma ws_len_ws [str_simps]: "ws_char c \<Longrightarrow> ws_len (c # cs) = 1"
  by (auto simp: ws_len_def ws_char_def Let_def)

lemma trim_start_plain [str_simps]: "plain_char c \<Longrightarrow> trim_start (c # cs) = c # cs"
  by (subst trim_start.simps) (simp add: ws_len_plain)

lemma trim_start_ws [str_simps]: "ws_char c \<Longrightarrow> trim_start (c # cs) = trim_start cs"
  by (subst trim_start.simps) (simp add: ws_len_ws)

lemma trim_start_Nil [simp]: "trim_start [] = []"
  by (subst trim_start.simps) simp

lemma ws_len_snoc: "ws_char w \<Longrightarrow> s \<noteq> [] \<Longrightarrow> ws_len (s @ [w]) = ws_len s"
  by (auto simp: ws_len_def ws_char_def Let_def split: list.splits)

lemma trim_start_snoc:
  "ws_char w \<Longrightarrow> trim_start (s @ [w]) = (if trim_start s = [] then [] else trim_start s @ [w])"
proof (induction s rule: trim_start.induct)
  case (1 s)
  show ?case
  proof (cases "s = [] \<or> ws_len s = 0")
    case True
    then show ?thesis
      using 1(2) by (auto simp: ws_len_ws trim_start.simps [of s] trim_start.simps [of "s @ [w]"]
          trim_start.simps [of "[w]"] ws_len_snoc)
  next
    case False
    then have "drop (ws_len s) (s @ [w]) = drop (ws_len s) s @ [w]"
      using ws_len_le [of s] by simp
    with False 1 show ?thesis
      by (simp add: trim_start.simps [of s] trim_start.simps [of "s @ [w]"] ws_len_snoc)
  qed
qed

lemma trim_end_snoc: "ws_char w \<Longrightarrow> trim_end (s @ [w]) = trim_end s"
proof (induction s)
  case Nil
  then show ?case by (simp add: trim_start_ws)
next
  case (Cons c s)
  then show ?case using trim_start_snoc [of w "c # s"] by auto
qed

lemma trim_snoc [str_simps]: "ws_char w \<Longrightarrow> trim (s @ [w]) = trim s"
  by (simp add: trim_def trim_start_snoc trim_end_snoc)

lemma trim_Cons_ws [str_simps]: "ws_char w \<Longrightarrow> trim (w # s) = trim s"
  by (simp add: trim_def trim_start_ws)

lemma trim_end_plain: "plain s \<Longrightarrow> trim_end (s @ t) = s @ trim_end t"
  by (induction s) (auto simp: trim_start_plain)

lemma trim_plain [str_simps]: "plain s \<Longrightarrow> trim s = s"
  using trim_end_plain [of s "[]"] by (cases s) (auto simp: trim_def trim_start_plain)

text \<open>Text whose ends are not white space, such as a path.\<close>

definition trimmed :: "string \<Rightarrow> bool" where
  "trimmed s \<longleftrightarrow> s \<noteq> [] \<and> trim_start s = s \<and> trim_end s = s"

lemma trimmed_plain: "plain s \<Longrightarrow> s \<noteq> [] \<Longrightarrow> trimmed s"
  using trim_end_plain [of s "[]"] by (cases s) (auto simp: trimmed_def trim_start_plain)

lemma trimmed_trim [simp]: "trimmed s \<Longrightarrow> trim s = s"
  by (simp add: trimmed_def trim_def)

lemma trim_end_ws_trimmed: "ws_char w \<Longrightarrow> trimmed e \<Longrightarrow> trim_end (w # e) = w # e"
  by (simp add: trimmed_def trim_start_ws)

lemma trimmed_fields:
  assumes "plain a" "a \<noteq> []" "ws_char w" "trimmed e"
  shows "trimmed (a @ w # e)"
  using assms trim_end_ws_trimmed [OF assms(3,4)] trim_end_plain [OF assms(1), of "w # e"]
  by (cases a) (auto simp: trimmed_def trim_start_plain)

lemma splitn2_ws_plain [str_simps]:
  "plain a \<Longrightarrow> ws_char w \<Longrightarrow> splitn2_ws (a @ w # r) = (a, Some r)"
  by (induction a) (auto simp: ws_len_plain ws_len_ws)

lemma splitn2_ws_none [str_simps]: "plain a \<Longrightarrow> splitn2_ws a = (a, None)"
  by (induction a) (auto simp: ws_len_plain)

text \<open>White space in front of anything is white space: \<open>trim\<close> is idempotent.\<close>

lemma ws_len_append:
  assumes "0 < ws_len a"
  shows "ws_len (a @ b) = ws_len a"
proof -
  obtain c cs where a: "a = c # cs" using assms by (cases a) auto
  show ?thesis
  proof (cases cs)
    case Nil
    then show ?thesis using assms a by (auto simp: ws_len_def Let_def split: if_splits)
  next
    case (Cons d ds)
    show ?thesis
    proof (cases ds)
      case Nil
      then show ?thesis using assms a Cons by (auto simp: ws_len_def Let_def split: if_splits)
    next
      fix e es assume "ds = e # es"
      then show ?thesis using a Cons by (simp only: ws_len_def append_Cons list.case)
    qed
  qed
qed

lemma trim_start_append: "trim_start a = [] \<Longrightarrow> trim_start (a @ b) = trim_start b"
proof (induction a rule: trim_start.induct)
  case (1 s)
  show ?case
  proof (cases "ws_len s = 0")
    case True
    then show ?thesis using 1(2) by (subst (asm) trim_start.simps) simp
  next
    case False
    then have "trim_start (drop (ws_len s) s) = []" using 1(2) by (subst (asm) trim_start.simps) simp
    then show ?thesis
      using 1(1) [OF False] False ws_len_append [of s b] ws_len_le [of s]
      by (subst trim_start.simps) simp
  qed
qed

lemma trim_end_prefix: "\<exists>b. s = trim_end s @ b \<and> trim_start b = []"
proof (induction s)
  case (Cons c cs)
  then show ?case by (cases "trim_start (c # cs) = []") auto
qed simp

lemma trim_end_idem: "trim_end (trim_end s) = trim_end s"
proof (induction s)
  case (Cons c cs)
  obtain b where b: "cs = trim_end cs @ b" "trim_start b = []" using trim_end_prefix [of cs] by blast
  show ?case
  proof (cases "trim_start (c # cs) = []")
    case False
    have "trim_start (c # trim_end cs) \<noteq> []"
    proof
      assume "trim_start (c # trim_end cs) = []"
      from trim_start_append [OF this, of b] show False using False b by simp
    qed
    then show ?thesis using False Cons.IH by simp
  qed simp
qed simp

lemma ws_len_trim_start: "ws_len (trim_start s) = 0"
proof (induction s rule: trim_start.induct)
  case (1 s)
  then show ?case by (subst trim_start.simps) simp
qed

lemma trimmed_trimI: "trim s \<noteq> [] \<Longrightarrow> trimmed (trim s)"
proof -
  assume ne: "trim s \<noteq> []"
  obtain b where "trim_start s = trim s @ b" using trim_end_prefix [of "trim_start s"] by (auto simp: trim_def)
  then have "ws_len (trim s) = 0"
    using ws_len_append [of "trim s" b] ws_len_trim_start [of s] by (cases "ws_len (trim s)") auto
  then have "trim_start (trim s) = trim s" by (subst trim_start.simps) simp
  then show ?thesis using ne by (simp add: trimmed_def) (simp add: trim_def trim_end_idem)
qed

section \<open>Lines\<close>

definition unlines :: "string list \<Rightarrow> string" where
  "unlines ls = concat (map (\<lambda>l. l @ [newline]) ls)"

lemma unlines_simps [simp]: "unlines [] = []" "unlines (l # ls) = l @ newline # unlines ls"
  "unlines (ls @ ms) = unlines ls @ unlines ms"
  by (simp_all add: unlines_def)

text \<open>A text of complete lines: empty, or ending with a newline.\<close>

definition ends_nl :: "string \<Rightarrow> bool" where
  "ends_nl t \<longleftrightarrow> t = [] \<or> last t = newline"

lemma lines_Nil [simp]: "lines [] = []"
  by (subst lines.simps) simp

lemma lines_line: "newline \<notin> set l \<Longrightarrow> lines (l @ newline # r) = strip_cr l # lines r"
  using split_at_char_Some [of newline "l @ newline # r" l r]
  by (subst lines.simps) simp

lemma ends_nl_unlines: "ends_nl (unlines ls)"
  by (induction ls rule: rev_induct) (auto simp: ends_nl_def)

lemma ends_nl_split:
  assumes "ends_nl t" "split_at_char newline t = Some (a, b)"
  shows "ends_nl b"
  using assms by (auto simp: ends_nl_def split_at_char_Some split: if_splits)

lemma ends_nl_no_newline: "ends_nl t \<Longrightarrow> newline \<notin> set t \<Longrightarrow> t = []"
  by (metis ends_nl_def last_in_set)

lemma lines_append: "ends_nl t \<Longrightarrow> lines (t @ u) = lines t @ lines u"
proof (induction t rule: lines.induct)
  case (1 t)
  show ?case
  proof (cases "split_at_char newline t")
    case None
    then have "newline \<notin> set t" by (simp add: split_at_char_None)
    then have "t = []" using 1(2) by (simp add: ends_nl_no_newline)
    then show ?thesis by simp
  next
    case (Some ab)
    then obtain a b where ab: "split_at_char newline t = Some (a, b)" by (cases ab) auto
    then have t: "t = a @ newline # b" "newline \<notin> set a" by (auto simp: split_at_char_Some)
    have "lines (b @ u) = lines b @ lines u"
      using 1(1) [OF ab] ends_nl_split [OF 1(2) ab] by simp
    then show ?thesis using t by (simp add: lines_line)
  qed
qed

lemma strip_cr_id: "CHR 0x0D \<notin> set l \<Longrightarrow> strip_cr l = l"
  by (induction l rule: strip_cr.induct) auto

lemma strip_cr_set: "set (strip_cr l) \<subseteq> set l"
  by (induction l rule: strip_cr.induct) auto

lemma lines_snoc:
  assumes "ends_nl t" "newline \<notin> set l" "CHR 0x0D \<notin> set l"
  shows "lines (t @ l @ [newline]) = lines t @ [l]"
  using assms lines_line [of l "[]"] by (simp add: lines_append strip_cr_id)

definition line_ok :: "string \<Rightarrow> bool" where
  "line_ok l \<longleftrightarrow> newline \<notin> set l \<and> CHR 0x0D \<notin> set l"

lemma lines_unlines: "\<forall>l \<in> set ls. line_ok l \<Longrightarrow> lines (unlines ls) = ls"
  by (induction ls) (auto simp: lines_line strip_cr_id line_ok_def)

lemma lines_ok: "CHR 0x0D \<notin> set t \<Longrightarrow> l \<in> set (lines t) \<Longrightarrow> line_ok l"
proof (induction t rule: lines.induct)
  case (1 t)
  show ?case
  proof (cases "split_at_char newline t")
    case None
    then have "lines t = (if t = [] then [] else [t])" by (simp add: lines.simps [of t])
    then show ?thesis
      using 1(2,3) None by (auto simp: line_ok_def split_at_char_None split: if_splits)
  next
    case (Some ab)
    then obtain a b where ab: "split_at_char newline t = Some (a, b)" by (cases ab) auto
    then have t: "t = a @ newline # b" "newline \<notin> set a" by (auto simp: split_at_char_Some)
    then have "l = strip_cr a \<or> l \<in> set (lines b)" using 1(3) by (simp add: lines_line)
    then show ?thesis
      using t 1(1) [OF ab _ _] 1(2) strip_cr_id [of a] by (auto simp: line_ok_def)
  qed
qed

lemma unlines_lines: "ends_nl t \<Longrightarrow> CHR 0x0D \<notin> set t \<Longrightarrow> unlines (lines t) = t"
proof (induction t rule: lines.induct)
  case (1 t)
  show ?case
  proof (cases "split_at_char newline t")
    case None
    then have "newline \<notin> set t" by (simp add: split_at_char_None)
    then have "t = []" using 1(2) by (simp add: ends_nl_no_newline)
    then show ?thesis by simp
  next
    case (Some ab)
    then obtain a b where ab: "split_at_char newline t = Some (a, b)" by (cases ab) auto
    then have t: "t = a @ newline # b" "newline \<notin> set a" by (auto simp: split_at_char_Some)
    have "unlines (lines b) = b"
      using 1(1) [OF ab] ends_nl_split [OF 1(2) ab] 1(3) t by simp
    then show ?thesis using t 1(3) by (simp add: lines_line strip_cr_id)
  qed
qed

section \<open>Case mapping and searching\<close>

lemma lower_char_idem [simp]: "lower_char (lower_char c) = lower_char c"
  by (auto simp: lower_char_def Let_def)

lemma to_lowercase_idem [simp]: "to_lowercase (to_lowercase s) = to_lowercase s"
  by (simp add: to_lowercase_def)

lemma to_lowercase_Nil_iff [simp]: "to_lowercase s = [] \<longleftrightarrow> s = []"
  by (simp add: to_lowercase_def)

lemma of_char_lower: "of_char (lower_char c) =
    (let n = (of_char c :: nat) in if 65 \<le> n \<and> n \<le> 90 then n + 32 else n)"
  by (simp add: lower_char_def Let_def)

lemma plain_lower: "plain s \<Longrightarrow> plain (to_lowercase s)"
  by (auto simp: plain_def to_lowercase_def plain_char_def of_char_lower Let_def)

lemma lower_char_eq_iff:
  "(of_char c :: nat) < 65 \<or> (90 < (of_char c :: nat) \<and> (of_char c :: nat) < 97) \<Longrightarrow>
     lower_char x = c \<longleftrightarrow> x = c"
proof
  assume c: "(of_char c :: nat) < 65 \<or> (90 < (of_char c :: nat) \<and> (of_char c :: nat) < 97)"
  { assume "lower_char x = c"
    then have "of_char (lower_char x) = (of_char c :: nat)" by simp
    then have "of_char x = (of_char c :: nat)"
      using c by (auto simp: of_char_lower Let_def split: if_splits)
    then show "x = c" by simp }
  { assume "x = c"
    then show "lower_char x = c" using c by (auto simp: lower_char_def Let_def) }
qed

lemma in_to_lowercase_iff:
  assumes "(of_char c :: nat) < 65 \<or> (90 < (of_char c :: nat) \<and> (of_char c :: nat) < 97)"
  shows "c \<in> set (to_lowercase s) \<longleftrightarrow> c \<in> set s"
  unfolding to_lowercase_def set_map image_iff using lower_char_eq_iff [OF assms] by metis

lemma in_to_lowercase [simp]:
  "CHR '':'' \<in> set (to_lowercase s) \<longleftrightarrow> CHR '':'' \<in> set s"
  "CHR ''['' \<in> set (to_lowercase s) \<longleftrightarrow> CHR ''['' \<in> set s"
  "CHR '']'' \<in> set (to_lowercase s) \<longleftrightarrow> CHR '']'' \<in> set s"
  "CHR ''#'' \<in> set (to_lowercase s) \<longleftrightarrow> CHR ''#'' \<in> set s"
  by (simp_all add: in_to_lowercase_iff)

lemma strip_prefix_append [simp]: "strip_prefix p (p @ s) = Some s"
  by (induction p) auto

lemma strip_prefix_Some: "strip_prefix p s = Some r \<longleftrightarrow> s = p @ r"
  by (induction p s rule: strip_prefix.induct) auto

lemma starts_with_iff: "starts_with s p \<longleftrightarrow> (\<exists>r. s = p @ r)"
  by (auto simp: starts_with_def strip_prefix_Some)

lemma ends_with_iff: "ends_with s p \<longleftrightarrow> suffix p s"
proof -
  have "(\<exists>r. rev s = rev p @ r) \<longleftrightarrow> (\<exists>r. s = r @ p)"
    by (metis rev_append rev_rev_ident)
  then show ?thesis by (simp add: ends_with_def strip_prefix_Some suffix_def)
qed

lemma rsplit_at_char_Some:
  "rsplit_at_char c s = Some (a, b) \<longleftrightarrow> s = a @ c # b \<and> c \<notin> set b"
proof -
  have "rev s = rev b @ c # rev a \<longleftrightarrow> s = a @ c # b"
    by (metis append.assoc append_Cons append_Nil rev.simps(2) rev_append rev_rev_ident)
  then show ?thesis
    by (force simp: rsplit_at_char_def split_at_char_Some)
qed

lemma rsplit_at_char_None: "rsplit_at_char c s = None \<longleftrightarrow> c \<notin> set s"
  by (simp add: rsplit_at_char_def split_at_char_None)

lemma before_char_append: "c \<notin> set a \<Longrightarrow> before_char c (a @ c # b) = a"
  by (induction a) (auto simp: before_char_def)

lemma before_char_id: "c \<notin> set a \<Longrightarrow> before_char c a = a"
  unfolding before_char_def by (induction a) auto

section \<open>UTF-8 and lines\<close>

text \<open>An ASCII byte is a character of its own, so UTF-8 text can be cut there.\<close>

lemma utf8_next_cut:
  assumes "bs \<noteq> []" "n < 0x80"
  shows "utf8_next (bs @ n # r) = utf8_next bs"
proof -
  have nc: "\<not> cont_byte n" "\<not> cont_byte 0" "\<not> 0xA0 \<le> n" "\<not> 0x90 \<le> n" "\<not> 0x80 \<le> n"
    using assms(2) by (simp_all add: cont_byte_def)
  obtain a bs' where a: "bs = a # bs'" using assms(1) by (cases bs) auto
  show ?thesis
  proof (cases bs')
    case Nil
    then show ?thesis using a nc by (simp add: utf8_next_def Let_def)
  next
    fix b bs'' assume b: "bs' = b # bs''"
    show ?thesis
    proof (cases bs'')
      case Nil
      then show ?thesis using a b nc by (simp add: utf8_next_def Let_def)
    next
      fix c bs3 assume "bs'' = c # bs3"
      then show ?thesis using a b nc by (cases bs3) (simp_all add: utf8_next_def Let_def)
    qed
  qed
qed

lemma utf8_next_le: "snd (utf8_next bs) \<le> length bs"
proof -
  have z: "\<not> cont_byte 0" by (simp add: cont_byte_def)
  show ?thesis
    by (auto simp: utf8_next_def Let_def z split: list.split)
qed

lemma utf8_valid_cut: "n < 0x80 \<Longrightarrow> utf8_valid (bs @ n # r) \<longleftrightarrow> utf8_valid bs \<and> utf8_valid r"
proof (induction bs rule: utf8_valid.induct)
  case (1 bs)
  show ?case
  proof (cases "bs = []")
    case True
    then show ?thesis using 1(2) by (subst utf8_valid.simps) (simp add: utf8_next_def utf8_valid.simps [of "[]"])
  next
    case False
    obtain ok k where u: "utf8_next bs = (ok, k)" by fastforce
    have "k \<le> length bs" using utf8_next_le [of bs] u by simp
    then show ?thesis
      using 1(1) [OF False u [symmetric] _ 1(2)] utf8_next_cut [OF False 1(2), of r] False u
      by (subst utf8_valid.simps, subst (2) utf8_valid.simps) simp
  qed
qed

lemma utf8_lossy_valid: "utf8_valid bs \<Longrightarrow> utf8_lossy bs = map char_of bs"
proof (induction bs rule: utf8_valid.induct)
  case (1 bs)
  show ?case
  proof (cases "bs = []")
    case True
    then show ?thesis by (simp add: utf8_lossy.simps [of "[]"])
  next
    case False
    obtain ok k where u: "utf8_next bs = (ok, k)" by fastforce
    have ok: "ok" "utf8_valid (drop k bs)"
      using 1(2) False u by (subst (asm) utf8_valid.simps, simp split: if_splits)+
    then have "utf8_lossy bs = map char_of (take k bs) @ map char_of (drop k bs)"
      using 1(1) [OF False u [symmetric] _] False u by (subst utf8_lossy.simps) simp
    then show ?thesis by (simp flip: map_append)
  qed
qed

lemma unat_as_bytes: "map unat (as_bytes s) = map of_char s"
proof -
  have "unat (word_of_nat (of_char c) :: u8) = of_char c" for c :: char
    by (rule unat_of_nat_u8) simp
  then show ?thesis by (simp add: as_bytes_def)
qed

lemma from_utf8_lossy_as_bytes: "str_valid s \<Longrightarrow> from_utf8_lossy (as_bytes s) = s"
  by (simp add: from_utf8_lossy_def unat_as_bytes str_valid_def utf8_lossy_valid)

lemma str_valid_Nil [simp]: "str_valid []"
  by (simp add: str_valid_def utf8_valid.simps)

lemma str_valid_newline: "str_valid (a @ newline # b) \<longleftrightarrow> str_valid a \<and> str_valid b"
  by (simp add: str_valid_def utf8_valid_cut newline_def)

lemma strip_cr_cases: "strip_cr l = l \<or> l = strip_cr l @ [CHR 0x0D]"
  by (induction l rule: strip_cr.induct) auto

lemma str_valid_strip_cr: "str_valid l \<Longrightarrow> str_valid (strip_cr l)"
proof -
  assume v: "str_valid l"
  have "str_valid (s @ [CHR 0x0D]) \<Longrightarrow> str_valid s" for s by (simp add: str_valid_def utf8_valid_cut)
  then show ?thesis using strip_cr_cases [of l] v by metis
qed

lemma str_valid_lines: "str_valid t \<Longrightarrow> l \<in> set (lines t) \<Longrightarrow> str_valid l"
proof (induction t rule: lines.induct)
  case (1 s)
  show ?case
  proof (cases "split_at_char newline s")
    case None
    then show ?thesis using 1(2,3) by (subst (asm) lines.simps) (auto split: if_splits)
  next
    case (Some x)
    obtain a b where x: "x = (a, b)" by fastforce
    have s: "s = a @ newline # b" using Some x split_at_char_Some by blast
    have v: "str_valid a" "str_valid b" using 1(2) unfolding s str_valid_newline by auto
    show ?thesis
      using 1(1) [OF Some x [symmetric] v(2)] 1(3) str_valid_strip_cr [OF v(1)] Some x
      by (subst (asm) (2) lines.simps) auto
  qed
qed

lemma str_valid_unlines: "\<forall>l \<in> set ls. str_valid l \<Longrightarrow> str_valid (unlines ls)"
  by (induction ls) (auto simp: str_valid_newline)

end
