(* ===== verification/Ip_Addr.thy ===== *)
theory Ip_Addr
  imports Rust_Str
begin

text \<open>
  \<open>std::net::IpAddr\<close> as the program uses it: the addresses, their octets, the textual form
  that \<open>Display\<close> prints, and the parsers behind \<open>parse::<IpAddr>()\<close> and
  \<open>parse::<Ipv6Addr>()\<close>.  The policy file stores addresses as text, so what the program
  relies on is that printing and parsing are inverse (\<open>parse_ip_show_ip\<close>) and that the
  printed form has none of the characters the file format gives a meaning to.
\<close>

section \<open>Addresses\<close>

datatype ip_addr =
    V4 u8 u8 u8 u8
  | V6 u16 u16 u16 u16 u16 u16 u16 u16

fun octets :: "ip_addr \<Rightarrow> bytes" where
  "octets (V4 a b c d) = [a, b, c, d]"
| "octets (V6 a b c d e f g h) =
     to_be16 a @ to_be16 b @ to_be16 c @ to_be16 d @ to_be16 e @ to_be16 f @ to_be16 g @ to_be16 h"

text \<open>\<open>Ipv6Addr::from([u8; 16])\<close>\<close>

definition v6_of_octets :: "bytes \<Rightarrow> ip_addr" where
  "v6_of_octets o' =
     V6 (from_be16 (o' ! 0) (o' ! 1)) (from_be16 (o' ! 2) (o' ! 3))
        (from_be16 (o' ! 4) (o' ! 5)) (from_be16 (o' ! 6) (o' ! 7))
        (from_be16 (o' ! 8) (o' ! 9)) (from_be16 (o' ! 10) (o' ! 11))
        (from_be16 (o' ! 12) (o' ! 13)) (from_be16 (o' ! 14) (o' ! 15))"

fun is_v4 :: "ip_addr \<Rightarrow> bool" where
  "is_v4 (V4 _ _ _ _) = True"
| "is_v4 (V6 _ _ _ _ _ _ _ _) = False"

fun is_unspecified :: "ip_addr \<Rightarrow> bool" where
  "is_unspecified (V4 a b c d) = (a = 0 \<and> b = 0 \<and> c = 0 \<and> d = 0)"
| "is_unspecified (V6 a b c d e f g h) =
     (a = 0 \<and> b = 0 \<and> c = 0 \<and> d = 0 \<and> e = 0 \<and> f = 0 \<and> g = 0 \<and> h = 0)"

lemma length_octets: "length (octets a) = (if is_v4 a then 4 else 16)"
  by (cases a) simp_all

lemma v6_of_octets_octets [byte_simps]: "\<not> is_v4 a \<Longrightarrow> v6_of_octets (octets a) = a"
  by (cases a) (simp_all add: v6_of_octets_def to_be16_def from_be16_to_be16)

section \<open>Printing\<close>

definition show_u8 :: "u8 \<Rightarrow> string" where
  "show_u8 w = show_base 10 (unat w)"

definition show_hex16 :: "u16 \<Rightarrow> string" where
  "show_hex16 w = show_base 16 (unat w)"

definition show_v4 :: "u8 \<Rightarrow> u8 \<Rightarrow> u8 \<Rightarrow> u8 \<Rightarrow> string" where
  "show_v4 a b c d = show_u8 a @ ''.'' @ show_u8 b @ ''.'' @ show_u8 c @ ''.'' @ show_u8 d"

fun fmt_subslice :: "u16 list \<Rightarrow> string" where
  "fmt_subslice [] = []"
| "fmt_subslice [g] = show_hex16 g"
| "fmt_subslice (g # h # gs) = show_hex16 g @ CHR '':'' # fmt_subslice (h # gs)"

text \<open>The loop that finds the longest run of zero segments: index, the current run and the
longest run so far, each as (start, length).\<close>

fun zero_run :: "nat \<Rightarrow> nat \<times> nat \<Rightarrow> nat \<times> nat \<Rightarrow> u16 list \<Rightarrow> nat \<times> nat" where
  "zero_run i cur best [] = best"
| "zero_run i (cs, cl) (bs, bl) (g # gs) =
     (if g = 0 then
        (let cs' = (if cl = 0 then i else cs); cl' = cl + 1 in
         zero_run (i + 1) (cs', cl') (if bl < cl' then (cs', cl') else (bs, bl)) gs)
      else zero_run (i + 1) (0, 0) (bs, bl) gs)"

definition show_segments :: "u16 list \<Rightarrow> string" where
  "show_segments gs = (case zero_run 0 (0, 0) (0, 0) gs of (start, len) \<Rightarrow>
     if 1 < len then fmt_subslice (take start gs) @ ''::'' @ fmt_subslice (drop (start + len) gs)
     else fmt_subslice gs)"

fun show_ip :: "ip_addr \<Rightarrow> string" where
  "show_ip (V4 a b c d) = show_v4 a b c d"
| "show_ip (V6 a b c d e f g h) =
     (if a = 0 \<and> b = 0 \<and> c = 0 \<and> d = 0 \<and> e = 0 \<and> f = 0xFFFF
      then ''::ffff:'' @ show_v4 (to_be16 g ! 0) (to_be16 g ! 1) (to_be16 h ! 0) (to_be16 h ! 1)
      else show_segments [a, b, c, d, e, f, g, h])"

section \<open>Parsing\<close>

text \<open>A parser consumes a prefix of its input, or fails and consumes nothing.\<close>

type_synonym 'a parser = "string \<Rightarrow> ('a \<times> string) option"

definition read_number :: "nat \<Rightarrow> nat \<Rightarrow> bool \<Rightarrow> nat \<Rightarrow> nat parser" where
  "read_number radix max_digits allow_zero_prefix bound s =
     (let ds = takeWhile (\<lambda>c. to_digit radix c \<noteq> None) s in
      if ds = [] \<or> max_digits < length ds then None
      else if \<not> allow_zero_prefix \<and> hd ds = CHR ''0'' \<and> 1 < length ds then None
      else if bound < digits_val radix 0 ds then None
      else Some (digits_val radix 0 ds, drop (length ds) s))"

definition read_given_char :: "char \<Rightarrow> unit parser" where
  "read_given_char c s = (case s of x # xs \<Rightarrow> (if x = c then Some ((), xs) else None) | [] \<Rightarrow> None)"

definition read_separator :: "char \<Rightarrow> nat \<Rightarrow> 'a parser \<Rightarrow> 'a parser" where
  "read_separator c i inner s =
     (if i = 0 then inner s else Option.bind (read_given_char c s) (\<lambda>(_, r). inner r))"

definition read_octet :: "nat \<Rightarrow> nat parser" where
  "read_octet i = read_separator (CHR ''.'') i (read_number 10 3 False 255)"

definition read_ipv4_addr :: "(u8 \<times> u8 \<times> u8 \<times> u8) parser" where
  "read_ipv4_addr s =
     Option.bind (read_octet 0 s) (\<lambda>(a, s1).
     Option.bind (read_octet 1 s1) (\<lambda>(b, s2).
     Option.bind (read_octet 2 s2) (\<lambda>(c, s3).
     Option.bind (read_octet 3 s3) (\<lambda>(d, s4).
       Some ((word_of_nat a, word_of_nat b, word_of_nat c, word_of_nat d), s4)))))"

text \<open>\<open>read_groups i n\<close>: the loop at index \<open>i\<close> with \<open>n\<close> slots left.  An embedded IPv4 address
needs two slots.  The result says whether one was read.\<close>

fun read_groups :: "nat \<Rightarrow> nat \<Rightarrow> string \<Rightarrow> u16 list \<times> bool \<times> string" where
  "read_groups i 0 s = ([], False, s)"
| "read_groups i (Suc n) s =
     (case (if 1 \<le> n then read_separator (CHR '':'') i read_ipv4_addr s else None) of
        Some ((a, b, c, d), r) \<Rightarrow> ([from_be16 a b, from_be16 c d], True, r)
      | None \<Rightarrow>
          (case read_separator (CHR '':'') i (read_number 16 4 True 65535) s of
             None \<Rightarrow> ([], False, s)
           | Some (g, r) \<Rightarrow>
               (case read_groups (Suc i) n r of (gs, v4, r') \<Rightarrow> (word_of_nat g # gs, v4, r'))))"

definition v6_of_segments :: "u16 list \<Rightarrow> ip_addr" where
  "v6_of_segments gs = V6 (gs ! 0) (gs ! 1) (gs ! 2) (gs ! 3) (gs ! 4) (gs ! 5) (gs ! 6) (gs ! 7)"

definition read_ipv6_addr :: "ip_addr parser" where
  "read_ipv6_addr s = (case read_groups 0 8 s of (hd', hd_v4, s1) \<Rightarrow>
     if length hd' = 8 then Some (v6_of_segments hd', s1)
     else if hd_v4 then None
     else Option.bind (read_given_char (CHR '':'') s1) (\<lambda>(_, s2).
          Option.bind (read_given_char (CHR '':'') s2) (\<lambda>(_, s3).
            (case read_groups 0 (8 - (length hd' + 1)) s3 of (tl', _, s4) \<Rightarrow>
               Some (v6_of_segments
                 (hd' @ replicate (8 - length hd' - length tl') 0 @ tl'), s4)))))"

definition read_ip_addr :: "ip_addr parser" where
  "read_ip_addr s = (case read_ipv4_addr s of
      Some ((a, b, c, d), r) \<Rightarrow> Some (V4 a b c d, r)
    | None \<Rightarrow> read_ipv6_addr s)"

definition parse_with :: "'a parser \<Rightarrow> string \<Rightarrow> 'a option" where
  "parse_with p s = (case p s of Some (a, []) \<Rightarrow> Some a | _ \<Rightarrow> None)"

definition parse_ip :: "string \<Rightarrow> ip_addr option" where
  "parse_ip = parse_with read_ip_addr"

definition parse_ipv6 :: "string \<Rightarrow> ip_addr option" where
  "parse_ipv6 = parse_with read_ipv6_addr"

section \<open>Printing and parsing are inverse\<close>

definition stops :: "nat \<Rightarrow> string \<Rightarrow> bool" where
  "stops b rest \<longleftrightarrow> (case rest of [] \<Rightarrow> True | c # _ \<Rightarrow> to_digit b c = None)"

lemma to_digit_none [str_simps]:
  "to_digit 10 (CHR ''.'') = None" "to_digit 10 (CHR '':'') = None"
  "to_digit 16 (CHR ''.'') = None" "to_digit 16 (CHR '':'') = None"
  "to_digit 10 (CHR ''f'') = None"
  by (simp_all add: to_digit_def)

lemma stops_simps [str_simps]: "stops b []" "stops b (c # cs) \<longleftrightarrow> to_digit b c = None"
  by (simp_all add: stops_def)

lemma read_number_show:
  assumes "2 \<le> b" "b \<le> 16" "n < b ^ k" "0 < k" "n \<le> bound" "stops b rest"
  shows "read_number b k z bound (show_base b n @ rest) = Some (n, rest)"
proof -
  have dig: "\<forall>c \<in> set (show_base b n). to_digit b c \<noteq> None"
    using show_base_digits [OF assms(1)] assms(2) by (fastforce simp: to_digit_digit_char)
  have "takeWhile (\<lambda>c. to_digit b c \<noteq> None) rest = []"
    using assms(6) by (cases rest) (auto simp: stops_def)
  then have tw: "takeWhile (\<lambda>c. to_digit b c \<noteq> None) (show_base b n @ rest) = show_base b n"
    using dig by (simp add: takeWhile_append2)
  have "hd (show_base b n) = CHR ''0'' \<Longrightarrow> \<not> 1 < length (show_base b n)"
    using hd_show_base [OF assms(1,2)] by simp
  then show ?thesis
    using length_show_base [OF assms(1,3,4)] assms
    unfolding read_number_def tw Let_def by (auto simp: digits_val_show_base)
qed

lemma read_separator_0 [simp]: "read_separator c 0 p s = p s"
  by (simp add: read_separator_def)

lemma read_number_stops: "stops b s \<Longrightarrow> read_number b k z bound s = None"
  by (cases s) (auto simp: read_number_def stops_def)

lemma read_number_suffix: "read_number b k z bound s = Some (n, r) \<Longrightarrow> set r \<subseteq> set s"
  by (auto simp: read_number_def Let_def split: if_splits dest: in_set_dropD)

lemma read_octet_show:
  assumes "stops 10 rest"
  shows "read_octet 0 (show_u8 a @ rest) = Some (unat a, rest)"
    and "0 < i \<Longrightarrow> read_octet i (CHR ''.'' # show_u8 a @ rest) = Some (unat a, rest)"
proof -
  have "unat a \<le> 255" using unat_lt_256 [of a] by linarith
  then have "read_number 10 3 False 255 (show_u8 a @ rest) = Some (unat a, rest)"
    unfolding show_u8_def using assms by (intro read_number_show) auto
  then show "read_octet 0 (show_u8 a @ rest) = Some (unat a, rest)"
    and "0 < i \<Longrightarrow> read_octet i (CHR ''.'' # show_u8 a @ rest) = Some (unat a, rest)"
    by (simp_all add: read_octet_def read_separator_def read_given_char_def)
qed

lemma read_ipv4_show_v4:
  assumes "stops 10 rest"
  shows "read_ipv4_addr (show_v4 a b c d @ rest) = Some ((a, b, c, d), rest)"
  using assms by (simp add: read_ipv4_addr_def show_v4_def read_octet_show str_simps)

lemma read_ipv4_no_dot: "CHR ''.'' \<notin> set s \<Longrightarrow> read_ipv4_addr s = None"
proof (cases "read_octet 0 s")
  case (Some p)
  assume dot: "CHR ''.'' \<notin> set s"
  obtain a r where p: "p = (a, r)" by force
  with Some dot have "CHR ''.'' \<notin> set r"
    by (auto simp: read_octet_def read_separator_def dest!: read_number_suffix)
  then have "read_octet 1 r = None"
    by (cases r) (auto simp: read_octet_def read_separator_def read_given_char_def)
  with Some p show ?thesis by (simp add: read_ipv4_addr_def)
qed (simp add: read_ipv4_addr_def)

lemma read_ipv4_stops: "stops 10 s \<Longrightarrow> read_ipv4_addr s = None"
  by (simp add: read_ipv4_addr_def read_octet_def read_separator_def read_number_stops)

lemma read_hex_show:
  "stops 16 rest \<Longrightarrow> read_number 16 4 True 65535 (show_hex16 g @ rest) = Some (unat g, rest)"
proof -
  assume "stops 16 rest"
  moreover have "unat g \<le> 65535" "unat g < 16 ^ 4"
    using unat_lt_65536 [of g] by (linarith, simp)
  ultimately show ?thesis unfolding show_hex16_def by (intro read_number_show) auto
qed

lemma hex_no_dot_colon: "CHR ''.'' \<notin> set (show_hex16 g)" "CHR '':'' \<notin> set (show_hex16 g)"
proof -
  have "c \<in> set (show_hex16 g) \<Longrightarrow> to_digit 16 c \<noteq> None" for c
    unfolding show_hex16_def
    by (drule show_base_digits [rotated]) (auto simp: to_digit_digit_char)
  then show "CHR ''.'' \<notin> set (show_hex16 g)" "CHR '':'' \<notin> set (show_hex16 g)"
    by (force simp: str_simps)+
qed

text \<open>The text of the groups after the first, and what may follow a run of groups.\<close>

definition tail_text :: "u16 list \<Rightarrow> string" where
  "tail_text gs = concat (map (\<lambda>g. CHR '':'' # show_hex16 g) gs)"

definition group_end :: "string \<Rightarrow> bool" where
  "group_end rest \<longleftrightarrow> CHR ''.'' \<notin> set rest \<and> (rest = [] \<or> (\<exists>r. rest = CHR '':'' # CHR '':'' # r))"

lemma fmt_subslice_Cons: "fmt_subslice (g # gs) = show_hex16 g @ tail_text gs"
  by (induction gs arbitrary: g) (auto simp: tail_text_def)

lemma tail_text_no_dot: "CHR ''.'' \<notin> set (tail_text gs)"
  by (auto simp: tail_text_def hex_no_dot_colon)

lemma fmt_subslice_no_dot: "CHR ''.'' \<notin> set (fmt_subslice gs)"
  by (cases gs) (auto simp: fmt_subslice_Cons hex_no_dot_colon tail_text_no_dot)

lemma stops_tail: "group_end rest \<Longrightarrow> stops 16 (tail_text gs @ rest)"
  by (cases gs) (auto simp: group_end_def tail_text_def str_simps)

lemma read_groups_end: "group_end rest \<Longrightarrow> read_groups i n rest = ([], False, rest)"
proof (cases n)
  case (Suc m)
  assume e: "group_end rest"
  then have "read_separator (CHR '':'') i read_ipv4_addr rest = None"
    by (auto simp: group_end_def read_separator_def read_given_char_def read_ipv4_no_dot)
  moreover have "read_separator (CHR '':'') i (read_number 16 4 True 65535) rest = None"
    using e by (auto simp: group_end_def read_separator_def read_given_char_def read_number_stops
        str_simps)
  ultimately show ?thesis using Suc by simp
qed simp

lemma read_groups_tail:
  assumes "group_end rest"
  shows "0 < i \<Longrightarrow> length gs \<le> n \<Longrightarrow> read_groups i n (tail_text gs @ rest) = (gs, False, rest)"
proof (induction gs arbitrary: i n)
  case Nil
  then show ?case using read_groups_end [OF assms] by (simp add: tail_text_def)
next
  case (Cons g gs)
  then obtain m where n: "n = Suc m" by (cases n) auto
  let ?s = "tail_text (g # gs) @ rest"
  have s: "?s = CHR '':'' # show_hex16 g @ tail_text gs @ rest" by (simp add: tail_text_def)
  have "CHR ''.'' \<notin> set (show_hex16 g @ tail_text gs @ rest)"
    using assms by (simp add: hex_no_dot_colon tail_text_no_dot group_end_def)
  then have "read_separator (CHR '':'') i read_ipv4_addr ?s = None"
    using Cons.prems by (simp add: s read_separator_def read_given_char_def read_ipv4_no_dot)
  moreover have "read_separator (CHR '':'') i (read_number 16 4 True 65535) ?s
      = Some (unat g, tail_text gs @ rest)"
    using Cons.prems read_hex_show [OF stops_tail [OF assms]]
    by (simp add: s read_separator_def read_given_char_def)
  ultimately show ?case using Cons n by simp
qed

lemma read_groups_fmt:
  assumes "group_end rest" "length gs \<le> n"
  shows "read_groups 0 n (fmt_subslice gs @ rest) = (gs, False, rest)"
proof (cases gs)
  case Nil
  then show ?thesis using read_groups_end [OF assms(1)] by simp
next
  case (Cons g hs)
  then obtain m where n: "n = Suc m" using assms by (cases n) auto
  have s: "fmt_subslice gs @ rest = show_hex16 g @ tail_text hs @ rest"
    by (simp add: Cons fmt_subslice_Cons)
  have "CHR ''.'' \<notin> set (show_hex16 g @ tail_text hs @ rest)"
    using assms by (simp add: hex_no_dot_colon tail_text_no_dot group_end_def)
  then have "read_groups 0 (Suc m) (show_hex16 g @ tail_text hs @ rest) = (g # hs, False, rest)"
    using assms n Cons read_groups_tail [OF assms(1), of 1 hs m]
    by (simp add: read_ipv4_no_dot read_hex_show stops_tail)
  then show ?thesis using s n Cons by simp
qed

text \<open>The run found is a run of zeros inside the address.\<close>

definition zeros_at :: "u16 list \<Rightarrow> nat \<times> nat \<Rightarrow> bool" where
  "zeros_at gs sl \<longleftrightarrow> fst sl + snd sl \<le> length gs \<and> take (snd sl) (drop (fst sl) gs) = replicate (snd sl) 0"

lemma zeros_at_append: "zeros_at gs sl \<Longrightarrow> zeros_at (gs @ hs) sl"
  by (auto simp: zeros_at_def)

lemma zero_run_zeros:
  assumes "zeros_at gs0 cur" "snd cur = 0 \<or> fst cur + snd cur = length gs0" "zeros_at gs0 best"
  shows "zeros_at (gs0 @ gs) (zero_run (length gs0) cur best gs)"
  using assms
proof (induction gs arbitrary: gs0 cur best)
  case Nil
  then show ?case by simp
next
  case (Cons g gs)
  obtain cs cl bs bl where cb: "cur = (cs, cl)" "best = (bs, bl)" by force
  have len: "Suc (length gs0) = length (gs0 @ [g])" by simp
  have best: "zeros_at (gs0 @ [g]) best" using Cons.prems by (simp add: zeros_at_append)
  show ?case
  proof (cases "g = 0")
    case True
    define cur' where "cur' = (if cl = 0 then length gs0 else cs, cl + 1)"
    have cur': "zeros_at (gs0 @ [g]) cur'" "fst cur' + snd cur' = length (gs0 @ [g])"
      using Cons.prems True
      by (auto simp: cb cur'_def zeros_at_def replicate_append_same)
    then have "zeros_at ((gs0 @ [g]) @ gs)
        (zero_run (length (gs0 @ [g])) cur' (if bl < snd cur' then cur' else best) gs)"
      using best by (intro Cons.IH) auto
    then show ?thesis using True by (auto simp: cb cur'_def Let_def split: if_splits)
  next
    case False
    have "zeros_at ((gs0 @ [g]) @ gs) (zero_run (length (gs0 @ [g])) (0, 0) best gs)"
      using best by (intro Cons.IH) (auto simp: zeros_at_def)
    then show ?thesis using False by (simp add: cb)
  qed
qed

lemma zero_run_split:
  assumes "zero_run 0 (0, 0) (0, 0) gs = (s, l)"
  shows "s + l \<le> length gs" "gs = take s gs @ replicate l 0 @ drop (s + l) gs"
proof -
  have z: "zeros_at gs (s, l)"
    using zero_run_zeros [of "[]" "(0, 0)" "(0, 0)" gs] assms by (simp add: zeros_at_def)
  then show "s + l \<le> length gs" by (simp add: zeros_at_def)
  from z have "take l (drop s gs) = replicate l 0" by (simp add: zeros_at_def)
  then show "gs = take s gs @ replicate l 0 @ drop (s + l) gs"
    by (metis add.commute append_take_drop_id drop_drop)
qed

lemma show_segments_no_dot: "CHR ''.'' \<notin> set (show_segments gs)"
  using fmt_subslice_no_dot by (simp add: show_segments_def split: prod.splits)

lemma read_ipv6_show_segments:
  assumes "length gs = 8"
  shows "read_ipv6_addr (show_segments gs) = Some (v6_of_segments gs, [])"
proof -
  obtain s l where z: "zero_run 0 (0, 0) (0, 0) gs = (s, l)" by force
  note sp = zero_run_split [OF z]
  show ?thesis
  proof (cases "1 < l")
    case False
    have "read_groups 0 8 (fmt_subslice gs) = (gs, False, [])"
      using read_groups_fmt [of "[]" gs 8] assms by (simp add: group_end_def)
    with False z assms show ?thesis by (simp add: show_segments_def read_ipv6_addr_def)
  next
    case True
    let ?h = "take s gs" and ?t = "drop (s + l) gs"
    have len: "length ?h = s" "length ?t = 8 - (s + l)" "s \<le> 6" using sp assms True by auto
    have "group_end (''::'' @ fmt_subslice ?t)"
      using fmt_subslice_no_dot by (simp add: group_end_def)
    then have 1: "read_groups 0 8 (fmt_subslice ?h @ ''::'' @ fmt_subslice ?t)
        = (?h, False, ''::'' @ fmt_subslice ?t)"
      using len by (intro read_groups_fmt) auto
    have 2: "read_groups 0 (8 - (length ?h + 1)) (fmt_subslice ?t) = (?t, False, [])"
      using read_groups_fmt [of "[]" ?t "8 - (length ?h + 1)"] len True by (simp add: group_end_def)
    have "?h @ replicate (8 - length ?h - length ?t) 0 @ ?t = gs"
      using sp len assms by simp
    with 1 2 z True len show ?thesis
      by (simp add: show_segments_def read_ipv6_addr_def read_given_char_def)
  qed
qed

lemma read_ipv6_mapped:
  "read_ipv6_addr (''::ffff:'' @ show_v4 a b c d)
     = Some (V6 0 0 0 0 0 0xFFFF (from_be16 a b) (from_be16 c d), [])"
proof -
  let ?v = "show_v4 a b c d"
  have v: "read_ipv4_addr ?v = Some ((a, b, c, d), [])"
    using read_ipv4_show_v4 [of "[]"] by (simp add: str_simps)
  have h: "read_groups 0 8 (CHR '':'' # r) = ([], False, CHR '':'' # r)" for r
    using read_groups.simps(2) [of 0 7 "CHR '':'' # r"]
    by (simp add: read_ipv4_stops read_number_stops str_simps)
  have "show_hex16 0xFFFF = ''ffff''" by code_simp
  then have "read_number 16 4 True 65535 (''ffff'' @ CHR '':'' # ?v) = Some (65535, CHR '':'' # ?v)"
    using read_hex_show [of "CHR '':'' # ?v" "0xFFFF"] by (simp add: str_simps)
  moreover have "read_groups 1 6 (CHR '':'' # ?v) = ([from_be16 a b, from_be16 c d], True, [])"
    using v read_groups.simps(2) [of 1 5 "CHR '':'' # ?v"]
    by (simp add: read_separator_def read_given_char_def)
  ultimately have "read_groups 0 7 (''ffff'' @ CHR '':'' # ?v)
      = ([0xFFFF, from_be16 a b, from_be16 c d], True, [])"
    using read_groups.simps(2) [of 0 6 "''ffff'' @ CHR '':'' # ?v"]
    by (simp add: read_ipv4_stops str_simps)
  then show ?thesis
    using h [of "CHR '':'' # ''ffff:'' @ ?v"]
    by (simp add: read_ipv6_addr_def read_given_char_def v6_of_segments_def nth_append
        nth_Cons')
qed

theorem parse_ip_show_ip: "parse_ip (show_ip a) = Some a"
proof (cases a)
  case (V4 a b c d)
  then show ?thesis
    using read_ipv4_show_v4 [of "[]"]
    by (simp add: parse_ip_def parse_with_def read_ip_addr_def str_simps)
next
  case (V6 a' b c d e f g h)
  let ?gs = "[a', b, c, d, e, f, g, h]"
  show ?thesis
  proof (cases "a' = 0 \<and> b = 0 \<and> c = 0 \<and> d = 0 \<and> e = 0 \<and> f = 0xFFFF")
    case True
    have "read_ipv4_addr (CHR '':'' # r) = None" for r by (simp add: read_ipv4_stops str_simps)
    with True V6 show ?thesis
      using read_ipv6_mapped [of "to_be16 g ! 0" "to_be16 g ! 1" "to_be16 h ! 0" "to_be16 h ! 1"]
      by (simp add: parse_ip_def parse_with_def read_ip_addr_def from_be16_nth_to_be16)
  next
    case False
    have "CHR ''.'' \<notin> set (show_segments ?gs)" by (rule show_segments_no_dot)
    then have "read_ip_addr (show_segments ?gs) = Some (v6_of_segments ?gs, [])"
      using read_ipv6_show_segments [of ?gs] by (simp add: read_ip_addr_def read_ipv4_no_dot)
    moreover have "show_ip a = show_segments ?gs" using False V6 by auto
    ultimately show ?thesis
      using V6 by (simp add: parse_ip_def parse_with_def v6_of_segments_def)
  qed
qed

section \<open>The characters of an address\<close>

definition addr_char :: "char \<Rightarrow> bool" where
  "addr_char c \<longleftrightarrow> (\<exists>d < 16. c = digit_char d) \<or> c = CHR '':'' \<or> c = CHR ''.''"

lemma addr_char_digit: "d < 16 \<Longrightarrow> addr_char (digit_char d)"
  by (auto simp: addr_char_def)

lemma show_u8_chars: "\<forall>c \<in> set (show_u8 a). addr_char c"
proof
  fix c assume "c \<in> set (show_u8 a)"
  then obtain d where "d < 10" "c = digit_char d"
    unfolding show_u8_def using show_base_digits [of 10] by auto
  then show "addr_char c" by (simp add: addr_char_digit)
qed

lemma show_hex16_chars: "\<forall>c \<in> set (show_hex16 a). addr_char c"
proof
  fix c assume "c \<in> set (show_hex16 a)"
  then obtain d where "d < 16" "c = digit_char d"
    unfolding show_hex16_def using show_base_digits [of 16] by auto
  then show "addr_char c" by (simp add: addr_char_digit)
qed

lemma show_v4_chars: "\<forall>c \<in> set (show_v4 a b c d). addr_char c"
  using show_u8_chars by (auto simp: show_v4_def addr_char_def [of "CHR ''.''"])

lemma fmt_subslice_chars: "\<forall>c \<in> set (fmt_subslice gs). addr_char c"
  using show_hex16_chars
  by (induction gs rule: fmt_subslice.induct) (auto simp: addr_char_def [of "CHR '':''"])

lemma show_segments_chars: "\<forall>c \<in> set (show_segments gs). addr_char c"
  using fmt_subslice_chars
  by (auto simp: show_segments_def addr_char_def [of "CHR '':''"] split: prod.splits if_splits)

lemma addr_char_f: "addr_char (CHR ''f'')"
proof -
  have "CHR ''f'' = digit_char 15" by code_simp
  then show ?thesis by (simp add: addr_char_digit)
qed

lemma show_ip_chars: "\<forall>c \<in> set (show_ip a). addr_char c"
proof (cases a)
  case (V4 a b c d)
  then show ?thesis using show_v4_chars by simp
next
  case (V6 a' b c d e f g h)
  show ?thesis
  proof (cases "a' = 0 \<and> b = 0 \<and> c = 0 \<and> d = 0 \<and> e = 0 \<and> f = 0xFFFF")
    case True
    then have "show_ip a = ''::ffff:'' @ show_v4 (to_be16 g ! 0) (to_be16 g ! 1) (to_be16 h ! 0) (to_be16 h ! 1)"
      using V6 by auto
    then show ?thesis
      using show_v4_chars addr_char_f by (auto simp: addr_char_def [of "CHR '':''"])
  next
    case False
    then have "show_ip a = show_segments [a', b, c, d, e, f, g, h]" using V6 by auto
    then show ?thesis using show_segments_chars by simp
  qed
qed

lemma addr_char_range:
  "addr_char c \<Longrightarrow> (of_char c :: nat) \<in> {46} \<union> {48..58} \<union> {97..102}"
  by (auto simp: addr_char_def of_char_digit_char split: if_splits)

lemma plain_show_ip [simp]: "plain (show_ip a)"
  using show_ip_chars addr_char_range by (fastforce simp: plain_def plain_char_def)

lemma show_ip_no_special [simp]:
  "CHR ''#'' \<notin> set (show_ip a)" "CHR ''['' \<notin> set (show_ip a)" "CHR '']'' \<notin> set (show_ip a)"
  using show_ip_chars addr_char_range by fastforce+

lemma lower_show_ip [simp]: "to_lowercase (show_ip a) = show_ip a"
proof -
  have "lower_char c = c" if "c \<in> set (show_ip a)" for c
  proof -
    have "(of_char c :: nat) \<in> {46} \<union> {48..58} \<union> {97..102}"
      using that show_ip_chars addr_char_range by blast
    then show ?thesis by (auto simp: lower_char_def Let_def)
  qed
  then show ?thesis by (simp add: to_lowercase_def map_idI)
qed

lemma show_ip_ne [simp]: "show_ip a \<noteq> []"
proof
  assume "show_ip a = []"
  moreover have "parse_ip [] = None" by code_simp
  ultimately show False using parse_ip_show_ip [of a] by simp
qed

text \<open>Only an IPv6 address reads as one, and its text has a colon.\<close>

lemma read_separator_no_colon:
  "0 < i \<Longrightarrow> CHR '':'' \<notin> set r \<Longrightarrow> read_separator (CHR '':'') i p r = None"
  by (cases r) (auto simp: read_separator_def read_given_char_def)

lemma read_groups_no_colon:
  assumes "CHR '':'' \<notin> set s" "read_groups 0 8 s = (gs, v4, r)"
  shows "length gs \<noteq> 8" "v4 \<or> CHR '':'' \<notin> set r"
proof -
  have rest: "read_groups (Suc 0) 7 r' = ([], False, r')" if "CHR '':'' \<notin> set r'" for r'
    using read_groups.simps(2) [of "Suc 0" 6 r'] that by (simp add: read_separator_no_colon)
  have eq: "(gs, v4, r) = (case read_ipv4_addr s of
      Some ((a, b, c, d), r) \<Rightarrow> ([from_be16 a b, from_be16 c d], True, r)
    | None \<Rightarrow> (case read_number 16 4 True 65535 s of None \<Rightarrow> ([], False, s)
        | Some (g, r) \<Rightarrow> (case read_groups (Suc 0) 7 r of (gs, v4, r') \<Rightarrow> (word_of_nat g # gs, v4, r'))))"
    using read_groups.simps(2) [of 0 7 s, unfolded read_separator_0] assms(2) by simp
  have "length gs \<noteq> 8 \<and> (v4 \<or> CHR '':'' \<notin> set r)"
  proof (cases "read_ipv4_addr s")
    case (Some p)
    then show ?thesis using eq by (cases p) auto
  next
    case v4: None
    show ?thesis
    proof (cases "read_number 16 4 True 65535 s")
      case None
      then show ?thesis using eq v4 assms(1) by simp
    next
      case (Some p)
      then obtain n r' where p: "read_number 16 4 True 65535 s = Some (n, r')" by (cases p) auto
      then have "CHR '':'' \<notin> set r'" using assms(1) read_number_suffix [OF p] by auto
      then show ?thesis using eq v4 p rest [of r'] by simp
    qed
  qed
  then show "length gs \<noteq> 8" "v4 \<or> CHR '':'' \<notin> set r" by auto
qed

lemma parse_ipv6_no_colon: "CHR '':'' \<notin> set s \<Longrightarrow> parse_ipv6 s = None"
proof -
  assume nc: "CHR '':'' \<notin> set s"
  obtain gs v4 r where g: "read_groups 0 8 s = (gs, v4, r)" by (metis prod_cases3)
  from read_groups_no_colon [OF nc g] have "read_ipv6_addr s = None"
    by (cases r) (auto simp: read_ipv6_addr_def g read_given_char_def)
  then show ?thesis by (simp add: parse_ipv6_def parse_with_def)
qed

lemma show_v4_no_colon: "CHR '':'' \<notin> set (show_v4 a b c d)"
proof -
  have "CHR '':'' \<notin> set (show_u8 x)" for x
  proof -
    have "c \<in> set (show_u8 x) \<Longrightarrow> to_digit 10 c \<noteq> None" for c
      unfolding show_u8_def
      by (drule show_base_digits [rotated]) (auto simp: to_digit_digit_char)
    then show ?thesis by (force simp: str_simps)
  qed
  then show ?thesis by (simp add: show_v4_def)
qed

lemma parse_ipv6_show_ip: "parse_ipv6 (show_ip a) = (if is_v4 a then None else Some a)"
proof (cases a)
  case (V4 a b c d)
  then show ?thesis using show_v4_no_colon by (simp add: parse_ipv6_no_colon)
next
  case (V6 a' b c d e f g h)
  have "read_ipv4_addr (show_ip a) = None"
  proof (cases "a' = 0 \<and> b = 0 \<and> c = 0 \<and> d = 0 \<and> e = 0 \<and> f = 0xFFFF")
    case True
    then show ?thesis using V6 by (auto simp: read_ipv4_stops str_simps)
  next
    case False
    then have "show_ip a = show_segments [a', b, c, d, e, f, g, h]" using V6 by auto
    then show ?thesis using show_segments_no_dot by (simp add: read_ipv4_no_dot)
  qed
  then show ?thesis
    using parse_ip_show_ip [of a] V6
    by (simp add: parse_ip_def parse_ipv6_def parse_with_def read_ip_addr_def)
qed

lemma show_ip_colon: "CHR '':'' \<in> set (show_ip a) \<longleftrightarrow> \<not> is_v4 a"
proof (cases "is_v4 a")
  case True
  then show ?thesis using show_v4_no_colon by (cases a) auto
next
  case False
  then show ?thesis using parse_ipv6_show_ip [of a] parse_ipv6_no_colon [of "show_ip a"] by auto
qed

lemma show_ip_inj: "show_ip a = show_ip b \<longleftrightarrow> a = b"
  by (metis parse_ip_show_ip option.inject)

end
