(* ===== verification/Policy.thy ===== *)
theory Policy
  imports Ip_Addr
begin

text \<open>
  The policy (\<open>src/policy.rs\<close>): the rules in memory, loading them from the text of the policy
  file, the decision for a connection, and recording an answer.

  \<open>policy\<close> is the struct \<open>Policy\<close>.  \<open>load\<close> is the loop of \<open>Policy::load\<close> over the lines of the
  file, with the diagnostics it prints as values; its argument is the result of
  \<open>read_to_string\<close>, \<open>None\<close> for an error.  \<open>decide\<close> is \<open>Policy::decide\<close>, branch by branch.
  \<open>record_answer\<close> is \<open>Policy::record\<close>: the new policy and the line it appends to the file.

  The abstract specification is a set of rules, each permitting or forbidding a destination
  to a scope; a connection is forbidden if any forbidding rule covers it, else permitted if
  any permitting rule does, else it gets the default.  \<open>decide\<close> refines it, and \<open>record_answer\<close>
  refines the insertion of one rule.
\<close>

section \<open>Data\<close>

datatype verdict = Allow | Deny | Ask

datatype answer = AllowConn | AllowApp | Block | BlockApp | Timeout

definition parse_answer :: "string \<Rightarrow> answer option" where
  "parse_answer s = (let t = trim s in
     if t = ''allow-conn'' then Some AllowConn
     else if t = ''allow-app'' then Some AllowApp
     else if t = ''block-conn'' \<or> t = ''block'' then Some Block
     else if t = ''block-app'' then Some BlockApp
     else if t = ''timeout'' then Some Timeout
     else None)"

datatype mode = Visibility | Enforcement

definition parse_mode :: "string \<Rightarrow> mode option" where
  "parse_mode s = (let t = to_lowercase (trim s) in
     if t = ''visibility'' \<or> t = ''listen'' \<or> t = ''observe'' then Some Visibility
     else if t = ''enforcement'' \<or> t = ''enforce'' then Some Enforcement
     else None)"

fun mode_str :: "mode \<Rightarrow> string" where
  "mode_str Visibility = ''visibility''"
| "mode_str Enforcement = ''enforcement''"

fun enforcing :: "mode \<Rightarrow> bool" where
  "enforcing Enforcement = True"
| "enforcing Visibility = False"

datatype attribution_mode = Procstat | KernelModule

definition parse_attribution :: "string \<Rightarrow> attribution_mode option" where
  "parse_attribution s = (let t = to_lowercase (trim s) in
     if t = ''procstat'' \<or> t = ''userspace'' then Some Procstat
     else if t = ''kernel'' then Some KernelModule
     else None)"

fun attribution_str :: "attribution_mode \<Rightarrow> string" where
  "attribution_str Procstat = ''procstat''"
| "attribution_str KernelModule = ''kernel''"

datatype origin = Approved | Learned

fun adjective :: "origin \<Rightarrow> string" where
  "adjective Approved = ''approved''"
| "adjective Learned = ''learned''"

fun origin_verb :: "origin \<Rightarrow> string" where
  "origin_verb Approved = ''approved for''"
| "origin_verb Learned = ''learned from''"

type_synonym port = "u16 option"
type_synonym target = "string \<times> port"

record policy =
  default_verdict :: "verdict option"
  allow_app :: "string set"
  deny_app :: "string set"
  allow_host :: "target set"
  deny_host :: "target set"
  allow_dest :: "(ip_addr \<times> port) set"
  deny_dest :: "(ip_addr \<times> port) set"
  allow_host_from :: "(string \<times> string \<times> port) set"
  allow_dest_from :: "(string \<times> ip_addr \<times> port) set"
  deny_host_from :: "(string \<times> string \<times> port) set"
  deny_dest_from :: "(string \<times> ip_addr \<times> port) set"
  prompt :: "string option"
  app_id :: "(string, string) hashmap"
  pmode :: "mode option"
  attribution :: "attribution_mode option"

definition default_policy :: policy where
  "default_policy = \<lparr>default_verdict = Some Ask, allow_app = {}, deny_app = {}, allow_host = {},
     deny_host = {}, allow_dest = {}, deny_dest = {}, allow_host_from = {}, allow_dest_from = {},
     deny_host_from = {}, deny_dest_from = {}, prompt = None, app_id = [], pmode = None,
     attribution = None\<rparr>"

section \<open>Targets\<close>

definition split_target :: "string \<Rightarrow> target" where
  "split_target s0 = (let s = trim s0 in
     case Option.bind (strip_prefix ''['' s) (split_at_char (CHR '']'')) of
       Some (host, after) \<Rightarrow> (host, Option.bind (strip_prefix '':'' after) parse_u16)
     | None \<Rightarrow>
        if parse_ipv6 s \<noteq> None then (s, None)
        else (case rsplit_at_char (CHR '':'') s of
            Some (host, after) \<Rightarrow>
              (case parse_u16 after of
                 Some p \<Rightarrow> if CHR '':'' \<notin> set host then (host, Some p) else (s, None)
               | None \<Rightarrow> (s, None))
          | None \<Rightarrow> (s, None)))"

definition join_target :: "string \<Rightarrow> port \<Rightarrow> string" where
  "join_target host p = (case p of
      None \<Rightarrow> host
    | Some n \<Rightarrow> if parse_ipv6 host \<noteq> None then ''['' @ host @ '']:'' @ show_nat (unat n)
                else host @ '':'' @ show_nat (unat n))"

definition split_scoped :: "string \<Rightarrow> (string \<times> string) option" where
  "split_scoped v = (case splitn2_ws v of
      (d, None) \<Rightarrow> None
    | (d, Some e) \<Rightarrow> (let dest = trim d; exe = trim e in
        if dest = [] \<or> exe = [] then None else Some (dest, exe)))"

section \<open>Loading\<close>

text \<open>The diagnostics that loading prints, with the line number.\<close>

datatype diag =
    BadValue nat string string
  | WantScoped nat string
  | BadAddress nat string
  | UnknownDirective nat string

definition load_host_from ::
  "nat \<Rightarrow> string \<Rightarrow> string \<Rightarrow> (string \<times> string \<times> port \<Rightarrow> policy \<Rightarrow> policy) \<Rightarrow> policy \<Rightarrow> policy \<times> diag list" where
  "load_host_from n k v ins p = (case split_scoped v of
      Some (h, e) \<Rightarrow> (case split_target h of (hh, pt) \<Rightarrow> (ins (e, to_lowercase hh, pt) p, []))
    | None \<Rightarrow> (p, [WantScoped n k]))"

definition load_dest_from ::
  "nat \<Rightarrow> string \<Rightarrow> string \<Rightarrow> (string \<times> ip_addr \<times> port \<Rightarrow> policy \<Rightarrow> policy) \<Rightarrow> policy \<Rightarrow> policy \<times> diag list" where
  "load_dest_from n k v ins p = (case split_scoped v of
      Some (a, e) \<Rightarrow> (case split_target a of (aa, pt) \<Rightarrow>
        (case parse_ip aa of
           Some addr \<Rightarrow> (ins (e, addr, pt) p, [])
         | None \<Rightarrow> (p, [BadAddress n a])))
    | None \<Rightarrow> (p, [WantScoped n k]))"

definition load_dest ::
  "nat \<Rightarrow> string \<Rightarrow> (ip_addr \<times> port \<Rightarrow> policy \<Rightarrow> policy) \<Rightarrow> policy \<Rightarrow> policy \<times> diag list" where
  "load_dest n v ins p = (case split_target v of (a, pt) \<Rightarrow>
     (case parse_ip a of
        Some addr \<Rightarrow> (ins (addr, pt) p, [])
      | None \<Rightarrow> (p, [BadAddress n a])))"

definition load_directive :: "nat \<Rightarrow> string \<Rightarrow> string \<Rightarrow> policy \<Rightarrow> policy \<times> diag list" where
  "load_directive n k v p =
     (if k = ''default'' then
        (if v = ''allow'' then (p\<lparr>default_verdict := Some Allow\<rparr>, [])
         else if v = ''deny'' then (p\<lparr>default_verdict := Some Deny\<rparr>, [])
         else if v = ''ask'' then (p\<lparr>default_verdict := Some Ask\<rparr>, [])
         else (p, [BadValue n k v]))
      else if k = ''allow-app'' then (p\<lparr>allow_app := insert v (allow_app p)\<rparr>, [])
      else if k = ''deny-app'' then (p\<lparr>deny_app := insert v (deny_app p)\<rparr>, [])
      else if k = ''allow-host'' then
        (case split_target v of (h, pt) \<Rightarrow>
           (p\<lparr>allow_host := insert (to_lowercase h, pt) (allow_host p)\<rparr>, []))
      else if k = ''deny-host'' then
        (case split_target v of (h, pt) \<Rightarrow>
           (p\<lparr>deny_host := insert (to_lowercase h, pt) (deny_host p)\<rparr>, []))
      else if k = ''prompt'' then (p\<lparr>prompt := Some v\<rparr>, [])
      else if k = ''app-id'' then
        (case split_scoped v of
           Some (sha, exe) \<Rightarrow> (p\<lparr>app_id := hm_insert exe (to_lowercase sha) (app_id p)\<rparr>, [])
         | None \<Rightarrow> (p, [WantScoped n k]))
      else if k = ''mode'' then
        (case parse_mode v of
           Some m \<Rightarrow> (p\<lparr>pmode := Some m\<rparr>, [])
         | None \<Rightarrow> (p, [BadValue n k v]))
      else if k = ''attribution'' then
        (case parse_attribution v of
           Some a \<Rightarrow> (p\<lparr>attribution := Some a\<rparr>, [])
         | None \<Rightarrow> (p, [BadValue n k v]))
      else if k = ''allow-host-from'' then
        load_host_from n k v (\<lambda>r p. p\<lparr>allow_host_from := insert r (allow_host_from p)\<rparr>) p
      else if k = ''allow-dest-from'' then
        load_dest_from n k v (\<lambda>r p. p\<lparr>allow_dest_from := insert r (allow_dest_from p)\<rparr>) p
      else if k = ''deny-host-from'' then
        load_host_from n k v (\<lambda>r p. p\<lparr>deny_host_from := insert r (deny_host_from p)\<rparr>) p
      else if k = ''deny-dest-from'' then
        load_dest_from n k v (\<lambda>r p. p\<lparr>deny_dest_from := insert r (deny_dest_from p)\<rparr>) p
      else if k = ''allow-dest'' then
        load_dest n v (\<lambda>r p. p\<lparr>allow_dest := insert r (allow_dest p)\<rparr>) p
      else if k = ''deny-dest'' then
        load_dest n v (\<lambda>r p. p\<lparr>deny_dest := insert r (deny_dest p)\<rparr>) p
      else (p, [UnknownDirective n k]))"

definition load_line :: "nat \<Rightarrow> string \<Rightarrow> policy \<Rightarrow> policy \<times> diag list" where
  "load_line n raw p = (let line = trim (before_char (CHR ''#'') raw) in
     if line = [] then (p, [])
     else (case splitn2_ws line of (k, rest) \<Rightarrow>
       load_directive n k (trim (unwrap_or_empty rest)) p))"

fun load_lines :: "nat \<Rightarrow> string list \<Rightarrow> policy \<Rightarrow> policy \<times> diag list" where
  "load_lines n [] p = (p, [])"
| "load_lines n (raw # rest) p =
     (case load_line n raw p of (p', ds) \<Rightarrow>
      case load_lines (Suc n) rest p' of (p'', es) \<Rightarrow> (p'', ds @ es))"

definition load :: "string option \<Rightarrow> policy \<times> diag list" where
  "load text = (case text of
      None \<Rightarrow> (default_policy, [])
    | Some t \<Rightarrow> load_lines 1 (lines t) default_policy)"

section \<open>Deciding\<close>

definition pattern_matches :: "string \<Rightarrow> string \<Rightarrow> bool" where
  "pattern_matches rule host_lower =
     (if rule = host_lower then True
      else (case strip_prefix ''*.'' rule of
          Some suf \<Rightarrow> host_lower = suf \<or> ends_with host_lower (''.'' @ suf)
        | None \<Rightarrow> False))"

definition port_ok :: "port \<Rightarrow> u16 \<Rightarrow> bool" where
  "port_ok rule dport = (case rule of None \<Rightarrow> True | Some p \<Rightarrow> p = dport)"

definition scoped_host_hit :: "(string \<times> string \<times> port) set \<Rightarrow> string \<Rightarrow> string \<Rightarrow> u16 \<Rightarrow> bool" where
  "scoped_host_hit S exe host_lower dport =
     (\<exists>(e, pat, p) \<in> S. e = exe \<and> port_ok p dport \<and> pattern_matches pat host_lower)"

definition scoped_dest_hit :: "(string \<times> ip_addr \<times> port) set \<Rightarrow> string \<Rightarrow> ip_addr \<Rightarrow> u16 \<Rightarrow> bool" where
  "scoped_dest_hit S exe dst dport =
     (\<exists>(e, a, p) \<in> S. e = exe \<and> a = dst \<and> port_ok p dport)"

definition host_matches :: "target set \<Rightarrow> string \<Rightarrow> u16 \<Rightarrow> bool" where
  "host_matches S host dport =
     (let h = to_lowercase host in \<exists>(pat, p) \<in> S. port_ok p dport \<and> pattern_matches pat h)"

definition dest_matches :: "(ip_addr \<times> port) set \<Rightarrow> ip_addr \<Rightarrow> u16 \<Rightarrow> bool" where
  "dest_matches S dst dport = (\<exists>(a, p) \<in> S. a = dst \<and> port_ok p dport)"

text \<open>\<open>if let Some(x) = o { if P x { return .. } }\<close>\<close>

definition on_some :: "'a option \<Rightarrow> ('a \<Rightarrow> bool) \<Rightarrow> bool" where
  "on_some o' P = (case o' of None \<Rightarrow> False | Some x \<Rightarrow> P x)"

definition default_or_ask :: "policy \<Rightarrow> verdict" where
  "default_or_ask p = (case default_verdict p of None \<Rightarrow> Ask | Some v \<Rightarrow> v)"

definition decide :: "policy \<Rightarrow> string option \<Rightarrow> ip_addr \<Rightarrow> string option \<Rightarrow> u16 \<Rightarrow> verdict" where
  "decide p exe dst host dport =
     (if on_some exe (\<lambda>e. scoped_dest_hit (deny_dest_from p) e dst dport) then Deny
      else if on_some exe (\<lambda>e. on_some host (\<lambda>h.
                scoped_host_hit (deny_host_from p) e (to_lowercase h) dport)) then Deny
      else if on_some host (\<lambda>h. host_matches (deny_host p) h dport) then Deny
      else if dest_matches (deny_dest p) dst dport then Deny
      else if on_some exe (\<lambda>e. e \<in> deny_app p) then Deny
      else if on_some exe (\<lambda>e. scoped_dest_hit (allow_dest_from p) e dst dport) then Allow
      else if on_some exe (\<lambda>e. on_some host (\<lambda>h.
                scoped_host_hit (allow_host_from p) e (to_lowercase h) dport)) then Allow
      else if on_some exe (\<lambda>e. e \<in> allow_app p) then Allow
      else if on_some host (\<lambda>h. host_matches (allow_host p) h dport) then Allow
      else if dest_matches (allow_dest p) dst dport then Allow
      else default_or_ask p)"

section \<open>Recording an answer\<close>

text \<open>The guard \<open>!h.is_empty() && h != "-"\<close>: a host name was really seen.\<close>

definition named :: "string \<Rightarrow> bool" where
  "named h \<longleftrightarrow> h \<noteq> [] \<and> h \<noteq> ''-''"

definition tabs :: "string list \<Rightarrow> string" where
  "tabs fs = (case fs of [] \<Rightarrow> [] | f # gs \<Rightarrow> f @ concat (map (\<lambda>g. tab # g) gs))"

definition record_allow_conn ::
  "policy \<Rightarrow> string option \<Rightarrow> ip_addr \<Rightarrow> string option \<Rightarrow> port \<Rightarrow> origin \<Rightarrow> policy \<times> string" where
  "record_allow_conn p exe dst host pt origin = (case exe of
      Some e \<Rightarrow> (if on_some host named then
          (let h = the host in
           (p\<lparr>allow_host_from := insert (e, to_lowercase h, pt) (allow_host_from p)\<rparr>,
            tabs [''allow-host-from '' @ join_target h pt, e,
                  ''# '' @ adjective origin @ '' for this app'']))
        else
          (p\<lparr>allow_dest_from := insert (e, dst, pt) (allow_dest_from p)\<rparr>,
           tabs [''allow-dest-from '' @ join_target (show_ip dst) pt, e,
                 ''# no hostname seen; '' @ adjective origin @ '' for this app'']))
    | None \<Rightarrow> (if on_some host named then
          (let h = the host in
           (p\<lparr>allow_host := insert (to_lowercase h, pt) (allow_host p)\<rparr>,
            tabs [''allow-host '' @ join_target h pt,
                  ''# '' @ adjective origin @ ''; unattributed connection'']))
        else
          (p\<lparr>allow_dest := insert (dst, pt) (allow_dest p)\<rparr>,
           tabs [''allow-dest '' @ join_target (show_ip dst) pt,
                 ''# '' @ adjective origin @ ''; unattributed, no hostname seen''])))"

definition record_block ::
  "policy \<Rightarrow> string option \<Rightarrow> ip_addr \<Rightarrow> string option \<Rightarrow> port \<Rightarrow> policy \<times> string" where
  "record_block p exe dst host pt = (case exe of
      Some e \<Rightarrow> (if on_some host named then
          (let h = the host in
           (p\<lparr>deny_host_from := insert (e, to_lowercase h, pt) (deny_host_from p)\<rparr>,
            tabs [''deny-host-from '' @ join_target h pt, e, ''# blocked for this app only'']))
        else
          (p\<lparr>deny_dest_from := insert (e, dst, pt) (deny_dest_from p)\<rparr>,
           tabs [''deny-dest-from '' @ join_target (show_ip dst) pt, e,
                 ''# no hostname seen; blocked for this app only'']))
    | None \<Rightarrow> (if on_some host named then
          (let h = the host in
           (p\<lparr>deny_host := insert (to_lowercase h, pt) (deny_host p)\<rparr>,
            tabs [''deny-host '' @ join_target h pt,
                  ''# unattributed connection; blocked for every application'']))
        else
          (p\<lparr>deny_dest := insert (dst, pt) (deny_dest p)\<rparr>,
           tabs [''deny-dest '' @ join_target (show_ip dst) pt,
                 ''# unattributed, no hostname seen; blocked for every application''])))"

text \<open>The policy after \<open>record\<close>, and the line it appends; \<open>None\<close> where it returns early.\<close>

definition record_answer ::
  "policy \<Rightarrow> answer \<Rightarrow> string option \<Rightarrow> ip_addr \<Rightarrow> string option \<Rightarrow> u16 \<Rightarrow> origin
    \<Rightarrow> policy \<times> string option" where
  "record_answer p ans exe dst host dport origin = (let pt = Some dport in
     case ans of
       AllowConn \<Rightarrow> apsnd Some (record_allow_conn p exe dst host pt origin)
     | AllowApp \<Rightarrow> (case exe of
           Some e \<Rightarrow> (p\<lparr>allow_app := insert e (allow_app p)\<rparr>, Some (''allow-app '' @ e))
         | None \<Rightarrow> (p, None))
     | Block \<Rightarrow> apsnd Some (record_block p exe dst host pt)
     | BlockApp \<Rightarrow> (case exe of
           Some e \<Rightarrow> (p\<lparr>deny_app := insert e (deny_app p)\<rparr>,
                      Some (tabs [''deny-app '' @ e, ''# every destination'']))
         | None \<Rightarrow> (p, None))
     | Timeout \<Rightarrow> (p, None))"

section \<open>The other operations of a policy\<close>

text \<open>\<open>record_id\<close>: the policy, and the line it appends unless an identity is already known.\<close>

definition record_id :: "policy \<Rightarrow> string \<Rightarrow> string \<Rightarrow> policy \<times> string option" where
  "record_id p exe sha =
     (if hm_get (app_id p) exe \<noteq> None then (p, None)
      else (p\<lparr>app_id := hm_insert exe (to_lowercase sha) (app_id p)\<rparr>,
            Some (tabs [''app-id '' @ sha, exe, ''# identity when approved''])))"

definition forget_id :: "policy \<Rightarrow> string \<Rightarrow> policy" where
  "forget_id p exe = p\<lparr>app_id := hm_remove exe (app_id p)\<rparr>"

definition expected_id :: "policy \<Rightarrow> string \<Rightarrow> string option" where
  "expected_id p exe = hm_get (app_id p) exe"

definition policy_mode :: "policy \<Rightarrow> mode \<Rightarrow> mode" where
  "policy_mode p fallback = (case pmode p of None \<Rightarrow> fallback | Some m \<Rightarrow> m)"

definition policy_attribution :: "policy \<Rightarrow> attribution_mode" where
  "policy_attribution p = (case attribution p of None \<Rightarrow> Procstat | Some a \<Rightarrow> a)"

text \<open>The environment variable \<open>PFSNITCH_PROMPT\<close> is an argument.\<close>

definition prompt_bin :: "string option \<Rightarrow> policy \<Rightarrow> string \<Rightarrow> string" where
  "prompt_bin env p dflt =
     (if on_some env (\<lambda>v. v \<noteq> []) then the env
      else (case prompt p of None \<Rightarrow> dflt | Some b \<Rightarrow> b))"

fun verdict_debug :: "verdict \<Rightarrow> string" where
  "verdict_debug Allow = ''Allow''"
| "verdict_debug Deny = ''Deny''"
| "verdict_debug Ask = ''Ask''"

definition summary :: "policy \<Rightarrow> string" where
  "summary p = ''default='' @ verdict_debug (default_or_ask p)
     @ '' allow-app='' @ show_nat (card (allow_app p))
     @ '' deny-app='' @ show_nat (card (deny_app p))
     @ '' allow-host='' @ show_nat (card (allow_host p))
     @ '' allow-dest='' @ show_nat (card (allow_dest p))"

section \<open>The abstract specification: deny overrides\<close>

datatype effect = Permit | Forbid
datatype scope = AnyApp | OnlyApp string
datatype dest = AnyDest | Host string | Addr ip_addr
datatype prule = PRule (reffect: effect) (rscope: scope) (rdest: dest) (rport: port)

fun in_scope :: "scope \<Rightarrow> string option \<Rightarrow> bool" where
  "in_scope AnyApp exe = True"
| "in_scope (OnlyApp e) exe = (exe = Some e)"

fun in_dest :: "dest \<Rightarrow> ip_addr \<Rightarrow> string option \<Rightarrow> bool" where
  "in_dest AnyDest dst host = True"
| "in_dest (Host pat) dst host = on_some host (\<lambda>h. pattern_matches pat (to_lowercase h))"
| "in_dest (Addr a) dst host = (a = dst)"

fun covers :: "prule \<Rightarrow> string option \<Rightarrow> ip_addr \<Rightarrow> string option \<Rightarrow> u16 \<Rightarrow> bool" where
  "covers (PRule ef sc d pt) exe dst host dport =
     (in_scope sc exe \<and> in_dest d dst host \<and> port_ok pt dport)"

definition deny_overrides ::
  "prule set \<Rightarrow> verdict \<Rightarrow> string option \<Rightarrow> ip_addr \<Rightarrow> string option \<Rightarrow> u16 \<Rightarrow> verdict" where
  "deny_overrides R dflt exe dst host dport =
     (if \<exists>r \<in> R. reffect r = Forbid \<and> covers r exe dst host dport then Deny
      else if \<exists>r \<in> R. reffect r = Permit \<and> covers r exe dst host dport then Allow
      else dflt)"

definition rules_of :: "policy \<Rightarrow> prule set" where
  "rules_of p =
     (\<lambda>e. PRule Permit (OnlyApp e) AnyDest None) ` allow_app p
   \<union> (\<lambda>e. PRule Forbid (OnlyApp e) AnyDest None) ` deny_app p
   \<union> (\<lambda>(h, pt). PRule Permit AnyApp (Host h) pt) ` allow_host p
   \<union> (\<lambda>(h, pt). PRule Forbid AnyApp (Host h) pt) ` deny_host p
   \<union> (\<lambda>(a, pt). PRule Permit AnyApp (Addr a) pt) ` allow_dest p
   \<union> (\<lambda>(a, pt). PRule Forbid AnyApp (Addr a) pt) ` deny_dest p
   \<union> (\<lambda>(e, h, pt). PRule Permit (OnlyApp e) (Host h) pt) ` allow_host_from p
   \<union> (\<lambda>(e, h, pt). PRule Forbid (OnlyApp e) (Host h) pt) ` deny_host_from p
   \<union> (\<lambda>(e, a, pt). PRule Permit (OnlyApp e) (Addr a) pt) ` allow_dest_from p
   \<union> (\<lambda>(e, a, pt). PRule Forbid (OnlyApp e) (Addr a) pt) ` deny_dest_from p"

text \<open>What the code tests before it returns \<open>Deny\<close>, and before it returns \<open>Allow\<close>.\<close>

lemmas hit_defs = scoped_dest_hit_def scoped_host_hit_def host_matches_def dest_matches_def
  on_some_def

lemma covers_groups:
  "(\<exists>x \<in> A. covers (PRule ef (OnlyApp x) AnyDest None) exe dst host dport)
     \<longleftrightarrow> on_some exe (\<lambda>e. e \<in> A)"
  "(\<exists>x \<in> T. covers (PRule ef AnyApp (Host (fst x)) (snd x)) exe dst host dport)
     \<longleftrightarrow> on_some host (\<lambda>h. host_matches T h dport)"
  "(\<exists>x \<in> D. covers (PRule ef AnyApp (Addr (fst x)) (snd x)) exe dst host dport)
     \<longleftrightarrow> dest_matches D dst dport"
  "(\<exists>x \<in> H. covers (PRule ef (OnlyApp (fst x)) (Host (fst (snd x))) (snd (snd x))) exe dst host dport)
     \<longleftrightarrow> on_some exe (\<lambda>e. on_some host (\<lambda>h. scoped_host_hit H e (to_lowercase h) dport))"
  "(\<exists>x \<in> F. covers (PRule ef (OnlyApp (fst x)) (Addr (fst (snd x))) (snd (snd x))) exe dst host dport)
     \<longleftrightarrow> on_some exe (\<lambda>e. scoped_dest_hit F e dst dport)"
  by (cases exe; cases host; auto simp: hit_defs port_ok_def split_beta port_ok_def; force)+

lemma effect_groups:
  "(\<exists>r \<in> f ` S. reffect r = ef \<and> P r) \<longleftrightarrow> (\<exists>x \<in> S. reffect (f x) = ef \<and> P (f x))"
  by auto

lemma forbid_iff:
  "(\<exists>r \<in> rules_of p. reffect r = Forbid \<and> covers r exe dst host dport) \<longleftrightarrow>
     on_some exe (\<lambda>e. scoped_dest_hit (deny_dest_from p) e dst dport)
   \<or> on_some exe (\<lambda>e. on_some host (\<lambda>h. scoped_host_hit (deny_host_from p) e (to_lowercase h) dport))
   \<or> on_some host (\<lambda>h. host_matches (deny_host p) h dport)
   \<or> dest_matches (deny_dest p) dst dport
   \<or> on_some exe (\<lambda>e. e \<in> deny_app p)"
  unfolding rules_of_def bex_Un effect_groups split_beta prule.sel
  by (simp add: covers_groups del: covers.simps) blast

lemma permit_iff:
  "(\<exists>r \<in> rules_of p. reffect r = Permit \<and> covers r exe dst host dport) \<longleftrightarrow>
     on_some exe (\<lambda>e. scoped_dest_hit (allow_dest_from p) e dst dport)
   \<or> on_some exe (\<lambda>e. on_some host (\<lambda>h. scoped_host_hit (allow_host_from p) e (to_lowercase h) dport))
   \<or> on_some exe (\<lambda>e. e \<in> allow_app p)
   \<or> on_some host (\<lambda>h. host_matches (allow_host p) h dport)
   \<or> dest_matches (allow_dest p) dst dport"
  unfolding rules_of_def bex_Un effect_groups split_beta prule.sel
  by (simp add: covers_groups del: covers.simps) blast

lemma decide_eq: "decide p exe dst host dport
    = deny_overrides (rules_of p) (default_or_ask p) exe dst host dport"
  unfolding decide_def deny_overrides_def forbid_iff permit_iff by simp

text \<open>Verdicts ordered by what they let through.\<close>

instantiation verdict :: linorder
begin

fun verdict_rank :: "verdict \<Rightarrow> nat" where
  "verdict_rank Deny = 0"
| "verdict_rank Ask = 1"
| "verdict_rank Allow = 2"

definition less_eq_verdict :: "verdict \<Rightarrow> verdict \<Rightarrow> bool" where
  "less_eq_verdict a b \<longleftrightarrow> verdict_rank a \<le> verdict_rank b"

definition less_verdict :: "verdict \<Rightarrow> verdict \<Rightarrow> bool" where
  "less_verdict a b \<longleftrightarrow> verdict_rank a < verdict_rank b"

instance
proof
  fix a b c :: verdict
  show "a < b \<longleftrightarrow> a \<le> b \<and> \<not> b \<le> a" by (auto simp: less_eq_verdict_def less_verdict_def)
  show "a \<le> a" by (simp add: less_eq_verdict_def)
  show "a \<le> b \<Longrightarrow> b \<le> c \<Longrightarrow> a \<le> c" by (simp add: less_eq_verdict_def)
  show "a \<le> b \<Longrightarrow> b \<le> a \<Longrightarrow> a = b"
    by (cases a; cases b) (simp_all add: less_eq_verdict_def)
  show "a \<le> b \<or> b \<le> a" by (auto simp: less_eq_verdict_def)
qed

end

lemma verdict_bounds [simp]: "Deny \<le> v" "v \<le> Allow" "v \<le> Deny \<longleftrightarrow> v = Deny" "Allow \<le> v \<longleftrightarrow> v = Allow"
  by (cases v; simp add: less_eq_verdict_def)+

definition permits :: "policy \<Rightarrow> prule set" where
  "permits p = {r \<in> rules_of p. reffect r = Permit}"

definition forbids :: "policy \<Rightarrow> prule set" where
  "forbids p = {r \<in> rules_of p. reffect r = Forbid}"

lemma decide_sets: "decide p exe dst host dport =
    (if \<exists>r \<in> forbids p. covers r exe dst host dport then Deny
     else if \<exists>r \<in> permits p. covers r exe dst host dport then Allow
     else default_or_ask p)"
  by (auto simp: decide_eq deny_overrides_def permits_def forbids_def)

lemma decide_mono:
  assumes "permits p \<subseteq> permits q" "forbids q \<subseteq> forbids p" "default_or_ask p \<le> default_or_ask q"
  shows "decide p exe dst host dport \<le> decide q exe dst host dport"
  using assms unfolding decide_sets by (auto 4 3)

text \<open>The rule an answer stands for.\<close>

definition dest_of :: "ip_addr \<Rightarrow> string option \<Rightarrow> dest" where
  "dest_of dst host = (if on_some host named then Host (to_lowercase (the host)) else Addr dst)"

definition scope_of :: "string option \<Rightarrow> scope" where
  "scope_of exe = (case exe of None \<Rightarrow> AnyApp | Some e \<Rightarrow> OnlyApp e)"

definition answer_rule ::
  "answer \<Rightarrow> string option \<Rightarrow> ip_addr \<Rightarrow> string option \<Rightarrow> u16 \<Rightarrow> prule option" where
  "answer_rule ans exe dst host dport = (case ans of
      AllowConn \<Rightarrow> Some (PRule Permit (scope_of exe) (dest_of dst host) (Some dport))
    | Block \<Rightarrow> Some (PRule Forbid (scope_of exe) (dest_of dst host) (Some dport))
    | AllowApp \<Rightarrow> map_option (\<lambda>e. PRule Permit (OnlyApp e) AnyDest None) exe
    | BlockApp \<Rightarrow> map_option (\<lambda>e. PRule Forbid (OnlyApp e) AnyDest None) exe
    | Timeout \<Rightarrow> None)"

lemma rules_of_updates:
  "rules_of (p\<lparr>allow_app := insert e (allow_app p)\<rparr>) = insert (PRule Permit (OnlyApp e) AnyDest None) (rules_of p)"
  "rules_of (p\<lparr>deny_app := insert e (deny_app p)\<rparr>) = insert (PRule Forbid (OnlyApp e) AnyDest None) (rules_of p)"
  "rules_of (p\<lparr>allow_host := insert (h, pt) (allow_host p)\<rparr>) = insert (PRule Permit AnyApp (Host h) pt) (rules_of p)"
  "rules_of (p\<lparr>deny_host := insert (h, pt) (deny_host p)\<rparr>) = insert (PRule Forbid AnyApp (Host h) pt) (rules_of p)"
  "rules_of (p\<lparr>allow_dest := insert (a, pt) (allow_dest p)\<rparr>) = insert (PRule Permit AnyApp (Addr a) pt) (rules_of p)"
  "rules_of (p\<lparr>deny_dest := insert (a, pt) (deny_dest p)\<rparr>) = insert (PRule Forbid AnyApp (Addr a) pt) (rules_of p)"
  "rules_of (p\<lparr>allow_host_from := insert (e, h, pt) (allow_host_from p)\<rparr>) = insert (PRule Permit (OnlyApp e) (Host h) pt) (rules_of p)"
  "rules_of (p\<lparr>deny_host_from := insert (e, h, pt) (deny_host_from p)\<rparr>) = insert (PRule Forbid (OnlyApp e) (Host h) pt) (rules_of p)"
  "rules_of (p\<lparr>allow_dest_from := insert (e, a, pt) (allow_dest_from p)\<rparr>) = insert (PRule Permit (OnlyApp e) (Addr a) pt) (rules_of p)"
  "rules_of (p\<lparr>deny_dest_from := insert (e, a, pt) (deny_dest_from p)\<rparr>) = insert (PRule Forbid (OnlyApp e) (Addr a) pt) (rules_of p)"
  unfolding rules_of_def by (simp_all add: image_insert)

lemmas record_defs = record_answer_def record_allow_conn_def record_block_def Let_def

lemma record_rules: "rules_of (fst (record_answer p ans exe dst host dport orig)) =
    (case answer_rule ans exe dst host dport of None \<Rightarrow> rules_of p | Some r \<Rightarrow> insert r (rules_of p))"
  by (cases ans; cases exe; cases "on_some host named")
    (simp_all add: record_defs rules_of_updates answer_rule_def scope_of_def dest_of_def)

text \<open>Recording touches the rules only.\<close>

definition settings :: "policy \<Rightarrow> verdict option \<times> string option \<times> (string, string) hashmap
    \<times> mode option \<times> attribution_mode option" where
  "settings p = (default_verdict p, prompt p, app_id p, pmode p, attribution p)"

lemma record_settings: "settings (fst (record_answer p ans exe dst host dport orig)) = settings p"
  by (cases ans; cases exe; cases "on_some host named")
    (simp_all add: record_defs settings_def)

lemma record_default: "default_or_ask (fst (record_answer p ans exe dst host dport orig)) = default_or_ask p"
  using record_settings [of p ans exe dst host dport orig]
  by (simp add: settings_def default_or_ask_def)

lemma covers_answer_rule:
  assumes "answer_rule ans exe dst host dport = Some r"
  shows "covers r exe dst host dport"
  using assms
  by (cases exe; cases host; cases ans; cases "on_some host named")
    (auto simp: answer_rule_def scope_of_def dest_of_def on_some_def port_ok_def pattern_matches_def)

lemma decide_insert:
  assumes "rules_of q = insert r (rules_of p)" "default_or_ask q = default_or_ask p"
  shows "decide q exe dst host dport =
    (if covers r exe dst host dport then
       (if reffect r = Forbid then Deny
        else if \<exists>f \<in> forbids p. covers f exe dst host dport then Deny else Allow)
     else decide p exe dst host dport)"
  using assms unfolding decide_eq deny_overrides_def forbids_def
  by (cases "reffect r") auto

section \<open>Targets as text\<close>

text \<open>An IPv6 address has at least two colons.\<close>

lemma read_number_colons: "read_number b k z m s = Some (n, r) \<Longrightarrow> count_list r c \<le> count_list s c"
proof -
  assume "read_number b k z m s = Some (n, r)"
  then obtain j where "r = drop j s" by (auto simp: read_number_def Let_def split: if_splits)
  then have "count_list s c = count_list (take j s) c + count_list r c"
    by (metis append_take_drop_id count_list_append)
  then show ?thesis by simp
qed

lemma read_octet_colons: "read_octet i s = Some (n, r) \<Longrightarrow> count_list r (CHR '':'') \<le> count_list s (CHR '':'')"
  by (cases s) (auto simp: read_octet_def read_separator_def read_given_char_def
      dest!: read_number_colons [of _ _ _ _ _ _ _ "CHR '':''"] split: if_splits)

lemma read_ipv4_colons:
  "read_ipv4_addr s = Some (a, r) \<Longrightarrow> count_list r (CHR '':'') \<le> count_list s (CHR '':'')"
  by (auto simp: read_ipv4_addr_def bind_eq_Some_conv dest!: read_octet_colons intro: order_trans)

lemma read_separator_colons:
  assumes "read_separator (CHR '':'') i p s = Some (a, r)"
    and "\<And>s. p s = Some (a, r) \<Longrightarrow> count_list r (CHR '':'') \<le> count_list s (CHR '':'')"
  shows "count_list r (CHR '':'') + (if i = 0 then 0 else 1) \<le> count_list s (CHR '':'')"
proof (cases "i = 0")
  case True
  then show ?thesis using assms(1) assms(2) [of s] by simp
next
  case False
  then obtain t where "s = CHR '':'' # t" "p t = Some (a, r)"
    using assms(1) by (cases s) (auto simp: read_separator_def read_given_char_def split: if_splits)
  then show ?thesis using assms(2) [of t] False by simp
qed

lemma read_groups_colons:
  "read_groups i n s = (gs, v4, r) \<Longrightarrow>
     count_list r (CHR '':'') \<le> count_list s (CHR '':'') \<and>
     count_list r (CHR '':'') + length gs
       \<le> count_list s (CHR '':'') + (if v4 then 1 else 0) + (if i = 0 then 1 else 0)"
proof (induction i n s arbitrary: gs v4 r rule: read_groups.induct)
  case (1 i s)
  then show ?case by simp
next
  case (2 i n s)
  show ?case
  proof (cases "(if 1 \<le> n then read_separator (CHR '':'') i read_ipv4_addr s else None)")
    case (Some p)
    then obtain a b c d r' where p: "read_separator (CHR '':'') i read_ipv4_addr s = Some ((a, b, c, d), r')"
      by (cases p) (auto split: if_splits)
    have "count_list r' (CHR '':'') + (if i = 0 then 0 else 1) \<le> count_list s (CHR '':'')"
      by (rule read_separator_colons [OF p]) (rule read_ipv4_colons)
    with Some p 2 show ?thesis by (auto split: if_splits)
  next
    case None
    note v4 = this
    show ?thesis
    proof (cases "read_separator (CHR '':'') i (read_number 16 4 True 65535) s")
      case None
      with v4 2 show ?thesis by auto
    next
      case (Some p)
      then obtain g r' where p: "read_separator (CHR '':'') i (read_number 16 4 True 65535) s = Some (g, r')"
        by (cases p) auto
      obtain gs' v' r'' where q: "read_groups (Suc i) n r' = (gs', v', r'')" by (metis prod_cases3)
      have eq: "(gs, v4, r) = (word_of_nat g # gs', v', r'')" using 2(2) v4 p q by simp
      have "count_list r' (CHR '':'') + (if i = 0 then 0 else 1) \<le> count_list s (CHR '':'')"
        by (rule read_separator_colons [OF p]) (rule read_number_colons)
      with 2(1) [OF v4 p refl q] eq show ?thesis by (auto split: if_splits)
    qed
  qed
qed

lemma parse_ipv6_colons:
  assumes "parse_ipv6 s \<noteq> None"
  shows "2 \<le> count_list s (CHR '':'')"
proof -
  obtain gs v4 r where g: "read_groups 0 8 s = (gs, v4, r)" by (metis prod_cases3)
  have "\<exists>a r'. read_ipv6_addr s = Some (a, r')"
    using assms by (auto simp: parse_ipv6_def parse_with_def split: option.splits)
  then have "length gs = 8 \<or> (\<exists>t. r = CHR '':'' # CHR '':'' # t)"
    by (auto simp: read_ipv6_addr_def g read_given_char_def bind_eq_Some_conv
        split: if_splits list.splits)
  with read_groups_colons [OF g] show ?thesis by (auto split: if_splits)
qed

text \<open>The targets the program writes: plain text without brackets, and either without a colon
(a name, an IPv4 address) or an IPv6 address.\<close>

definition target_ok :: "string \<Rightarrow> bool" where
  "target_ok h \<longleftrightarrow> plain h \<and> CHR ''['' \<notin> set h \<and> CHR '']'' \<notin> set h
     \<and> (CHR '':'' \<notin> set h \<or> parse_ipv6 h \<noteq> None)"

lemma target_ok_show_ip [simp]: "target_ok (show_ip a)"
  using show_ip_colon [of a] by (auto simp: target_ok_def parse_ipv6_show_ip)

lemma target_ok_lower: "target_ok h \<Longrightarrow> CHR '':'' \<notin> set h \<Longrightarrow> target_ok (to_lowercase h)"
  by (simp add: target_ok_def plain_lower)

lemma digits_plain: "plain (show_nat n)" "CHR '':'' \<notin> set (show_nat n)" "CHR ''#'' \<notin> set (show_nat n)"
proof -
  have "(48::nat) \<le> of_char c \<and> of_char c \<le> (57::nat)" if "c \<in> set (show_nat n)" for c
    using show_nat_digit [OF that] by (auto simp: to_digit_def Let_def split: if_splits)
  then show "plain (show_nat n)" "CHR '':'' \<notin> set (show_nat n)" "CHR ''#'' \<notin> set (show_nat n)"
    by (fastforce simp: plain_def plain_char_def)+
qed

lemma plain_join: "target_ok h \<Longrightarrow> plain (join_target h p)"
  by (cases p) (auto simp: join_target_def target_ok_def digits_plain plain_char_def)

lemma join_no_hash: "CHR ''#'' \<notin> set h \<Longrightarrow> CHR ''#'' \<notin> set (join_target h p)"
  by (cases p) (auto simp: join_target_def digits_plain)

lemma join_ne: "h \<noteq> [] \<Longrightarrow> join_target h p \<noteq> []"
  by (cases p) (auto simp: join_target_def)

lemma strip_bracket: "CHR ''['' \<notin> set s \<Longrightarrow> strip_prefix ''['' s = None"
  by (cases s) auto

lemma split_join_target: "target_ok h \<Longrightarrow> split_target (join_target h p) = (h, p)"
proof -
  assume ok: "target_ok h"
  then have tr: "trim (join_target h p) = join_target h p" by (simp add: plain_join trim_plain)
  show ?thesis
  proof (cases p)
    case None
    then show ?thesis
      using ok tr
      by (auto simp: split_target_def Let_def join_target_def target_ok_def strip_bracket
          rsplit_at_char_None split: option.splits dest: rsplit_at_char_None [THEN iffD2])
  next
    case (Some n)
    show ?thesis
    proof (cases "parse_ipv6 h = None")
      case False
      then have j: "join_target h p = CHR ''['' # h @ CHR '']'' # CHR '':'' # show_nat (unat n)"
        using Some by (auto simp: join_target_def)
      have "split_at_char (CHR '']'') (h @ CHR '']'' # CHR '':'' # show_nat (unat n))
          = Some (h, CHR '':'' # show_nat (unat n))"
        using ok by (simp add: split_at_char_Some target_ok_def)
      then show ?thesis
        using Some tr unfolding j split_target_def Let_def by (simp add: parse_u16_show_nat)
    next
      case True
      then have nc: "CHR '':'' \<notin> set h" using ok by (simp add: target_ok_def)
      have j: "join_target h p = h @ CHR '':'' # show_nat (unat n)"
        using Some True by (simp add: join_target_def)
      have "count_list (h @ CHR '':'' # show_nat (unat n)) (CHR '':'') = 1"
        using nc digits_plain(2) by (simp add: count_list_0_iff)
      then have "parse_ipv6 (h @ CHR '':'' # show_nat (unat n)) = None"
        using parse_ipv6_colons by fastforce
      moreover have "rsplit_at_char (CHR '':'') (h @ CHR '':'' # show_nat (unat n))
          = Some (h, show_nat (unat n))"
        by (simp add: rsplit_at_char_Some digits_plain)
      moreover have "strip_prefix ''['' (h @ CHR '':'' # show_nat (unat n)) = None"
        using ok by (cases h) (auto simp: target_ok_def)
      ultimately show ?thesis
        using Some tr nc unfolding j split_target_def Let_def by (simp add: parse_u16_show_nat)
    qed
  qed
qed

section \<open>What is recorded is what is loaded\<close>

definition apply_line :: "string \<Rightarrow> policy \<Rightarrow> policy" where
  "apply_line raw p = fst (load_line 0 raw p)"

lemma load_parts_line:
  "fst (load_host_from n k v ins p) = fst (load_host_from 0 k v ins p)"
  "fst (load_dest_from n k v ins' p) = fst (load_dest_from 0 k v ins' p)"
  "fst (load_dest n v ins'' p) = fst (load_dest 0 v ins'' p)"
  by (simp_all add: load_host_from_def load_dest_from_def load_dest_def split: option.splits prod.splits)

lemma load_directive_line: "fst (load_directive n k v p) = fst (load_directive 0 k v p)"
  by (simp only: load_directive_def if_distrib [of fst] option.case_distrib [of fst]
      prod.case_distrib [of fst] fst_conv load_parts_line [of n])

lemma load_line_fst: "fst (load_line n raw p) = apply_line raw p"
  by (simp only: load_line_def apply_line_def Let_def if_distrib [of fst] prod.case_distrib [of fst]
      fst_conv load_directive_line [of n])

lemma load_lines_fold: "fst (load_lines n ls p) = fold apply_line ls p"
proof (induction ls arbitrary: n p)
  case (Cons l ls)
  have "fst (load_lines n (l # ls) p) = fst (load_lines (Suc n) ls (fst (load_line n l p)))"
    by (simp split: prod.splits)
  then show ?case by (simp add: Cons.IH load_line_fst)
qed simp

lemma load_fold: "fst (load (Some t)) = fold apply_line (lines t) default_policy"
  by (simp add: load_def load_lines_fold)

lemma load_snoc:
  assumes "ends_nl t" "line_ok l"
  shows "fst (load (Some (t @ l @ [newline]))) = apply_line l (fst (load (Some t)))"
  using assms by (simp add: load_fold lines_snoc line_ok_def)

text \<open>The directive a line carries.\<close>

lemma apply_line_directive:
  assumes "plain k" "k \<noteq> []" "CHR ''#'' \<notin> set k" "trimmed v" "CHR ''#'' \<notin> set v"
    and c: "c = [] \<or> (\<exists>d. c = tab # CHR ''#'' # d)"
  shows "apply_line (k @ CHR '' '' # v @ c) p = fst (load_directive 0 k v p)"
proof -
  let ?b = "k @ CHR '' '' # v"
  have sp: "ws_char (CHR '' '')" "ws_char tab" by (simp_all add: str_simps)
  have tr: "trimmed ?b" by (rule trimmed_fields [OF assms(1,2) sp(1) assms(4)])
  have "before_char (CHR ''#'') (?b @ c) = ?b \<or> before_char (CHR ''#'') (?b @ c) = ?b @ [tab]"
    using c assms(3,5) before_char_id [of "CHR ''#''" ?b]
      before_char_append [of "CHR ''#''" "?b @ [tab]"]
    by (auto simp: tab_def)
  then have "trim (before_char (CHR ''#'') (?b @ c)) = ?b"
    using tr trim_snoc [OF sp(2), of ?b] by auto
  then show ?thesis
    using tr assms(4) splitn2_ws_plain [OF assms(1) sp(1), of v]
    by (simp add: apply_line_def load_line_def Let_def trimmed_def unwrap_or_empty_def trim_def)
qed

lemma split_scoped_fields:
  assumes "plain d" "d \<noteq> []" "trimmed e" "ws_char w"
  shows "split_scoped (d @ w # e) = Some (d, e)"
  using assms splitn2_ws_plain [OF assms(1,4), of e]
  by (simp add: split_scoped_def trim_plain Let_def) (simp add: trimmed_def)

text \<open>Names and paths that a policy file can hold.\<close>

definition exe_ok :: "string \<Rightarrow> bool" where
  "exe_ok e \<longleftrightarrow> trimmed e \<and> CHR ''#'' \<notin> set e \<and> line_ok e"

definition host_ok :: "string \<Rightarrow> bool" where
  "host_ok h \<longleftrightarrow> target_ok h \<and> h \<noteq> [] \<and> CHR ''#'' \<notin> set h"

lemma host_ok_show_ip [simp]: "host_ok (show_ip a)"
  by (simp add: host_ok_def)

lemma kind_plain:
  "plain ''allow-app''" "plain ''deny-app''" "plain ''allow-host''" "plain ''deny-host''"
  "plain ''allow-dest''" "plain ''deny-dest''" "plain ''allow-host-from''" "plain ''allow-dest-from''"
  "plain ''deny-host-from''" "plain ''deny-dest-from''" "plain ''app-id''"
  "plain ''mode''" "plain ''attribution''"
  by (simp_all add: plain_char_def)

lemma apply_scoped:
  assumes "plain k" "k \<noteq> []" "CHR ''#'' \<notin> set k" "host_ok h" "exe_ok e"
  shows "apply_line (tabs [k @ '' '' @ join_target h pt, e, ''#'' @ c]) p
    = fst (load_directive 0 k (join_target h pt @ tab # e) p)"
proof -
  let ?v = "join_target h pt @ tab # e"
  have "trimmed ?v"
    using assms(4,5) by (intro trimmed_fields) (auto simp: host_ok_def exe_ok_def plain_join join_ne str_simps)
  moreover have "CHR ''#'' \<notin> set ?v"
    using assms(4,5) by (simp add: host_ok_def exe_ok_def join_no_hash tab_def)
  ultimately have "apply_line (k @ CHR '' '' # ?v @ tab # CHR ''#'' # c) p = fst (load_directive 0 k ?v p)"
    using assms(1,2,3) by (intro apply_line_directive) auto
  then show ?thesis by (simp add: tabs_def)
qed

lemma apply_global:
  assumes "plain k" "k \<noteq> []" "CHR ''#'' \<notin> set k" "host_ok h"
  shows "apply_line (tabs [k @ '' '' @ join_target h pt, ''#'' @ c]) p
    = fst (load_directive 0 k (join_target h pt) p)"
proof -
  let ?v = "join_target h pt"
  have "trimmed ?v" "CHR ''#'' \<notin> set ?v"
    using assms(4) by (auto simp: host_ok_def trimmed_plain plain_join join_ne join_no_hash)
  then have "apply_line (k @ CHR '' '' # ?v @ tab # CHR ''#'' # c) p = fst (load_directive 0 k ?v p)"
    using assms(1,2,3) by (intro apply_line_directive) auto
  then show ?thesis by (simp add: tabs_def)
qed

lemma apply_app:
  assumes "plain k" "k \<noteq> []" "CHR ''#'' \<notin> set k" "exe_ok e" "c = [] \<or> (\<exists>d. c = tab # CHR ''#'' # d)"
  shows "apply_line (k @ CHR '' '' # e @ c) p = fst (load_directive 0 k e p)"
  using assms by (intro apply_line_directive) (auto simp: exe_ok_def)

lemma split_scoped_join:
  "host_ok h \<Longrightarrow> exe_ok e \<Longrightarrow> split_scoped (join_target h pt @ tab # e) = Some (join_target h pt, e)"
  by (intro split_scoped_fields) (auto simp: host_ok_def exe_ok_def plain_join join_ne str_simps)

lemma directive_scoped:
  assumes "host_ok h" "exe_ok e"
  shows "fst (load_directive 0 ''allow-host-from'' (join_target h pt @ tab # e) p)
      = p\<lparr>allow_host_from := insert (e, to_lowercase h, pt) (allow_host_from p)\<rparr>"
    and "fst (load_directive 0 ''deny-host-from'' (join_target h pt @ tab # e) p)
      = p\<lparr>deny_host_from := insert (e, to_lowercase h, pt) (deny_host_from p)\<rparr>"
    and "fst (load_directive 0 ''allow-dest-from'' (join_target (show_ip a) pt @ tab # e) p)
      = p\<lparr>allow_dest_from := insert (e, a, pt) (allow_dest_from p)\<rparr>"
    and "fst (load_directive 0 ''deny-dest-from'' (join_target (show_ip a) pt @ tab # e) p)
      = p\<lparr>deny_dest_from := insert (e, a, pt) (deny_dest_from p)\<rparr>"
  using assms
  by (simp_all add: load_directive_def load_host_from_def load_dest_from_def split_scoped_join
      split_join_target host_ok_def [of h] parse_ip_show_ip)

lemma directive_global:
  assumes "host_ok h"
  shows "fst (load_directive 0 ''allow-host'' (join_target h pt) p)
      = p\<lparr>allow_host := insert (to_lowercase h, pt) (allow_host p)\<rparr>"
    and "fst (load_directive 0 ''deny-host'' (join_target h pt) p)
      = p\<lparr>deny_host := insert (to_lowercase h, pt) (deny_host p)\<rparr>"
    and "fst (load_directive 0 ''allow-dest'' (join_target (show_ip a) pt) p)
      = p\<lparr>allow_dest := insert (a, pt) (allow_dest p)\<rparr>"
    and "fst (load_directive 0 ''deny-dest'' (join_target (show_ip a) pt) p)
      = p\<lparr>deny_dest := insert (a, pt) (deny_dest p)\<rparr>"
  using assms
  by (simp_all add: load_directive_def load_dest_def split_join_target host_ok_def parse_ip_show_ip)

text \<open>A line that \<open>record\<close> writes has the shape of one of three templates.\<close>

definition record_ok :: "string option \<Rightarrow> string option \<Rightarrow> bool" where
  "record_ok exe host \<longleftrightarrow> (\<forall>e. exe = Some e \<longrightarrow> exe_ok e) \<and> (\<forall>h. host = Some h \<and> named h \<longrightarrow> host_ok h)"

lemma record_line_applies:
  assumes "record_ok exe host" "record_answer p ans exe dst host dport orig = (q, Some l)"
  shows "apply_line l p = q"
proof -
  note ap = apply_scoped [OF kind_plain(7), unfolded tabs_def, simplified]
    apply_scoped [OF kind_plain(8), unfolded tabs_def, simplified]
    apply_scoped [OF kind_plain(9), unfolded tabs_def, simplified]
    apply_scoped [OF kind_plain(10), unfolded tabs_def, simplified]
    apply_global [OF kind_plain(3), unfolded tabs_def, simplified]
    apply_global [OF kind_plain(4), unfolded tabs_def, simplified]
    apply_global [OF kind_plain(5), unfolded tabs_def, simplified]
    apply_global [OF kind_plain(6), unfolded tabs_def, simplified]
  show ?thesis
  proof (cases "ans = AllowApp \<or> ans = BlockApp")
    case True
    then obtain e where e: "exe = Some e" "exe_ok e"
      using assms by (cases exe) (auto simp: record_answer_def record_ok_def Let_def)
    show ?thesis
      using True assms(2) e apply_app [OF kind_plain(1) _ _ e(2), of "[]"]
        apply_app [OF kind_plain(2) _ _ e(2), of "tab # ''# every destination''"]
      by (auto simp: record_answer_def Let_def tabs_def load_directive_def)
  next
    case False
    then have no: "ans = AllowConn \<or> ans = Block"
      using assms(2) by (cases ans) (auto simp: record_answer_def)
    have eo: "\<And>e. exe = Some e \<Longrightarrow> exe_ok e" and ho: "\<And>h. host = Some h \<Longrightarrow> named h \<Longrightarrow> host_ok h"
      using assms(1) by (auto simp: record_ok_def)
    show ?thesis
    proof (cases "on_some host named")
      case True
      then obtain h where h: "host = Some h" "host_ok h"
        using ho by (cases host) (auto simp: on_some_def)
      show ?thesis
        using no assms(2) True h eo
        by (cases exe) (auto simp: record_answer_def Let_def record_allow_conn_def record_block_def
          tabs_def ap directive_scoped directive_global)
    next
      case False
      show ?thesis
        using no assms(2) False eo host_ok_show_ip [of dst]
        by (cases exe) (auto simp: record_answer_def Let_def record_allow_conn_def record_block_def
          tabs_def ap directive_scoped [OF host_ok_show_ip] directive_global [OF host_ok_show_ip])
    qed
  qed
qed

lemma plain_line_ok: "plain s \<Longrightarrow> line_ok s"
  by (auto simp: plain_def line_ok_def plain_char_def newline_def)

lemma line_ok_append [simp]: "line_ok (s @ t) \<longleftrightarrow> line_ok s \<and> line_ok t"
  "line_ok (c # t) \<longleftrightarrow> c \<noteq> newline \<and> c \<noteq> CHR 0x0D \<and> line_ok t" "line_ok []"
  by (auto simp: line_ok_def)

lemma record_line_ok:
  assumes "record_ok exe host" "record_answer p ans exe dst host dport orig = (q, Some l)"
  shows "line_ok l"
proof -
  have j: "host_ok h \<Longrightarrow> line_ok (join_target h pt)" for h pt
    by (simp add: host_ok_def plain_join plain_line_ok)
  have a: "line_ok (adjective orig)" by (cases orig) (simp_all add: newline_def)
  show ?thesis
    using assms
    by (cases ans; cases exe; cases host; cases "named (the host)")
      (auto simp: record_defs record_ok_def tabs_def on_some_def j a exe_ok_def newline_def tab_def)
qed

text \<open>A hash that fits in a line.\<close>

definition sha_ok :: "string \<Rightarrow> bool" where
  "sha_ok sha \<longleftrightarrow> plain sha \<and> sha \<noteq> [] \<and> CHR ''#'' \<notin> set sha"

lemma id_line_applies:
  assumes "sha_ok sha" "exe_ok e"
  shows "apply_line (tabs [''app-id'' @ '' '' @ sha, e, ''# identity when approved'']) p
      = p\<lparr>app_id := hm_insert e (to_lowercase sha) (app_id p)\<rparr>"
    and "line_ok (tabs [''app-id'' @ '' '' @ sha, e, ''# identity when approved''])"
proof -
  have sha: "plain sha" "sha \<noteq> []" "CHR ''#'' \<notin> set sha" using assms(1) by (auto simp: sha_ok_def)
  have t: "trimmed (sha @ tab # e)" "CHR ''#'' \<notin> set (sha @ tab # e)"
    using sha assms(2) by (auto intro!: trimmed_fields simp: exe_ok_def str_simps) (simp_all add: tab_def)
  have "apply_line (''app-id'' @ CHR '' '' # (sha @ tab # e) @ tab # CHR ''#'' # '' identity when approved'') p
      = fst (load_directive 0 ''app-id'' (sha @ tab # e) p)"
    by (rule apply_line_directive [OF kind_plain(11) _ _ t]) auto
  moreover have "split_scoped (sha @ tab # e) = Some (sha, e)"
    using sha assms(2) by (intro split_scoped_fields) (auto simp: exe_ok_def str_simps)
  ultimately show "apply_line (tabs [''app-id'' @ '' '' @ sha, e, ''# identity when approved'']) p
      = p\<lparr>app_id := hm_insert e (to_lowercase sha) (app_id p)\<rparr>"
    by (simp add: tabs_def load_directive_def)
  show "line_ok (tabs [''app-id'' @ '' '' @ sha, e, ''# identity when approved''])"
    using sha(1) assms(2) plain_line_ok [of sha] by (auto simp: tabs_def exe_ok_def newline_def tab_def)
qed

section \<open>Properties\<close>

text \<open>C19: the decision refines the abstract specification: for every policy and every connection,
  the chain of early returns in \<open>decide\<close> gives the verdict of the deny-overrides semantics on the
  set of rules the policy holds (any forbidding rule that covers the connection wins, then any
  permitting one, then the default).\<close>

theorem decide_refines_deny_overrides:
  "decide p exe dst host dport
     = deny_overrides (rules_of p) (default_or_ask p) exe dst host dport"
  by (rule decide_eq)

text \<open>Policies are monotone: with more permitting rules, fewer forbidding ones and a default
  that lets at least as much through, no connection gets a stricter verdict.\<close>

theorem decide_monotone:
  assumes "permits p \<subseteq> permits q" and "forbids q \<subseteq> forbids p"
    and "default_or_ask p \<le> default_or_ask q"
  shows "decide p exe dst host dport \<le> decide q exe dst host dport"
  using assms by (rule decide_mono)

definition demo_policy :: policy where
  "demo_policy = default_policy\<lparr>allow_app := {''/usr/bin/fetch''}\<rparr>"

theorem decide_monotone_witness:
  "decide default_policy (Some ''/usr/bin/fetch'') (V4 1 2 3 4) None 443
     \<le> decide demo_policy (Some ''/usr/bin/fetch'') (V4 1 2 3 4) None 443
   \<and> decide demo_policy (Some ''/usr/bin/fetch'') (V4 1 2 3 4) None 443 = Allow"
proof
  have r: "rules_of demo_policy = insert (PRule Permit (OnlyApp ''/usr/bin/fetch'') AnyDest None) (rules_of default_policy)"
    by (simp add: demo_policy_def rules_of_def default_policy_def)
  show "decide default_policy (Some ''/usr/bin/fetch'') (V4 1 2 3 4) None 443
     \<le> decide demo_policy (Some ''/usr/bin/fetch'') (V4 1 2 3 4) None 443"
    by (rule decide_monotone)
      (auto simp: permits_def forbids_def r, simp add: demo_policy_def default_or_ask_def)
  show "decide demo_policy (Some ''/usr/bin/fetch'') (V4 1 2 3 4) None 443 = Allow"
    by (simp add: demo_policy_def decide_def default_policy_def on_some_def hit_defs)
qed

text \<open>Recording an answer is the insertion of one rule: the rule set grows by exactly the rule
  the answer stands for (none for a timeout, or for an application-wide answer about an unattributed
  connection), and the settings of the policy are untouched.\<close>

theorem record_inserts_rule:
  "rules_of (fst (record_answer p ans exe dst host dport orig)) =
     (case answer_rule ans exe dst host dport of
        None \<Rightarrow> rules_of p
      | Some r \<Rightarrow> insert r (rules_of p))
   \<and> settings (fst (record_answer p ans exe dst host dport orig)) = settings p"
  by (simp add: record_rules record_settings)

text \<open>An answer takes effect: after a recorded answer, every connection the answer's rule covers
  (the one that was asked about among them) is denied by a blocking answer, is allowed by an allowing
  answer unless a rule that was there before forbids it, and every other connection is decided as
  before.\<close>

theorem record_takes_effect:
  assumes "answer_rule ans exe dst host dport = Some r"
    and "q = fst (record_answer p ans exe dst host dport orig)"
  shows "covers r exe dst host dport
   \<and> decide q exe' dst' host' dport' =
      (if \<not> covers r exe' dst' host' dport' then decide p exe' dst' host' dport'
       else if ans = Block \<or> ans = BlockApp then Deny
       else if \<exists>f \<in> forbids p. covers f exe' dst' host' dport' then Deny
       else Allow)"
proof -
  have "rules_of q = insert r (rules_of p)" "default_or_ask q = default_or_ask p"
    using assms by (simp_all add: record_rules record_default)
  from decide_insert [OF this, of exe' dst' host' dport']
  show ?thesis
    using covers_answer_rule [OF assms(1)] assms(1)
    by (cases ans) (auto simp: answer_rule_def)
qed

theorem record_takes_effect_witness:
  "decide (fst (record_answer default_policy Block (Some ''/bin/nc'') (V4 1 2 3 4) None 22 Approved))
     (Some ''/bin/nc'') (V4 1 2 3 4) None 22 = Deny"
  using record_takes_effect [OF _ refl, of Block "Some ''/bin/nc''" "V4 1 2 3 4" None 22
      "PRule Forbid (OnlyApp ''/bin/nc'') (Addr (V4 1 2 3 4)) (Some 22)" default_policy Approved
      "Some ''/bin/nc''" "V4 1 2 3 4" None 22]
  by (simp add: answer_rule_def scope_of_def dest_of_def on_some_def)

text \<open>Targets round trip: what \<open>join_target\<close> writes, for a host name or an address with or
  without a port, \<open>split_target\<close> reads back.\<close>

theorem target_roundtrip:
  assumes "target_ok h"
  shows "split_target (join_target h p) = (h, p)"
  using assms by (rule split_join_target)

theorem target_roundtrip_witness:
  "split_target ''[fe80::1]:443'' = (''fe80::1'', Some 443)"
proof -
  have "join_target ''fe80::1'' (Some 443) = ''[fe80::1]:443''" by code_simp
  moreover have "target_ok ''fe80::1''"
    using target_ok_show_ip [of "V6 0xfe80 0 0 0 0 0 0 1"]
    by (subgoal_tac "show_ip (V6 0xfe80 0 0 0 0 0 0 1) = ''fe80::1''") (simp, code_simp)
  ultimately show ?thesis using target_roundtrip [of "''fe80::1''" "Some 443"] by simp
qed

text \<open>A recorded answer survives a restart: when the policy file ends in a newline, appending
  the line that \<open>record\<close> writes and loading the file again gives the policy that \<open>record\<close> left in
  memory, for executables and host names that the file format can hold.\<close>

theorem record_persists:
  assumes "ends_nl t" and "record_ok exe host"
    and "record_answer (fst (load (Some t))) ans exe dst host dport orig = (q, Some l)"
  shows "fst (load (Some (t @ l @ [newline]))) = q"
  using assms record_line_ok [OF assms(2,3)] record_line_applies [OF assms(2,3)]
  by (simp add: load_snoc)

theorem record_persists_witness:
  "fst (load (Some (''allow-dest 1.2.3.4:22'' @ tab # ''# approved; unattributed, no hostname seen'' @ [newline])))
     = default_policy\<lparr>allow_dest := {(V4 1 2 3 4, Some 22)}\<rparr>"
proof -
  let ?l = "''allow-dest 1.2.3.4:22'' @ tab # ''# approved; unattributed, no hostname seen''"
  have j: "join_target (show_ip (V4 1 2 3 4)) (Some 22) = ''1.2.3.4:22''" by code_simp
  have "record_answer (fst (load (Some []))) AllowConn None (V4 1 2 3 4) None 22 Approved
      = (default_policy\<lparr>allow_dest := {(V4 1 2 3 4, Some 22)}\<rparr>, Some ?l)"
    by (simp add: record_defs load_def on_some_def j tabs_def del: show_ip.simps) (simp add: default_policy_def)
  from record_persists [OF _ _ this] show ?thesis
    by (simp add: ends_nl_def record_ok_def)
qed

end
