(* ===== verification/Policy_File.thy ===== *)
theory Policy_File
  imports Policy
begin

text \<open>
  The policy file as a document (\<open>src/policy.rs\<close>): listing, adding and removing rules, the
  single-valued directives, forgetting an application, clearing, and the atomic rewrite.

  The disk is a map from paths to contents together with the set of operations the operating
  system refuses, so that every \<open>?\<close> and every ignored error of the code is a branch.  A file
  is read as a string only if it exists, may be read, and is UTF-8.
\<close>

section \<open>The disk\<close>

datatype fs_op = ReadOp | WriteOp | AppendOp | RenameOp

record disk =
  files :: "string \<Rightarrow> string option"
  denied :: "(fs_op \<times> string) set"

datatype io_error =
    NotFound | PermissionDenied | NotUtf8
  | UnknownKind string
  | NeedsDestBinary string
  | NotAnAddress string
  | UseHostKind string string

type_synonym 'a io = "io_error + 'a"

definition read_to_string :: "disk \<Rightarrow> string \<Rightarrow> string io" where
  "read_to_string d p =
     (if (ReadOp, p) \<in> denied d then Inl PermissionDenied
      else case files d p of
        None \<Rightarrow> Inl NotFound
      | Some t \<Rightarrow> if str_valid t then Inr t else Inl NotUtf8)"

definition result_ok :: "'e + 'a \<Rightarrow> 'a option" where
  "result_ok r = (case r of Inl e \<Rightarrow> None | Inr x \<Rightarrow> Some x)"

definition fs_write :: "disk \<Rightarrow> string \<Rightarrow> string \<Rightarrow> unit io \<times> disk" where
  "fs_write d p data =
     (if (WriteOp, p) \<in> denied d then (Inl PermissionDenied, d)
      else (Inr (), d\<lparr>files := (files d)(p \<mapsto> data)\<rparr>))"

definition fs_rename :: "disk \<Rightarrow> string \<Rightarrow> string \<Rightarrow> unit io \<times> disk" where
  "fs_rename d p q =
     (if (RenameOp, q) \<in> denied d then (Inl PermissionDenied, d)
      else case files d p of
        None \<Rightarrow> (Inl NotFound, d)
      | Some t \<Rightarrow> (Inr (), d\<lparr>files := (if p = q then files d else (files d)(p := None, q \<mapsto> t))\<rparr>))"

text \<open>\<open>OpenOptions::new().create(true).append(true).open(path)\<close> and one \<open>writeln!\<close>.\<close>

definition append_line :: "disk \<Rightarrow> string \<Rightarrow> string \<Rightarrow> unit io \<times> disk" where
  "append_line d p l =
     (if (AppendOp, p) \<in> denied d then (Inl PermissionDenied, d)
      else (Inr (), d\<lparr>files := (files d)(p \<mapsto>
              (case files d p of None \<Rightarrow> [] | Some t \<Rightarrow> t) @ l @ [newline])\<rparr>))"

text \<open>\<open>Path::with_extension\<close>: the last component loses what follows its last dot, unless the
  component has no other character before it, and gets the new extension.\<close>

definition split_file_name :: "string \<Rightarrow> string \<times> string" where
  "split_file_name p = (case rsplit_at_char (CHR ''/'') p of
      Some (dir, f) \<Rightarrow> (dir @ ''/'', f)
    | None \<Rightarrow> ([], p))"

definition file_stem :: "string \<Rightarrow> string" where
  "file_stem f = (case rsplit_at_char (CHR ''.'') f of
      Some (s, ext) \<Rightarrow> if s = [] then f else s
    | None \<Rightarrow> f)"

definition with_extension :: "string \<Rightarrow> string \<Rightarrow> string" where
  "with_extension p ext = (case split_file_name p of (dir, f) \<Rightarrow>
     if f = [] \<or> f = ''.'' \<or> f = ''..'' then p else dir @ file_stem f @ ''.'' @ ext)"

definition tmp_path :: "string \<Rightarrow> string" where
  "tmp_path p = with_extension p ''conf.tmp''"

definition write_atomic :: "disk \<Rightarrow> string \<Rightarrow> string \<Rightarrow> unit io \<times> disk" where
  "write_atomic d path data = (let tmp = tmp_path path in
     case fs_write d tmp data of
       (Inl e, d') \<Rightarrow> (Inl e, d')
     | (Inr _, d') \<Rightarrow> fs_rename d' tmp path)"

section \<open>Lines and rules\<close>

record rule =
  kind :: string
  rvalue :: string
  comment :: "string option"

definition KINDS :: "string list" where
  "KINDS = [''allow-app'', ''deny-app'', ''allow-host'', ''deny-host'', ''allow-dest'', ''deny-dest'',
     ''allow-host-from'', ''allow-dest-from'', ''deny-host-from'', ''deny-dest-from'']"

definition split_comment :: "string \<Rightarrow> string \<times> string option" where
  "split_comment raw = (case split_at_char (CHR ''#'') raw of
      Some (body, c) \<Rightarrow> (body, Some (trim c))
    | None \<Rightarrow> (raw, None))"

definition normalise :: "string \<Rightarrow> string \<Rightarrow> string" where
  "normalise k v =
     (if k = ''allow-host'' \<or> k = ''deny-host'' then
        (case split_target v of (h, p) \<Rightarrow> join_target (to_lowercase h) p)
      else if k = ''allow-host-from'' \<or> k = ''deny-host-from'' then
        (case split_scoped v of
           Some (h, e) \<Rightarrow> (case split_target h of (hh, p) \<Rightarrow>
              join_target (to_lowercase hh) p @ '' '' @ e)
         | None \<Rightarrow> v)
      else if k = ''allow-dest-from'' \<or> k = ''deny-dest-from'' then
        (case split_scoped v of
           Some (a, e) \<Rightarrow> (case split_target a of (aa, p) \<Rightarrow>
              (case parse_ip aa of
                 Some addr \<Rightarrow> join_target (show_ip addr) p @ '' '' @ e
               | None \<Rightarrow> v))
         | None \<Rightarrow> v)
      else if k = ''allow-dest'' \<or> k = ''deny-dest'' then
        (case split_target v of (a, p) \<Rightarrow>
           (case parse_ip a of
              Some addr \<Rightarrow> join_target (show_ip addr) p
            | None \<Rightarrow> v))
      else v)"

definition parse_line :: "string \<Rightarrow> (string \<times> string \<times> string option) option" where
  "parse_line raw = (case split_comment raw of (b, c) \<Rightarrow>
     let body = trim b in
     if body = [] then None
     else (case splitn2_ws body of (k, rest) \<Rightarrow>
       let v = trim (unwrap_or_empty rest) in
       if v = [] then None else Some (k, v, c)))"

definition rules_text :: "string \<Rightarrow> rule list" where
  "rules_text t = map (\<lambda>(k, v, c). \<lparr>kind = k, rvalue = v, comment = c\<rparr>)
     (filter (\<lambda>(k, v, c). k \<in> set KINDS) (List.map_filter parse_line (lines t)))"

definition rules :: "disk \<Rightarrow> string \<Rightarrow> rule list" where
  "rules d path = (case read_to_string d path of Inl e \<Rightarrow> [] | Inr t \<Rightarrow> rules_text t)"

section \<open>Adding a rule\<close>

definition check_scoped :: "string \<Rightarrow> string \<Rightarrow> unit io" where
  "check_scoped k v =
     (if k \<in> {''allow-host-from'', ''allow-dest-from'', ''deny-host-from'', ''deny-dest-from''} then
        (case split_scoped v of
           Some (d, e) \<Rightarrow>
             (if ends_with k ''dest-from'' \<and> parse_ip (fst (split_target d)) = None
              then Inl (NotAnAddress d) else Inr ())
         | None \<Rightarrow> Inl (NeedsDestBinary k))
      else Inr ())"

definition check_rule :: "string \<Rightarrow> string \<Rightarrow> unit io" where
  "check_rule k v =
     (if k \<notin> set KINDS then Inl (UnknownKind k)
      else case check_scoped k v of
        Inl e \<Rightarrow> Inl e
      | Inr _ \<Rightarrow>
         if (k = ''allow-dest'' \<or> k = ''deny-dest'') \<and> parse_ip (fst (split_target v)) = None
         then Inl (UseHostKind v (if k = ''deny-dest'' then ''deny-host'' else ''allow-host''))
         else Inr ())"

definition rule_line :: "string \<Rightarrow> string \<Rightarrow> string option \<Rightarrow> string" where
  "rule_line k norm note = (case note of
      Some n \<Rightarrow> k @ '' '' @ norm @ [tab] @ ''# '' @ n
    | None \<Rightarrow> k @ '' '' @ norm)"

definition same_rule :: "string \<Rightarrow> string \<Rightarrow> rule \<Rightarrow> bool" where
  "same_rule k norm r \<longleftrightarrow> kind r = k \<and> normalise (kind r) (rvalue r) = norm"

definition add_rule :: "disk \<Rightarrow> string \<Rightarrow> string \<Rightarrow> string \<Rightarrow> string option \<Rightarrow> bool io \<times> disk" where
  "add_rule d path k v note = (case check_rule k v of
      Inl e \<Rightarrow> (Inl e, d)
    | Inr _ \<Rightarrow> (let norm = normalise k v in
        if list_ex (same_rule k norm) (rules d path) then (Inr False, d)
        else (case append_line d path (rule_line k norm note) of
            (Inl e, d') \<Rightarrow> (Inl e, d')
          | (Inr _, d') \<Rightarrow> (Inr True, d'))))"

section \<open>Rewriting the file\<close>

text \<open>The loop shared by the three rewriting operations: copy the lines that are not hit.\<close>

fun keep_lines :: "(string \<Rightarrow> bool) \<Rightarrow> string list \<Rightarrow> string \<Rightarrow> nat \<Rightarrow> string \<times> nat" where
  "keep_lines hit [] kept removed = (kept, removed)"
| "keep_lines hit (raw # rest) kept removed =
     (if hit raw then keep_lines hit rest kept (removed + 1)
      else keep_lines hit rest (kept @ raw @ [newline]) removed)"

definition remove_hit :: "string \<Rightarrow> string \<Rightarrow> string \<Rightarrow> bool" where
  "remove_hit k want raw = (case parse_line raw of
      Some (k', v, c) \<Rightarrow> k' = k \<and> normalise k' v = want
    | None \<Rightarrow> False)"

definition remove_rule :: "disk \<Rightarrow> string \<Rightarrow> string \<Rightarrow> string \<Rightarrow> nat io \<times> disk" where
  "remove_rule d path k v = (case read_to_string d path of
      Inl e \<Rightarrow> (Inl e, d)
    | Inr text \<Rightarrow>
       (case keep_lines (remove_hit k (normalise k v)) (lines text) [] 0 of (kept, removed) \<Rightarrow>
          if removed > 0 then
            (case write_atomic d path kept of
               (Inl e, d') \<Rightarrow> (Inl e, d')
             | (Inr _, d') \<Rightarrow> (Inr removed, d'))
          else (Inr removed, d)))"

definition app_hit :: "string \<Rightarrow> string \<Rightarrow> bool" where
  "app_hit exe raw = (case parse_line raw of
      Some (k, v, c) \<Rightarrow>
        (if k = ''allow-app'' \<or> k = ''deny-app'' then v = exe
         else if k \<in> {''app-id'', ''allow-host-from'', ''deny-host-from'', ''allow-dest-from'', ''deny-dest-from''}
         then (case split_scoped v of Some (x, e) \<Rightarrow> e = exe | None \<Rightarrow> False)
         else False)
    | None \<Rightarrow> False)"

definition clear_hit :: "string \<Rightarrow> bool" where
  "clear_hit raw = (case parse_line raw of
      Some (k, v, c) \<Rightarrow> k \<in> set KINDS \<or> k = ''app-id''
    | None \<Rightarrow> False)"

definition backup_path :: "string \<Rightarrow> string" where
  "backup_path path = path @ ''.bak''"

text \<open>\<open>remove_app\<close> and \<open>clear_rules\<close> read, take a backup, and then rewrite.\<close>

definition rewrite_with_backup :: "(string \<Rightarrow> bool) \<Rightarrow> disk \<Rightarrow> string \<Rightarrow> (nat \<times> string) io \<times> disk" where
  "rewrite_with_backup hit d path = (case read_to_string d path of
      Inl e \<Rightarrow> (Inl e, d)
    | Inr text \<Rightarrow>
       (case fs_write d (backup_path path) text of
          (Inl e, d1) \<Rightarrow> (Inl e, d1)
        | (Inr _, d1) \<Rightarrow>
           (case keep_lines hit (lines text) [] 0 of (kept, removed) \<Rightarrow>
              if removed > 0 then
                (case write_atomic d1 path kept of
                   (Inl e, d2) \<Rightarrow> (Inl e, d2)
                 | (Inr _, d2) \<Rightarrow> (Inr (removed, backup_path path), d2))
              else (Inr (removed, backup_path path), d1))))"

definition remove_app :: "disk \<Rightarrow> string \<Rightarrow> string \<Rightarrow> (nat \<times> string) io \<times> disk" where
  "remove_app d path exe = rewrite_with_backup (app_hit exe) d path"

definition clear_rules :: "disk \<Rightarrow> string \<Rightarrow> (nat \<times> string) io \<times> disk" where
  "clear_rules d path = rewrite_with_backup clear_hit d path"

section \<open>Single-valued directives\<close>

definition is_key :: "string \<Rightarrow> string \<Rightarrow> bool" where
  "is_key key raw = (case parse_line raw of Some (k, v, c) \<Rightarrow> k = key | None \<Rightarrow> False)"

fun set_lines :: "string \<Rightarrow> string \<Rightarrow> string list \<Rightarrow> string \<Rightarrow> bool \<Rightarrow> string \<times> bool" where
  "set_lines key val [] out written = (out, written)"
| "set_lines key val (raw # rest) out written =
     (if is_key key raw then
        (if written then set_lines key val rest out written
         else set_lines key val rest (out @ key @ '' '' @ val @ [newline]) True)
      else set_lines key val rest (out @ raw @ [newline]) written)"

definition set_directive :: "disk \<Rightarrow> string \<Rightarrow> string \<Rightarrow> string \<Rightarrow> unit io \<times> disk" where
  "set_directive d path key val =
     (let text = (case read_to_string d path of Inl e \<Rightarrow> [] | Inr t \<Rightarrow> t) in
      case set_lines key val (lines text) [] False of (out, written) \<Rightarrow>
        write_atomic d path (if written then out else out @ key @ '' '' @ val @ [newline]))"

definition set_mode :: "disk \<Rightarrow> string \<Rightarrow> mode \<Rightarrow> unit io \<times> disk" where
  "set_mode d path m = set_directive d path ''mode'' (mode_str m)"

definition set_attribution :: "disk \<Rightarrow> string \<Rightarrow> attribution_mode \<Rightarrow> unit io \<times> disk" where
  "set_attribution d path a = set_directive d path ''attribution'' (attribution_str a)"

section \<open>Loading and recording on the disk\<close>

definition policy_load :: "disk \<Rightarrow> string \<Rightarrow> policy \<times> diag list" where
  "policy_load d path = load (result_ok (read_to_string d path))"

text \<open>An error while appending is ignored: the policy in memory keeps the answer.\<close>

definition append_opt :: "disk \<Rightarrow> string \<Rightarrow> string option \<Rightarrow> disk" where
  "append_opt d path l = (case l of None \<Rightarrow> d | Some x \<Rightarrow> snd (append_line d path x))"

definition policy_record ::
  "disk \<Rightarrow> string \<Rightarrow> policy \<Rightarrow> answer \<Rightarrow> string option \<Rightarrow> ip_addr \<Rightarrow> string option \<Rightarrow> u16 \<Rightarrow> origin
    \<Rightarrow> policy \<times> disk" where
  "policy_record d path p ans exe dst host dport orig =
     (case record_answer p ans exe dst host dport orig of (q, l) \<Rightarrow> (q, append_opt d path l))"

definition policy_record_id :: "disk \<Rightarrow> string \<Rightarrow> policy \<Rightarrow> string \<Rightarrow> string \<Rightarrow> policy \<times> disk" where
  "policy_record_id d path p exe sha =
     (case record_id p exe sha of (q, l) \<Rightarrow> (q, append_opt d path l))"

section \<open>The loader as a sequence of edits\<close>

text \<open>What a directive does to a policy, whatever the policy is.\<close>

datatype edit =
    Nop
  | SetDefault verdict
  | AddRule prule
  | SetPrompt string
  | SetId string string
  | SetMode mode
  | SetAttribution attribution_mode

fun insert_rule :: "prule \<Rightarrow> policy \<Rightarrow> policy" where
  "insert_rule (PRule Permit (OnlyApp e) AnyDest pt) p = p\<lparr>allow_app := insert e (allow_app p)\<rparr>"
| "insert_rule (PRule Forbid (OnlyApp e) AnyDest pt) p = p\<lparr>deny_app := insert e (deny_app p)\<rparr>"
| "insert_rule (PRule Permit AnyApp (Host h) pt) p = p\<lparr>allow_host := insert (h, pt) (allow_host p)\<rparr>"
| "insert_rule (PRule Forbid AnyApp (Host h) pt) p = p\<lparr>deny_host := insert (h, pt) (deny_host p)\<rparr>"
| "insert_rule (PRule Permit AnyApp (Addr a) pt) p = p\<lparr>allow_dest := insert (a, pt) (allow_dest p)\<rparr>"
| "insert_rule (PRule Forbid AnyApp (Addr a) pt) p = p\<lparr>deny_dest := insert (a, pt) (deny_dest p)\<rparr>"
| "insert_rule (PRule Permit (OnlyApp e) (Host h) pt) p = p\<lparr>allow_host_from := insert (e, h, pt) (allow_host_from p)\<rparr>"
| "insert_rule (PRule Forbid (OnlyApp e) (Host h) pt) p = p\<lparr>deny_host_from := insert (e, h, pt) (deny_host_from p)\<rparr>"
| "insert_rule (PRule Permit (OnlyApp e) (Addr a) pt) p = p\<lparr>allow_dest_from := insert (e, a, pt) (allow_dest_from p)\<rparr>"
| "insert_rule (PRule Forbid (OnlyApp e) (Addr a) pt) p = p\<lparr>deny_dest_from := insert (e, a, pt) (deny_dest_from p)\<rparr>"
| "insert_rule (PRule ef AnyApp AnyDest pt) p = p"

fun apply_edit :: "edit \<Rightarrow> policy \<Rightarrow> policy" where
  "apply_edit Nop p = p"
| "apply_edit (SetDefault v) p = p\<lparr>default_verdict := Some v\<rparr>"
| "apply_edit (AddRule r) p = insert_rule r p"
| "apply_edit (SetPrompt s) p = p\<lparr>prompt := Some s\<rparr>"
| "apply_edit (SetId e s) p = p\<lparr>app_id := hm_insert e s (app_id p)\<rparr>"
| "apply_edit (SetMode m) p = p\<lparr>pmode := Some m\<rparr>"
| "apply_edit (SetAttribution a) p = p\<lparr>attribution := Some a\<rparr>"

definition host_rule :: "effect \<Rightarrow> scope \<Rightarrow> string \<Rightarrow> edit" where
  "host_rule ef sc h = (case split_target h of (hh, pt) \<Rightarrow> AddRule (PRule ef sc (Host (to_lowercase hh)) pt))"

definition addr_rule :: "effect \<Rightarrow> scope \<Rightarrow> string \<Rightarrow> edit" where
  "addr_rule ef sc a = (case split_target a of (aa, pt) \<Rightarrow>
     (case parse_ip aa of Some addr \<Rightarrow> AddRule (PRule ef sc (Addr addr) pt) | None \<Rightarrow> Nop))"

definition scoped_edit :: "(string \<Rightarrow> string \<Rightarrow> edit) \<Rightarrow> string \<Rightarrow> edit" where
  "scoped_edit f v = (case split_scoped v of Some (x, e) \<Rightarrow> f x e | None \<Rightarrow> Nop)"

definition option_edit :: "('a \<Rightarrow> edit) \<Rightarrow> 'a option \<Rightarrow> edit" where
  "option_edit f x = (case x of Some y \<Rightarrow> f y | None \<Rightarrow> Nop)"

definition edit_of :: "string \<Rightarrow> string \<Rightarrow> edit" where
  "edit_of k v =
     (if k = ''default'' then
        (if v = ''allow'' then SetDefault Allow
         else if v = ''deny'' then SetDefault Deny
         else if v = ''ask'' then SetDefault Ask else Nop)
      else if k = ''allow-app'' then AddRule (PRule Permit (OnlyApp v) AnyDest None)
      else if k = ''deny-app'' then AddRule (PRule Forbid (OnlyApp v) AnyDest None)
      else if k = ''allow-host'' then host_rule Permit AnyApp v
      else if k = ''deny-host'' then host_rule Forbid AnyApp v
      else if k = ''prompt'' then SetPrompt v
      else if k = ''app-id'' then scoped_edit (\<lambda>s e. SetId e (to_lowercase s)) v
      else if k = ''mode'' then option_edit SetMode (parse_mode v)
      else if k = ''attribution'' then option_edit SetAttribution (parse_attribution v)
      else if k = ''allow-host-from'' then scoped_edit (\<lambda>h e. host_rule Permit (OnlyApp e) h) v
      else if k = ''allow-dest-from'' then scoped_edit (\<lambda>a e. addr_rule Permit (OnlyApp e) a) v
      else if k = ''deny-host-from'' then scoped_edit (\<lambda>h e. host_rule Forbid (OnlyApp e) h) v
      else if k = ''deny-dest-from'' then scoped_edit (\<lambda>a e. addr_rule Forbid (OnlyApp e) a) v
      else if k = ''allow-dest'' then addr_rule Permit AnyApp v
      else if k = ''deny-dest'' then addr_rule Forbid AnyApp v
      else Nop)"

lemmas edit_defs = host_rule_def addr_rule_def scoped_edit_def option_edit_def

lemma if_eqI: "(c \<Longrightarrow> f a = x) \<Longrightarrow> (\<not> c \<Longrightarrow> f b = y) \<Longrightarrow> f (if c then a else b) = (if c then x else y)"
  by simp

lemma load_directive_edit: "fst (load_directive n k v p) = apply_edit (edit_of k v) p"
  unfolding load_directive_def edit_of_def if_distrib [of "\<lambda>e. apply_edit e p"]
  by (intro if_eqI; simp add: edit_defs load_host_from_def load_dest_from_def load_dest_def
      split: prod.splits option.splits)

definition line_edit :: "string \<Rightarrow> edit" where
  "line_edit raw = (let line = trim (before_char (CHR ''#'') raw) in
     if line = [] then Nop
     else (case splitn2_ws line of (k, rest) \<Rightarrow> edit_of k (trim (unwrap_or_empty rest))))"

lemma apply_line_edit: "apply_line raw = apply_edit (line_edit raw)"
  by (rule ext) (simp add: apply_line_def load_line_def line_edit_def Let_def load_directive_edit
      split: prod.splits)

lemma load_edits: "fst (load (Some t)) = fold apply_edit (map line_edit (lines t)) default_policy"
  by (simp add: load_fold fold_map comp_def fun_eq_iff [of apply_line] apply_line_edit [symmetric])

lemma split_comment_fst: "fst (split_comment raw) = before_char (CHR ''#'') raw"
  using split_at_char_None [of "CHR ''#''" raw]
  by (cases "split_at_char (CHR ''#'') raw")
    (auto simp: split_comment_def split_at_char_Some before_char_id before_char_append)

lemma parse_line_Some:
  "parse_line raw = Some (k, v, c) \<Longrightarrow> line_edit raw = edit_of k v \<and> v \<noteq> []"
  using split_comment_fst [of raw]
  by (auto simp: parse_line_def line_edit_def Let_def split: prod.splits if_splits)

lemma parse_line_None:
  "parse_line raw = None \<Longrightarrow> line_edit raw = Nop \<or> (\<exists>k. line_edit raw = edit_of k [])"
  using split_comment_fst [of raw]
  by (auto simp: parse_line_def line_edit_def Let_def split: prod.splits if_splits)

lemma edit_of_Nil: "edit_of k [] \<in> {Nop, SetPrompt [], AddRule (PRule Permit (OnlyApp []) AnyDest None),
    AddRule (PRule Forbid (OnlyApp []) AnyDest None), AddRule (PRule Permit AnyApp (Host []) None),
    AddRule (PRule Forbid AnyApp (Host []) None)}"
proof -
  have s: "split_target [] = ([], None)" "split_scoped [] = None" "parse_ip [] = None"
    "parse_mode [] = None" "parse_attribution [] = None" "to_lowercase [] = []"
    by code_simp+
  show ?thesis by (simp add: edit_of_def edit_defs s)
qed

section \<open>What the edits of a file add up to\<close>

fun edit_rules :: "edit \<Rightarrow> prule set" where
  "edit_rules (AddRule r) = (if rscope r = AnyApp \<and> rdest r = AnyDest then {}
     else if rdest r = AnyDest then {PRule (reffect r) (rscope r) AnyDest None} else {r})"
| "edit_rules _ = {}"

lemma rules_of_insert_rule: "rules_of (insert_rule r p) = edit_rules (AddRule r) \<union> rules_of p"
  by (induction r p rule: insert_rule.induct) (simp_all add: rules_of_updates)

lemma insert_rule_settings: "settings (insert_rule r p) = settings p"
  by (induction r p rule: insert_rule.induct) (simp_all add: settings_def)

lemma rules_of_setting [simp]:
  "rules_of (p\<lparr>default_verdict := a\<rparr>) = rules_of p" "rules_of (p\<lparr>prompt := b\<rparr>) = rules_of p"
  "rules_of (p\<lparr>app_id := c\<rparr>) = rules_of p" "rules_of (p\<lparr>pmode := d\<rparr>) = rules_of p"
  "rules_of (p\<lparr>attribution := e\<rparr>) = rules_of p"
  by (simp_all add: rules_of_def)

lemma rules_of_edit: "rules_of (apply_edit ed p) = edit_rules ed \<union> rules_of p"
  by (cases ed) (simp_all add: rules_of_insert_rule del: edit_rules.simps(1))

lemma rules_of_edits: "rules_of (fold apply_edit eds p) = (\<Union>ed \<in> set eds. edit_rules ed) \<union> rules_of p"
  by (induction eds arbitrary: p) (auto simp: rules_of_edit)

lemma rules_of_default [simp]: "rules_of default_policy = {}"
  by (simp add: rules_of_def default_policy_def)

lemma rules_of_load: "rules_of (fst (load (Some t))) = (\<Union>l \<in> set (lines t). edit_rules (line_edit l))"
  by (simp add: load_edits rules_of_edits)

text \<open>The identities a list of edits leaves, and the other settings.\<close>

definition edit_id :: "string \<Rightarrow> edit \<Rightarrow> string option" where
  "edit_id exe ed = (case ed of SetId e s \<Rightarrow> if e = exe then Some s else None | _ \<Rightarrow> None)"

lemma insert_rule_fields [simp]:
  "app_id (insert_rule r p) = app_id p" "pmode (insert_rule r p) = pmode p"
  "attribution (insert_rule r p) = attribution p" "prompt (insert_rule r p) = prompt p"
  "default_verdict (insert_rule r p) = default_verdict p"
  using insert_rule_settings [of r p] by (simp_all add: settings_def)

lemma app_id_edit: "hm_get (app_id (apply_edit ed p)) exe =
    (case edit_id exe ed of Some s \<Rightarrow> Some s | None \<Rightarrow> hm_get (app_id p) exe)"
  by (cases ed) (auto simp: edit_id_def hm_simps)

lemma app_id_filter:
  assumes "\<And>x. x \<in> set xs \<Longrightarrow> \<not> P x \<Longrightarrow> edit_id exe (f x) = None"
    and "hm_get (app_id p) exe = hm_get (app_id q) exe"
  shows "hm_get (app_id (fold apply_edit (map f xs) p)) exe
    = hm_get (app_id (fold apply_edit (map f (filter P xs)) q)) exe"
  using assms
proof (induction xs arbitrary: p q)
  case (Cons x xs)
  have "P x \<Longrightarrow> hm_get (app_id (apply_edit (f x) p)) exe = hm_get (app_id (apply_edit (f x) q)) exe"
    "\<not> P x \<Longrightarrow> hm_get (app_id (apply_edit (f x) p)) exe = hm_get (app_id q) exe"
    using Cons.prems by (simp_all add: app_id_edit split: option.split)
  then show ?case
    using Cons.IH [of "apply_edit (f x) p" "apply_edit (f x) q"] Cons.IH [of "apply_edit (f x) p" q] Cons.prems(1)
    by (cases "P x") auto
qed simp

definition base_settings :: "policy \<Rightarrow> verdict option \<times> string option \<times> mode option \<times> attribution_mode option" where
  "base_settings p = (default_verdict p, prompt p, pmode p, attribution p)"

fun is_setting :: "edit \<Rightarrow> bool" where
  "is_setting (SetDefault v) = True"
| "is_setting (SetPrompt s) = True"
| "is_setting (SetMode m) = True"
| "is_setting (SetAttribution a) = True"
| "is_setting ed = False"

lemma base_settings_edit:
  "\<not> is_setting ed \<Longrightarrow> base_settings (apply_edit ed p) = base_settings p"
  "base_settings p = base_settings q \<Longrightarrow> base_settings (apply_edit ed p) = base_settings (apply_edit ed q)"
  by (cases ed; simp add: base_settings_def)+

lemma base_settings_filter:
  assumes "\<And>x. x \<in> set xs \<Longrightarrow> \<not> P x \<Longrightarrow> \<not> is_setting (f x)" "base_settings p = base_settings q"
  shows "base_settings (fold apply_edit (map f xs) p) = base_settings (fold apply_edit (map f (filter P xs)) q)"
  using assms
proof (induction xs arbitrary: p q)
  case (Cons x xs)
  have "P x \<Longrightarrow> base_settings (apply_edit (f x) p) = base_settings (apply_edit (f x) q)"
    "\<not> P x \<Longrightarrow> base_settings (apply_edit (f x) p) = base_settings q"
    using Cons.prems base_settings_edit(1) [of "f x" p] base_settings_edit(2) [of p q "f x"] by auto
  then show ?case
    using Cons.IH [of "apply_edit (f x) p" "apply_edit (f x) q"] Cons.IH [of "apply_edit (f x) p" q] Cons.prems(1)
    by (cases "P x") auto
qed simp

section \<open>The rewriting loop\<close>

lemma keep_lines_eq: "keep_lines hit ls kept n =
    (kept @ unlines (filter (\<lambda>l. \<not> hit l) ls), n + length (filter hit ls))"
  by (induction ls arbitrary: kept n) auto

lemma lines_kept: "CHR 0x0D \<notin> set t \<Longrightarrow>
    lines (unlines (filter P (lines t))) = filter P (lines t)"
  by (intro lines_unlines) (auto dest: lines_ok)

lemma load_kept: "CHR 0x0D \<notin> set t \<Longrightarrow>
    fst (load (Some (unlines (filter P (lines t))))) =
    fold apply_edit (map line_edit (filter P (lines t))) default_policy"
  by (simp add: load_edits lines_kept)

text \<open>A file name that \<open>with_extension\<close> changes.\<close>

definition file_path :: "string \<Rightarrow> bool" where
  "file_path p \<longleftrightarrow> snd (split_file_name p) \<notin> {[], ''.'', ''..''}"

lemma tmp_path_neq: "file_path p \<Longrightarrow> tmp_path p \<noteq> p"
proof -
  assume f: "file_path p"
  obtain dir f where sp: "split_file_name p = (dir, f)" by fastforce
  have p: "p = dir @ f"
    using sp by (cases "rsplit_at_char (CHR ''/'') p")
      (auto simp: split_file_name_def rsplit_at_char_Some)
  have "file_stem f @ ''.conf.tmp'' \<noteq> f"
  proof
    assume eq: "file_stem f @ ''.conf.tmp'' = f"
    show False
    proof (cases "rsplit_at_char (CHR ''.'') f")
      case None
      then have "CHR ''.'' \<notin> set f" by (simp add: rsplit_at_char_None)
      then show False using eq by (metis in_set_conv_decomp append_Cons)
    next
      case (Some x)
      obtain s e where x: "x = (s, e)" by fastforce
      have fs: "f = s @ CHR ''.'' # e" "CHR ''.'' \<notin> set e"
        using rsplit_at_char_Some [of "CHR ''.''" f s e] Some x by auto
      have "length (file_stem f) < length f"
        using arg_cong [OF eq, of length] by simp
      then have st: "file_stem f = s" "s \<noteq> []"
        using Some x by (auto simp: file_stem_def split: if_splits)
      then have "''.conf.tmp'' = CHR ''.'' # e"
        using eq fs(1) by simp
      then show False using fs(2) by auto
    qed
  qed
  then show ?thesis
    using f sp p by (simp add: tmp_path_def with_extension_def file_path_def)
qed

lemma backup_neq: "backup_path p \<noteq> p" "file_path p \<Longrightarrow> backup_path p \<noteq> tmp_path p"
proof -
  show "backup_path p \<noteq> p" by (simp add: backup_path_def)
  assume "file_path p"
  then have "\<exists>s. tmp_path p = s @ ''p''"
    by (auto simp: tmp_path_def with_extension_def file_path_def split: prod.splits)
  moreover have "\<exists>s. backup_path p = s @ ''k''" by (auto simp: backup_path_def)
  ultimately show "backup_path p \<noteq> tmp_path p" by auto
qed

text \<open>A rewrite that reports success replaced the contents; one that fails leaves them alone.\<close>

lemma write_atomic_cases:
  assumes "write_atomic d path data = (r, d')" "file_path path"
  shows "denied d' = denied d"
    and "r = Inr () \<Longrightarrow> files d' path = Some data"
    and "r = Inl e \<Longrightarrow> files d' path = files d path"
    and "q \<noteq> path \<Longrightarrow> q \<noteq> tmp_path path \<Longrightarrow> files d' q = files d q"
  using assms tmp_path_neq [OF assms(2)]
  by (auto simp: write_atomic_def Let_def fs_write_def fs_rename_def split: if_splits)

lemma policy_load_read: "read_to_string d path = Inr t \<Longrightarrow> policy_load d path = load (Some t)"
  by (simp add: policy_load_def result_ok_def)

text \<open>The interface of an operation that drops the lines a predicate hits: the command reads the
  file, and on success reports how many lines went and has left the other lines.\<close>

locale line_filter =
  fixes hit :: "string \<Rightarrow> bool"
    and run :: "disk \<Rightarrow> string \<Rightarrow> nat io \<times> disk"
  assumes run_ok: "file_path path \<Longrightarrow> run d path = (Inr n, d') \<Longrightarrow>
      denied d' = denied d \<and> (\<exists>t. read_to_string d path = Inr t \<and> n = length (filter hit (lines t))
        \<and> files d' path = Some (if n = 0 then t else unlines (filter (\<lambda>l. \<not> hit l) (lines t))))"
    and run_err: "file_path path \<Longrightarrow> run d path = (Inl e, d') \<Longrightarrow> files d' path = files d path"
begin

lemma run_lines:
  assumes "file_path path" "run d path = (Inr n, d')" "read_to_string d path = Inr t" "CHR 0x0D \<notin> set t"
  shows "\<exists>t'. read_to_string d' path = Inr t' \<and> lines t' = filter (\<lambda>l. \<not> hit l) (lines t)
    \<and> n + length (lines t') = length (lines t)"
proof -
  let ?ks = "filter (\<lambda>l. \<not> hit l) (lines t)"
  from run_ok [OF assms(1,2)] assms(3)
  have n: "n = length (filter hit (lines t))" and d: "denied d' = denied d"
    and f: "files d' path = Some (if n = 0 then t else unlines ?ks)"
    by auto
  have t: "(ReadOp, path) \<notin> denied d" "str_valid t"
    using assms(3) by (auto simp: read_to_string_def split: if_splits option.splits)
  then have "str_valid (unlines ?ks)"
    by (intro str_valid_unlines) (auto intro: str_valid_lines)
  then have "read_to_string d' path = Inr (if n = 0 then t else unlines ?ks)"
    using t d f by (simp add: read_to_string_def)
  moreover have "n = 0 \<Longrightarrow> ?ks = lines t"
    by (auto simp: n filter_id_conv filter_empty_conv)
  ultimately show ?thesis
    using lines_kept [OF assms(4)] sum_length_filter_compl [of hit "lines t"] by (auto simp: n)
qed

lemma run_loads:
  assumes "file_path path" "run d path = (Inr n, d')" "read_to_string d path = Inr t" "CHR 0x0D \<notin> set t"
  shows "fst (policy_load d' path)
    = fold apply_edit (map line_edit (filter (\<lambda>l. \<not> hit l) (lines t))) default_policy"
  using run_lines [OF assms] by (auto simp: policy_load_def result_ok_def load_edits)

lemma run_rules:
  assumes "file_path path" "run d path = (Inr n, d')" "read_to_string d path = Inr t" "CHR 0x0D \<notin> set t"
    and "\<And>l. l \<in> set (lines t) \<Longrightarrow> hit l \<Longrightarrow> edit_rules (line_edit l) \<subseteq> R"
    and "\<And>l. l \<in> set (lines t) \<Longrightarrow> \<not> hit l \<Longrightarrow> edit_rules (line_edit l) \<inter> R \<subseteq> S"
  shows "rules_of (fst (policy_load d' path)) - S = rules_of (fst (policy_load d path)) - R - S"
  using assms(5,6) unfolding run_loads [OF assms(1-4)] policy_load_read [OF assms(3)] rules_of_edits rules_of_load
  by auto

lemma run_settings:
  assumes "file_path path" "run d path = (Inr n, d')" "read_to_string d path = Inr t" "CHR 0x0D \<notin> set t"
    and "\<And>l. l \<in> set (lines t) \<Longrightarrow> hit l \<Longrightarrow> \<not> is_setting (line_edit l)"
  shows "base_settings (fst (policy_load d' path)) = base_settings (fst (policy_load d path))"
  unfolding run_loads [OF assms(1-4)] policy_load_read [OF assms(3)] load_edits
  using assms(5) by (intro base_settings_filter [symmetric]) auto

lemma run_ids:
  assumes "file_path path" "run d path = (Inr n, d')" "read_to_string d path = Inr t" "CHR 0x0D \<notin> set t"
    and "\<And>l. l \<in> set (lines t) \<Longrightarrow> hit l \<Longrightarrow> edit_id exe (line_edit l) = None"
  shows "expected_id (fst (policy_load d' path)) exe = expected_id (fst (policy_load d path)) exe"
  unfolding run_loads [OF assms(1-4)] policy_load_read [OF assms(3)] load_edits expected_id_def
  using assms(5) by (intro app_id_filter [symmetric]) auto

lemma run_no_id:
  assumes "file_path path" "run d path = (Inr n, d')" "read_to_string d path = Inr t" "CHR 0x0D \<notin> set t"
    and "\<And>l. l \<in> set (lines t) \<Longrightarrow> \<not> hit l \<Longrightarrow> edit_id exe (line_edit l) = None"
  shows "expected_id (fst (policy_load d' path)) exe = None"
  using app_id_filter [of "filter (\<lambda>l. \<not> hit l) (lines t)" "\<lambda>l. False" exe line_edit default_policy default_policy]
    assms(5)
  by (simp add: run_loads [OF assms(1-4)] expected_id_def) (simp add: default_policy_def)

end

lemma remove_rule_run:
  assumes "file_path path"
  shows "remove_rule d path k v = (Inr n, d') \<Longrightarrow> denied d' = denied d \<and>
      (\<exists>t. read_to_string d path = Inr t \<and> n = length (filter (remove_hit k (normalise k v)) (lines t))
        \<and> files d' path = Some (if n = 0 then t
            else unlines (filter (\<lambda>l. \<not> remove_hit k (normalise k v) l) (lines t))))"
    and "remove_rule d path k v = (Inl e, d') \<Longrightarrow> files d' path = files d path"
  using write_atomic_cases(1,2,3) [OF _ assms]
  by (auto simp: remove_rule_def keep_lines_eq read_to_string_def
      split: sum.splits prod.splits if_splits option.splits)

lemma backup_run:
  assumes "file_path path"
  shows "rewrite_with_backup hit d path = (Inr (n, b), d') \<Longrightarrow> denied d' = denied d \<and>
      (\<exists>t. read_to_string d path = Inr t \<and> n = length (filter hit (lines t))
        \<and> files d' path = Some (if n = 0 then t else unlines (filter (\<lambda>l. \<not> hit l) (lines t)))
        \<and> b = backup_path path \<and> files d' b = Some t)"
    and "rewrite_with_backup hit d path = (Inl e, d') \<Longrightarrow> files d' path = files d path"
  using write_atomic_cases(1,2,3,4) [OF _ assms] backup_neq [of path] assms
  by (auto simp: rewrite_with_backup_def keep_lines_eq read_to_string_def fs_write_def
      split: sum.splits prod.splits if_splits option.splits)

definition count_only :: "(nat \<times> string) io \<times> disk \<Rightarrow> nat io \<times> disk" where
  "count_only r = apfst (map_sum id fst) r"

lemma count_only_simps:
  "count_only r = (Inr n, d') \<longleftrightarrow> (\<exists>b. r = (Inr (n, b), d'))"
  "count_only r = (Inl e, d') \<longleftrightarrow> r = (Inl e, d')"
  by (cases r; cases "fst r"; force simp: count_only_def)+

interpretation rm: line_filter "remove_hit k (normalise k v)" "\<lambda>d path. remove_rule d path k v" for k v
  by unfold_locales (use remove_rule_run in blast)+

interpretation app: line_filter "app_hit exe" "\<lambda>d path. count_only (remove_app d path exe)" for exe
  by unfold_locales (use backup_run in \<open>fastforce simp: count_only_simps remove_app_def\<close>)+

interpretation clr: line_filter clear_hit "\<lambda>d path. count_only (clear_rules d path)"
  by unfold_locales (use backup_run in \<open>fastforce simp: count_only_simps clear_rules_def\<close>)+

section \<open>Normal forms of rules\<close>

text \<open>The text of a rule's value, and the values whose host names the format can hold.\<close>

fun dest_text :: "dest \<Rightarrow> port \<Rightarrow> string" where
  "dest_text AnyDest pt = []"
| "dest_text (Host h) pt = join_target h pt"
| "dest_text (Addr a) pt = join_target (show_ip a) pt"

fun rule_text :: "prule \<Rightarrow> string" where
  "rule_text (PRule ef AnyApp d pt) = dest_text d pt"
| "rule_text (PRule ef (OnlyApp e) AnyDest pt) = e"
| "rule_text (PRule ef (OnlyApp e) d pt) = dest_text d pt @ '' '' @ e"

fun edit_ok :: "edit \<Rightarrow> bool" where
  "edit_ok (AddRule (PRule ef sc (Host h) pt)) = (target_ok h \<and> h \<noteq> [])"
| "edit_ok _ = True"

lemma edit_of_kinds:
  "edit_of ''allow-app'' v = AddRule (PRule Permit (OnlyApp v) AnyDest None)"
  "edit_of ''deny-app'' v = AddRule (PRule Forbid (OnlyApp v) AnyDest None)"
  "edit_of ''allow-host'' v = host_rule Permit AnyApp v"
  "edit_of ''deny-host'' v = host_rule Forbid AnyApp v"
  "edit_of ''allow-dest'' v = addr_rule Permit AnyApp v"
  "edit_of ''deny-dest'' v = addr_rule Forbid AnyApp v"
  "edit_of ''allow-host-from'' v = scoped_edit (\<lambda>h e. host_rule Permit (OnlyApp e) h) v"
  "edit_of ''deny-host-from'' v = scoped_edit (\<lambda>h e. host_rule Forbid (OnlyApp e) h) v"
  "edit_of ''allow-dest-from'' v = scoped_edit (\<lambda>a e. addr_rule Permit (OnlyApp e) a) v"
  "edit_of ''deny-dest-from'' v = scoped_edit (\<lambda>a e. addr_rule Forbid (OnlyApp e) a) v"
  by (simp_all add: edit_of_def)

lemma normalise_kinds:
  "normalise ''allow-app'' v = v" "normalise ''deny-app'' v = v"
  "normalise ''allow-host'' v = (case split_target v of (h, p) \<Rightarrow> join_target (to_lowercase h) p)"
  "normalise ''deny-host'' v = normalise ''allow-host'' v"
  "normalise ''allow-dest'' v = (case split_target v of (a, p) \<Rightarrow>
     (case parse_ip a of Some addr \<Rightarrow> join_target (show_ip addr) p | None \<Rightarrow> v))"
  "normalise ''deny-dest'' v = normalise ''allow-dest'' v"
  "normalise ''allow-host-from'' v = (case split_scoped v of
     Some (h, e) \<Rightarrow> (case split_target h of (hh, p) \<Rightarrow> join_target (to_lowercase hh) p @ '' '' @ e)
   | None \<Rightarrow> v)"
  "normalise ''deny-host-from'' v = normalise ''allow-host-from'' v"
  "normalise ''allow-dest-from'' v = (case split_scoped v of
     Some (a, e) \<Rightarrow> (case split_target a of (aa, p) \<Rightarrow>
       (case parse_ip aa of Some addr \<Rightarrow> join_target (show_ip addr) p @ '' '' @ e | None \<Rightarrow> v))
     | None \<Rightarrow> v)"
  "normalise ''deny-dest-from'' v = normalise ''allow-dest-from'' v"
  by (simp_all add: normalise_def)

lemma KINDS_iff: "k \<in> set KINDS \<longleftrightarrow> k = ''allow-app'' \<or> k = ''deny-app'' \<or> k = ''allow-host'' \<or> k = ''deny-host''
    \<or> k = ''allow-dest'' \<or> k = ''deny-dest'' \<or> k = ''allow-host-from'' \<or> k = ''allow-dest-from''
    \<or> k = ''deny-host-from'' \<or> k = ''deny-dest-from''"
  by (simp only: KINDS_def list.set insert_iff empty_iff simp_thms)

lemma KINDS_cases:
  assumes "k \<in> set KINDS" "P ''allow-app''" "P ''deny-app''" "P ''allow-host''" "P ''deny-host''"
    "P ''allow-dest''" "P ''deny-dest''" "P ''allow-host-from''" "P ''allow-dest-from''"
    "P ''deny-host-from''" "P ''deny-dest-from''"
  shows "P k"
  using assms(1) unfolding KINDS_iff by (elim disjE) (simp_all only: assms)

lemma split_scoped_Some: "split_scoped v = Some (d, e) \<Longrightarrow> trimmed e \<and> trimmed d"
  by (auto simp: split_scoped_def Let_def trimmed_trimI split: prod.splits option.splits if_splits)

lemma normalise_text:
  assumes "k \<in> set KINDS"
  shows "edit_of k v = AddRule r \<Longrightarrow> normalise k v = rule_text r"
    and "edit_of k v = Nop \<Longrightarrow> normalise k v = v"
proof -
  have "(edit_of k v = AddRule r \<longrightarrow> normalise k v = rule_text r) \<and> (edit_of k v = Nop \<longrightarrow> normalise k v = v)"
    using assms by (rule KINDS_cases) (auto simp: edit_of_kinds normalise_kinds edit_defs
      split: prod.splits option.splits)
  then show "edit_of k v = AddRule r \<Longrightarrow> normalise k v = rule_text r"
    and "edit_of k v = Nop \<Longrightarrow> normalise k v = v" by auto
qed

lemma kind_edit: "k \<in> set KINDS \<Longrightarrow> edit_of k v = Nop \<or> (\<exists>r. edit_of k v = AddRule r)"
  by (erule KINDS_cases) (auto simp: edit_of_kinds edit_defs split: prod.splits option.splits)

lemma host_rule_join: "target_ok h \<Longrightarrow> host_rule ef sc (join_target h p) = AddRule (PRule ef sc (Host (to_lowercase h)) p)"
  by (simp add: host_rule_def split_join_target)

lemma addr_rule_join: "addr_rule ef sc (join_target (show_ip a) p) = AddRule (PRule ef sc (Addr a) p)"
  by (simp add: addr_rule_def split_join_target parse_ip_show_ip)

lemma scoped_join:
  "target_ok h \<Longrightarrow> h \<noteq> [] \<Longrightarrow> trimmed e \<Longrightarrow> split_scoped (join_target h p @ CHR '' '' # e) = Some (join_target h p, e)"
  by (intro split_scoped_fields) (simp_all add: plain_join join_ne str_simps)

lemma scoped_edit_join:
  "target_ok h \<Longrightarrow> h \<noteq> [] \<Longrightarrow> trimmed e \<Longrightarrow> scoped_edit f (join_target h p @ CHR '' '' # e) = f (join_target h p) e"
  by (simp add: scoped_edit_def scoped_join)

lemma scoped_edit_rule:
  "scoped_edit f v = AddRule r \<Longrightarrow> \<exists>x e. f x e = AddRule r \<and> trimmed e"
  by (auto simp: scoped_edit_def split: option.splits dest: split_scoped_Some)

lemma host_rule_eq: "host_rule ef sc h = AddRule r \<Longrightarrow>
    \<exists>g pt. r = PRule ef sc (Host (to_lowercase g)) pt"
  by (auto simp: host_rule_def split: prod.splits)

lemma addr_rule_eq: "addr_rule ef sc h = AddRule r \<Longrightarrow> \<exists>a pt. r = PRule ef sc (Addr a) pt"
  by (auto simp: addr_rule_def split: prod.splits option.splits)

text \<open>Reading the normal form back gives the rule.\<close>

lemma edit_of_rule_text:
  assumes "k \<in> set KINDS" "edit_of k v = AddRule r" "edit_ok (AddRule r)"
  shows "edit_of k (rule_text r) = AddRule r"
  using assms(2,3)
  by (rule KINDS_cases [OF assms(1), of "\<lambda>k. edit_of k v = AddRule r \<longrightarrow> edit_ok (AddRule r) \<longrightarrow> edit_of k (rule_text r) = AddRule r",
        THEN mp, THEN mp, rotated -2])
    (auto simp: edit_of_kinds host_rule_join addr_rule_join scoped_edit_join
      dest!: scoped_edit_rule host_rule_eq addr_rule_eq)

lemma edit_of_normalise:
  assumes "k \<in> set KINDS" "edit_of k v = AddRule r" "edit_ok (edit_of k v)"
  shows "edit_of k (normalise k v) = AddRule r"
  using assms edit_of_rule_text [OF assms(1,2)] normalise_text(1) [OF assms(1,2)] by simp

lemma normalise_eq_iff:
  assumes "k \<in> set KINDS" "edit_of k v = AddRule r" "edit_ok (edit_of k v)" "edit_ok (edit_of k w)"
  shows "normalise k w = normalise k v \<longleftrightarrow> edit_of k w = edit_of k v"
proof
  assume eq: "normalise k w = normalise k v"
  have rv: "edit_of k (normalise k v) = AddRule r" by (rule edit_of_normalise [OF assms(1-3)])
  show "edit_of k w = edit_of k v"
  proof (cases "edit_of k w = Nop")
    case True
    then show ?thesis using eq rv normalise_text(2) [OF assms(1) True] assms(2) by simp
  next
    case False
    then obtain q where q: "edit_of k w = AddRule q" using kind_edit [OF assms(1)] by blast
    then show ?thesis using eq rv edit_of_normalise [OF assms(1) q assms(4)] assms(2) by simp
  qed
next
  assume "edit_of k w = edit_of k v"
  then show "normalise k w = normalise k v"
    using assms(2) normalise_text(1) [OF assms(1)] by simp
qed

text \<open>The kind of line a rule is written as; a directive that adds the rule has that kind.\<close>

fun rule_kind :: "prule \<Rightarrow> string" where
  "rule_kind (PRule Permit (OnlyApp e) AnyDest pt) = ''allow-app''"
| "rule_kind (PRule Forbid (OnlyApp e) AnyDest pt) = ''deny-app''"
| "rule_kind (PRule Permit AnyApp (Host h) pt) = ''allow-host''"
| "rule_kind (PRule Forbid AnyApp (Host h) pt) = ''deny-host''"
| "rule_kind (PRule Permit AnyApp (Addr a) pt) = ''allow-dest''"
| "rule_kind (PRule Forbid AnyApp (Addr a) pt) = ''deny-dest''"
| "rule_kind (PRule Permit (OnlyApp e) (Host h) pt) = ''allow-host-from''"
| "rule_kind (PRule Forbid (OnlyApp e) (Host h) pt) = ''deny-host-from''"
| "rule_kind (PRule Permit (OnlyApp e) (Addr a) pt) = ''allow-dest-from''"
| "rule_kind (PRule Forbid (OnlyApp e) (Addr a) pt) = ''deny-dest-from''"
| "rule_kind (PRule ef AnyApp AnyDest pt) = []"

lemma edit_of_other:
  "edit_of ''default'' v \<noteq> AddRule r" "edit_of ''prompt'' v \<noteq> AddRule r" "edit_of ''app-id'' v \<noteq> AddRule r"
  "edit_of ''mode'' v \<noteq> AddRule r" "edit_of ''attribution'' v \<noteq> AddRule r"
  by (simp_all add: edit_of_def edit_defs split: option.splits)

lemma edit_of_unknown:
  "k \<notin> set KINDS \<Longrightarrow> k \<notin> {''default'', ''prompt'', ''app-id'', ''mode'', ''attribution''} \<Longrightarrow> edit_of k v = Nop"
  unfolding KINDS_iff de_Morgan_disj insert_iff empty_iff edit_of_def
  by (elim conjE) (simp only: if_False)

lemma edit_of_AddRule_kind: "edit_of k v = AddRule r \<Longrightarrow> k \<in> set KINDS"
proof (rule ccontr)
  assume e: "edit_of k v = AddRule r" and k: "k \<notin> set KINDS"
  show False
  proof (cases "k \<in> {''default'', ''prompt'', ''app-id'', ''mode'', ''attribution''}")
    case True
    then show False using e unfolding insert_iff empty_iff by (elim disjE) (simp_all add: edit_of_other)
  next
    case False
    then show False using e edit_of_unknown [OF k, of v] by simp
  qed
qed

lemma edit_of_AddRule:
  assumes "edit_of k v = AddRule r"
  shows "k = rule_kind r" and "edit_rules (AddRule r) = {r}"
proof -
  have "edit_of k v = AddRule r \<longrightarrow> k = rule_kind r \<and> edit_rules (AddRule r) = {r}"
    by (rule KINDS_cases [OF edit_of_AddRule_kind [OF assms]])
      (auto simp: edit_of_kinds dest!: scoped_edit_rule host_rule_eq addr_rule_eq)
  then show "k = rule_kind r" "edit_rules (AddRule r) = {r}" using assms by auto
qed

text \<open>Rules whose names the file format can hold.\<close>

fun prule_ok :: "prule \<Rightarrow> bool" where
  "prule_ok (PRule ef sc d pt) =
     ((case sc of OnlyApp e \<Rightarrow> exe_ok e | AnyApp \<Rightarrow> d \<noteq> AnyDest)
      \<and> (case d of Host h \<Rightarrow> host_ok h | _ \<Rightarrow> True))"

lemma prule_ok_edit_ok: "prule_ok r \<Longrightarrow> edit_ok (AddRule r)"
  by (cases "AddRule r" rule: edit_ok.cases) (auto simp: host_ok_def)

lemma rule_text_ok:
  assumes "prule_ok r"
  shows "trimmed (rule_text r)" "CHR ''#'' \<notin> set (rule_text r)" "line_ok (rule_text r)"
proof -
  have j: "host_ok h \<Longrightarrow> plain (join_target h p) \<and> join_target h p \<noteq> [] \<and> CHR ''#'' \<notin> set (join_target h p)" for h p
    by (simp add: host_ok_def plain_join join_ne join_no_hash)
  have s: "host_ok h \<Longrightarrow> exe_ok e \<Longrightarrow> trimmed (join_target h p @ CHR '' '' # e)" for h e p
    using j [of h p] by (intro trimmed_fields) (auto simp: exe_ok_def str_simps)
  have "trimmed (rule_text r) \<and> CHR ''#'' \<notin> set (rule_text r) \<and> line_ok (rule_text r)"
    using assms j s
    by (cases r rule: rule_text.cases)
      (auto simp: trimmed_plain plain_line_ok exe_ok_def newline_def split: dest.splits)
  then show "trimmed (rule_text r)" "CHR ''#'' \<notin> set (rule_text r)" "line_ok (rule_text r)" by auto
qed

lemma KINDS_plain: "k \<in> set KINDS \<Longrightarrow> plain k \<and> k \<noteq> [] \<and> CHR ''#'' \<notin> set k \<and> line_ok k"
  by (erule KINDS_cases) (simp_all add: plain_char_def newline_def)

lemma rule_line_edit:
  assumes "edit_of k v = AddRule r" "prule_ok r"
  shows "apply_line (rule_line k (normalise k v) note) p = insert_rule r p"
    and "(case note of Some n \<Rightarrow> line_ok n | None \<Rightarrow> True) \<Longrightarrow> line_ok (rule_line k (normalise k v) note)"
proof -
  have k: "k \<in> set KINDS" by (rule edit_of_AddRule_kind [OF assms(1)])
  have n: "normalise k v = rule_text r" by (rule normalise_text(1) [OF k assms(1)])
  have ed: "edit_of k (rule_text r) = AddRule r"
    by (rule edit_of_rule_text [OF k assms(1) prule_ok_edit_ok [OF assms(2)]])
  have "apply_line (k @ CHR '' '' # rule_text r @ c) p = insert_rule r p"
    if "c = [] \<or> (\<exists>d. c = tab # CHR ''#'' # d)" for c
    using apply_line_directive [OF _ _ _ rule_text_ok(1,2) [OF assms(2)] that, of k] KINDS_plain [OF k]
    by (simp add: load_directive_edit ed)
  from this [of Nil] this [of "tab # CHR ''#'' # CHR '' '' # the note"]
  show "apply_line (rule_line k (normalise k v) note) p = insert_rule r p"
    by (cases "note") (simp_all add: rule_line_def n)
  show "(case note of Some n \<Rightarrow> line_ok n | None \<Rightarrow> True) \<Longrightarrow> line_ok (rule_line k (normalise k v) note)"
    using rule_text_ok(3) [OF assms(2)] KINDS_plain [OF k]
    by (cases "note") (simp_all add: rule_line_def n newline_def tab_def)
qed

text \<open>A rule of the file is a line with the rule's kind and normal form.\<close>

lemma line_adds_rule:
  assumes "edit_of k v = AddRule r" "prule_ok r" "edit_ok (line_edit l)"
  shows "r \<in> edit_rules (line_edit l) \<longleftrightarrow> remove_hit k (normalise k v) l"
    and "remove_hit k (normalise k v) l \<Longrightarrow> edit_rules (line_edit l) = {r}"
proof -
  have k: "k \<in> set KINDS" by (rule edit_of_AddRule_kind [OF assms(1)])
  have ok: "edit_ok (edit_of k v)" using assms(1,2) by (simp add: prule_ok_edit_ok)
  have hit: "line_edit l = AddRule r" if h: "remove_hit k (normalise k v) l"
  proof -
    obtain w c where pl: "parse_line l = Some (k, w, c)" and n: "normalise k w = normalise k v"
      using h by (auto simp: remove_hit_def split: option.splits)
    have "line_edit l = edit_of k w" using parse_line_Some [OF pl] by simp
    then show ?thesis using normalise_eq_iff [OF k assms(1) ok, of w] n assms(1,3) by simp
  qed
  have "remove_hit k (normalise k v) l" if r: "r \<in> edit_rules (line_edit l)"
  proof (cases "parse_line l")
    case None
    have bare: "q \<in> edit_rules (edit_of k' []) \<Longrightarrow> \<not> prule_ok q" for k' q
      using edit_of_Nil [of k'] by (auto simp: exe_ok_def trimmed_def host_ok_def)
    show ?thesis using parse_line_None [OF None] r assms(2) bare by force
  next
    case (Some x)
    then obtain k' w c where pl: "parse_line l = Some (k', w, c)" by (metis prod_cases3)
    then have le: "line_edit l = edit_of k' w" using parse_line_Some by blast
    then obtain q where q: "edit_of k' w = AddRule q" using r by (cases "edit_of k' w") auto
    have "q = r" using edit_of_AddRule(2) [OF q] r le q by simp
    then have "k' = k" using edit_of_AddRule(1) q assms(1) by metis
    then show ?thesis
      using normalise_eq_iff [OF k assms(1) ok, of w] assms(1,3) le q \<open>q = r\<close> pl
      by (simp add: remove_hit_def)
  qed
  then show "r \<in> edit_rules (line_edit l) \<longleftrightarrow> remove_hit k (normalise k v) l"
    using hit edit_of_AddRule(2) [OF assms(1)] by auto
  show "remove_hit k (normalise k v) l \<Longrightarrow> edit_rules (line_edit l) = {r}"
    using hit edit_of_AddRule(2) [OF assms(1)] by metis
qed

lemma same_rule_lines: "k \<in> set KINDS \<Longrightarrow>
    list_ex (same_rule k n) (rules_text t) \<longleftrightarrow> (\<exists>l \<in> set (lines t). remove_hit k n l)"
  by (force simp: rules_text_def list_ex_iff same_rule_def remove_hit_def map_filter_def
      split: option.splits)

section \<open>Setting a directive\<close>

lemma set_lines_eq: "set_lines key val ls out written =
    (out @ unlines (if written then filter (\<lambda>l. \<not> is_key key l) ls
        else takeWhile (\<lambda>l. \<not> is_key key l) ls @
          (if \<exists>l \<in> set ls. is_key key l
           then (key @ '' '' @ val) # filter (\<lambda>l. \<not> is_key key l) (dropWhile (\<lambda>l. \<not> is_key key l) ls)
           else [])),
     written \<or> (\<exists>l \<in> set ls. is_key key l))"
  by (induction ls arbitrary: out written) auto

lemma fold_set:
  fixes u :: "policy \<Rightarrow> policy"
  assumes key: "\<And>l p. l \<in> set ls \<Longrightarrow> is_key key l \<Longrightarrow> u (apply_line l p) = u p"
    and other: "\<And>l p. l \<in> set ls \<Longrightarrow> \<not> is_key key l \<Longrightarrow> u (apply_line l p) = apply_line l (u p)"
  shows "u (fold apply_line ls p) = fold apply_line (filter (\<lambda>l. \<not> is_key key l) ls) (u p)"
  using assms
proof (induction ls arbitrary: p)
  case (Cons l ls)
  show ?case
  proof (cases "is_key key l")
    case True
    then show ?thesis using Cons.IH [of "apply_line l p"] Cons.prems by simp
  next
    case False
    then show ?thesis using Cons.IH [of "apply_line l p"] Cons.prems by simp
  qed
qed simp

lemma fold_other:
  fixes u :: "policy \<Rightarrow> policy"
  assumes "\<And>l p. l \<in> set ls \<Longrightarrow> u (apply_line l p) = apply_line l (u p)"
  shows "u (fold apply_line ls p) = fold apply_line ls (u p)"
  using assms by (induction ls arbitrary: p) simp_all

text \<open>Replacing the lines of a key by one line that sets it is the update of the field.\<close>

lemma set_lines_load:
  fixes u :: "policy \<Rightarrow> policy"
  assumes key: "\<And>l p. is_key key l \<Longrightarrow> u (apply_line l p) = u p"
    and other: "\<And>l p. \<not> is_key key l \<Longrightarrow> u (apply_line l p) = apply_line l (u p)"
    and new: "\<And>p. apply_line (key @ '' '' @ val) p = u p" "line_ok (key @ '' '' @ val)"
    and t: "CHR 0x0D \<notin> set t"
    and out: "set_lines key val (lines t) [] False = (out, written)"
  shows "fst (load (Some (if written then out else out @ key @ '' '' @ val @ [newline])))
    = u (fst (load (Some t)))"
proof -
  let ?P = "\<lambda>l. \<not> is_key key l" and ?n = "key @ '' '' @ val"
  let ?ms = "takeWhile ?P (lines t) @ ?n # filter ?P (dropWhile ?P (lines t))"
  have nd: "\<not> (\<exists>l \<in> set (lines t). is_key key l) \<Longrightarrow> takeWhile ?P (lines t) = lines t \<and> dropWhile ?P (lines t) = []"
    by (auto simp: takeWhile_eq_all_conv dropWhile_eq_Nil_conv)
  have eq: "(if written then out else out @ ?n @ [newline]) = unlines ?ms"
  proof (cases "\<exists>l \<in> set (lines t). is_key key l")
    case True
    then show ?thesis using out by (auto simp: set_lines_eq)
  next
    case False
    then show ?thesis using out nd by (simp add: set_lines_eq nd [OF False] del: bex_simps ball_simps)
  qed
  have "\<forall>l \<in> set ?ms. line_ok l"
    using new(2) lines_ok [OF t] by (auto dest: set_takeWhileD set_dropWhileD)
  then have "fst (load (Some (unlines ?ms))) = fold apply_line ?ms default_policy"
    by (simp only: load_fold lines_unlines)
  also have "\<dots> = fold apply_line (filter ?P (dropWhile ?P (lines t))) (u (fold apply_line (takeWhile ?P (lines t)) default_policy))"
    by (simp only: fold_append comp_apply fold_simps new(1))
  also have "\<dots> = u (fold apply_line (dropWhile ?P (lines t)) (fold apply_line (takeWhile ?P (lines t)) default_policy))"
    by (rule fold_set [symmetric]) (simp_all add: key other)
  also have "\<dots> = u (fst (load (Some t)))"
    using fold_append [of apply_line "takeWhile ?P (lines t)" "dropWhile ?P (lines t)"]
    by (simp add: load_fold)
  finally show ?thesis using eq by (simp only: append_assoc)
qed

lemma edit_of_settings:
  "edit_of ''mode'' v = option_edit SetMode (parse_mode v)"
  "edit_of ''attribution'' v = option_edit SetAttribution (parse_attribution v)"
  by (simp_all add: edit_of_def)

lemma edit_cases_mode:
  "(apply_edit (edit_of ''mode'' v) p)\<lparr>pmode := x\<rparr> = p\<lparr>pmode := x\<rparr>"
  "(apply_edit (edit_of ''attribution'' v) p)\<lparr>attribution := y\<rparr> = p\<lparr>attribution := y\<rparr>"
  unfolding edit_of_settings option_edit_def by (simp_all split: option.split)

lemma insert_rule_commute:
  "(insert_rule r p)\<lparr>pmode := x\<rparr> = insert_rule r (p\<lparr>pmode := x\<rparr>)"
  "(insert_rule r p)\<lparr>attribution := y\<rparr> = insert_rule r (p\<lparr>attribution := y\<rparr>)"
  by (induction r p rule: insert_rule.induct) simp_all

lemma edit_commute:
  "\<forall>m. ed \<noteq> SetMode m \<Longrightarrow> (apply_edit ed p)\<lparr>pmode := x\<rparr> = apply_edit ed (p\<lparr>pmode := x\<rparr>)"
  "\<forall>a. ed \<noteq> SetAttribution a \<Longrightarrow> (apply_edit ed p)\<lparr>attribution := y\<rparr> = apply_edit ed (p\<lparr>attribution := y\<rparr>)"
  by (cases ed; simp add: insert_rule_commute)+

lemma edit_of_SetMode:
  "edit_of k v = SetMode m \<Longrightarrow> k = ''mode''" "edit_of k v = SetAttribution a \<Longrightarrow> k = ''attribution''"
proof -
  have K: "k \<in> set KINDS \<Longrightarrow> edit_of k v \<noteq> SetMode m \<and> edit_of k v \<noteq> SetAttribution a"
    using kind_edit [of k v] by auto
  have O: "edit_of ''default'' v \<notin> {SetMode m, SetAttribution a}" "edit_of ''prompt'' v \<notin> {SetMode m, SetAttribution a}"
    "edit_of ''app-id'' v \<notin> {SetMode m, SetAttribution a}" "edit_of ''mode'' v \<noteq> SetAttribution a"
    "edit_of ''attribution'' v \<noteq> SetMode m"
    by (simp_all add: edit_of_def edit_defs split: option.splits)
  have U: "edit_of k v = Nop \<or> k \<in> set KINDS \<or> k \<in> {''default'', ''prompt'', ''app-id'', ''mode'', ''attribution''}"
  proof (cases "k \<in> set KINDS \<or> k \<in> {''default'', ''prompt'', ''app-id'', ''mode'', ''attribution''}")
    case False
    then show ?thesis by (intro disjI1 edit_of_unknown) (simp_all only: de_Morgan_disj simp_thms)
  qed (rule disjI2)
  show "edit_of k v = SetMode m \<Longrightarrow> k = ''mode''"
    using U K O unfolding insert_iff empty_iff by (elim disjE) (simp_all only: simp_thms edit.distinct)
  show "edit_of k v = SetAttribution a \<Longrightarrow> k = ''attribution''"
    using U K O unfolding insert_iff empty_iff by (elim disjE) (simp_all only: simp_thms edit.distinct)
qed

lemma edit_of_SetId: "edit_of k v = SetId e s \<Longrightarrow> k = ''app-id''"
proof -
  assume e: "edit_of k v = SetId e s"
  have K: "k \<in> set KINDS \<Longrightarrow> False" using kind_edit [of k v] e by auto
  have O: "edit_of ''default'' v \<noteq> SetId e s" "edit_of ''prompt'' v \<noteq> SetId e s"
    "edit_of ''mode'' v \<noteq> SetId e s" "edit_of ''attribution'' v \<noteq> SetId e s"
    by (simp_all add: edit_of_def edit_defs split: option.splits)
  show "k = ''app-id''"
  proof (cases "k \<in> {''default'', ''prompt'', ''app-id'', ''mode'', ''attribution''}")
    case True
    then show ?thesis using e O unfolding insert_iff empty_iff by (elim disjE) (simp_all only: simp_thms)
  next
    case False
    then show ?thesis using K e edit_of_unknown [of k v] by fastforce
  qed
qed

lemma line_sets_mode:
  "line_edit l = SetMode m \<Longrightarrow> is_key ''mode'' l" "line_edit l = SetAttribution a \<Longrightarrow> is_key ''attribution'' l"
proof -
  have some: "\<exists>k v c. parse_line l = Some (k, v, c) \<and> line_edit l = edit_of k v"
    if assms: "line_edit l = SetMode m \<or> line_edit l = SetAttribution a"
  proof (cases "parse_line l")
    case None
    then obtain k where "line_edit l = edit_of k []" using parse_line_None [OF None] assms by force
    then show ?thesis using edit_of_Nil [of k] assms by auto
  next
    case (Some x)
    then show ?thesis using parse_line_Some by (cases x) blast
  qed
  show "is_key ''mode'' l" if s: "line_edit l = SetMode m"
  proof -
    obtain k v c where p: "parse_line l = Some (k, v, c)" "line_edit l = edit_of k v" using some s by blast
    then show ?thesis using edit_of_SetMode(1) [of k v m] s by (simp add: is_key_def)
  qed
  show "is_key ''attribution'' l" if s: "line_edit l = SetAttribution a"
  proof -
    obtain k v c where p: "parse_line l = Some (k, v, c)" "line_edit l = edit_of k v" using some s by blast
    then show ?thesis using edit_of_SetMode(2) [of k v a] s by (simp add: is_key_def)
  qed
qed

lemma key_line: "is_key k l \<Longrightarrow> \<exists>v. line_edit l = edit_of k v"
  using parse_line_Some by (fastforce simp: is_key_def split: option.splits)

lemma parse_literals: "parse_mode ''visibility'' = Some Visibility" "parse_mode ''enforcement'' = Some Enforcement"
  "parse_attribution ''procstat'' = Some Procstat" "parse_attribution ''kernel'' = Some KernelModule"
  by code_simp+

lemma parse_strs: "parse_mode (mode_str m) = Some m" "parse_attribution (attribution_str a) = Some a"
  by (cases m; simp add: parse_literals) (cases a; simp add: parse_literals)

lemma plain_strs: "plain (mode_str m)" "plain (attribution_str a)" "mode_str m \<noteq> []" "attribution_str a \<noteq> []"
  "CHR ''#'' \<notin> set (mode_str m)" "CHR ''#'' \<notin> set (attribution_str a)"
  by ((cases m; simp add: plain_char_def), (cases a; simp add: plain_char_def),
      (cases m; simp), (cases a; simp), (cases m; simp), (cases a; simp))

lemma set_mode_load:
  assumes "CHR 0x0D \<notin> set t" "set_lines ''mode'' (mode_str m) (lines t) [] False = (out, written)"
  shows "fst (load (Some (if written then out else out @ ''mode'' @ '' '' @ mode_str m @ [newline])))
    = (fst (load (Some t)))\<lparr>pmode := Some m\<rparr>"
proof (rule set_lines_load [OF _ _ _ _ assms])
  show "(apply_line l p)\<lparr>pmode := Some m\<rparr> = p\<lparr>pmode := Some m\<rparr>" if "is_key ''mode'' l" for l p
    using key_line [OF that] edit_cases_mode(1) by (auto simp: apply_line_edit)
  show "(apply_line l p)\<lparr>pmode := Some m\<rparr> = apply_line l (p\<lparr>pmode := Some m\<rparr>)" if "\<not> is_key ''mode'' l" for l p
    unfolding apply_line_edit by (rule edit_commute) (use that line_sets_mode(1) in blast)
  show "apply_line (''mode'' @ '' '' @ mode_str m) p = p\<lparr>pmode := Some m\<rparr>" for p
    using apply_line_directive [of "''mode''" "mode_str m" "[]" p]
    by (simp add: plain_char_def plain_strs trimmed_plain load_directive_edit) (simp add: edit_of_settings option_edit_def parse_strs)
  show "line_ok (''mode'' @ '' '' @ mode_str m)"
    using plain_line_ok [OF plain_strs(1)] by (simp add: newline_def)
qed

lemma set_attribution_load:
  assumes "CHR 0x0D \<notin> set t" "set_lines ''attribution'' (attribution_str a) (lines t) [] False = (out, written)"
  shows "fst (load (Some (if written then out else out @ ''attribution'' @ '' '' @ attribution_str a @ [newline])))
    = (fst (load (Some t)))\<lparr>attribution := Some a\<rparr>"
proof (rule set_lines_load [OF _ _ _ _ assms])
  show "(apply_line l p)\<lparr>attribution := Some a\<rparr> = p\<lparr>attribution := Some a\<rparr>" if "is_key ''attribution'' l" for l p
    using key_line [OF that] edit_cases_mode(2) by (auto simp: apply_line_edit)
  show "(apply_line l p)\<lparr>attribution := Some a\<rparr> = apply_line l (p\<lparr>attribution := Some a\<rparr>)"
    if "\<not> is_key ''attribution'' l" for l p
    unfolding apply_line_edit by (rule edit_commute) (use that line_sets_mode(2) in blast)
  show "apply_line (''attribution'' @ '' '' @ attribution_str a) p = p\<lparr>attribution := Some a\<rparr>" for p
    using apply_line_directive [of "''attribution''" "attribution_str a" "[]" p]
    by (simp add: plain_char_def plain_strs trimmed_plain load_directive_edit) (simp add: edit_of_settings option_edit_def parse_strs)
  show "line_ok (''attribution'' @ '' '' @ attribution_str a)"
    using plain_line_ok [OF plain_strs(2)] by (simp add: newline_def)
qed

section \<open>What forgetting and clearing touch\<close>

lemma edit_of_app_id: "edit_of ''app-id'' v = scoped_edit (\<lambda>s e. SetId e (to_lowercase s)) v"
  by (simp add: edit_of_def)

text \<open>The application a line is about.\<close>

definition line_app :: "string \<Rightarrow> string \<Rightarrow> string option" where
  "line_app k v =
     (if k = ''allow-app'' \<or> k = ''deny-app'' then Some v
      else if k \<in> {''app-id'', ''allow-host-from'', ''deny-host-from'', ''allow-dest-from'', ''deny-dest-from''}
      then map_option snd (split_scoped v)
      else None)"

lemma app_hit_iff: "app_hit exe raw \<longleftrightarrow> (\<exists>k v c. parse_line raw = Some (k, v, c) \<and> line_app k v = Some exe)"
proof (cases "parse_line raw")
  case (Some x)
  obtain k v c where x: "x = (k, v, c)" by (cases x)
  have s: "(case split_scoped v of Some (x, e) \<Rightarrow> e = exe | None \<Rightarrow> False)
      \<longleftrightarrow> map_option snd (split_scoped v) = Some exe"
    by (simp split: option.split prod.split)
  have "app_hit exe raw \<longleftrightarrow> line_app k v = Some exe"
    unfolding app_hit_def line_app_def Some x option.case prod.case s if_distrib [of "\<lambda>z. z = Some exe"]
    by (simp only: option.inject option.distinct)
  then show ?thesis by (simp add: Some x)
qed (simp add: app_hit_def)

lemma line_app_kinds:
  "line_app ''allow-app'' v = Some v" "line_app ''deny-app'' v = Some v"
  "line_app ''allow-host'' v = None" "line_app ''deny-host'' v = None"
  "line_app ''allow-dest'' v = None" "line_app ''deny-dest'' v = None"
  "line_app ''allow-host-from'' v = map_option snd (split_scoped v)"
  "line_app ''deny-host-from'' v = map_option snd (split_scoped v)"
  "line_app ''allow-dest-from'' v = map_option snd (split_scoped v)"
  "line_app ''deny-dest-from'' v = map_option snd (split_scoped v)"
  "line_app ''app-id'' v = map_option snd (split_scoped v)"
  "line_app ''default'' v = None" "line_app ''prompt'' v = None" "line_app ''mode'' v = None"
  "line_app ''attribution'' v = None"
  by (simp_all add: line_app_def)

definition app_edit :: "string option \<Rightarrow> edit \<Rightarrow> bool" where
  "app_edit a ed \<longleftrightarrow> (case ed of
      AddRule r \<Rightarrow> (case a of Some e \<Rightarrow> rscope r = OnlyApp e | None \<Rightarrow> rscope r = AnyApp)
    | SetId e s \<Rightarrow> a = Some e
    | Nop \<Rightarrow> True
    | _ \<Rightarrow> a = None)"

lemma app_edit_simps [simp]: "app_edit a Nop"
  "app_edit None (host_rule ef AnyApp h)" "app_edit None (addr_rule ef AnyApp h)"
  "app_edit (Some e) (host_rule ef (OnlyApp e) h)" "app_edit (Some e) (addr_rule ef (OnlyApp e) h)"
  "app_edit (Some e) (AddRule (PRule ef (OnlyApp e) d pt))" "app_edit (Some e) (SetId e s)"
  "app_edit None (option_edit SetMode x)" "app_edit None (option_edit SetAttribution y)"
  "app_edit None (SetPrompt p)" "app_edit None (SetDefault b)"
  by (auto simp: app_edit_def edit_defs split: prod.splits option.splits)

lemma app_edit_scoped:
  "(\<And>x e. app_edit (Some e) (f x e)) \<Longrightarrow> app_edit (map_option snd (split_scoped v)) (scoped_edit f v)"
  by (simp add: scoped_edit_def split: option.split)

lemma app_edit_of: "app_edit (line_app k v) (edit_of k v)"
proof (cases "k \<in> set KINDS")
  case True
  show ?thesis
    by (rule KINDS_cases [OF True]) (simp_all add: edit_of_kinds line_app_kinds app_edit_scoped)
next
  case False
  have d: "app_edit None (edit_of ''default'' v)" "edit_of ''prompt'' v = SetPrompt v"
    by (simp_all add: edit_of_def)
  show ?thesis
  proof (cases "k \<in> {''default'', ''prompt'', ''app-id'', ''mode'', ''attribution''}")
    case True
    then show ?thesis unfolding insert_iff empty_iff
      by (elim disjE) (simp_all add: edit_of_settings edit_of_app_id line_app_kinds d app_edit_scoped)
  qed (simp add: edit_of_unknown False)
qed

text \<open>What a line does, against whether \<open>forget\<close> and \<open>clear\<close> drop it.\<close>

lemma app_hit_edit:
  assumes "app_hit exe l"
  shows "edit_rules (line_edit l) \<subseteq> {r. rscope r = OnlyApp exe}"
    and "\<not> is_setting (line_edit l)"
    and "e \<noteq> exe \<Longrightarrow> edit_id e (line_edit l) = None"
proof -
  obtain k v c where p: "parse_line l = Some (k, v, c)" "line_app k v = Some exe"
    using assms by (auto simp: app_hit_iff)
  then have "app_edit (Some exe) (line_edit l)"
    using app_edit_of [of k v] parse_line_Some by simp
  then show "edit_rules (line_edit l) \<subseteq> {r. rscope r = OnlyApp exe}" "\<not> is_setting (line_edit l)"
    "e \<noteq> exe \<Longrightarrow> edit_id e (line_edit l) = None"
    by (cases "line_edit l"; auto simp: app_edit_def edit_id_def)+
qed

lemma app_miss_edit:
  assumes "\<not> app_hit exe l" "exe \<noteq> []"
  shows "edit_rules (line_edit l) \<inter> {r. rscope r = OnlyApp exe} = {}" and "edit_id exe (line_edit l) = None"
proof -
  have "edit_rules (line_edit l) \<inter> {r. rscope r = OnlyApp exe} = {} \<and> edit_id exe (line_edit l) = None"
  proof (cases "parse_line l")
    case None
    show ?thesis
    proof (cases "line_edit l = Nop")
      case False
      then obtain k where k: "line_edit l = edit_of k []" using parse_line_None [OF None] by blast
      show ?thesis using edit_of_Nil [of k] assms(2) unfolding k by (auto simp: edit_id_def)
    qed (simp add: edit_id_def)
  next
    case (Some x)
    then obtain k v c where p: "parse_line l = Some (k, v, c)" by (cases x) blast
    then have "line_app k v \<noteq> Some exe" using assms(1) by (auto simp: app_hit_iff)
    moreover have "app_edit (line_app k v) (line_edit l)"
      using app_edit_of [of k v] parse_line_Some [OF p] by simp
    ultimately show ?thesis
      by (cases "line_edit l"; cases "line_app k v") (auto simp: app_edit_def edit_id_def)
  qed
  then show "edit_rules (line_edit l) \<inter> {r. rscope r = OnlyApp exe} = {}" "edit_id exe (line_edit l) = None"
    by auto
qed

text \<open>The rules a line without a value adds: they name nothing.\<close>

definition blank_rules :: "prule set" where
  "blank_rules = {r. rport r = None \<and> (rscope r = OnlyApp [] \<and> rdest r = AnyDest \<or> rscope r = AnyApp \<and> rdest r = Host [])}"

lemma clear_hit_edit: "clear_hit l \<Longrightarrow> \<not> is_setting (line_edit l)"
proof -
  assume "clear_hit l"
  then obtain k v c where p: "parse_line l = Some (k, v, c)" and k: "k \<in> set KINDS \<or> k = ''app-id''"
    by (auto simp: clear_hit_def split: option.splits)
  show "\<not> is_setting (line_edit l)"
    using k kind_edit [of k v] parse_line_Some [OF p]
    by (auto simp: edit_of_app_id scoped_edit_def split: option.splits)
qed

lemma clear_miss_edit:
  assumes "\<not> clear_hit l"
  shows "edit_rules (line_edit l) \<subseteq> blank_rules" and "edit_id e (line_edit l) = None"
proof -
  have "edit_rules (line_edit l) \<subseteq> blank_rules \<and> edit_id e (line_edit l) = None"
  proof (cases "parse_line l")
    case None
    show ?thesis
    proof (cases "line_edit l = Nop")
      case False
      then obtain k where k: "line_edit l = edit_of k []" using parse_line_None [OF None] by blast
      show ?thesis using edit_of_Nil [of k] unfolding k by (auto simp: edit_id_def blank_rules_def)
    qed (simp add: edit_id_def)
  next
    case (Some x)
    then obtain k v c where p: "parse_line l = Some (k, v, c)" by (cases x) blast
    then have k: "k \<notin> set KINDS" "k \<noteq> ''app-id''" using assms by (simp_all add: clear_hit_def)
    have "edit_of k v = AddRule r \<Longrightarrow> False" for r using edit_of_AddRule_kind k by blast
    moreover have "edit_of k v = SetId a b \<Longrightarrow> k = ''app-id''" for a b
      using edit_of_SetId by blast
    ultimately show ?thesis
      using parse_line_Some [OF p] k(2) by (cases "edit_of k v") (auto simp: edit_id_def)
  qed
  then show "edit_rules (line_edit l) \<subseteq> blank_rules" "edit_id e (line_edit l) = None" by auto
qed

lemma settings_filter:
  assumes "\<And>x. x \<in> set xs \<Longrightarrow> \<not> P x \<Longrightarrow> \<exists>r. f x = AddRule r" "settings p = settings q"
  shows "settings (fold apply_edit (map f xs) p) = settings (fold apply_edit (map f (filter P xs)) q)"
  using assms
proof (induction xs arbitrary: p q)
  case (Cons x xs)
  have "settings (apply_edit (f x) p) = settings (apply_edit (f x) q)"
    using Cons.prems(2) by (cases "f x") (simp_all add: settings_def)
  moreover have "settings (apply_edit (f x) p) = settings q" if "\<not> P x"
    using Cons.prems(1) [of x] Cons.prems(2) that by (auto simp: insert_rule_settings)
  ultimately show ?case
    using Cons.IH [of "apply_edit (f x) p" "apply_edit (f x) q"] Cons.IH [of "apply_edit (f x) p" q] Cons.prems(1)
    by (cases "P x") auto
qed simp

lemma str_valid_snoc:
  assumes "ends_nl t" "str_valid t" "str_valid l"
  shows "str_valid (t @ l @ [newline])"
proof (cases t rule: rev_cases)
  case Nil
  then show ?thesis using assms(3) str_valid_newline [of l "[]"] by simp
next
  case (snoc ys y)
  then show ?thesis
    using assms str_valid_newline [of ys] str_valid_newline [of l "[]"] by (simp add: ends_nl_def)
qed

section \<open>What the file format cannot hold\<close>

text \<open>The line of an answer is appended even when the file does not end with a newline; the answer
  and the last rule of the file are then one line, and both are lost.\<close>

lemma append_merges_last_line:
  "let t = ''allow-app /bin/a''; r = record_answer (fst (load (Some t))) AllowApp (Some ''/bin/b'') (V4 1 2 3 4) None 443 Approved;
       q = fst (load (Some (t @ the (snd r) @ [newline])))
   in {''/bin/a'', ''/bin/b''} \<subseteq> allow_app (fst r) \<and> ''/bin/a'' \<notin> allow_app q \<and> ''/bin/b'' \<notin> allow_app q"
  by code_simp

text \<open>A path with a hash sign is cut there when it is loaded again.\<close>

lemma hash_path_is_cut:
  "let r = record_answer default_policy AllowApp (Some ''/opt/c#/x'') (V4 1 2 3 4) None 443 Approved;
       q = fst (load (Some (the (snd r) @ [newline])))
   in ''/opt/c#/x'' \<in> allow_app (fst r) \<and> ''/opt/c#/x'' \<notin> allow_app q \<and> ''/opt/c'' \<in> allow_app q"
  by code_simp

text \<open>A host name with a newline writes further directives.\<close>

lemma newline_in_host_adds_rule:
  "let h = ''x'' @ newline # ''allow-app /bin/evil'' @ newline # ''#'';
       r = record_answer default_policy AllowConn (Some ''/bin/b'') (V4 1 2 3 4) (Some h) 443 Learned;
       q = fst (load (Some (the (snd r) @ [newline])))
   in ''/bin/evil'' \<notin> allow_app (fst r) \<and> ''/bin/evil'' \<in> allow_app q"
  by code_simp

text \<open>A rewrite normalises line ends: a carriage return before the newline of a kept line is lost.\<close>

lemma rewrite_drops_carriage_returns:
  "fst (keep_lines (app_hit ''/bin/a'') (lines (''mode visibility'' @ CHR 0x0D # newline # ''allow-app /bin/a'' @ [newline])) [] 0)
     = ''mode visibility'' @ [newline]"
  by code_simp

section \<open>Properties\<close>

text \<open>A small disk on which the operations succeed.\<close>

definition demo_disk :: "string \<Rightarrow> disk" where
  "demo_disk t = \<lparr>files = [''/etc/pfsnitch.conf'' \<mapsto> t], denied = {}\<rparr>"

definition demo_text :: string where
  "demo_text = ''mode visibility'' @ newline # ''allow-app /bin/a'' @ newline # ''allow-dest-from 1.2.3.4:53 /bin/b'' @ [newline]"

lemma demo_path: "file_path ''/etc/pfsnitch.conf''"
  by code_simp

lemma demo_read: "read_to_string (demo_disk demo_text) ''/etc/pfsnitch.conf'' = Inr demo_text"
proof -
  have "str_valid demo_text" by code_simp
  then show ?thesis by (simp add: read_to_string_def demo_disk_def)
qed

lemma demo_lines: "lines demo_text = [''mode visibility'', ''allow-app /bin/a'', ''allow-dest-from 1.2.3.4:53 /bin/b'']"
  by code_simp

lemma demo_no_cr: "CHR 0x0D \<notin> set demo_text"
  by code_simp

text \<open>When the operating system refuses nothing, the operations succeed.\<close>

lemma append_succeeds: "denied d = {} \<Longrightarrow> \<exists>d'. append_line d p l = (Inr (), d')"
  by (simp add: append_line_def)

lemma fs_write_succeeds: "denied d = {} \<Longrightarrow> \<exists>d'. fs_write d p x = (Inr (), d') \<and> denied d' = {} \<and> files d' p = Some x"
  by (simp add: fs_write_def)

lemma write_succeeds: "denied d = {} \<Longrightarrow> \<exists>d'. write_atomic d p x = (Inr (), d')"
  by (auto simp: write_atomic_def Let_def fs_write_def fs_rename_def)

lemma remove_succeeds:
  "denied d = {} \<Longrightarrow> read_to_string d path = Inr t \<Longrightarrow> \<exists>n d'. remove_rule d path k v = (Inr n, d')"
  using write_succeeds [of d path "fst (keep_lines (remove_hit k (normalise k v)) (lines t) [] 0)"]
  by (auto simp: remove_rule_def split: prod.split)

lemma rewrite_succeeds:
  assumes "denied d = {}" "read_to_string d path = Inr t"
  shows "\<exists>n b d'. rewrite_with_backup hit d path = (Inr (n, b), d')"
proof -
  obtain d1 where w: "fs_write d (backup_path path) t = (Inr (), d1)" "denied d1 = {}"
    using fs_write_succeeds [OF assms(1)] by blast
  then show ?thesis
    using write_succeeds [OF w(2), of path "fst (keep_lines hit (lines t) [] 0)"] assms(2)
    by (auto simp: rewrite_with_backup_def split: prod.split)
qed

lemma add_succeeds: "denied d = {} \<Longrightarrow> check_rule k v = Inr () \<Longrightarrow> \<exists>b d'. add_rule d path k v note = (Inr b, d')"
  using append_succeeds [of d path "rule_line k (normalise k v) note"] by (auto simp: add_rule_def Let_def)

lemma demo_denied: "denied (demo_disk t) = {}"
  by (simp add: demo_disk_def)

text \<open>The disks an interrupted \<open>write_atomic\<close> can leave: the temporary file holds a prefix of the
  data, or all of it, or it has been renamed.\<close>

definition write_atomic_states :: "disk \<Rightarrow> string \<Rightarrow> string \<Rightarrow> disk set" where
  "write_atomic_states d path data =
     {d} \<union> (\<lambda>n. d\<lparr>files := (files d)(tmp_path path \<mapsto> take n data)\<rparr>) ` {0..length data}
     \<union> {snd (write_atomic d path data)}"



text \<open>A failed operation leaves the policy file as it was: when \<open>remove_rule\<close>, \<open>remove_app\<close> or
  \<open>clear_rules\<close> returns an error, no rule has been lost.\<close>

theorem failed_rewrite_keeps_policy:
  assumes "file_path path"
    and "remove_rule d path k v = (Inl e, d') \<or> remove_app d path exe = (Inl e, d')
      \<or> clear_rules d path = (Inl e, d')"
  shows "files d' path = files d path"
  using assms(2) rm.run_err [OF assms(1), of d k v e d'] app.run_err [OF assms(1), of d exe e d']
    clr.run_err [OF assms(1), of d e d']
  by (auto simp: count_only_simps)

theorem failed_rewrite_keeps_policy_witness:
  "files (snd (clear_rules ((demo_disk demo_text)\<lparr>denied := {(RenameOp, ''/etc/pfsnitch.conf'')}\<rparr>) ''/etc/pfsnitch.conf''))
     ''/etc/pfsnitch.conf'' = Some demo_text"
proof -
  let ?d = "(demo_disk demo_text)\<lparr>denied := {(RenameOp, ''/etc/pfsnitch.conf'')}\<rparr>"
  have v: "str_valid demo_text" by code_simp
  have h: "map clear_hit (lines demo_text) = [False, True, True]" by code_simp
  have "\<exists>d'. clear_rules ?d ''/etc/pfsnitch.conf'' = (Inl PermissionDenied, d')"
    using h by (simp add: clear_rules_def rewrite_with_backup_def read_to_string_def v demo_disk_def fs_write_def
        keep_lines_eq demo_lines write_atomic_def Let_def fs_rename_def)
  then obtain d' where d: "clear_rules ?d ''/etc/pfsnitch.conf'' = (Inl PermissionDenied, d')" by blast
  then show ?thesis
    using failed_rewrite_keeps_policy [OF demo_path disjI2 [OF disjI2 [OF d]]] by (simp add: demo_disk_def)
qed

text \<open>\<open>add_rule\<close> adds the rule, once: it reports \<open>true\<close> exactly when the policy did not hold the
  rule yet, and the policy that is loaded afterwards has the rules it had and this one.\<close>

theorem add_rule_inserts:
  assumes "read_to_string d path = Inr t" and "ends_nl t" and "str_valid (rule_line k (normalise k v) note)"
    and "edit_of k v = AddRule r" and "prule_ok r" and "case note of Some n \<Rightarrow> line_ok n | None \<Rightarrow> True"
    and "\<forall>l \<in> set (lines t). edit_ok (line_edit l)"
    and "add_rule d path k v note = (Inr b, d')"
  shows "rules_of (fst (policy_load d' path)) = insert r (rules_of (fst (policy_load d path)))
    \<and> (b \<longleftrightarrow> r \<notin> rules_of (fst (policy_load d path)))"
proof -
  have k: "k \<in> set KINDS" by (rule edit_of_AddRule_kind [OF assms(4)])
  have old: "r \<in> rules_of (fst (policy_load d path)) \<longleftrightarrow> list_ex (same_rule k (normalise k v)) (rules d path)"
    using line_adds_rule(1) [OF assms(4,5)] assms(7)
    by (simp add: policy_load_read [OF assms(1)] rules_of_load rules_def assms(1) same_rule_lines [OF k])
  show ?thesis
  proof (cases "list_ex (same_rule k (normalise k v)) (rules d path)")
    case True
    then have "b = False \<and> d' = d" using assms(8) by (auto simp: add_rule_def Let_def split: sum.splits)
    then show ?thesis using old True by auto
  next
    case False
    let ?l = "rule_line k (normalise k v) note"
    have b: "b" and d': "append_line d path ?l = (Inr (), d')"
      using assms(8) False by (auto simp: add_rule_def Let_def split: sum.splits prod.splits)
    have t: "files d path = Some t" "(ReadOp, path) \<notin> denied d" "str_valid t"
      using assms(1) by (auto simp: read_to_string_def split: if_splits option.splits)
    have "str_valid (t @ ?l @ [newline])" by (rule str_valid_snoc [OF assms(2) t(3) assms(3)])
    then have "read_to_string d' path = Inr (t @ ?l @ [newline])"
      using d' t by (auto simp: append_line_def read_to_string_def split: if_splits)
    then have "fst (policy_load d' path) = insert_rule r (fst (policy_load d path))"
      using load_snoc [OF assms(2) rule_line_edit(2) [OF assms(4,5,6)]] rule_line_edit(1) [OF assms(4,5)]
      by (simp add: policy_load_read assms(1))
    then show ?thesis
      using rules_of_insert_rule [of r] edit_of_AddRule(2) [OF assms(4)] old False b by simp
  qed
qed

lemma demo_edits: "\<forall>l \<in> set (lines demo_text). edit_ok (line_edit l)"
proof -
  have "map line_edit (lines demo_text) = [SetMode Visibility, AddRule (PRule Permit (OnlyApp ''/bin/a'') AnyDest None),
      AddRule (PRule Permit (OnlyApp ''/bin/b'') (Addr (V4 1 2 3 4)) (Some 53))]"
    by code_simp
  then show ?thesis by (auto simp: demo_lines)
qed

lemma demo_rule: "edit_of ''allow-app'' ''/bin/a'' = AddRule (PRule Permit (OnlyApp ''/bin/a'') AnyDest None)"
  "edit_of ''allow-app'' ''/bin/c'' = AddRule (PRule Permit (OnlyApp ''/bin/c'') AnyDest None)"
  "prule_ok (PRule Permit (OnlyApp ''/bin/a'') AnyDest None)" "prule_ok (PRule Permit (OnlyApp ''/bin/c'') AnyDest None)"
  by (simp_all add: edit_of_def exe_ok_def newline_def trimmed_plain plain_char_def)

theorem add_rule_inserts_witness:
  "rules_of (fst (policy_load (snd (add_rule (demo_disk demo_text) ''/etc/pfsnitch.conf'' ''allow-app'' ''/bin/c'' None))
       ''/etc/pfsnitch.conf''))
   = insert (PRule Permit (OnlyApp ''/bin/c'') AnyDest None)
       (rules_of (fst (policy_load (demo_disk demo_text) ''/etc/pfsnitch.conf'')))"
proof -
  have l: "str_valid (rule_line ''allow-app'' (normalise ''allow-app'' ''/bin/c'') None)" by code_simp
  have n: "ends_nl demo_text" by code_simp
  have "check_rule ''allow-app'' ''/bin/c'' = Inr ()" by code_simp
  then obtain b d' where a: "add_rule (demo_disk demo_text) ''/etc/pfsnitch.conf'' ''allow-app'' ''/bin/c'' None = (Inr b, d')"
    using add_succeeds [OF demo_denied] by blast
  show ?thesis
    using add_rule_inserts [OF demo_read n l demo_rule(2,4) _ demo_edits a] by (simp add: a)
qed

text \<open>\<open>remove_rule\<close> removes the rule and nothing else: on success the loaded policy has the
  rules it had without this one, the settings and the pinned identities it had, and the number
  reported is the number of lines that went.\<close>

theorem remove_rule_removes:
  assumes "file_path path" and "read_to_string d path = Inr t" and "CHR 0x0D \<notin> set t"
    and "edit_of k v = AddRule r" and "prule_ok r" and "\<forall>l \<in> set (lines t). edit_ok (line_edit l)"
    and "remove_rule d path k v = (Inr n, d')"
  shows "rules_of (fst (policy_load d' path)) = rules_of (fst (policy_load d path)) - {r}
    \<and> settings (fst (policy_load d' path)) = settings (fst (policy_load d path))
    \<and> (\<exists>t'. read_to_string d' path = Inr t' \<and> n + length (lines t') = length (lines t))"
proof -
  note hit = line_adds_rule [OF assms(4,5)]
  have ed: "line_edit l = AddRule r" if m: "l \<in> set (lines t)" "remove_hit k (normalise k v) l" for l
  proof -
    have "edit_rules (line_edit l) = {r}" using hit(2) m assms(6) by blast
    moreover obtain w c where "parse_line l = Some (k, w, c)"
      using m(2) by (auto simp: remove_hit_def split: option.splits)
    then have "line_edit l = edit_of k w" using parse_line_Some by blast
    ultimately show ?thesis
      using kind_edit [OF edit_of_AddRule_kind [OF assms(4)], of w] edit_of_AddRule(2) [of k w] by auto
  qed
  have "rules_of (fst (policy_load d' path)) - {} = rules_of (fst (policy_load d path)) - {r} - {}"
    by (rule rm.run_rules [OF assms(1,7,2,3)]) (use hit assms(6) in auto)
  moreover have "fst (policy_load d' path) = fold apply_edit (map line_edit (filter (\<lambda>l. \<not> remove_hit k (normalise k v) l) (lines t))) default_policy"
    by (rule rm.run_loads [OF assms(1,7,2,3)])
  moreover have "settings (fold apply_edit (map line_edit (lines t)) default_policy)
      = settings (fold apply_edit (map line_edit (filter (\<lambda>l. \<not> remove_hit k (normalise k v) l) (lines t))) default_policy)"
    using ed by (intro settings_filter) auto
  ultimately show ?thesis
    using rm.run_lines [OF assms(1,7,2,3)] policy_load_read [OF assms(2)] by (auto simp: load_edits)
qed

theorem remove_rule_removes_witness:
  "rules_of (fst (policy_load (snd (remove_rule (demo_disk demo_text) ''/etc/pfsnitch.conf'' ''allow-app'' ''/bin/a''))
       ''/etc/pfsnitch.conf''))
   = rules_of (fst (policy_load (demo_disk demo_text) ''/etc/pfsnitch.conf'')) - {PRule Permit (OnlyApp ''/bin/a'') AnyDest None}"
proof -
  obtain n d' where a: "remove_rule (demo_disk demo_text) ''/etc/pfsnitch.conf'' ''allow-app'' ''/bin/a'' = (Inr n, d')"
    using remove_succeeds [OF demo_denied demo_read] by blast
  show ?thesis
    using remove_rule_removes [OF demo_path demo_read demo_no_cr demo_rule(1,3) demo_edits a] by (simp add: a)
qed

text \<open>C20: forgetting an application forgets exactly that application: after a successful
  \<open>remove_app\<close> no rule is scoped to it and no identity is pinned for it, every other rule, every
  other identity and every setting is as before, and the backup holds the old text.\<close>

theorem remove_app_forgets:
  assumes "file_path path" and "read_to_string d path = Inr t" and "CHR 0x0D \<notin> set t" and "exe \<noteq> []"
    and "remove_app d path exe = (Inr (n, b), d')"
  shows "rules_of (fst (policy_load d' path)) = {r \<in> rules_of (fst (policy_load d path)). rscope r \<noteq> OnlyApp exe}
    \<and> base_settings (fst (policy_load d' path)) = base_settings (fst (policy_load d path))
    \<and> expected_id (fst (policy_load d' path)) exe = None
    \<and> (\<forall>e. e \<noteq> exe \<longrightarrow> expected_id (fst (policy_load d' path)) e = expected_id (fst (policy_load d path)) e)
    \<and> b = backup_path path \<and> files d' b = Some t"
proof -
  have run: "count_only (remove_app d path exe) = (Inr n, d')" using assms(5) by (simp add: count_only_simps)
  have "rules_of (fst (policy_load d' path)) - {} = rules_of (fst (policy_load d path)) - {r. rscope r = OnlyApp exe} - {}"
    by (rule app.run_rules [OF assms(1) run assms(2,3)]) (use app_hit_edit(1) app_miss_edit(1) assms(4) in blast)+
  moreover have "base_settings (fst (policy_load d' path)) = base_settings (fst (policy_load d path))"
    by (rule app.run_settings [OF assms(1) run assms(2,3) app_hit_edit(2)])
  moreover have "expected_id (fst (policy_load d' path)) exe = None"
    by (rule app.run_no_id [OF assms(1) run assms(2,3) app_miss_edit(2) [OF _ assms(4)]])
  moreover have "e \<noteq> exe \<Longrightarrow> expected_id (fst (policy_load d' path)) e = expected_id (fst (policy_load d path)) e" for e
    by (rule app.run_ids [OF assms(1) run assms(2,3) app_hit_edit(3)])
  moreover have "b = backup_path path \<and> files d' b = Some t"
    using backup_run(1) [OF assms(1)] assms(2,5) by (fastforce simp: remove_app_def)
  ultimately show ?thesis by auto
qed

theorem remove_app_forgets_witness:
  "expected_id (fst (policy_load (snd (remove_app (demo_disk demo_text) ''/etc/pfsnitch.conf'' ''/bin/b'')) ''/etc/pfsnitch.conf''))
     ''/bin/b'' = None"
proof -
  obtain n b d' where a: "remove_app (demo_disk demo_text) ''/etc/pfsnitch.conf'' ''/bin/b'' = (Inr (n, b), d')"
    using rewrite_succeeds [OF demo_denied demo_read] unfolding remove_app_def by blast
  show ?thesis using remove_app_forgets [OF demo_path demo_read demo_no_cr _ a] by (simp add: a)
qed

text \<open>Clearing removes every rule and every pinned identity and keeps the settings: after a
  successful \<open>clear_rules\<close> the loaded policy has no rule (apart from those of lines that have a
  keyword and no value, which name nothing), no identity, the same default, mode, prompt and
  attribution, and the backup holds the old text.\<close>

theorem clear_rules_clears:
  assumes "file_path path" and "read_to_string d path = Inr t" and "CHR 0x0D \<notin> set t"
    and "clear_rules d path = (Inr (n, b), d')"
  shows "rules_of (fst (policy_load d' path)) \<subseteq> blank_rules
    \<and> base_settings (fst (policy_load d' path)) = base_settings (fst (policy_load d path))
    \<and> (\<forall>e. expected_id (fst (policy_load d' path)) e = None)
    \<and> b = backup_path path \<and> files d' b = Some t"
proof -
  have run: "count_only (clear_rules d path) = (Inr n, d')" using assms(4) by (simp add: count_only_simps)
  have "rules_of (fst (policy_load d' path)) - blank_rules = rules_of (fst (policy_load d path)) - UNIV - blank_rules"
    by (rule clr.run_rules [OF assms(1) run assms(2,3)]) (use clear_miss_edit(1) in auto)
  moreover have "base_settings (fst (policy_load d' path)) = base_settings (fst (policy_load d path))"
    by (rule clr.run_settings [OF assms(1) run assms(2,3) clear_hit_edit])
  moreover have "expected_id (fst (policy_load d' path)) e = None" for e
    by (rule clr.run_no_id [OF assms(1) run assms(2,3) clear_miss_edit(2)])
  moreover have "b = backup_path path \<and> files d' b = Some t"
    using backup_run(1) [OF assms(1)] assms(2,4) by (fastforce simp: clear_rules_def)
  ultimately show ?thesis by auto
qed

theorem clear_rules_clears_witness:
  "rules_of (fst (policy_load (snd (clear_rules (demo_disk demo_text) ''/etc/pfsnitch.conf'')) ''/etc/pfsnitch.conf''))
     \<subseteq> blank_rules"
proof -
  obtain n b d' where a: "clear_rules (demo_disk demo_text) ''/etc/pfsnitch.conf'' = (Inr (n, b), d')"
    using rewrite_succeeds [OF demo_denied demo_read] unfolding clear_rules_def by blast
  show ?thesis using clear_rules_clears [OF demo_path demo_read demo_no_cr a] by (simp add: a)
qed

text \<open>Setting the mode or the attribution backend changes that setting and nothing else: the
  policy loaded afterwards is the one loaded before with the field updated, whatever lines for the
  directive the file had.\<close>

theorem set_mode_updates:
  assumes "file_path path" and "read_to_string d path = Inr t" and "CHR 0x0D \<notin> set t"
  shows "(set_mode d path m = (Inr (), d') \<longrightarrow>
      fst (load (files d' path)) = (fst (policy_load d path))\<lparr>pmode := Some m\<rparr>)
    \<and> (set_attribution d path a = (Inr (), d') \<longrightarrow>
      fst (load (files d' path)) = (fst (policy_load d path))\<lparr>attribution := Some a\<rparr>)"
  using set_mode_load [OF assms(3)] set_attribution_load [OF assms(3)] write_atomic_cases(2) [OF _ assms(1)]
  by (simp add: set_mode_def set_attribution_def set_directive_def assms(2) policy_load_read [OF assms(2)]
      split: prod.splits)

theorem set_mode_updates_witness:
  "fst (load (files (snd (set_mode (demo_disk demo_text) ''/etc/pfsnitch.conf'' Enforcement)) ''/etc/pfsnitch.conf''))
     = (fst (policy_load (demo_disk demo_text) ''/etc/pfsnitch.conf''))\<lparr>pmode := Some Enforcement\<rparr>"
proof -
  obtain d' where a: "set_mode (demo_disk demo_text) ''/etc/pfsnitch.conf'' Enforcement = (Inr (), d')"
    using write_succeeds [OF demo_denied] by (fastforce simp: set_mode_def set_directive_def Let_def split: prod.splits)
  show ?thesis using set_mode_updates [OF demo_path demo_read demo_no_cr, of Enforcement d'] a by simp
qed

end
