(* ===== verification/Divert.thy ===== *)
theory Divert
  imports Ip_Addr
begin

unbundle bit_operations_syntax

text \<open>
  The divert socket (\<open>src/divert.rs\<close>): the system calls on the socket, the parse of an IPv4 or
  IPv6 packet into a flow, and the synthesis of a TCP reset.

  A packet is a list of bytes; indexing is checked, so that an index out of range is the value
  \<open>Panic\<close>.  Offsets (\<open>usize\<close>) are natural numbers: they are bounded by the length of the packet
  plus a header, far from the width of the type.  The operating system is a function from the
  calls made so far and the next call to its return value.
\<close>

section \<open>The socket\<close>

record sockaddr_in =
  sin_len :: u8
  sin_family :: u8
  sin_port :: u16
  s_addr :: u32

datatype syscall =
    Socket int int int
  | FcntlSetfd int int
  | Bind int sockaddr_in
  | Close int
  | SetRcvTimeo int int int
  | RecvFrom int nat
  | SendTo int bytes sockaddr_in

text \<open>The answer of the operating system to a call, given the calls made before it.\<close>

type_synonym os = "syscall list \<Rightarrow> syscall \<Rightarrow> int"
type_synonym errno = int

definition PF_DIVERT :: int where "PF_DIVERT = 44"
definition AF_INET :: int where "AF_INET = 2"
definition SOCK_RAW :: int where "SOCK_RAW = 3"
definition SOCK_CLOEXEC :: int where "SOCK_CLOEXEC = 0x10000000"
definition FD_CLOEXEC :: int where "FD_CLOEXEC = 1"

definition zeroed_sockaddr :: sockaddr_in where
  "zeroed_sockaddr = \<lparr>sin_len = 0, sin_family = 0, sin_port = 0, s_addr = 0\<rparr>"

text \<open>\<open>Divert::bind\<close>: the descriptor or the error number, and the calls made.  \<open>sin_port\<close> is held in
  network order by the C structure; the model keeps the number itself.\<close>

definition bind_divert :: "os \<Rightarrow> (syscall list \<Rightarrow> errno) \<Rightarrow> syscall list \<Rightarrow> u16 \<Rightarrow> (errno + int) \<times> syscall list" where
  "bind_divert os err tr port = (let c = Socket PF_DIVERT (or SOCK_RAW SOCK_CLOEXEC) 0; fd = os tr c; tr = tr @ [c] in
     if fd < 0 then (Inl (err tr), tr)
     else let c = FcntlSetfd fd FD_CLOEXEC; r = os tr c; tr = tr @ [c] in
       if r < 0 then (Inl (err tr), tr @ [Close fd])
       else let addr = zeroed_sockaddr\<lparr>sin_family := word_of_int AF_INET, sin_port := port, s_addr := 0\<rparr>;
                c = Bind fd addr; r = os tr c; tr = tr @ [c] in
         if r < 0 then (Inl (err tr), tr @ [Close fd])
         else (Inr fd, tr))"

definition set_read_timeout :: "os \<Rightarrow> (syscall list \<Rightarrow> errno) \<Rightarrow> syscall list \<Rightarrow> int \<Rightarrow> u64 \<Rightarrow> (errno + unit) \<times> syscall list" where
  "set_read_timeout os err tr fd ms =
     (let c = SetRcvTimeo fd (uint (ms div 1000)) (uint ((ms mod 1000) * 1000)); r = os tr c; tr = tr @ [c] in
      if r < 0 then (Inl (err tr), tr) else (Inr (), tr))"

text \<open>What \<open>recvfrom\<close> wrote to the buffer and the address is a second answer of the system.\<close>

definition recv_divert ::
  "os \<Rightarrow> (syscall list \<Rightarrow> errno) \<Rightarrow> (syscall list \<Rightarrow> sockaddr_in) \<Rightarrow> syscall list \<Rightarrow> int \<Rightarrow> nat
    \<Rightarrow> (errno + nat \<times> sockaddr_in) \<times> syscall list" where
  "recv_divert os err from tr fd buf_len =
     (let c = RecvFrom fd buf_len; n = os tr c; tr = tr @ [c] in
      if n < 0 then (Inl (err tr), tr) else (Inr (nat n, from tr), tr))"

definition reinject :: "os \<Rightarrow> (syscall list \<Rightarrow> errno) \<Rightarrow> syscall list \<Rightarrow> int \<Rightarrow> bytes \<Rightarrow> sockaddr_in \<Rightarrow> (errno + unit) \<times> syscall list" where
  "reinject os err tr fd pkt to =
     (let c = SendTo fd pkt to; n = os tr c; tr = tr @ [c] in
      if n < 0 then (Inl (err tr), tr) else (Inr (), tr))"

text \<open>\<open>u32::from_ne_bytes([127, 0, 0, 1])\<close> on a little-endian machine.\<close>

definition inbound_addr :: sockaddr_in where
  "inbound_addr = zeroed_sockaddr\<lparr>sin_len := 16, sin_family := word_of_int AF_INET, s_addr := 0x0100007F\<rparr>"

definition reinject_inbound :: "os \<Rightarrow> (syscall list \<Rightarrow> errno) \<Rightarrow> syscall list \<Rightarrow> int \<Rightarrow> bytes \<Rightarrow> (errno + unit) \<times> syscall list" where
  "reinject_inbound os err tr fd pkt = reinject os err tr fd pkt inbound_addr"

definition drop_divert :: "syscall list \<Rightarrow> int \<Rightarrow> syscall list" where
  "drop_divert tr fd = tr @ [Close fd]"

section \<open>Parsing\<close>

record flow =
  f_proto :: u8
  f_src :: ip_addr
  f_dst :: ip_addr
  f_sport :: u16
  f_dport :: u16
  f_syn_only :: bool

record l3_hdr =
  l3_proto :: u8
  l3_src :: ip_addr
  l3_dst :: ip_addr
  l4 :: nat

text \<open>The length of the extension header at \<open>off\<close>, \<open>Inr\<close> for the \<open>return\<close>s of the loop body.\<close>

definition ext_len :: "bytes \<Rightarrow> u8 \<Rightarrow> nat \<Rightarrow> nat + (u8 \<times> nat) option" where
  "ext_len pkt nh off =
     (if nh = 0 \<or> nh = 43 \<or> nh = 60 then
        (case get pkt (off + 1) of None \<Rightarrow> Inr None | Some b \<Rightarrow> Inl ((unat b + 1) * 8))
      else if nh = 44 then
        (case get pkt (off + 2) of None \<Rightarrow> Inr None | Some a \<Rightarrow>
         (case get pkt (off + 3) of None \<Rightarrow> Inr None | Some b \<Rightarrow>
           if drop_bit 3 (from_be16 a b) \<noteq> 0 then Inr None else Inl 8))
      else if nh = 51 then
        (case get pkt (off + 1) of None \<Rightarrow> Inr None | Some b \<Rightarrow> Inl ((unat b + 2) * 4))
      else Inr (Some (nh, off)))"

fun skip_ext_loop :: "nat \<Rightarrow> bytes \<Rightarrow> u8 \<Rightarrow> nat \<Rightarrow> (u8 \<times> nat) option" where
  "skip_ext_loop 0 pkt nh off = None"
| "skip_ext_loop (Suc n) pkt nh off = (case ext_len pkt nh off of
      Inr r \<Rightarrow> r
    | Inl len \<Rightarrow> (case get pkt off of
        None \<Rightarrow> None
      | Some nh' \<Rightarrow> if length pkt \<le> off + len then None else skip_ext_loop n pkt nh' (off + len)))"

definition skip_ext :: "bytes \<Rightarrow> u8 \<Rightarrow> nat \<Rightarrow> (u8 \<times> nat) option" where
  "skip_ext pkt nh0 off0 = skip_ext_loop 8 pkt nh0 off0"

definition v4_at :: "bytes \<Rightarrow> nat \<Rightarrow> ip_addr eval" where
  "v4_at pkt i = bindE (idx pkt i) (\<lambda>a. bindE (idx pkt (i + 1)) (\<lambda>b.
     bindE (idx pkt (i + 2)) (\<lambda>c. bindE (idx pkt (i + 3)) (\<lambda>d. Ret (V4 a b c d)))))"

definition l3_v4 :: "bytes \<Rightarrow> l3_hdr option eval" where
  "l3_v4 pkt =
     (if length pkt < 20 then Ret None
      else bindE (idx pkt 0) (\<lambda>b0. let ihl = unat (b0 AND 0x0f) * 4 in
        if ihl < 20 \<or> length pkt < ihl then Ret None
        else bindE (idx pkt 9) (\<lambda>p. bindE (v4_at pkt 12) (\<lambda>s. bindE (v4_at pkt 16) (\<lambda>d.
          Ret (Some \<lparr>l3_proto = p, l3_src = s, l3_dst = d, l4 = ihl\<rparr>))))))"

definition l3_v6 :: "bytes \<Rightarrow> l3_hdr option eval" where
  "l3_v6 pkt =
     (if length pkt < 40 then Ret None
      else bindE (slice pkt 8 24) (\<lambda>s. bindE (slice pkt 24 40) (\<lambda>d. bindE (idx pkt 6) (\<lambda>nh.
        (case skip_ext pkt nh 40 of
           None \<Rightarrow> Ret None
         | Some (p, l) \<Rightarrow> Ret (Some \<lparr>l3_proto = p, l3_src = v6_of_octets s, l3_dst = v6_of_octets d, l4 = l\<rparr>))))))"

definition l3 :: "bytes \<Rightarrow> l3_hdr option eval" where
  "l3 pkt = (case get pkt 0 of
      None \<Rightarrow> Ret None
    | Some b \<Rightarrow> (let v = drop_bit 4 b in
        if v = 4 then l3_v4 pkt else if v = 6 then l3_v6 pkt else Ret None))"

definition be16_at :: "bytes \<Rightarrow> nat \<Rightarrow> u16 eval" where
  "be16_at pkt i = bindE (idx pkt i) (\<lambda>a. bindE (idx pkt (i + 1)) (\<lambda>b. Ret (from_be16 a b)))"

definition parse :: "bytes \<Rightarrow> flow option eval" where
  "parse pkt = bindO (l3 pkt) (\<lambda>h.
     if length pkt < l4 h + 4 then Ret None
     else bindE (be16_at pkt (l4 h)) (\<lambda>sp. bindE (be16_at pkt (l4 h + 2)) (\<lambda>dp.
       bindE (if l3_proto h = 6 \<and> l4 h + 14 \<le> length pkt
              then bindE (idx pkt (l4 h + 13)) (\<lambda>flags. Ret (flags AND 0x02 \<noteq> 0 \<and> flags AND 0x10 = 0))
              else Ret False) (\<lambda>so.
         Ret (Some \<lparr>f_proto = l3_proto h, f_src = l3_src h, f_dst = l3_dst h, f_sport = sp, f_dport = dp, f_syn_only = so\<rparr>)))))"

definition payload_offset :: "bytes \<Rightarrow> nat option eval" where
  "payload_offset pkt = bindO (l3 pkt) (\<lambda>h.
     if l3_proto h = 17 then Ret (Some (l4 h + 8))
     else if l3_proto h = 6 then
       (case get pkt (l4 h + 12) of
          None \<Rightarrow> Ret None
        | Some b \<Rightarrow> Ret (Some (l4 h + unat (drop_bit 4 b) * 4)))
     else Ret None)"

section \<open>Checksums\<close>

text \<open>The running sum and the byte left over from a part of odd length.\<close>

fun csum_pairs :: "bytes \<Rightarrow> u32 \<Rightarrow> u32 \<times> u8 option" where
  "csum_pairs (a # b # r) acc = csum_pairs r (acc + ucast (from_be16 a b))"
| "csum_pairs [a] acc = (acc, Some a)"
| "csum_pairs [] acc = (acc, None)"

fun csum_part :: "bytes \<Rightarrow> u32 \<times> u8 option \<Rightarrow> u32 \<times> u8 option" where
  "csum_part part (acc, None) = csum_pairs part acc"
| "csum_part [] (acc, Some hi) = (acc, Some hi)"
| "csum_part (x # r) (acc, Some hi) = csum_pairs r (acc + ucast (from_be16 hi x))"

function csum_fold :: "u32 \<Rightarrow> u32" where
  "csum_fold acc = (if drop_bit 16 acc = 0 then acc else csum_fold ((acc AND 0xffff) + drop_bit 16 acc))"
  by pat_completeness auto

lemma unat_halves: "unat (s AND 0xffff :: u32) = unat s mod 65536" "unat (drop_bit 16 s :: u32) = unat s div 65536"
proof -
  have "s AND 0xffff = take_bit 16 s" by (simp add: take_bit_eq_mask mask_eq_exp_minus_1)
  then have "unat (s AND 0xffff) = take_bit 16 (unat s)" by (simp only: unsigned_take_bit_eq)
  then show "unat (s AND 0xffff) = unat s mod 65536" by (simp add: take_bit_eq_mod)
  have "unat (drop_bit 16 s :: u32) = drop_bit 16 (unat s)" by (rule unat_drop_bit_eq)
  then show "unat (drop_bit 16 s :: u32) = unat s div 65536" by (simp add: drop_bit_eq_div)
qed

lemma unat_fold_step: "unat ((s AND 0xffff) + drop_bit 16 s :: u32) = unat s mod 65536 + unat s div 65536"
proof -
  have "unat s div 65536 < 65536" using unat_lt_u32 [of s] by linarith
  then show ?thesis by (simp add: unat_word_ariths unat_halves)
qed

termination csum_fold
proof (relation "measure unat", goal_cases)
  case (2 s)
  then have "unat s div 65536 \<noteq> 0" using unat_halves(2) [of s] by (metis unat_eq_zero)
  moreover have "unat s = 65536 * (unat s div 65536) + unat s mod 65536" by simp
  ultimately show ?case unfolding in_measure unat_fold_step by linarith
qed simp

declare csum_fold.simps [simp del]

definition csum :: "bytes list \<Rightarrow> u16" where
  "csum parts = (case fold csum_part parts (0, None) of (acc, carry) \<Rightarrow>
     let acc = (case carry of None \<Rightarrow> acc | Some hi \<Rightarrow> acc + ucast (from_be16 hi 0))
     in NOT (ucast (csum_fold acc)))"

section \<open>The reset\<close>

text \<open>\<open>v[i..i + 2].copy_from_slice(..)\<close>\<close>

definition put16 :: "nat \<Rightarrow> u16 \<Rightarrow> bytes \<Rightarrow> bytes" where
  "put16 i w v = take i v @ to_be16 w @ drop (i + 2) v"

definition rst_tcp :: "u16 \<Rightarrow> u16 \<Rightarrow> u32 \<Rightarrow> bytes" where
  "rst_tcp sp dp ack = to_be16 dp @ to_be16 sp @ to_be32 0 @ to_be32 ack @ [0x50, 0x14]
     @ to_be16 0 @ to_be16 0 @ to_be16 0"

definition rst_v4 :: "ip_addr \<Rightarrow> ip_addr \<Rightarrow> bytes \<Rightarrow> bytes" where
  "rst_v4 s d tcp = (let so = octets d; de = octets s;
       ck = csum [so @ de @ [0, 6, 0, 20], tcp];
       tcp = put16 16 ck tcp;
       ip = [0x45, 0] @ to_be16 40 @ to_be16 0 @ to_be16 0 @ [64, 6] @ to_be16 0 @ so @ de;
       hc = csum [ip]
     in put16 10 hc ip @ tcp)"

definition rst_v6 :: "ip_addr \<Rightarrow> ip_addr \<Rightarrow> bytes \<Rightarrow> bytes" where
  "rst_v6 s d tcp = (let so = octets d; de = octets s;
       ck = csum [so @ de @ to_be32 20 @ [0, 0, 0, 6], tcp];
       tcp = put16 16 ck tcp
     in [0x60, 0, 0, 0] @ to_be16 20 @ [6, 64] @ so @ de @ tcp)"

definition tcp_rst :: "bytes \<Rightarrow> bytes option eval" where
  "tcp_rst pkt = bindO (l3 pkt) (\<lambda>h.
     if l3_proto h \<noteq> 6 \<or> length pkt < l4 h + 20 then Ret None
     else bindE (idx pkt (l4 h + 13)) (\<lambda>flags.
       if flags AND 0x04 \<noteq> 0 then Ret None
       else bindE (be16_at pkt (l4 h)) (\<lambda>sp. bindE (be16_at pkt (l4 h + 2)) (\<lambda>dp.
         bindE (idx pkt (l4 h + 4)) (\<lambda>a. bindE (idx pkt (l4 h + 5)) (\<lambda>b.
         bindE (idx pkt (l4 h + 6)) (\<lambda>c. bindE (idx pkt (l4 h + 7)) (\<lambda>d.
           let seq = from_be32 a b c d;
               ack = seq + (if flags AND 0x02 \<noteq> 0 then 1 else 0);
               tcp = rst_tcp sp dp ack
           in (case (l3_src h, l3_dst h) of
                (V4 _ _ _ _, V4 _ _ _ _) \<Rightarrow> Ret (Some (rst_v4 (l3_src h) (l3_dst h) tcp))
              | (V6 _ _ _ _ _ _ _ _, V6 _ _ _ _ _ _ _ _) \<Rightarrow> Ret (Some (rst_v6 (l3_src h) (l3_dst h) tcp))
              | _ \<Rightarrow> Ret None)))))))))"

section \<open>The checksum is the one's complement sum\<close>

text \<open>The sum of the 16-bit big-endian words of a byte string, padded with a zero.\<close>

fun word_sum :: "bytes \<Rightarrow> nat" where
  "word_sum (a # b # r) = 256 * unat a + unat b + word_sum r"
| "word_sum [a] = 256 * unat a"
| "word_sum [] = 0"

text \<open>The representative of \<open>n\<close> modulo 65535 that folding leaves.\<close>

definition fold16 :: "nat \<Rightarrow> nat" where
  "fold16 n = (if n = 0 then 0 else (n - 1) mod 65535 + 1)"

lemma fold16_id: "n < 65536 \<Longrightarrow> fold16 n = n"
  by (cases n) (auto simp: fold16_def)

lemma fold16_le: "fold16 n \<le> 65535"
proof -
  have "(n - 1) mod 65535 < 65535" by (rule mod_less_divisor) simp
  then show ?thesis by (cases "n = 0") (simp_all add: fold16_def Suc_le_eq [symmetric] del: mod_less_divisor)
qed

lemma fold16_step:
  assumes "65536 \<le> n"
  shows "fold16 (n mod 65536 + n div 65536) = fold16 n"
proof -
  define q r where "q = n div 65536" and "r = n mod 65536"
  have n: "n = 65536 * q + r" and q: "0 < q" using assms by (simp_all add: q_def r_def div_greater_zero_iff)
  have "n - 1 = (r + q - 1) + 65535 * q" using n q by simp
  then have "(n - 1) mod 65535 = (r + q - 1) mod 65535" by simp
  moreover have "r + q \<noteq> 0" "n \<noteq> 0" using q n by simp_all
  ultimately have "fold16 (r + q) = fold16 n" unfolding fold16_def by simp
  then show ?thesis by (simp only: q_def r_def)
qed

lemma fold16_complement: "fold16 (n + (65535 - fold16 n)) = 65535"
proof (cases "n = 0")
  case False
  define m where "m = (n - 1) mod 65535"
  have m: "m < 65535" unfolding m_def by (rule mod_less_divisor) simp
  define k where "k = (n - 1) div 65535"
  have "n - 1 = 65535 * k + m" unfolding m_def k_def by simp
  then have k: "n = 65535 * k + m + 1" using False by linarith
  have f: "fold16 n = m + 1" using False by (simp add: fold16_def m_def)
  have "n + (65535 - fold16 n) - 1 = 65534 + 65535 * k" using k f m by simp
  then have "(n + (65535 - fold16 n) - 1) mod 65535 = 65534" by simp
  moreover have "n + (65535 - fold16 n) \<noteq> 0" using False by simp
  ultimately show ?thesis by (simp only: fold16_def [of "n + (65535 - fold16 n)"]) simp
qed (simp add: fold16_def)

lemma csum_fold_eq: "unat (csum_fold s) = fold16 (unat s)"
proof (induction s rule: csum_fold.induct)
  case (1 s)
  show ?case
  proof (cases "drop_bit 16 s = 0")
    case True
    then have "unat s div 65536 = 0" using unat_halves(2) [of s] by simp
    then show ?thesis using True by (subst csum_fold.simps) (simp add: fold16_id div_eq_0_iff)
  next
    case False
    then have "unat s div 65536 \<noteq> 0" using unat_halves(2) [of s] by (metis unat_eq_zero)
    then have "65536 \<le> unat s" by (simp add: div_eq_0_iff)
    then show ?thesis
      using 1 [OF False] False by (subst csum_fold.simps) (simp add: unat_fold_step fold16_step)
  qed
qed

text \<open>The parts are summed as their concatenation.\<close>

lemma csum_part_pairs: "csum_part ys (csum_pairs xs s) = csum_pairs (xs @ ys) s"
proof (induction xs s rule: csum_pairs.induct)
  case (2 a s)
  then show ?case by (cases ys) simp_all
qed simp_all

lemma csum_parts: "fold csum_part parts (csum_pairs xs s) = csum_pairs (xs @ concat parts) s"
  by (induction parts arbitrary: xs) (simp_all add: csum_part_pairs)

lemma word_sum_le: "word_sum xs \<le> 65535 * ((length xs + 1) div 2)"
proof (induction xs rule: word_sum.induct)
  case (1 a b r)
  have "unat a < 256" "unat b < 256" by simp_all
  then have "256 * unat a + unat b \<le> 65535" by linarith
  then show ?case using 1 by simp
next
  case (2 a)
  have "unat a < 256" by simp
  then have "256 * unat a \<le> 65535" by linarith
  then show ?case by simp
qed simp

definition finish_sum :: "u32 \<times> u8 option \<Rightarrow> u32" where
  "finish_sum r = (case r of (s, c) \<Rightarrow> case c of None \<Rightarrow> s | Some hi \<Rightarrow> s + ucast (from_be16 hi 0))"

lemma ucast_be16: "(ucast (from_be16 a b) :: u32) = word_of_nat (256 * unat a + unat b)"
proof -
  have "unat (ucast (from_be16 a b) :: u32) = unat (from_be16 a b)"
    by (simp add: unsigned_ucast_eq take_bit_nat_eq_self order_less_trans [OF unat_lt_65536])
  then have "(ucast (from_be16 a b) :: u32) = word_of_nat (unat (from_be16 a b))"
    by (metis of_nat_unat ucast_id)
  then show ?thesis by (simp add: unat_from_be16)
qed

lemma finish_pairs: "finish_sum (csum_pairs xs s) = s + word_of_nat (word_sum xs)"
  by (induction xs s rule: csum_pairs.induct) (simp_all add: finish_sum_def ucast_be16 ac_simps)

lemma unat_not_u16: "unat (NOT w :: u16) = 65535 - unat w"
proof -
  have "NOT w = -1 - w" by (simp add: not_eq_complement)
  moreover have "w \<le> -1" by simp
  moreover have "unat (-1 :: u16) = 65535" by code_simp
  ultimately show ?thesis by (simp add: unat_sub)
qed

lemma unat_csum:
  assumes "length (concat parts) \<le> 131072"
  shows "unat (csum parts) = 65535 - fold16 (word_sum (concat parts))"
proof -
  let ?n = "word_sum (concat parts)"
  have "?n \<le> 65535 * ((length (concat parts) + 1) div 2)" by (rule word_sum_le)
  also have "\<dots> \<le> 65535 * 65536" using assms by (intro mult_left_mono) simp_all
  finally have n: "?n < 4294967296" by simp
  have "csum parts = NOT (ucast (csum_fold (word_of_nat ?n)))"
    using csum_parts [of parts "[]" 0] finish_pairs [of "concat parts" 0]
    by (simp add: csum_def finish_sum_def Let_def split: prod.splits)
  moreover have "unat (csum_fold (word_of_nat ?n)) = fold16 ?n" using n by (simp add: csum_fold_eq)
  moreover have "unat (ucast (csum_fold (word_of_nat ?n)) :: u16) = fold16 ?n"
    using calculation(2) fold16_le [of ?n] by (simp add: unsigned_ucast_eq take_bit_nat_eq_self)
  ultimately show ?thesis by (simp add: unat_not_u16)
qed

lemma word_sum_append: "even (length xs) \<Longrightarrow> word_sum (xs @ ys) = word_sum xs + word_sum ys"
  by (induction xs rule: word_sum.induct) simp_all

lemma word_sum_be16: "word_sum (to_be16 w) = unat w"
proof -
  have "unat w div 256 < 256" using unat_lt_65536 [of w] by linarith
  then show ?thesis by (simp add: to_be16_def)
qed

text \<open>Storing the checksum in a zero field makes the sum verify.\<close>

lemma csum_verifies:
  assumes "even (length pre)" "length pre + 2 + length post \<le> 131072"
  shows "csum [pre @ to_be16 (csum [pre @ to_be16 0 @ post]) @ post] = 0"
proof -
  let ?c = "csum [pre @ to_be16 0 @ post]" and ?n = "word_sum (pre @ to_be16 0 @ post)"
  have ev: "even (length (pre @ to_be16 w))" for w using assms(1) by simp
  have sum: "word_sum (pre @ to_be16 w @ post) = word_sum pre + unat w + word_sum post" for w
    using word_sum_append [OF ev, of w post] word_sum_append [OF assms(1), of "to_be16 w"]
    by (simp add: word_sum_be16)
  have c: "unat ?c = 65535 - fold16 ?n" using assms(2) by (simp add: unat_csum)
  have "word_sum (pre @ to_be16 ?c @ post) = ?n + (65535 - fold16 ?n)"
    using sum [of ?c] sum [of 0] c by simp
  then have "unat (csum [pre @ to_be16 ?c @ post]) = 0"
    using assms(2) by (simp add: unat_csum fold16_complement)
  then show ?thesis by (simp add: unat_eq_zero)
qed

lemma csum_concat: "length (concat parts) \<le> 131072 \<Longrightarrow> csum parts = csum [concat parts]"
  by (rule unsigned_word_eqI [where ?'a = nat]) (simp add: unat_csum)

section \<open>No packet makes the parser panic\<close>

lemma v4_at_ok: "i + 4 \<le> length pkt \<Longrightarrow> v4_at pkt i = Ret (V4 (pkt ! i) (pkt ! (i + 1)) (pkt ! (i + 2)) (pkt ! (i + 3)))"
  by (simp add: v4_at_def eval_simps)

lemma be16_at_ok: "i + 2 \<le> length pkt \<Longrightarrow> be16_at pkt i = Ret (from_be16 (pkt ! i) (pkt ! (i + 1)))"
  by (simp add: be16_at_def eval_simps)

lemma be16_at_ok2: "i + 4 \<le> length pkt \<Longrightarrow> be16_at pkt (i + 2) = Ret (from_be16 (pkt ! (i + 2)) (pkt ! (i + 3)))"
proof -
  assume "i + 4 \<le> length pkt"
  moreover have "i + 2 + 1 = i + 3" by simp
  ultimately show ?thesis using be16_at_ok [of "i + 2" pkt] by (metis add.assoc numeral_Bit0)
qed

lemma skip_ext_bounds:
  "skip_ext_loop n pkt nh off = Some (p, l) \<Longrightarrow> off \<le> length pkt \<Longrightarrow> off \<le> l \<and> l \<le> length pkt"
proof (induction n pkt nh off rule: skip_ext_loop.induct)
  case (2 n pkt nh off)
  show ?case
  proof (cases "ext_len pkt nh off")
    case (Inl len)
    then obtain nh' where "get pkt off = Some nh'" "off + len < length pkt"
      "skip_ext_loop n pkt nh' (off + len) = Some (p, l)"
      using 2(2) by (auto split: option.splits if_splits)
    then show ?thesis using 2(1) [OF Inl] by fastforce
  next
    case (Inr r)
    then show ?thesis
      using 2(2,3) by (auto simp: ext_len_def split: if_splits option.splits)
  qed
qed simp

lemma l3_v4_eq: "l3_v4 pkt = Ret (let ihl = unat (pkt ! 0 AND 0x0f) * 4 in
    if length pkt < 20 \<or> ihl < 20 \<or> length pkt < ihl then None
    else Some \<lparr>l3_proto = pkt ! 9, l3_src = V4 (pkt ! 12) (pkt ! 13) (pkt ! 14) (pkt ! 15),
               l3_dst = V4 (pkt ! 16) (pkt ! 17) (pkt ! 18) (pkt ! 19), l4 = ihl\<rparr>)"
proof (cases "length pkt < 20")
  case False
  then have "idx pkt 0 = Ret (pkt ! 0)" "idx pkt 9 = Ret (pkt ! 9)"
    "v4_at pkt 12 = Ret (V4 (pkt ! 12) (pkt ! 13) (pkt ! 14) (pkt ! 15))"
    "v4_at pkt 16 = Ret (V4 (pkt ! 16) (pkt ! 17) (pkt ! 18) (pkt ! 19))"
    by (auto simp: idx_def v4_at_ok)
  then show ?thesis using False by (simp add: l3_v4_def Let_def)
qed (simp add: l3_v4_def Let_def)

lemma l3_v6_eq: "l3_v6 pkt = Ret (if length pkt < 40 then None
    else map_option (\<lambda>(p, l). \<lparr>l3_proto = p, l3_src = v6_of_octets (take 16 (drop 8 pkt)),
               l3_dst = v6_of_octets (take 16 (drop 24 pkt)), l4 = l\<rparr>) (skip_ext pkt (pkt ! 6) 40))"
  by (simp add: l3_v6_def eval_simps split: option.split)

lemma l3_ok:
  obtains (none) "l3 pkt = Ret None"
  | (some) h where "l3 pkt = Ret (Some h)" "20 \<le> l4 h" "l4 h \<le> length pkt" "is_v4 (l3_src h) = is_v4 (l3_dst h)"
proof (cases "l3 pkt = Ret None")
  case False
  have v4: "l3_v4 pkt = Ret (Some h) \<Longrightarrow> 20 \<le> l4 h \<and> l4 h \<le> length pkt \<and> is_v4 (l3_src h) = is_v4 (l3_dst h)" for h
    by (auto simp: l3_v4_eq Let_def split: if_splits)
  have v6: "l3_v6 pkt = Ret (Some h) \<Longrightarrow> 20 \<le> l4 h \<and> l4 h \<le> length pkt \<and> is_v4 (l3_src h) = is_v4 (l3_dst h)" for h
    by (auto simp: l3_v6_eq skip_ext_def v6_of_octets_def split: if_splits dest: skip_ext_bounds)
  have "\<exists>r. l3 pkt = Ret r" by (auto simp: l3_def l3_v4_eq l3_v6_eq Let_def split: option.split)
  then obtain h where h: "l3 pkt = Ret (Some h)" using False by (metis option.exhaust)
  then have "l3_v4 pkt = Ret (Some h) \<or> l3_v6 pkt = Ret (Some h)"
    by (auto simp: l3_def Let_def split: option.splits if_splits)
  then show ?thesis using v4 v6 h some by blast
qed (rule none)

lemma parse_eq:
  assumes "l3 pkt = Ret (Some h)"
  shows "parse pkt = Ret (if length pkt < l4 h + 4 then None
    else Some \<lparr>f_proto = l3_proto h, f_src = l3_src h, f_dst = l3_dst h,
       f_sport = from_be16 (pkt ! l4 h) (pkt ! (l4 h + 1)), f_dport = from_be16 (pkt ! (l4 h + 2)) (pkt ! (l4 h + 3)),
       f_syn_only = (l3_proto h = 6 \<and> l4 h + 14 \<le> length pkt \<and> pkt ! (l4 h + 13) AND 0x02 \<noteq> 0 \<and> pkt ! (l4 h + 13) AND 0x10 = 0)\<rparr>)"
proof (cases "length pkt < l4 h + 4")
  case False
  then have "be16_at pkt (l4 h) = Ret (from_be16 (pkt ! l4 h) (pkt ! (l4 h + 1)))"
    "be16_at pkt (l4 h + 2) = Ret (from_be16 (pkt ! (l4 h + 2)) (pkt ! (l4 h + 3)))"
    using be16_at_ok [of "l4 h" pkt] be16_at_ok2 [of "l4 h" pkt] by simp_all
  then show ?thesis using assms False by (auto simp: parse_def eval_simps simp del: add_2_eq_Suc')
qed (simp add: parse_def assms)

lemma parse_None: "l3 pkt = Ret None \<Longrightarrow> parse pkt = Ret None"
  by (simp add: parse_def)

text \<open>The reset for a segment, with the checks of the code discharged.\<close>

definition rst_of :: "bytes \<Rightarrow> l3_hdr \<Rightarrow> bytes" where
  "rst_of pkt h = (let o' = l4 h; flags = pkt ! (o' + 13);
      seq = from_be32 (pkt ! (o' + 4)) (pkt ! (o' + 5)) (pkt ! (o' + 6)) (pkt ! (o' + 7));
      tcp = rst_tcp (from_be16 (pkt ! o') (pkt ! (o' + 1))) (from_be16 (pkt ! (o' + 2)) (pkt ! (o' + 3)))
        (seq + (if flags AND 0x02 \<noteq> 0 then 1 else 0))
    in if is_v4 (l3_src h) then rst_v4 (l3_src h) (l3_dst h) tcp else rst_v6 (l3_src h) (l3_dst h) tcp)"

lemma tcp_rst_eq:
  assumes h: "l3 pkt = Ret (Some h)" and v: "is_v4 (l3_src h) = is_v4 (l3_dst h)"
  shows "tcp_rst pkt = Ret (if l3_proto h \<noteq> 6 \<or> length pkt < l4 h + 20 \<or> pkt ! (l4 h + 13) AND 0x04 \<noteq> 0 then None
    else Some (rst_of pkt h))"
proof (cases "l3_proto h \<noteq> 6 \<or> length pkt < l4 h + 20")
  case False
  then have l: "l4 h + 2 \<le> length pkt" "l4 h + 4 \<le> length pkt" by auto
  have "idx pkt (l4 h + i) = Ret (pkt ! (l4 h + i))" if "i < 20" for i using False that by (simp add: idx_ok)
  then have "idx pkt (l4 h + 4) = Ret (pkt ! (l4 h + 4))" "idx pkt (l4 h + 5) = Ret (pkt ! (l4 h + 5))"
    "idx pkt (l4 h + 6) = Ret (pkt ! (l4 h + 6))" "idx pkt (l4 h + 7) = Ret (pkt ! (l4 h + 7))"
    "idx pkt (l4 h + 13) = Ret (pkt ! (l4 h + 13))" by simp_all
  moreover note be16_at_ok [OF l(1)] be16_at_ok2 [OF l(2)]
  ultimately show ?thesis
    using h v False
    by (cases "l3_src h"; cases "l3_dst h")
      (simp_all add: tcp_rst_def rst_of_def Let_def del: add_2_eq_Suc add_2_eq_Suc')
qed (auto simp: tcp_rst_def h)

lemma tcp_rst_None: "l3 pkt = Ret None \<Longrightarrow> tcp_rst pkt = Ret None"
  by (simp add: tcp_rst_def)

section \<open>The reset, read back\<close>

text \<open>The pseudo header a receiver of a TCP segment of 20 bytes sums.\<close>

definition pseudo_header :: "ip_addr \<Rightarrow> ip_addr \<Rightarrow> bytes" where
  "pseudo_header s d = octets s @ octets d @ (if is_v4 s then [0, 6, 0, 20] else to_be32 20 @ [0, 0, 0, 6])"

definition tcp_body :: "u16 \<Rightarrow> u16 \<Rightarrow> u32 \<Rightarrow> u16 \<Rightarrow> bytes" where
  "tcp_body sp dp ack ck = to_be16 dp @ to_be16 sp @ to_be32 0 @ to_be32 ack @ [0x50, 0x14] @ to_be16 0 @ to_be16 ck @ to_be16 0"

lemma put16_tcp: "put16 16 ck (rst_tcp sp dp ack) = tcp_body sp dp ack ck"
  by (simp add: put16_def rst_tcp_def tcp_body_def to_be16_def to_be32_def)

definition ip4_head :: "ip_addr \<Rightarrow> ip_addr \<Rightarrow> u16 \<Rightarrow> bytes" where
  "ip4_head s d hc = [0x45, 0] @ to_be16 40 @ to_be16 0 @ to_be16 0 @ [64, 6] @ to_be16 hc @ octets s @ octets d"

lemma put16_head: "put16 10 hc (ip4_head s d 0) = ip4_head s d hc"
  by (simp add: put16_def ip4_head_def to_be16_def)

definition ip6_head :: "ip_addr \<Rightarrow> ip_addr \<Rightarrow> bytes" where
  "ip6_head s d = [0x60, 0, 0, 0] @ to_be16 20 @ [6, 64] @ octets s @ octets d"

lemma rst_v4_shape:
  assumes "is_v4 s" "is_v4 d"
  shows "\<exists>hc ck. rst_v4 s d (rst_tcp sp dp ack) = ip4_head d s hc @ tcp_body sp dp ack ck
    \<and> csum [ip4_head d s hc] = 0 \<and> csum [pseudo_header d s, tcp_body sp dp ack ck] = 0"
proof -
  let ?pre = "pseudo_header d s @ to_be16 dp @ to_be16 sp @ to_be32 0 @ to_be32 ack @ [0x50, 0x14] @ to_be16 0"
  let ?ck = "csum [pseudo_header d s, rst_tcp sp dp ack]" and ?hc = "csum [ip4_head d s 0]"
  let ?ih = "[0x45, 0] @ to_be16 40 @ to_be16 0 @ to_be16 0 @ [64, 6 :: u8]"
  have len: "length (octets d) = 4" "length (octets s) = 4" using assms by (simp_all add: length_octets)
  have ph: "length (pseudo_header d s) = 12" using assms(2) len by (simp add: pseudo_header_def)
  have cat: "csum [pseudo_header d s, xs] = csum [pseudo_header d s @ xs]" if "length xs \<le> 100" for xs
    using csum_concat [of "[pseudo_header d s, xs]"] that ph by simp
  have tb: "length (tcp_body sp dp ack w) = 20" for w by (simp add: tcp_body_def)
  have r0: "rst_tcp sp dp ack = tcp_body sp dp ack 0" by (simp add: rst_tcp_def tcp_body_def)
  have "csum [?pre @ to_be16 (csum [?pre @ to_be16 0 @ to_be16 0]) @ to_be16 0] = 0"
    by (rule csum_verifies) (simp_all add: ph)
  then have c: "csum [pseudo_header d s, tcp_body sp dp ack ?ck] = 0"
    by (simp only: cat tb r0) (simp add: tcp_body_def)
  have "csum [?ih @ to_be16 (csum [?ih @ to_be16 0 @ octets d @ octets s]) @ octets d @ octets s] = 0"
    by (rule csum_verifies) (simp_all add: len)
  then have "csum [ip4_head d s ?hc] = 0" by (simp add: ip4_head_def)
  moreover have "rst_v4 s d (rst_tcp sp dp ack) = ip4_head d s ?hc @ tcp_body sp dp ack ?ck"
    using assms(2) put16_head [of "csum [ip4_head d s 0]" d s]
    by (simp add: rst_v4_def Let_def put16_tcp pseudo_header_def) (simp add: ip4_head_def)
  ultimately show ?thesis using c by blast
qed

lemma rst_v6_shape:
  assumes "\<not> is_v4 s" "\<not> is_v4 d"
  shows "\<exists>ck. rst_v6 s d (rst_tcp sp dp ack) = ip6_head d s @ tcp_body sp dp ack ck
    \<and> csum [pseudo_header d s, tcp_body sp dp ack ck] = 0"
proof -
  let ?pre = "pseudo_header d s @ to_be16 dp @ to_be16 sp @ to_be32 0 @ to_be32 ack @ [0x50, 0x14] @ to_be16 0"
  let ?ck = "csum [pseudo_header d s, rst_tcp sp dp ack]"
  have ph: "length (pseudo_header d s) = 40" using assms by (simp add: pseudo_header_def length_octets)
  have cat: "csum [pseudo_header d s, xs] = csum [pseudo_header d s @ xs]" if "length xs \<le> 100" for xs
    using csum_concat [of "[pseudo_header d s, xs]"] that ph by simp
  have tb: "length (tcp_body sp dp ack w) = 20" for w by (simp add: tcp_body_def)
  have r0: "rst_tcp sp dp ack = tcp_body sp dp ack 0" by (simp add: rst_tcp_def tcp_body_def)
  have "csum [?pre @ to_be16 (csum [?pre @ to_be16 0 @ to_be16 0]) @ to_be16 0] = 0"
    by (rule csum_verifies) (simp_all add: ph)
  then have c: "csum [pseudo_header d s, tcp_body sp dp ack ?ck] = 0"
    by (simp only: cat tb r0) (simp add: tcp_body_def)
  moreover have "rst_v6 s d (rst_tcp sp dp ack) = ip6_head d s @ tcp_body sp dp ack ?ck"
    using assms(2) by (simp add: rst_v6_def Let_def put16_tcp ip6_head_def pseudo_header_def)
  ultimately show ?thesis by blast
qed

text \<open>Reading a reset back: its headers and its ports.\<close>

lemma l3_rst4:
  assumes "is_v4 s" "is_v4 d"
  shows "l3 (ip4_head s d hc @ tcp_body sp dp ack ck) = Ret (Some \<lparr>l3_proto = 6, l3_src = s, l3_dst = d, l4 = 20\<rparr>)"
  using assms by (cases s; cases d)
    (simp_all add: l3_def get_def l3_v4_eq Let_def ip4_head_def tcp_body_def to_be16_def to_be32_def)

lemma l3_rst6:
  assumes "\<not> is_v4 s" "\<not> is_v4 d"
  shows "l3 (ip6_head s d @ tcp_body sp dp ack ck) = Ret (Some \<lparr>l3_proto = 6, l3_src = s, l3_dst = d, l4 = 40\<rparr>)"
proof -
  define p where "p = ip6_head s d @ tcp_body sp dp ack ck"
  have len: "length (octets s) = 16" "length (octets d) = 16" using assms by (simp_all add: length_octets)
  have a: "take 16 (drop 8 p) = octets s" "take 16 (drop 24 p) = octets d"
    using len by (simp_all add: p_def ip6_head_def to_be16_def)
  have b: "p ! 6 = 6" "length p = 60" "get p 0 = Some 0x60"
    using len by (simp_all add: p_def ip6_head_def to_be16_def tcp_body_def get_def)
  have "skip_ext p 6 40 = Some (6, 40)"
    using skip_ext_loop.simps(2) [of 7 p 6 40] by (simp add: skip_ext_def ext_len_def)
  then have "l3 p = Ret (Some \<lparr>l3_proto = 6, l3_src = s, l3_dst = d, l4 = 40\<rparr>)"
    using assms by (simp add: l3_def b l3_v6_eq a v6_of_octets_octets)
  then show ?thesis by (simp add: p_def)
qed

section \<open>Chains of extension headers\<close>

text \<open>An extension header: its number and what follows the next-header byte.\<close>

type_synonym ext = "u8 \<times> bytes"

definition ext_ok :: "ext \<Rightarrow> bool" where
  "ext_ok x = (case x of (k, body) \<Rightarrow>
     (k = 0 \<or> k = 43 \<or> k = 60) \<and> length body = unat (body ! 0) * 8 + 7
     \<or> k = 44 \<and> length body = 7 \<and> drop_bit 3 (from_be16 (body ! 1) (body ! 2)) = 0
     \<or> k = 51 \<and> length body = unat (body ! 0) * 4 + 7)"

definition later_fragment :: "ext \<Rightarrow> bool" where
  "later_fragment x = (case x of (k, body) \<Rightarrow>
     k = 44 \<and> length body = 7 \<and> drop_bit 3 (from_be16 (body ! 1) (body ! 2)) \<noteq> 0)"

fun first_nh :: "ext list \<Rightarrow> u8 \<Rightarrow> u8" where
  "first_nh [] up = up"
| "first_nh (x # xs) up = fst x"

fun enc_ext :: "ext list \<Rightarrow> u8 \<Rightarrow> bytes" where
  "enc_ext [] up = []"
| "enc_ext (x # xs) up = first_nh xs up # snd x @ enc_ext xs up"

definition upper_layer :: "u8 \<Rightarrow> bool" where
  "upper_layer p \<longleftrightarrow> p \<notin> {0, 43, 44, 51, 60}"

lemma three_le: "3 \<le> length xs \<Longrightarrow> \<exists>a b c r. xs = a # b # c # r"
  by (cases xs; cases "tl xs"; cases "tl (tl xs)") auto

lemma ext_ok_len:
  assumes "ext_ok (k, body)" "rest \<noteq> []"
  shows "ext_len (pre @ (n # body @ rest)) k (length pre) = Inl (Suc (length body))"
    and "get (pre @ (n # body @ rest)) (length pre) = Some n"
proof -
  have "7 \<le> length body" using assms(1) by (auto simp: ext_ok_def)
  then obtain a b c r where body: "body = a # b # c # r" using three_le [of body] by auto
  then show "ext_len (pre @ (n # body @ rest)) k (length pre) = Inl (Suc (length body))"
    using assms by (auto simp: ext_ok_def ext_len_def get_def nth_append)
  show "get (pre @ (n # body @ rest)) (length pre) = Some n" by (simp add: get_def)
qed

lemma skip_ext_chain_loop:
  assumes "length xs < n" "\<forall>x \<in> set xs. ext_ok x" "upper_layer up" "payload \<noteq> []"
  shows "skip_ext_loop n (pre @ enc_ext xs up @ payload) (first_nh xs up) (length pre)
    = Some (up, length pre + length (enc_ext xs up))"
  using assms
proof (induction xs arbitrary: n pre)
  case Nil
  then obtain m where "n = Suc m" by (cases n) auto
  then show ?case using Nil(3) by (auto simp: upper_layer_def ext_len_def)
next
  case (Cons x xs)
  obtain k body where x: "x = (k, body)" by fastforce
  obtain m where n: "n = Suc m" using Cons.prems(1) by (cases n) auto
  let ?hd = "first_nh xs up # body"
  have ok: "ext_ok (k, body)" using Cons.prems(2) x by simp
  have ne: "enc_ext xs up @ payload \<noteq> []" using Cons.prems(4) by simp
  have pkt: "pre @ enc_ext (x # xs) up @ payload = pre @ (first_nh xs up # body @ (enc_ext xs up @ payload))"
    by (simp add: x)
  have "skip_ext_loop m ((pre @ ?hd) @ enc_ext xs up @ payload) (first_nh xs up) (length (pre @ ?hd))
      = Some (up, length (pre @ ?hd) + length (enc_ext xs up))"
    using Cons.prems by (intro Cons.IH) (auto simp: n)
  then show ?case
    unfolding pkt using ext_ok_len [OF ok ne, of pre "first_nh xs up"] Cons.prems(4) by (simp add: n x)
qed

lemma skip_ext_fragment_loop:
  assumes "\<forall>x \<in> set xs. ext_ok x" "later_fragment y"
  shows "skip_ext_loop n (pre @ enc_ext (xs @ y # ys) up @ payload) (first_nh (xs @ y # ys) up) (length pre) = None"
  using assms
proof (induction xs arbitrary: n pre)
  case Nil
  obtain body where y: "y = (44, body)" using Nil(2) by (auto simp: later_fragment_def)
  have "length body = 7" using Nil(2) y by (simp add: later_fragment_def)
  then obtain a b c r where body: "body = a # b # c # r" using three_le [of body] by auto
  show ?case using Nil(2) by (cases n) (auto simp: y body ext_len_def get_def nth_append later_fragment_def)
next
  case (Cons x xs)
  obtain k body where x: "x = (k, body)" by fastforce
  let ?hd = "first_nh (xs @ y # ys) up # body"
  have ok: "ext_ok (k, body)" using Cons.prems(1) x by simp
  have ne: "enc_ext (xs @ y # ys) up @ payload \<noteq> []" by (cases xs) auto
  have pkt: "pre @ enc_ext ((x # xs) @ y # ys) up @ payload
      = pre @ (first_nh (xs @ y # ys) up # body @ (enc_ext (xs @ y # ys) up @ payload))"
    by (simp add: x)
  have "skip_ext_loop m ((pre @ ?hd) @ enc_ext (xs @ y # ys) up @ payload) (first_nh (xs @ y # ys) up) (length (pre @ ?hd)) = None" for m
    using Cons.prems by (intro Cons.IH) auto
  then show ?case
    unfolding pkt using ext_ok_len [OF ok ne, of pre "first_nh (xs @ y # ys) up"] by (cases n) (simp_all add: x)
qed

section \<open>Packets as they are on the wire\<close>

definition enc_v4 :: "bytes \<Rightarrow> u8 \<Rightarrow> bytes \<Rightarrow> ip_addr \<Rightarrow> ip_addr \<Rightarrow> bytes \<Rightarrow> bytes \<Rightarrow> bytes" where
  "enc_v4 m1 p m2 s d opts payload =
     [word_of_nat (69 + length opts div 4)] @ m1 @ [p] @ m2 @ octets s @ octets d @ opts @ payload"

definition enc_v6 :: "bytes \<Rightarrow> u8 \<Rightarrow> ip_addr \<Rightarrow> ip_addr \<Rightarrow> ext list \<Rightarrow> u8 \<Rightarrow> bytes \<Rightarrow> bytes" where
  "enc_v6 m hop s d xs up payload =
     m @ [first_nh xs up, hop] @ octets s @ octets d @ enc_ext xs up @ payload"

definition l4_bytes :: "u16 \<Rightarrow> u16 \<Rightarrow> bytes \<Rightarrow> bytes" where
  "l4_bytes sp dp rest = to_be16 sp @ to_be16 dp @ rest"

text \<open>A connection attempt: a TCP segment with SYN set and ACK clear.\<close>

definition opens_conn :: "u8 \<Rightarrow> bytes \<Rightarrow> bool" where
  "opens_conn p rest \<longleftrightarrow> p = 6 \<and> 10 \<le> length rest \<and> rest ! 9 AND 0x02 \<noteq> 0 \<and> rest ! 9 AND 0x10 = 0"

lemma parse_l4:
  assumes "l3 pkt = Ret (Some h)" "pkt = pre @ l4_bytes sp dp rest" "l4 h = length pre"
  shows "parse pkt = Ret (Some \<lparr>f_proto = l3_proto h, f_src = l3_src h, f_dst = l3_dst h, f_sport = sp, f_dport = dp,
    f_syn_only = opens_conn (l3_proto h) rest\<rparr>)"
proof -
  have n: "pkt ! l4 h = to_be16 sp ! 0" "pkt ! (l4 h + 1) = to_be16 sp ! 1" "pkt ! (l4 h + 2) = to_be16 dp ! 0"
    "pkt ! (l4 h + 3) = to_be16 dp ! 1" "pkt ! (l4 h + 13) = rest ! 9" "length pkt = l4 h + 4 + length rest"
    by (simp_all add: assms(2,3) l4_bytes_def nth_append to_be16_def)
  show ?thesis
    unfolding parse_eq [OF assms(1)] n by (auto simp: opens_conn_def byte_simps)
qed

lemma ihl_byte:
  assumes "k \<le> 10"
  shows "unat ((word_of_nat (69 + k) :: u8) AND 0x0f) = 5 + k" "drop_bit 4 (word_of_nat (69 + k) :: u8) = 4"
proof -
  have "\<forall>k \<in> set [0..<11]. unat ((word_of_nat (69 + k) :: u8) AND 0x0f) = 5 + k \<and> drop_bit 4 (word_of_nat (69 + k) :: u8) = 4"
    by code_simp
  then show "unat ((word_of_nat (69 + k) :: u8) AND 0x0f) = 5 + k" "drop_bit 4 (word_of_nat (69 + k) :: u8) = 4"
    using assms by auto
qed

lemma l3_enc_v4:
  assumes "length m1 = 8" "length m2 = 2" "4 dvd length opts" "length opts \<le> 40" "is_v4 s" "is_v4 d"
  shows "l3 (enc_v4 m1 p m2 s d opts payload) = Ret (Some \<lparr>l3_proto = p, l3_src = s, l3_dst = d, l4 = 20 + length opts\<rparr>)"
proof -
  define pkt where "pkt = enc_v4 m1 p m2 s d opts payload"
  define k where "k = length opts div 4"
  have k: "k \<le> 10" "length opts = 4 * k" using assms(3,4) by (auto simp: k_def)
  obtain a b c e where s: "s = V4 a b c e" using assms(5) by (cases s) auto
  obtain a' b' c' e' where d: "d = V4 a' b' c' e'" using assms(6) by (cases d) auto
  have n: "pkt ! 0 = word_of_nat (69 + k)" "pkt ! 9 = p" "pkt ! 12 = a" "pkt ! 13 = b" "pkt ! 14 = c" "pkt ! 15 = e"
    "pkt ! 16 = a'" "pkt ! 17 = b'" "pkt ! 18 = c'" "pkt ! 19 = e'" "length pkt = 20 + length opts + length payload"
    using assms(1,2) by (simp_all add: pkt_def enc_v4_def nth_append s d k_def nth_Cons')
  have "get pkt 0 = Some (word_of_nat (69 + k))" using n by (simp add: get_def)
  then have "l3 pkt = l3_v4 pkt" using ihl_byte(2) [OF k(1)] by (simp add: l3_def)
  also have "\<dots> = Ret (Some \<lparr>l3_proto = p, l3_src = s, l3_dst = d, l4 = 20 + length opts\<rparr>)"
    unfolding l3_v4_eq n Let_def using ihl_byte(1) [OF k(1)] k(2) by (simp add: s d)
  finally show ?thesis by (simp add: pkt_def)
qed

lemma l3_enc_v6:
  assumes "length m = 6" "drop_bit 4 (m ! 0) = 6" "\<not> is_v4 s" "\<not> is_v4 d"
    and "skip_ext (enc_v6 m hop s d xs up payload) (first_nh xs up) 40 = r"
  shows "l3 (enc_v6 m hop s d xs up payload)
    = Ret (map_option (\<lambda>(p, l). \<lparr>l3_proto = p, l3_src = s, l3_dst = d, l4 = l\<rparr>) r)"
proof -
  define pkt where "pkt = enc_v6 m hop s d xs up payload"
  have len: "length (octets s) = 16" "length (octets d) = 16" using assms(3,4) by (simp_all add: length_octets)
  have a: "take 16 (drop 8 pkt) = octets s" "take 16 (drop 24 pkt) = octets d"
    using len assms(1) by (simp_all add: pkt_def enc_v6_def)
  have b: "pkt ! 6 = first_nh xs up" "\<not> length pkt < 40" "get pkt 0 = Some (m ! 0)"
    using len assms(1) by (auto simp: pkt_def enc_v6_def get_def nth_append)
  have "l3 pkt = l3_v6 pkt" using assms(2) by (simp add: l3_def b)
  also have "\<dots> = Ret (map_option (\<lambda>(p, l). \<lparr>l3_proto = p, l3_src = s, l3_dst = d, l4 = l\<rparr>) r)"
    using assms(3,4,5) by (simp add: l3_v6_eq b a v6_of_octets_octets pkt_def [symmetric])
  finally show ?thesis by (simp add: pkt_def)
qed

lemma parse_enc_v4:
  assumes "length m1 = 8" and "length m2 = 2" and "4 dvd length opts" and "length opts \<le> 40"
    and "is_v4 s" and "is_v4 d"
  shows "parse (enc_v4 m1 p m2 s d opts (l4_bytes sp dp rest))
    = Ret (Some \<lparr>f_proto = p, f_src = s, f_dst = d, f_sport = sp, f_dport = dp, f_syn_only = opens_conn p rest\<rparr>)"
proof -
  let ?pre = "[word_of_nat (69 + length opts div 4)] @ m1 @ [p] @ m2 @ octets s @ octets d @ opts"
  have "length ?pre = 20 + length opts" using assms by (simp add: length_octets)
  then show ?thesis
    using parse_l4 [OF l3_enc_v4 [OF assms, of p "l4_bytes sp dp rest"], of ?pre sp dp rest]
    by (simp add: enc_v4_def)
qed

lemma rst_shape:
  assumes "is_v4 s = is_v4 d" and r: "r = (if is_v4 s then rst_v4 s d (rst_tcp sp dp ack) else rst_v6 s d (rst_tcp sp dp ack))"
    and off: "off = (if is_v4 s then 20 else 40)"
  shows "\<exists>ih ck. r = ih @ tcp_body sp dp ack ck \<and> length ih = off
    \<and> l3 r = Ret (Some \<lparr>l3_proto = 6, l3_src = d, l3_dst = s, l4 = off\<rparr>)
    \<and> csum [pseudo_header d s, tcp_body sp dp ack ck] = 0 \<and> (is_v4 s \<longrightarrow> csum [ih] = 0)"
proof (cases "is_v4 s")
  case True
  then obtain hc ck where "r = ip4_head d s hc @ tcp_body sp dp ack ck" "csum [ip4_head d s hc] = 0"
      "csum [pseudo_header d s, tcp_body sp dp ack ck] = 0"
    using rst_v4_shape [of s d sp dp ack] assms(1) r by auto
  moreover have "length (ip4_head d s hc) = off" using True assms(1) by (simp add: ip4_head_def length_octets off)
  ultimately show ?thesis using l3_rst4 [of d s hc sp dp ack ck] True assms(1) off by auto
next
  case False
  then obtain ck where "r = ip6_head d s @ tcp_body sp dp ack ck" "csum [pseudo_header d s, tcp_body sp dp ack ck] = 0"
    using rst_v6_shape [of s d sp dp ack] assms(1) r by auto
  moreover have "length (ip6_head d s) = off" using False assms(1) by (simp add: ip6_head_def length_octets off)
  ultimately show ?thesis using l3_rst6 [of d s sp dp ack ck] False assms(1) off by auto
qed

text \<open>What a receiver reads from a segment with the body of a reset.\<close>

lemma rst_reads:
  assumes r: "r = ih @ tcp_body sp dp ack ck" "length ih = off"
    and l: "l3 r = Ret (Some \<lparr>l3_proto = 6, l3_src = d, l3_dst = s, l4 = off\<rparr>)" and v: "is_v4 s = is_v4 d"
  shows "parse r = Ret (Some \<lparr>f_proto = 6, f_src = d, f_dst = s, f_sport = dp, f_dport = sp, f_syn_only = False\<rparr>)"
    and "length r = off + 20" and "tcp_rst r = Ret None"
    and "from_be32 (r ! (off + 8)) (r ! (off + 9)) (r ! (off + 10)) (r ! (off + 11)) = ack"
proof -
  let ?rest = "to_be32 0 @ to_be32 ack @ [0x50, 0x14] @ to_be16 0 @ to_be16 ck @ to_be16 0"
  have body: "tcp_body sp dp ack ck = l4_bytes dp sp ?rest" by (simp add: tcp_body_def l4_bytes_def)
  have "\<not> opens_conn 6 ?rest" by (simp add: opens_conn_def to_be32_def)
  then show "parse r = Ret (Some \<lparr>f_proto = 6, f_src = d, f_dst = s, f_sport = dp, f_dport = sp, f_syn_only = False\<rparr>)"
    using parse_l4 [OF l, of ih dp sp ?rest] r by (simp add: body)
  have fl: "r ! (off + 13) = 0x14" "length r = off + 20"
    using r by (simp_all add: tcp_body_def nth_append to_be16_def to_be32_def)
  then show "length r = off + 20" by simp
  show "tcp_rst r = Ret None" using v by (simp add: tcp_rst_eq [OF l] fl)
  have "r ! (off + 8) = to_be32 ack ! 0" "r ! (off + 9) = to_be32 ack ! Suc 0" "r ! (off + 10) = to_be32 ack ! 2"
      "r ! (off + 11) = to_be32 ack ! 3"
    using r by (simp_all add: tcp_body_def nth_append to_be16_def to_be32_def)
  then show "from_be32 (r ! (off + 8)) (r ! (off + 9)) (r ! (off + 10)) (r ! (off + 11)) = ack"
    by (simp only: from_be32_nth_to_be32)
qed

section \<open>Properties\<close>

text \<open>C27: no packet makes the parser panic: for every byte string, \<open>parse\<close>, \<open>payload_offset\<close> and
  \<open>tcp_rst\<close> return, and the transport header they read lies inside the packet.\<close>

theorem packet_parsers_never_panic:
  "parse pkt \<noteq> Panic \<and> payload_offset pkt \<noteq> Panic \<and> tcp_rst pkt \<noteq> Panic
   \<and> (\<forall>h. l3 pkt = Ret (Some h) \<longrightarrow> 20 \<le> l4 h \<and> l4 h \<le> length pkt)"
proof (cases pkt rule: l3_ok)
  case none
  then show ?thesis by (simp add: parse_None tcp_rst_None payload_offset_def)
next
  case (some h)
  then show ?thesis
    by (auto simp: parse_eq tcp_rst_eq payload_offset_def split: option.splits)
qed

theorem packet_parsers_never_panic_witness:
  "20 \<le> l4 \<lparr>l3_proto = 6, l3_src = V4 1 2 3 4, l3_dst = V4 5 6 7 8, l4 = 20\<rparr>
   \<and> parse (enc_v4 (replicate 8 0) 6 [0, 0] (V4 1 2 3 4) (V4 5 6 7 8) [] []) \<noteq> Panic"
  using packet_parsers_never_panic [of "enc_v4 (replicate 8 0) 6 [0, 0] (V4 1 2 3 4) (V4 5 6 7 8) [] []"]
    l3_enc_v4 [of "replicate 8 0" "[0, 0]" "[]" "V4 1 2 3 4" "V4 5 6 7 8" 6 "[]"]
  by auto



text \<open>C29: \<open>parse\<close> reads an IPv6 packet right: behind any chain of at most seven well-formed extension
  headers it finds the upper-layer protocol and its ports.\<close>

theorem parse_v6_roundtrip:
  assumes "length m = 6" and "drop_bit 4 (m ! 0) = 6" and "\<not> is_v4 s" and "\<not> is_v4 d"
    and "length xs < 8" and "\<forall>x \<in> set xs. ext_ok x" and "upper_layer up"
  shows "parse (enc_v6 m hop s d xs up (l4_bytes sp dp rest))
    = Ret (Some \<lparr>f_proto = up, f_src = s, f_dst = d, f_sport = sp, f_dport = dp, f_syn_only = opens_conn up rest\<rparr>)"
proof -
  let ?pl = "l4_bytes sp dp rest"
  let ?pre = "m @ [first_nh xs up, hop] @ octets s @ octets d"
  have len: "length ?pre = 40" using assms(1,3,4) by (simp add: length_octets)
  have "?pl \<noteq> []" by (simp add: l4_bytes_def to_be16_def)
  then have "skip_ext (?pre @ enc_ext xs up @ ?pl) (first_nh xs up) (length ?pre)
      = Some (up, length ?pre + length (enc_ext xs up))"
    unfolding skip_ext_def using assms by (intro skip_ext_chain_loop) auto
  then have sk: "skip_ext (enc_v6 m hop s d xs up ?pl) (first_nh xs up) 40 = Some (up, 40 + length (enc_ext xs up))"
    unfolding len by (simp add: enc_v6_def)
  show ?thesis
    using parse_l4 [of "enc_v6 m hop s d xs up ?pl" _ "?pre @ enc_ext xs up" sp dp rest]
      l3_enc_v6 [OF assms(1-4) sk] len
    by (simp add: enc_v6_def)
qed

theorem parse_v6_roundtrip_witness:
  "parse (enc_v6 [0x60, 0, 0, 0, 0, 0] 64 (V6 1 0 0 0 0 0 0 2) (V6 3 0 0 0 0 0 0 4) [(44, replicate 7 0)] 17 (l4_bytes 1 53 []))
    = Ret (Some \<lparr>f_proto = 17, f_src = V6 1 0 0 0 0 0 0 2, f_dst = V6 3 0 0 0 0 0 0 4, f_sport = 1, f_dport = 53, f_syn_only = False\<rparr>)"
proof -
  have "drop_bit 4 (0x60 :: u8) = 6" by code_simp
  moreover have "ext_ok (44, replicate 7 0)" by code_simp
  ultimately show ?thesis
    using parse_v6_roundtrip [of "[0x60, 0, 0, 0, 0, 0]" "V6 1 0 0 0 0 0 0 2" "V6 3 0 0 0 0 0 0 4" "[(44, replicate 7 0)]" 17 64 1 53 "[]"]
    by (simp add: opens_conn_def upper_layer_def)
qed

text \<open>A later fragment has no ports, and none are read from it: an IPv6 packet whose chain has a
  fragment header with a non-zero offset is refused by \<open>parse\<close>, \<open>payload_offset\<close> and \<open>tcp_rst\<close>.\<close>

theorem later_fragment_refused:
  assumes "length m = 6" and "drop_bit 4 (m ! 0) = 6" and "\<not> is_v4 s" and "\<not> is_v4 d"
    and "\<forall>x \<in> set xs. ext_ok x" and "later_fragment y"
  shows "parse (enc_v6 m hop s d (xs @ y # ys) up payload) = Ret None
    \<and> payload_offset (enc_v6 m hop s d (xs @ y # ys) up payload) = Ret None
    \<and> tcp_rst (enc_v6 m hop s d (xs @ y # ys) up payload) = Ret None"
proof -
  let ?pre = "m @ [first_nh (xs @ y # ys) up, hop] @ octets s @ octets d"
  have len: "length ?pre = 40" using assms(1,3,4) by (simp add: length_octets)
  have "skip_ext (?pre @ enc_ext (xs @ y # ys) up @ payload) (first_nh (xs @ y # ys) up) (length ?pre) = None"
    unfolding skip_ext_def using assms by (intro skip_ext_fragment_loop) auto
  then have "skip_ext (enc_v6 m hop s d (xs @ y # ys) up payload) (first_nh (xs @ y # ys) up) 40 = None"
    unfolding len by (simp add: enc_v6_def)
  from l3_enc_v6 [OF assms(1-4) this] show ?thesis
    by (simp add: parse_None tcp_rst_None payload_offset_def)
qed

theorem later_fragment_refused_witness:
  "parse (enc_v6 [0x60, 0, 0, 0, 0, 0] 64 (V6 1 0 0 0 0 0 0 2) (V6 3 0 0 0 0 0 0 4) [(44, [0, 0, 8, 0, 0, 0, 0])] 6 (l4_bytes 1 443 [])) = Ret None"
proof -
  have "drop_bit 4 (0x60 :: u8) = 6" by code_simp
  moreover have "later_fragment (44, [0, 0, 8, 0, 0, 0, 0])" by code_simp
  ultimately show ?thesis
    using later_fragment_refused [of "[0x60, 0, 0, 0, 0, 0]" "V6 1 0 0 0 0 0 0 2" "V6 3 0 0 0 0 0 0 4" "[]" "(44, [0, 0, 8, 0, 0, 0, 0])"]
    by simp
qed

text \<open>C24: the reset is the answer the peer would have sent: for a TCP segment of the flow \<open>f\<close> that
  \<open>tcp_rst\<close> answers, the bytes it builds parse as a segment of the reversed flow that opens nothing,
  they acknowledge the sequence number (one more for a SYN), the TCP checksum over the pseudo header
  and, for IPv4, the header checksum verify, and the reset itself is never answered with a reset.\<close>

theorem tcp_rst_answers:
  assumes "tcp_rst pkt = Ret (Some r)" and "l3 pkt = Ret (Some h)"
  shows "\<exists>f off seq. parse pkt = Ret (Some f) \<and> off = (if is_v4 (f_src f) then 20 else 40) \<and> length r = off + 20
    \<and> parse r = Ret (Some \<lparr>f_proto = 6, f_src = f_dst f, f_dst = f_src f, f_sport = f_dport f, f_dport = f_sport f,
        f_syn_only = False\<rparr>)
    \<and> seq = from_be32 (pkt ! (l4 h + 4)) (pkt ! (l4 h + 5)) (pkt ! (l4 h + 6)) (pkt ! (l4 h + 7))
    \<and> from_be32 (r ! (off + 8)) (r ! (off + 9)) (r ! (off + 10)) (r ! (off + 11))
        = (if pkt ! (l4 h + 13) AND 0x02 \<noteq> 0 then seq + 1 else seq)
    \<and> csum [pseudo_header (f_dst f) (f_src f), drop off r] = 0
    \<and> (is_v4 (f_src f) \<longrightarrow> csum [take off r] = 0)
    \<and> tcp_rst r = Ret None"
proof -
  have v: "is_v4 (l3_src h) = is_v4 (l3_dst h)"
    using assms(2) by (cases pkt rule: l3_ok) auto
  have g: "l3_proto h = 6" "l4 h + 20 \<le> length pkt" and r: "r = rst_of pkt h"
    using assms(1) by (auto simp: tcp_rst_eq [OF assms(2) v] split: if_splits)
  define sp dp where "sp = from_be16 (pkt ! l4 h) (pkt ! (l4 h + 1))" and "dp = from_be16 (pkt ! (l4 h + 2)) (pkt ! (l4 h + 3))"
  define seq ack where "seq = from_be32 (pkt ! (l4 h + 4)) (pkt ! (l4 h + 5)) (pkt ! (l4 h + 6)) (pkt ! (l4 h + 7))"
    and "ack = seq + (if pkt ! (l4 h + 13) AND 0x02 \<noteq> 0 then 1 else 0)"
  obtain f where f: "parse pkt = Ret (Some f)" "f_src f = l3_src h" "f_dst f = l3_dst h" "f_sport f = sp" "f_dport f = dp"
    using g by (simp add: parse_eq [OF assms(2)] sp_def dp_def)
  define off where "off = (if is_v4 (f_src f) then 20 else 40 :: nat)"
  have rd: "r = (if is_v4 (f_src f) then rst_v4 (f_src f) (f_dst f) (rst_tcp sp dp ack)
      else rst_v6 (f_src f) (f_dst f) (rst_tcp sp dp ack))"
    by (simp add: r rst_of_def Let_def sp_def dp_def seq_def ack_def f(2,3))
  have vf: "is_v4 (f_src f) = is_v4 (f_dst f)" using v by (simp add: f(2,3))
  obtain ih ck where rr: "r = ih @ tcp_body sp dp ack ck" "length ih = off"
      "l3 r = Ret (Some \<lparr>l3_proto = 6, l3_src = f_dst f, l3_dst = f_src f, l4 = off\<rparr>)"
      "csum [pseudo_header (f_dst f) (f_src f), tcp_body sp dp ack ck] = 0" "is_v4 (f_src f) \<longrightarrow> csum [ih] = 0"
    using rst_shape [OF vf rd off_def] by blast
  have "ack = (if pkt ! (l4 h + 13) AND 0x02 \<noteq> 0 then seq + 1 else seq)" by (simp add: ack_def)
  moreover have "drop off r = tcp_body sp dp ack ck" "take off r = ih" using rr(1,2) by simp_all
  ultimately show ?thesis
    using rst_reads [OF rr(1,2,3) vf] f rr(4,5) off_def seq_def by metis
qed

lemma demo_syn: "\<exists>h r. l3 (enc_v4 (replicate 8 0) 6 [0, 0] (V4 10 0 0 1) (V4 8 8 8 8) []
      (l4_bytes 5000 443 [0, 0, 0, 1, 0, 0, 0, 0, 0x50, 0x02, 0, 0, 0, 0, 0, 0])) = Ret (Some h)
    \<and> tcp_rst (enc_v4 (replicate 8 0) 6 [0, 0] (V4 10 0 0 1) (V4 8 8 8 8) []
      (l4_bytes 5000 443 [0, 0, 0, 1, 0, 0, 0, 0, 0x50, 0x02, 0, 0, 0, 0, 0, 0])) = Ret (Some r)"
proof -
  let ?pkt = "enc_v4 (replicate 8 0) 6 [0, 0] (V4 10 0 0 1) (V4 8 8 8 8) []
      (l4_bytes 5000 443 [0, 0, 0, 1, 0, 0, 0, 0, 0x50, 0x02, 0, 0, 0, 0, 0, 0])"
  have h: "l3 ?pkt = Ret (Some \<lparr>l3_proto = 6, l3_src = V4 10 0 0 1, l3_dst = V4 8 8 8 8, l4 = 20\<rparr>)"
    by (subst l3_enc_v4) simp_all
  have "?pkt ! 33 = 2" "length ?pkt = 40" by code_simp+
  then show ?thesis using h tcp_rst_eq [OF h] by simp
qed

theorem tcp_rst_answers_witness:
  "\<exists>r. tcp_rst r = Ret None \<and> length r = 40
     \<and> tcp_rst (enc_v4 (replicate 8 0) 6 [0, 0] (V4 10 0 0 1) (V4 8 8 8 8) []
      (l4_bytes 5000 443 [0, 0, 0, 1, 0, 0, 0, 0, 0x50, 0x02, 0, 0, 0, 0, 0, 0])) = Ret (Some r)"
proof -
  let ?pkt = "enc_v4 (replicate 8 0) 6 [0, 0] (V4 10 0 0 1) (V4 8 8 8 8) []
      (l4_bytes 5000 443 [0, 0, 0, 1, 0, 0, 0, 0, 0x50, 0x02, 0, 0, 0, 0, 0, 0])"
  obtain h r where hr: "l3 ?pkt = Ret (Some h)" "tcp_rst ?pkt = Ret (Some r)" using demo_syn by blast
  have p: "parse ?pkt = Ret (Some \<lparr>f_proto = 6, f_src = V4 10 0 0 1, f_dst = V4 8 8 8 8, f_sport = 5000, f_dport = 443,
      f_syn_only = opens_conn 6 [0, 0, 0, 1, 0, 0, 0, 0, 0x50, 0x02, 0, 0, 0, 0, 0, 0]\<rparr>)"
    by (rule parse_enc_v4) simp_all
  show ?thesis using tcp_rst_answers [OF hr(2,1)] p hr(2) by auto
qed

text \<open>Binding leaks no descriptor: when \<open>bind\<close> fails, every descriptor it opened has been closed;
  when it succeeds, the descriptor is open, marked close-on-exec, and bound.\<close>

theorem bind_leaks_nothing:
  "case bind_divert os err [] port of
     (Inl e, tr) \<Rightarrow> (\<forall>c \<in> set tr. case c of FcntlSetfd fd _ \<Rightarrow> last tr = Close fd | Bind fd _ \<Rightarrow> last tr = Close fd | _ \<Rightarrow> True)
       \<and> (os [] (Socket PF_DIVERT (or SOCK_RAW SOCK_CLOEXEC) 0) \<ge> 0 \<longrightarrow>
            last tr = Close (os [] (Socket PF_DIVERT (or SOCK_RAW SOCK_CLOEXEC) 0)))
   | (Inr fd, tr) \<Rightarrow> fd \<ge> 0 \<and> Close fd \<notin> set tr \<and> FcntlSetfd fd FD_CLOEXEC \<in> set tr
       \<and> (\<exists>a. last tr = Bind fd a \<and> sin_port a = port \<and> s_addr a = 0)"
  by (simp add: bind_divert_def Let_def zeroed_sockaddr_def)

lemma bind_leaks_nothing_witness:
  "last (snd (bind_divert (\<lambda>tr c. case c of Bind _ _ \<Rightarrow> -1 | _ \<Rightarrow> 3) (\<lambda>tr. 48) [] 8668)) = Close 3"
  using bind_leaks_nothing [where os = "\<lambda>tr c. case c of Bind _ _ \<Rightarrow> -1 | _ \<Rightarrow> 3" and err = "\<lambda>tr. 48" and port = 8668]
  by (simp add: bind_divert_def Let_def)

text \<open>The timeout passed to the kernel is the one asked for: seconds and microseconds add up to
  the milliseconds and the microseconds are below a million.\<close>

theorem read_timeout_exact:
  "\<exists>sec usec. snd (set_read_timeout os err tr fd ms) = tr @ [SetRcvTimeo fd sec usec]
     \<and> 0 \<le> sec \<and> 0 \<le> usec \<and> usec < 1000000 \<and> sec * 1000000 + usec = uint ms * 1000"
proof -
  have m: "uint (ms mod 1000) = uint ms mod 1000" "uint (ms div 1000) = uint ms div 1000"
    by (simp_all add: uint_mod_distrib uint_div_distrib)
  have "uint ms mod 1000 < 1000" "0 \<le> uint ms mod 1000" by simp_all
  then have "uint ((ms mod 1000) * 1000) = uint ms mod 1000 * 1000"
    by (simp add: uint_word_ariths m)
  moreover have "uint ms div 1000 * 1000000 + uint ms mod 1000 * 1000 = uint ms * 1000"
    using div_mult_mod_eq [of "uint ms" 1000] by linarith
  moreover have "0 \<le> uint ms div 1000" by (simp add: pos_imp_zdiv_nonneg_iff)
  ultimately show ?thesis
    by (intro exI [of _ "uint ms div 1000"] exI [of _ "uint ms mod 1000 * 1000"])
      (simp add: set_read_timeout_def Let_def m)
qed

text \<open>The ports of an IPv4 packet are read whatever its fragment offset is.\<close>

lemma v4_later_fragment_is_parsed:
  "parse (enc_v4 [0, 0, 24, 0, 0, 0x20, 0xb9, 64] 6 [0, 0] (V4 10 0 0 1) (V4 8 8 8 8) [] (l4_bytes 0x4142 0x4344 []))
     = Ret (Some \<lparr>f_proto = 6, f_src = V4 10 0 0 1, f_dst = V4 8 8 8 8, f_sport = 0x4142, f_dport = 0x4344, f_syn_only = False\<rparr>)"
  by (subst parse_enc_v4) (simp_all add: opens_conn_def)

end
