(* ===== verification/Dns.thy ===== *)
theory Dns
  imports Ip_Addr
begin

unbundle bit_operations_syntax

text \<open>
  Host names learned from DNS answers (\<open>src/dns.rs\<close>): reading a possibly compressed name, reading
  a response, and the cache from addresses to names.

  The parser reads hostile input, so indexing is checked and panics are values.  A clock reading
  (\<open>Instant\<close>) is a number of milliseconds.
\<close>

section \<open>Names\<close>

text \<open>The loop of \<open>read_name\<close>; it ends because every round either follows one of at most sixteen
  pointers or moves forward in the message.\<close>

function read_name_loop :: "bytes \<Rightarrow> string \<Rightarrow> nat \<Rightarrow> nat option \<Rightarrow> nat \<Rightarrow> (string \<times> nat) option eval" where
  "read_name_loop b out off after hops =
     (if length b \<le> off then Ret None
      else case idx b off of Panic \<Rightarrow> Panic | Ret lb \<Rightarrow>
       (let len = unat lb in
        if lb AND 0xc0 = 0xc0 then
          (if length b \<le> off + 1 then Ret None
           else case idx b (off + 1) of Panic \<Rightarrow> Panic | Ret lo \<Rightarrow>
            (let ptr = or (push_bit 8 (unat (lb AND 0x3f))) (unat lo);
                 after = (if after = None then Some (off + 2) else after);
                 hops = hops + 1
             in if 16 < hops \<or> length b \<le> ptr then Ret None
                else read_name_loop b out ptr after hops))
        else if len = 0 then
          Ret (Some (out, case after of None \<Rightarrow> off + 1 | Some a \<Rightarrow> a))
        else if length b < off + 1 + len then Ret None
        else case slice b (off + 1) (off + 1 + len) of Panic \<Rightarrow> Panic | Ret label \<Rightarrow>
          read_name_loop b ((if out \<noteq> [] then out @ ''.'' else out) @ from_utf8_lossy label)
            (off + 1 + len) after hops))"
  by pat_completeness auto
termination
  by (relation "measures [\<lambda>(b, out, off, after, hops). 17 - hops, \<lambda>(b, out, off, after, hops). length b - off]")
    (auto simp: slice_def split: if_splits)

declare read_name_loop.simps [simp del]

definition read_name :: "bytes \<Rightarrow> nat \<Rightarrow> (string \<times> nat) option eval" where
  "read_name b start = read_name_loop b [] start None 0"

section \<open>Responses\<close>

fun skip_questions :: "nat \<Rightarrow> bytes \<Rightarrow> nat \<Rightarrow> nat option eval" where
  "skip_questions 0 b off = Ret (Some off)"
| "skip_questions (Suc n) b off = bindO (read_name b off) (\<lambda>(_, next). skip_questions n b (next + 4))"

text \<open>The address a record carries, if any.\<close>

definition record_addr :: "bytes \<Rightarrow> u16 \<Rightarrow> nat \<Rightarrow> nat \<Rightarrow> ip_addr list eval" where
  "record_addr b rtype rdlen off =
     (if rtype = 1 \<and> rdlen = 4 then
        bindE (idx b off) (\<lambda>p. bindE (idx b (off + 1)) (\<lambda>q. bindE (idx b (off + 2)) (\<lambda>r. bindE (idx b (off + 3)) (\<lambda>s.
          Ret [V4 p q r s]))))
      else if rtype = 28 \<and> rdlen = 16 then bindE (slice b off (off + 16)) (\<lambda>a. Ret [v6_of_octets a])
      else Ret [])"

fun read_answers :: "nat \<Rightarrow> bytes \<Rightarrow> nat \<Rightarrow> ip_addr list \<Rightarrow> ip_addr list option eval" where
  "read_answers 0 b off ips = Ret (Some ips)"
| "read_answers (Suc n) b off ips = bindO (read_name b off) (\<lambda>(_, next).
     if length b < next + 10 then Ret (Some ips)
     else bindE (idx b next) (\<lambda>t1. bindE (idx b (next + 1)) (\<lambda>t0.
       bindE (idx b (next + 8)) (\<lambda>l1. bindE (idx b (next + 9)) (\<lambda>l0.
         let rtype = from_be16 t1 t0; rdlen = unat (from_be16 l1 l0); off = next + 10 in
         if length b < off + rdlen then Ret (Some ips)
         else bindE (record_addr b rtype rdlen off) (\<lambda>new. read_answers n b (off + rdlen) (ips @ new)))))))"

definition be16 :: "bytes \<Rightarrow> nat \<Rightarrow> u16 eval" where
  "be16 b i = bindE (idx b i) (\<lambda>p. bindE (idx b (i + 1)) (\<lambda>q. Ret (from_be16 p q)))"

definition parse_response :: "bytes \<Rightarrow> (string \<times> ip_addr list) option eval" where
  "parse_response b =
     (if length b < 12 then Ret None
      else bindE (be16 b 2) (\<lambda>flags.
        if flags AND 0x8000 = 0 then Ret None
        else bindE (be16 b 4) (\<lambda>qdw. bindE (be16 b 6) (\<lambda>anw.
          let qd = unat qdw; an = unat anw in
          if qd = 0 \<or> an = 0 then Ret None
          else bindO (read_name b 12) (\<lambda>(qname, next).
            bindO (skip_questions (qd - 1) b (next + 4)) (\<lambda>off.
              bindO (read_answers an b off []) (\<lambda>ips.
                if ips = [] then Ret None else Ret (Some (qname, ips)))))))))"

section \<open>The cache\<close>

record dns_cache =
  dns_map :: "(ip_addr, string \<times> nat) hashmap"
  dns_ttl :: nat

definition dns_new :: dns_cache where
  "dns_new = \<lparr>dns_map = [], dns_ttl = 3600 * 1000\<rparr>"

definition name_for :: "dns_cache \<Rightarrow> ip_addr \<Rightarrow> string option" where
  "name_for c ip = map_option fst (hm_get (dns_map c) ip)"

definition dns_len :: "dns_cache \<Rightarrow> nat" where
  "dns_len c = hm_len (dns_map c)"

text \<open>\<open>now\<close> is the clock when the names are stored, \<open>later\<close> when \<open>elapsed\<close> reads it.\<close>

definition observe :: "nat \<Rightarrow> nat \<Rightarrow> bytes \<Rightarrow> dns_cache \<Rightarrow> dns_cache eval" where
  "observe now later payload c = bindE (parse_response payload) (\<lambda>r.
     let m = (case r of
         Some (name, ips) \<Rightarrow> fold (\<lambda>ip. hm_insert ip (name, now)) ips (dns_map c)
       | None \<Rightarrow> dns_map c)
     in Ret (c\<lparr>dns_map := (if 4096 < hm_len m then hm_retain (\<lambda>(_, _, t). later - t < dns_ttl c) m else m)\<rparr>))"

section \<open>No message makes the parser panic\<close>

lemma read_name_loop_ok:
  "(\<exists>r. read_name_loop b out off after hops = Ret r)
   \<and> (\<forall>s n. read_name_loop b out off after hops = Ret (Some (s, n)) \<longrightarrow>
        (case after of None \<Rightarrow> off < n \<and> n \<le> length b | Some a \<Rightarrow> n = a))"
proof (induction b out off after hops rule: read_name_loop.induct)
  case (1 b out off after hops)
  show ?case
  proof (cases "length b \<le> off")
    case True
    then show ?thesis by (subst (1 2) read_name_loop.simps) simp
  next
    case False
    then have i: "idx b off = Ret (b ! off)" by (simp add: idx_ok)
    consider (ptr) "b ! off AND 0xc0 = 0xc0" | (fin) "b ! off AND 0xc0 \<noteq> 0xc0" "unat (b ! off) = 0"
      | (label) "b ! off AND 0xc0 \<noteq> 0xc0" "unat (b ! off) \<noteq> 0" by blast
    then show ?thesis
    proof cases
      case ptr
      show ?thesis
      proof (cases "length b \<le> off + 1")
        case False
        then have j: "idx b (off + 1) = Ret (b ! (off + 1))" by (simp add: idx_ok)
        show ?thesis
          using 1(1) [OF \<open>\<not> length b \<le> off\<close> i refl ptr False j refl refl refl] ptr False i j \<open>\<not> length b \<le> off\<close>
          by (subst (1 2) read_name_loop.simps) (auto simp: Let_def split: option.splits)
      qed (use ptr i False in \<open>subst (1 2) read_name_loop.simps, simp add: Let_def\<close>)
    next
      case fin
      then show ?thesis using i False by (subst (1 2) read_name_loop.simps) (auto simp: Let_def split: option.splits)
    next
      case label
      show ?thesis
      proof (cases "length b < off + 1 + unat (b ! off)")
        case True
        then show ?thesis using label i False by (subst (1 2) read_name_loop.simps) (simp add: Let_def)
      next
        case nl: False
        then have s: "slice b (off + 1) (off + 1 + unat (b ! off)) = Ret (take (unat (b ! off)) (drop (off + 1) b))"
          by (simp add: slice_ok)
        show ?thesis
          using 1(2) [OF False i refl label nl s] label nl i s False
          by (subst (1 2) read_name_loop.simps) (fastforce simp: Let_def split: option.splits)
      qed
    qed
  qed
qed

lemma read_name_ok:
  obtains (none) "read_name b off = Ret None"
  | (some) s n where "read_name b off = Ret (Some (s, n))" "off < n" "n \<le> length b"
  using read_name_loop_ok [of b "[]" off None 0] unfolding read_name_def
  by (metis option.exhaust option.case(1) surj_pair)

lemma skip_questions_ok: "\<exists>r. skip_questions n b off = Ret r"
proof (induction n arbitrary: off)
  case (Suc n)
  show ?case by (cases b off rule: read_name_ok) (simp_all add: Suc.IH)
qed simp

lemma record_addr_ok: "off + rdlen \<le> length b \<Longrightarrow> \<exists>r. record_addr b rtype rdlen off = Ret r"
  by (auto simp: record_addr_def eval_simps)

lemma read_answers_ok: "\<exists>r. read_answers n b off ips = Ret r"
proof (induction n arbitrary: off ips)
  case (Suc n)
  show ?case
  proof (cases b off rule: read_name_ok)
    case (some s m)
    show ?thesis
    proof (cases "length b < m + 10")
      case False
      let ?t = "from_be16 (b ! m) (b ! (m + 1))" and ?l = "unat (from_be16 (b ! (m + 8)) (b ! (m + 9)))"
      have i: "idx b m = Ret (b ! m)" "idx b (m + 1) = Ret (b ! (m + 1))" "idx b (m + 8) = Ret (b ! (m + 8))"
        "idx b (m + 9) = Ret (b ! (m + 9))" using False by (simp_all add: idx_ok)
      show ?thesis
      proof (cases "length b < m + 10 + ?l")
        case True
        then show ?thesis using some False i by (simp add: Let_def)
      next
        case nl: False
        then obtain r where "record_addr b ?t ?l (m + 10) = Ret r" using record_addr_ok [of "m + 10" ?l b] by fastforce
        then show ?thesis using some False nl i Suc.IH by (simp add: Let_def)
      qed
    qed (simp add: some)
  qed simp
qed simp

lemma parse_response_ok: "\<exists>r. parse_response b = Ret r"
proof (cases "length b < 12")
  case False
  have i: "be16 b 2 = Ret (from_be16 (b ! 2) (b ! 3))" "be16 b 4 = Ret (from_be16 (b ! 4) (b ! 5))"
    "be16 b 6 = Ret (from_be16 (b ! 6) (b ! 7))" using False by (simp_all add: be16_def eval_simps)
  show ?thesis
  proof (cases b "12 :: nat" rule: read_name_ok)
    case none
    then show ?thesis using False i by (simp add: parse_response_def Let_def)
  next
    case (some s n)
    obtain q where q: "skip_questions (unat (from_be16 (b ! 4) (b ! 5)) - 1) b (n + 4) = Ret q"
      using skip_questions_ok by blast
    obtain a where a: "read_answers (unat (from_be16 (b ! 6) (b ! 7))) b (the q) [] = Ret a"
      using read_answers_ok by blast
    show ?thesis using False i some q a by (cases q; cases a) (auto simp: parse_response_def Let_def)
  qed
qed (simp add: parse_response_def)

section \<open>Messages as they are on the wire\<close>

definition ascii :: "bytes \<Rightarrow> string" where
  "ascii l = map (\<lambda>w. char_of (unat w)) l"

definition label_ok :: "bytes \<Rightarrow> bool" where
  "label_ok l \<longleftrightarrow> l \<noteq> [] \<and> length l < 64 \<and> (\<forall>w \<in> set l. unat w < 128)"

fun dotted :: "bytes list \<Rightarrow> string" where
  "dotted [] = []"
| "dotted [l] = ascii l"
| "dotted (l # m # ls) = ascii l @ ''.'' @ dotted (m # ls)"

fun enc_labels :: "bytes list \<Rightarrow> bytes" where
  "enc_labels [] = []"
| "enc_labels (l # ls) = word_of_nat (length l) # l @ enc_labels ls"

definition enc_name :: "bytes list \<Rightarrow> bytes" where
  "enc_name ls = enc_labels ls @ [0]"

lemma utf8_lossy_ascii: "\<forall>n \<in> set bs. n < 128 \<Longrightarrow> utf8_lossy bs = map char_of bs"
  by (induction bs) (simp_all add: utf8_lossy.simps [of "[]"], subst utf8_lossy.simps, simp add: utf8_next_def)

lemma from_utf8_lossy_ascii: "\<forall>w \<in> set l. unat w < 128 \<Longrightarrow> from_utf8_lossy l = ascii l"
  by (simp add: from_utf8_lossy_def ascii_def utf8_lossy_ascii)

definition add_dot :: "string \<Rightarrow> bytes list \<Rightarrow> string" where
  "add_dot out ls = (if out = [] \<or> ls = [] then out @ dotted ls else out @ ''.'' @ dotted ls)"

lemma add_dot_step: "l \<noteq> [] \<Longrightarrow> add_dot ((if out \<noteq> [] then out @ ''.'' else out) @ ascii l) ls = add_dot out (l # ls)"
  by (cases ls) (auto simp: add_dot_def ascii_def)

lemma small_len:
  assumes "n < 64"
  shows "unat (word_of_nat n :: u8) = n" "(word_of_nat n :: u8) AND 0xc0 \<noteq> 0xc0"
proof -
  have "\<forall>n \<in> set [0..<64]. unat (word_of_nat n :: u8) = n \<and> (word_of_nat n :: u8) AND 0xc0 \<noteq> 0xc0" by code_simp
  then show "unat (word_of_nat n :: u8) = n" "(word_of_nat n :: u8) AND 0xc0 \<noteq> 0xc0" using assms by auto
qed

lemma read_labels:
  assumes "\<forall>l \<in> set ls. label_ok l"
  shows "read_name_loop (pre @ enc_name ls @ post) out (length pre) after hops
    = Ret (Some (add_dot out ls, case after of None \<Rightarrow> length pre + length (enc_name ls) | Some a \<Rightarrow> a))"
  using assms
proof (induction ls arbitrary: pre out)
  case Nil
  have "idx (pre @ 0 # post) (length pre) = Ret 0" by (simp add: idx_ok)
  then show ?case by (subst read_name_loop.simps) (simp add: enc_name_def add_dot_def split: option.split)
next
  case (Cons l ls)
  let ?b = "pre @ enc_name (l # ls) @ post" and ?pre = "pre @ word_of_nat (length l) # l"
  have l: "l \<noteq> []" "length l < 64" "\<forall>w \<in> set l. unat w < 128" using Cons.prems by (auto simp: label_ok_def)
  have b: "?b = ?pre @ enc_name ls @ post" by (simp add: enc_name_def)
  have i: "idx ?b (length pre) = Ret (word_of_nat (length l))" by (simp add: b idx_def)
  have s: "slice ?b (length pre + 1) (length pre + 1 + length l) = Ret l" by (simp add: b slice_def enc_name_def)
  have "read_name_loop ?b out (length pre) after hops
      = read_name_loop ?b ((if out \<noteq> [] then out @ ''.'' else out) @ ascii l) (length ?pre) after hops"
    using l small_len [OF l(2)] i s
    by (subst read_name_loop.simps) (simp add: from_utf8_lossy_ascii enc_name_def Let_def)
  also have "\<dots> = Ret (Some (add_dot ((if out \<noteq> [] then out @ ''.'' else out) @ ascii l) ls,
      case after of None \<Rightarrow> length ?pre + length (enc_name ls) | Some a \<Rightarrow> a))"
    unfolding b using Cons.prems by (intro Cons.IH) simp
  finally show ?case using add_dot_step [OF l(1), of out ls] by (simp add: enc_name_def split: option.split)
qed

lemma read_name_plain:
  "\<forall>l \<in> set ls. label_ok l \<Longrightarrow>
    read_name (pre @ enc_name ls @ post) (length pre) = Ret (Some (dotted ls, length pre + length (enc_name ls)))"
  by (simp add: read_name_def read_labels add_dot_def)

text \<open>A pointer back to the question.\<close>

lemma read_name_pointer:
  assumes "\<forall>l \<in> set ls. label_ok l" "length hd12 = 12" "b = hd12 @ enc_name ls @ rest" "b = pre @ [0xc0, 12] @ post"
  shows "read_name b (length pre) = Ret (Some (dotted ls, length pre + 2))"
proof -
  have i: "idx b (length pre) = Ret 0xc0" "idx b (length pre + 1) = Ret 12" by (simp_all add: assms(4) idx_def nth_append)
  have n: "length pre + 1 < length b" by (simp add: assms(4))
  have "12 < length b" by (simp add: assms(2,3) enc_name_def)
  then have "read_name b (length pre) = read_name_loop b [] 12 (Some (length pre + 2)) 1"
    using i n unfolding read_name_def by (subst read_name_loop.simps) simp
  also have "\<dots> = Ret (Some (dotted ls, length pre + 2))"
    using read_labels [OF assms(1), of hd12 rest "[]" "Some (length pre + 2)" 1] assms(2)
    by (simp add: assms(3) add_dot_def)
  finally show ?thesis .
qed

definition enc_answer :: "bytes \<Rightarrow> ip_addr \<Rightarrow> bytes" where
  "enc_answer mid ip = [0xc0, 12] @ to_be16 (if is_v4 ip then 1 else 28) @ mid @ to_be16 (word_of_nat (length (octets ip))) @ octets ip"

lemma record_addr_octets:
  "record_addr (pre @ octets ip @ post) (if is_v4 ip then 1 else 28) (length (octets ip)) (length pre) = Ret [ip]"
proof (cases ip)
  case (V4 a b c d)
  then show ?thesis by (simp add: record_addr_def idx_def nth_append)
next
  case (V6 a b c d e f g h)
  then show ?thesis
    using v6_of_octets_octets [of ip] by (simp add: record_addr_def slice_def)
qed

lemma idx_mid: "i < length ys \<Longrightarrow> idx (xs @ ys @ zs) (length xs + i) = Ret (ys ! i)"
  by (simp add: idx_def nth_append)

lemma enc_answer_nth:
  assumes "length mid = 6"
  shows "enc_answer mid ip ! 2 = to_be16 (if is_v4 ip then 1 else 28) ! 0"
    "enc_answer mid ip ! 3 = to_be16 (if is_v4 ip then 1 else 28) ! Suc 0"
    "enc_answer mid ip ! 10 = to_be16 (word_of_nat (length (octets ip))) ! 0"
    "enc_answer mid ip ! 11 = to_be16 (word_of_nat (length (octets ip))) ! Suc 0"
    "length (enc_answer mid ip) = 12 + length (octets ip)"
  using assms by (simp_all add: enc_answer_def nth_append to_be16_def)

lemma read_answer_one:
  assumes "length mid = 6" "b = pre @ enc_answer mid ip @ tl'" "read_name b (length pre) = Ret (Some (s, length pre + 2))"
  shows "read_answers (Suc n) b (length pre) acc = read_answers n b (length pre + length (enc_answer mid ip)) (acc @ [ip])"
proof -
  let ?m = "length pre + 2" and ?t = "(if is_v4 ip then 1 else 28) :: u16" and ?l = "length (octets ip)"
  note e = enc_answer_nth [OF assms(1), of ip]
  have len: "?l < 65536" "unat (word_of_nat ?l :: u16) = ?l" by (cases ip; simp)+
  have "idx b (length pre + i) = Ret (enc_answer mid ip ! i)" if "i < 12" for i
    unfolding assms(2) using that e(5) by (intro idx_mid) simp
  from this [of 2] this [of 3] this [of 10] this [of 11]
  have i: "idx b ?m = Ret (to_be16 ?t ! 0)" "idx b (?m + 1) = Ret (to_be16 ?t ! Suc 0)"
      "idx b (?m + 8) = Ret (to_be16 (word_of_nat ?l) ! 0)" "idx b (?m + 9) = Ret (to_be16 (word_of_nat ?l) ! Suc 0)"
    by (simp_all add: e(1-4) add.assoc del: add_2_eq_Suc' One_nat_def)
  let ?pre = "pre @ [0xc0, 12] @ to_be16 ?t @ mid @ to_be16 (word_of_nat ?l)"
  have bb: "b = ?pre @ octets ip @ tl'" by (simp add: assms(2) enc_answer_def)
  have lp: "length ?pre = ?m + 10" using assms(1) by simp
  have r: "record_addr b ?t ?l (?m + 10) = Ret [ip]"
    using record_addr_octets [of ?pre ip tl'] by (simp only: bb [symmetric] lp)
  have "?m + 10 + ?l \<le> length b" by (simp add: assms(2) e(5))
  then show ?thesis
    using assms(3) i r e(5) by (simp add: from_be16_nth_to_be16 Let_def len add.commute add.left_commute)
qed

lemma read_answers_enc:
  assumes "\<forall>l \<in> set ls. label_ok l" "length hd12 = 12" "length mid = 6"
    and "pre = hd12 @ enc_name ls @ mre"
  shows "read_answers (length ips) (pre @ concat (map (enc_answer mid) ips) @ post) (length pre) acc = Ret (Some (acc @ ips))"
  using assms(4)
proof (induction ips arbitrary: pre mre acc)
  case (Cons ip ips)
  let ?tail = "concat (map (enc_answer mid) ips) @ post"
  let ?b = "pre @ enc_answer mid ip @ ?tail"
  have rn: "read_name ?b (length pre) = Ret (Some (dotted ls, length pre + 2))"
    by (rule read_name_pointer [OF assms(1,2), of _ "mre @ enc_answer mid ip @ ?tail" _ "drop 2 (enc_answer mid ip) @ ?tail"])
      (simp_all add: Cons.prems enc_answer_def)
  have "read_answers (Suc (length ips)) ?b (length pre) acc
      = read_answers (length ips) ?b (length (pre @ enc_answer mid ip)) (acc @ [ip])"
    using read_answer_one [OF assms(3) refl rn] by simp
  also have "?b = (pre @ enc_answer mid ip) @ ?tail" by simp
  also have "read_answers (length ips) ((pre @ enc_answer mid ip) @ ?tail) (length (pre @ enc_answer mid ip)) (acc @ [ip])
      = Ret (Some ((acc @ [ip]) @ ips))"
    by (rule Cons.IH) (simp add: Cons.prems)
  finally show ?case by simp
qed simp

text \<open>A response with one question and answers that point back to its name.\<close>

definition enc_response :: "bytes \<Rightarrow> u16 \<Rightarrow> bytes \<Rightarrow> bytes \<Rightarrow> bytes \<Rightarrow> bytes list \<Rightarrow> ip_addr list \<Rightarrow> bytes \<Rightarrow> bytes" where
  "enc_response ident flags counts qtail mid ls ips post =
     (ident @ to_be16 flags @ to_be16 1 @ to_be16 (word_of_nat (length ips)) @ counts)
     @ enc_name ls @ qtail @ concat (map (enc_answer mid) ips) @ post"

lemma parse_enc_response:
  assumes "length ident = 2" "flags AND 0x8000 \<noteq> 0" "length counts = 4" "length qtail = 4" "length mid = 6"
    and "\<forall>l \<in> set ls. label_ok l" "ips \<noteq> []" "length ips < 65536"
  shows "parse_response (enc_response ident flags counts qtail mid ls ips post) = Ret (Some (dotted ls, ips))"
proof -
  define hd12 where "hd12 = ident @ to_be16 flags @ to_be16 1 @ to_be16 (word_of_nat (length ips)) @ counts"
  define pre where "pre = hd12 @ enc_name ls @ qtail"
  define b where "b = enc_response ident flags counts qtail mid ls ips post"
  have l12: "length hd12 = 12" using assms by (simp add: hd12_def)
  have b: "b = hd12 @ enc_name ls @ (qtail @ concat (map (enc_answer mid) ips) @ post)" "b = pre @ concat (map (enc_answer mid) ips) @ post"
    by (simp_all add: b_def enc_response_def hd12_def pre_def)
  have ix: "idx b i = Ret (hd12 ! i)" if "i < 12" for i using that l12 idx_mid [of i hd12 "[]"] by (simp add: b)
  have h: "hd12 ! 2 = to_be16 flags ! 0" "hd12 ! 3 = to_be16 flags ! Suc 0" "hd12 ! 4 = to_be16 1 ! 0" "hd12 ! 5 = to_be16 1 ! Suc 0"
      "hd12 ! 6 = to_be16 (word_of_nat (length ips)) ! 0" "hd12 ! 7 = to_be16 (word_of_nat (length ips)) ! Suc 0"
    using assms(1) by (simp_all add: hd12_def nth_append to_be16_def)
  have w: "be16 b 2 = Ret flags" "be16 b 4 = Ret 1" "be16 b 6 = Ret (word_of_nat (length ips))"
    by (simp_all add: be16_def ix h from_be16_nth_to_be16)
  have rn: "read_name b 12 = Ret (Some (dotted ls, 12 + length (enc_name ls)))"
    using read_name_plain [OF assms(6), of hd12 "qtail @ concat (map (enc_answer mid) ips) @ post"] l12 by (simp add: b(1))
  have "length pre = 12 + length (enc_name ls) + 4" using l12 assms(4) by (simp add: pre_def)
  then have ra: "read_answers (length ips) b (12 + length (enc_name ls) + 4) [] = Ret (Some ips)"
    using read_answers_enc [OF assms(6) l12 assms(5) pre_def, of ips post "[]"] by (simp add: b(2))
  have "12 \<le> length b" using l12 by (simp add: b(1))
  then have "parse_response b = Ret (Some (dotted ls, ips))"
    using assms(2,7,8) w rn ra by (simp add: parse_response_def Let_def)
  then show ?thesis by (simp add: b_def)
qed

section \<open>The cache\<close>

lemma fold_insert_get:
  "hm_get (fold (\<lambda>ip. hm_insert ip v) ips m) ip = (if ip \<in> set ips then Some v else hm_get m ip)"
  by (induction ips arbitrary: m) auto

lemma fold_insert_wf: "hm_wf m \<Longrightarrow> hm_wf (fold (\<lambda>ip. hm_insert ip v) ips m)"
  by (induction ips arbitrary: m) auto

definition cache_ok :: "dns_cache \<Rightarrow> bool" where
  "cache_ok c \<longleftrightarrow> hm_wf (dns_map c)"

section \<open>Properties\<close>

lemma demo_dotted: "dotted [[97]] = ''a''" "dotted [[97], [98]] = ''a.b''" "dotted [[120, 10, 35]] = ''x'' @ newline # ''#''"
  by code_simp+


text \<open>C30: no DNS message makes the daemon panic or loop: for every payload \<open>parse_response\<close> and
  \<open>observe\<close> return, and a name that is read ends inside the message, behind its start.\<close>

theorem dns_never_panics:
  "parse_response b \<noteq> Panic \<and> observe now later b c \<noteq> Panic \<and> read_name b off \<noteq> Panic
   \<and> (\<forall>s n. read_name b off = Ret (Some (s, n)) \<longrightarrow> off < n \<and> n \<le> length b)"
proof -
  obtain r where r: "parse_response b = Ret r" using parse_response_ok by blast
  show ?thesis by (cases b off rule: read_name_ok) (auto simp: r observe_def Let_def)
qed

theorem dns_never_panics_witness:
  "(12::nat) < 15 \<and> read_name (replicate 12 0 @ enc_name [[97]] @ []) 12 = Ret (Some (''a'', 15))"
  using dns_never_panics [of "replicate 12 0 @ enc_name [[97]] @ []" 0 0 dns_new 12]
    read_name_plain [of "[[97]]" "replicate 12 0" "[]"]
  by (simp add: label_ok_def enc_name_def demo_dotted del: dotted.simps)

text \<open>C31: a response is read right: for a response with one question and address records whose
  names are compressed to it, the result is the question's name and the addresses in order.\<close>

theorem parse_response_roundtrip:
  assumes "length ident = 2" and "flags AND 0x8000 \<noteq> 0" and "length counts = 4" and "length qtail = 4"
    and "length mid = 6" and "\<forall>l \<in> set ls. label_ok l" and "ips \<noteq> []" and "length ips < 65536"
  shows "parse_response (enc_response ident flags counts qtail mid ls ips post) = Ret (Some (dotted ls, ips))"
  using assms by (rule parse_enc_response)

theorem parse_response_roundtrip_witness:
  "parse_response (enc_response [0, 0] 0x8180 [0, 0, 0, 0] [0, 1, 0, 1] [0, 1, 0, 0, 0, 60] [[97], [98]] [V4 1 2 3 4, V6 1 0 0 0 0 0 0 2] [])
     = Ret (Some (''a.b'', [V4 1 2 3 4, V6 1 0 0 0 0 0 0 2]))"
  using parse_response_roundtrip [of "[0, 0]" "0x8180" "[0, 0, 0, 0]" "[0, 1, 0, 1]" "[0, 1, 0, 0, 0, 60]" "[[97], [98]]"
      "[V4 1 2 3 4, V6 1 0 0 0 0 0 0 2]" "[]"]
  by (simp add: label_ok_def demo_dotted del: dotted.simps)

text \<open>What is observed is what is remembered: after a response that names addresses, each of
  them has that name; every other address keeps the name it had, or has expired from a full cache;
  a message that is no response changes no name in a cache of at most 4096 entries.\<close>

theorem observe_names:
  assumes "cache_ok c" and "later - now < dns_ttl c"
  shows "\<exists>c'. observe now later payload c = Ret c' \<and> cache_ok c' \<and> dns_ttl c' = dns_ttl c
    \<and> (\<forall>name ips. parse_response payload = Ret (Some (name, ips)) \<longrightarrow>
        (\<forall>ip. if ip \<in> set ips then name_for c' ip = Some name
              else name_for c' ip = name_for c ip \<or> name_for c' ip = None))
    \<and> (parse_response payload = Ret None \<longrightarrow> dns_len c \<le> 4096 \<longrightarrow> c' = c)"
proof -
  obtain r where r: "parse_response payload = Ret r" using parse_response_ok by blast
  show ?thesis
  proof (cases r)
    case None
    then show ?thesis using assms(1) r by (auto simp: observe_def Let_def cache_ok_def dns_len_def)
  next
    case (Some x)
    obtain name ips where x: "x = (name, ips)" by fastforce
    let ?m = "fold (\<lambda>ip. hm_insert ip (name, now)) ips (dns_map c)"
    have wf: "hm_wf ?m" using assms(1) by (simp add: cache_ok_def fold_insert_wf)
    then show ?thesis
      using assms(2) r Some x
      by (auto simp: observe_def Let_def cache_ok_def name_for_def hm_retain_get [OF wf] fold_insert_get split: option.splits)
  qed
qed

theorem observe_names_witness:
  "name_for (case observe 5 6 (enc_response [0, 0] 0x8180 [0, 0, 0, 0] [0, 1, 0, 1] [0, 1, 0, 0, 0, 60] [[97], [98]] [V4 1 2 3 4] []) dns_new
     of Ret c \<Rightarrow> c | Panic \<Rightarrow> dns_new) (V4 1 2 3 4) = Some ''a.b''"
proof -
  let ?p = "enc_response [0, 0] 0x8180 [0, 0, 0, 0] [0, 1, 0, 1] [0, 1, 0, 0, 0, 60] [[97], [98]] [V4 1 2 3 4] []"
  have p: "parse_response ?p = Ret (Some (dotted [[97], [98]], [V4 1 2 3 4]))"
    by (rule parse_enc_response) (simp_all add: label_ok_def)
  have "cache_ok dns_new" "(6::nat) - 5 < dns_ttl dns_new" by (simp_all add: cache_ok_def dns_new_def)
  from observe_names [OF this, of ?p] p show ?thesis by (auto simp: demo_dotted simp del: dotted.simps)
qed

text \<open>A label may hold any byte, and the name keeps it: here a newline.\<close>

lemma dns_name_keeps_newline:
  "parse_response (enc_response [0, 0] 0x8180 [0, 0, 0, 0] [0, 1, 0, 1] [0, 1, 0, 0, 0, 60] [[120, 10, 35]] [V4 1 2 3 4] [])
     = Ret (Some (''x'' @ newline # ''#'', [V4 1 2 3 4]))"
  by (subst parse_enc_response) (simp_all add: label_ok_def demo_dotted del: dotted.simps)

end
