(* ===== verification/C_Layout.thy ===== *)
theory C_Layout
  imports Prelude
begin

text \<open>
  The memory layout of \<open>#[repr(C)]\<close> types, for the structures that cross the boundary with the kernel module
  (\<open>src/kernattr.rs\<close>) and with libprocstat (\<open>src/procstat_sys.rs\<close>): sizes, alignments and offsets as the Rust
  reference defines them, on the 64-bit machines FreeBSD runs the daemon on, where every primitive type is
  aligned to its size and a pointer has eight bytes.
\<close>

section \<open>Types\<close>

text \<open>A primitive of \<open>n\<close> bytes, a pointer, an array, a structure, \<open>repr(C, packed)\<close>, a union, and \<open>repr(align(a))\<close>.\<close>

datatype ctype =
    CPrim nat
  | CPtr
  | CArr nat ctype
  | CStruct "(string \<times> ctype) list"
  | CPacked "(string \<times> ctype) list"
  | CUnion "(string \<times> ctype) list"
  | CAligned nat ctype

type_synonym cfields = "(string \<times> ctype) list"

text \<open>The primitive types of Rust and of \<open>std::os::raw\<close> on these machines.\<close>

abbreviation "cu8 \<equiv> CPrim 1"
abbreviation "ci8 \<equiv> CPrim 1"
abbreviation "cu16 \<equiv> CPrim 2"
abbreviation "ci16 \<equiv> CPrim 2"
abbreviation "cu32 \<equiv> CPrim 4"
abbreviation "ci32 \<equiv> CPrim 4"
abbreviation "cu64 \<equiv> CPrim 8"
abbreviation "ci64 \<equiv> CPrim 8"
abbreviation "cusize \<equiv> CPrim 8"
abbreviation "c_char \<equiv> CPrim 1"
abbreviation "c_schar \<equiv> CPrim 1"
abbreviation "c_uchar \<equiv> CPrim 1"
abbreviation "c_short \<equiv> CPrim 2"
abbreviation "c_ushort \<equiv> CPrim 2"
abbreviation "c_int \<equiv> CPrim 4"
abbreviation "c_uint \<equiv> CPrim 4"
abbreviation "c_long \<equiv> CPrim 8"
abbreviation "c_ulong \<equiv> CPrim 8"

definition round_up :: "nat \<Rightarrow> nat \<Rightarrow> nat" where
  "round_up n a = (n + a - 1) div a * a"

fun align_of :: "ctype \<Rightarrow> nat" and fields_align :: "cfields \<Rightarrow> nat" where
  "align_of (CPrim n) = n"
| "align_of CPtr = 8"
| "align_of (CArr n t) = align_of t"
| "align_of (CStruct fs) = fields_align fs"
| "align_of (CPacked fs) = 1"
| "align_of (CUnion fs) = fields_align fs"
| "align_of (CAligned a t) = max a (align_of t)"
| "fields_align [] = 1"
| "fields_align ((f, t) # fs) = max (align_of t) (fields_align fs)"

text \<open>The end of the last field, from an offset; the packed form; and the largest member of a union.\<close>

fun size_of :: "ctype \<Rightarrow> nat" and end_of :: "nat \<Rightarrow> cfields \<Rightarrow> nat" and packed_end :: "nat \<Rightarrow> cfields \<Rightarrow> nat"
  and largest :: "cfields \<Rightarrow> nat" where
  "size_of (CPrim n) = n"
| "size_of CPtr = 8"
| "size_of (CArr n t) = n * size_of t"
| "size_of (CStruct fs) = round_up (end_of 0 fs) (fields_align fs)"
| "size_of (CPacked fs) = packed_end 0 fs"
| "size_of (CUnion fs) = round_up (largest fs) (fields_align fs)"
| "size_of (CAligned a t) = round_up (size_of t) (max a (align_of t))"
| "end_of off [] = off"
| "end_of off ((f, t) # fs) = end_of (round_up off (align_of t) + size_of t) fs"
| "packed_end off [] = off"
| "packed_end off ((f, t) # fs) = packed_end (off + size_of t) fs"
| "largest [] = 0"
| "largest ((f, t) # fs) = max (size_of t) (largest fs)"

fun offsets_from :: "nat \<Rightarrow> cfields \<Rightarrow> (string \<times> nat) list" where
  "offsets_from off [] = []"
| "offsets_from off ((f, t) # fs) =
     (f, round_up off (align_of t)) # offsets_from (round_up off (align_of t) + size_of t) fs"

fun packed_offsets :: "nat \<Rightarrow> cfields \<Rightarrow> (string \<times> nat) list" where
  "packed_offsets off [] = []"
| "packed_offsets off ((f, t) # fs) = (f, off) # packed_offsets (off + size_of t) fs"

fun c_fields :: "ctype \<Rightarrow> cfields" where
  "c_fields (CStruct fs) = fs"
| "c_fields (CPacked fs) = fs"
| "c_fields (CUnion fs) = fs"
| "c_fields (CAligned a t) = c_fields t"
| "c_fields _ = []"

fun field_offsets :: "ctype \<Rightarrow> (string \<times> nat) list" where
  "field_offsets (CStruct fs) = offsets_from 0 fs"
| "field_offsets (CPacked fs) = packed_offsets 0 fs"
| "field_offsets (CUnion fs) = map (\<lambda>(f, t). (f, 0)) fs"
| "field_offsets (CAligned a t) = field_offsets t"
| "field_offsets _ = []"

text \<open>\<open>offset_of!\<close>, and the type of the field.\<close>

definition offset_of :: "ctype \<Rightarrow> string \<Rightarrow> nat option" where
  "offset_of t f = map_of (field_offsets t) f"

definition field_type :: "ctype \<Rightarrow> string \<Rightarrow> ctype option" where
  "field_type t f = map_of (c_fields t) f"

fun is_union :: "ctype \<Rightarrow> bool" where
  "is_union (CUnion fs) = True"
| "is_union (CAligned a t) = is_union t"
| "is_union _ = False"

fun is_packed :: "ctype \<Rightarrow> bool" where
  "is_packed (CPacked fs) = True"
| "is_packed (CAligned a t) = is_packed t"
| "is_packed _ = False"

text \<open>A type the layout is defined for: alignments are powers of two.\<close>

definition pow2 :: "nat \<Rightarrow> bool" where
  "pow2 n \<longleftrightarrow> n \<in> {1, 2, 4, 8, 16}"

fun wf_ctype :: "ctype \<Rightarrow> bool" and wf_fields :: "cfields \<Rightarrow> bool" where
  "wf_ctype (CPrim n) = pow2 n"
| "wf_ctype CPtr = True"
| "wf_ctype (CArr n t) = wf_ctype t"
| "wf_ctype (CStruct fs) = wf_fields fs"
| "wf_ctype (CPacked fs) = wf_fields fs"
| "wf_ctype (CUnion fs) = wf_fields fs"
| "wf_ctype (CAligned a t) = (pow2 a \<and> wf_ctype t)"
| "wf_fields [] = True"
| "wf_fields ((f, t) # fs) = (wf_ctype t \<and> wf_fields fs)"

section \<open>Rounding\<close>

lemma round_up_ge: "0 < a \<Longrightarrow> n \<le> round_up n a"
proof -
  assume a: "0 < a"
  have "(n + a - 1) div a * a + (n + a - 1) mod a = n + a - 1" by simp
  moreover have "(n + a - 1) mod a < a" using a by simp
  ultimately show ?thesis unfolding round_up_def by linarith
qed

lemma round_up_dvd [simp]: "a dvd round_up n a"
  by (simp add: round_up_def)

lemma round_up_mult: "0 < a \<Longrightarrow> a dvd n \<Longrightarrow> round_up n a = n"
proof -
  assume a: "0 < a" "a dvd n"
  then obtain k where k: "n = a * k" by blast
  have "(a * k + a - 1) div a = k"
    using a(1) by (intro div_nat_eqI) (auto simp: algebra_simps)
  then show ?thesis by (simp add: round_up_def k)
qed

lemma pow2_dvd: "pow2 a \<Longrightarrow> pow2 b \<Longrightarrow> a \<le> b \<Longrightarrow> a dvd b"
  by (auto simp: pow2_def)

lemma pow2_max: "pow2 a \<Longrightarrow> pow2 b \<Longrightarrow> pow2 (max a b)"
  by (simp add: max_def)

lemma pow2_pos: "pow2 a \<Longrightarrow> 0 < a"
  by (auto simp: pow2_def)

lemma pow2_one: "pow2 1"
  by (simp add: pow2_def)

section \<open>Alignment\<close>

lemma align_pow2:
  "wf_ctype t \<Longrightarrow> pow2 (align_of t)"
  "wf_fields fs \<Longrightarrow> pow2 (fields_align fs)"
  by (induction t and fs rule: align_of_fields_align.induct) (simp_all add: pow2_max, simp_all add: pow2_def)

lemma field_align_dvd: "wf_fields fs \<Longrightarrow> (f, t) \<in> set fs \<Longrightarrow> wf_ctype t \<and> align_of t dvd fields_align fs"
proof (induction fs)
  case (Cons p fs)
  obtain g u where p: "p = (g, u)" by fastforce
  have w: "wf_ctype u" "wf_fields fs" using Cons.prems(1) p by simp_all
  have le: "align_of t \<le> fields_align (p # fs)" if "(f, t) \<in> set fs" "align_of t dvd fields_align fs"
  proof -
    have "0 < fields_align fs" using align_pow2(2) [OF w(2)] pow2_pos by blast
    then show ?thesis using dvd_imp_le [OF that(2)] p by simp
  qed
  show ?case
  proof (cases "(f, t) = (g, u)")
    case True
    then show ?thesis using w align_pow2(1) [of u] align_pow2(2) [OF w(2)] p
      by (simp add: pow2_dvd pow2_max)
  next
    case False
    then have i: "(f, t) \<in> set fs" using Cons.prems(2) p by auto
    then have "wf_ctype t \<and> align_of t dvd fields_align fs" using Cons.IH [OF w(2)] by blast
    then show ?thesis using le [OF i] align_pow2(1) [of t] align_pow2(1) [OF w(1)] align_pow2(2) [OF w(2)] p
      by (simp add: pow2_dvd pow2_max)
  qed
qed simp

lemma size_dvd:
  "wf_ctype t \<Longrightarrow> align_of t dvd size_of t"
proof (induction t)
  case (CArr n t)
  then show ?case by simp
qed simp_all

section \<open>Where the fields lie\<close>

text \<open>Pieces of memory, offset and size, one after the other between two offsets.\<close>

fun in_order :: "nat \<Rightarrow> (nat \<times> nat) list \<Rightarrow> nat \<Rightarrow> bool" where
  "in_order off [] fin \<longleftrightarrow> off \<le> fin"
| "in_order off ((x, n) # ps) fin \<longleftrightarrow> off \<le> x \<and> in_order (x + n) ps fin"

definition pieces :: "cfields \<Rightarrow> (string \<times> nat) list \<Rightarrow> (nat \<times> nat) list" where
  "pieces fs xs = map2 (\<lambda>(f, t) (g, x). (x, size_of t)) fs xs"

lemma pieces_simps [simp]: "pieces [] xs = []" "pieces ((f, t) # fs) ((g, x) # xs) = (x, size_of t) # pieces fs xs"
  by (simp_all add: pieces_def)

lemma in_order_le: "in_order off ps fin \<Longrightarrow> off \<le> fin"
  by (induction off ps fin rule: in_order.induct) auto

lemma in_order_in: "in_order off ps fin \<Longrightarrow> (x, n) \<in> set ps \<Longrightarrow> off \<le> x \<and> x + n \<le> fin"
  by (induction off ps fin rule: in_order.induct) (auto dest: in_order_le)

lemma in_order_nth:
  "in_order off ps fin \<Longrightarrow> i < j \<Longrightarrow> j < length ps \<Longrightarrow> fst (ps ! i) + snd (ps ! i) \<le> fst (ps ! j)"
proof (induction off ps fin arbitrary: i j rule: in_order.induct)
  case (2 off x n ps fin)
  then obtain j' where j: "j = Suc j'" by (cases j) auto
  show ?case
  proof (cases i)
    case 0
    have "ps ! j' \<in> set ps" using 2 j by simp
    then show ?thesis using in_order_in [of "x + n" ps fin "fst (ps ! j')" "snd (ps ! j')"] 2 j 0 by simp
  next
    case (Suc i')
    then show ?thesis using 2 j by simp
  qed
qed simp

lemma wf_align_pos: "wf_ctype t \<Longrightarrow> 0 < align_of t"
  using align_pow2(1) pow2_pos by blast

lemma offsets_in_order: "wf_fields fs \<Longrightarrow> in_order off (pieces fs (offsets_from off fs)) (end_of off fs)"
  by (induction off fs rule: offsets_from.induct) (simp_all add: round_up_ge wf_align_pos)

lemma packed_in_order: "in_order off (pieces fs (packed_offsets off fs)) (packed_end off fs)"
  by (induction off fs rule: packed_offsets.induct) simp_all

lemma in_order_mono: "in_order off ps fin \<Longrightarrow> fin \<le> fin' \<Longrightarrow> in_order off ps fin'"
  by (induction off ps fin rule: in_order.induct) auto

lemma fields_in_order:
  "wf_ctype t \<Longrightarrow> \<not> is_union t \<Longrightarrow> in_order 0 (pieces (c_fields t) (field_offsets t)) (size_of t)"
proof (induction t rule: c_fields.induct)
  case (1 fs)
  then have "0 < fields_align fs" using align_pow2(2) pow2_pos by auto
  then show ?case using in_order_mono [OF offsets_in_order round_up_ge] 1 by simp
next
  case (2 fs)
  then show ?case by (simp add: packed_in_order)
next
  case (4 a t)
  then have "0 < max a (align_of t)" using wf_align_pos [of t] by simp
  then show ?case using in_order_mono [OF _ round_up_ge] 4 by simp
qed simp_all

lemma union_member: "(f, t) \<in> set fs \<Longrightarrow> size_of t \<le> largest fs"
  by (induction fs) auto

lemma offsets_aligned: "(f, x) = offsets_from off fs ! i \<Longrightarrow> i < length fs \<Longrightarrow> align_of (snd (fs ! i)) dvd x"
proof (induction off fs arbitrary: i rule: offsets_from.induct)
  case (2 off g t fs)
  then show ?case by (cases i) simp_all
qed simp

lemma field_names: "map fst (field_offsets t) = map fst (c_fields t)"
proof -
  have "map fst (offsets_from off fs) = map fst fs" for off fs by (induction off fs rule: offsets_from.induct) simp_all
  moreover have "map fst (packed_offsets off fs) = map fst fs" for off fs by (induction off fs rule: packed_offsets.induct) simp_all
  ultimately show ?thesis by (induction t rule: c_fields.induct) (simp_all add: comp_def split_def)
qed

lemma map_of_same_index:
  "map fst xs = map fst ys \<Longrightarrow> map_of xs f = Some a \<Longrightarrow> map_of ys f = Some b
    \<Longrightarrow> \<exists>i < length xs. xs ! i = (f, a) \<and> ys ! i = (f, b)"
proof (induction xs arbitrary: ys)
  case (Cons p xs)
  then obtain q ys' where ys: "ys = q # ys'" by (cases ys) auto
  show ?case
  proof (cases "fst p = f")
    case True
    then show ?thesis using Cons.prems ys by (intro exI [of _ 0]) (auto simp: prod_eq_iff)
  next
    case False
    then have "\<exists>i < length xs. xs ! i = (f, a) \<and> ys' ! i = (f, b)"
      using Cons ys by (auto split: if_splits)
    then show ?thesis using ys by auto
  qed
qed simp

lemma field_index:
  assumes "offset_of t f = Some x" "field_type t f = Some u"
  shows "\<exists>i < length (c_fields t). c_fields t ! i = (f, u) \<and> field_offsets t ! i = (f, x)"
  using map_of_same_index [of "c_fields t" "field_offsets t" f u x] assms field_names [of t]
  by (simp add: offset_of_def field_type_def)

lemma length_field_offsets: "length (field_offsets t) = length (c_fields t)"
  using field_names [of t] by (metis length_map)

lemma piece_nth:
  "i < length (c_fields t) \<Longrightarrow> c_fields t ! i = (f, u) \<Longrightarrow> field_offsets t ! i = (g, x)
    \<Longrightarrow> pieces (c_fields t) (field_offsets t) ! i = (x, size_of u)"
  by (simp add: pieces_def length_field_offsets)

lemma union_layout: "is_union t \<Longrightarrow> wf_ctype t \<Longrightarrow> (f, x) \<in> set (field_offsets t) \<Longrightarrow> (g, u) \<in> set (c_fields t)
    \<Longrightarrow> x = 0 \<and> size_of u \<le> size_of t"
proof (induction t rule: c_fields.induct)
  case (3 fs)
  then have "0 < fields_align fs" using align_pow2(2) pow2_pos by auto
  then have "largest fs \<le> round_up (largest fs) (fields_align fs)" by (rule round_up_ge)
  then show ?case using 3 union_member [of g u fs] by auto
next
  case (4 a t)
  then have "0 < max a (align_of t)" using wf_align_pos [of t] by simp
  then have "size_of t \<le> round_up (size_of t) (max a (align_of t))" by (rule round_up_ge)
  then show ?case using 4 by auto
qed simp_all

lemma field_aligned:
  "wf_ctype t \<Longrightarrow> \<not> is_packed t \<Longrightarrow> i < length (c_fields t) \<Longrightarrow> c_fields t ! i = (f, u) \<Longrightarrow> field_offsets t ! i = (g, x)
    \<Longrightarrow> align_of u dvd x \<and> align_of u dvd align_of t"
proof (induction t rule: c_fields.induct)
  case (1 fs)
  then have "(f, u) \<in> set fs" by (metis c_fields.simps(1) nth_mem)
  then show ?case using 1 offsets_aligned [of g x 0 fs i] field_align_dvd [of fs f u] by simp
next
  case (3 fs)
  then have "(f, u) \<in> set fs" by (metis c_fields.simps(3) nth_mem)
  then show ?case using 3 field_align_dvd [of fs f u] by (auto simp: split_def)
next
  case (4 a t)
  then have d: "align_of u dvd x \<and> align_of u dvd align_of t" by simp
  have "align_of t dvd max a (align_of t)"
    using 4 align_pow2(1) [of t] by (auto intro: pow2_dvd pow2_max)
  then show ?case using d by auto
qed simp_all

text \<open>Two fields of a structure: one ends before the other begins.\<close>

definition apart :: "nat \<Rightarrow> nat \<Rightarrow> nat \<Rightarrow> nat \<Rightarrow> bool" where
  "apart x n y m \<longleftrightarrow> x + n \<le> y \<or> y + m \<le> x"

lemma field_in_bounds:
  assumes "wf_ctype t" "i < length (c_fields t)" "c_fields t ! i = (f, u)" "field_offsets t ! i = (g, x)"
  shows "x + size_of u \<le> size_of t"
proof (cases "is_union t")
  case True
  have "(f, u) \<in> set (c_fields t)" "(g, x) \<in> set (field_offsets t)"
    using assms length_field_offsets [of t] by (metis nth_mem)+
  then have "x = 0 \<and> size_of u \<le> size_of t" using union_layout [OF True assms(1)] by blast
  then show ?thesis by simp
next
  case False
  have "length (pieces (c_fields t) (field_offsets t)) = length (c_fields t)" by (simp add: pieces_def length_field_offsets)
  then have "(x, size_of u) \<in> set (pieces (c_fields t) (field_offsets t))"
    using nth_mem [of i "pieces (c_fields t) (field_offsets t)"] piece_nth [OF assms(2-4)] assms(2) by simp
  then show ?thesis using in_order_in [OF fields_in_order [OF assms(1) False]] by blast
qed

lemma fields_apart:
  assumes "wf_ctype t" "\<not> is_union t" "i \<noteq> j" "i < length (c_fields t)" "j < length (c_fields t)"
    "c_fields t ! i = (f, u)" "field_offsets t ! i = (f', x)" "c_fields t ! j = (g, v)" "field_offsets t ! j = (g', y)"
  shows "apart x (size_of u) y (size_of v)"
proof -
  have p: "pieces (c_fields t) (field_offsets t) ! i = (x, size_of u)" "pieces (c_fields t) (field_offsets t) ! j = (y, size_of v)"
    using piece_nth assms by blast+
  have l: "length (pieces (c_fields t) (field_offsets t)) = length (c_fields t)"
    by (simp add: pieces_def length_field_offsets)
  show ?thesis
  proof (cases "i < j")
    case True
    then show ?thesis using in_order_nth [OF fields_in_order [OF assms(1,2)], of i j] p l assms(5) by (simp add: apart_def)
  next
    case False
    then show ?thesis using in_order_nth [OF fields_in_order [OF assms(1,2)], of j i] p l assms(3,4) by (simp add: apart_def)
  qed
qed

text \<open>The layout is sound for every type: a field lies inside the type, at a multiple of its alignment unless
  the type is packed, and apart from every other field unless the type is a union; and the size is a multiple of the
  alignment, so that the elements of an array are aligned too.\<close>

theorem layout_sound:
  assumes "wf_ctype t" "offset_of t f = Some x" "field_type t f = Some u"
  shows "x + size_of u \<le> size_of t \<and> align_of t dvd size_of t
    \<and> (is_packed t \<or> align_of u dvd x \<and> align_of u dvd align_of t)
    \<and> (\<forall>g y v. g \<noteq> f \<longrightarrow> offset_of t g = Some y \<longrightarrow> field_type t g = Some v
         \<longrightarrow> is_union t \<or> apart x (size_of u) y (size_of v))"
proof -
  obtain i where i: "i < length (c_fields t)" "c_fields t ! i = (f, u)" "field_offsets t ! i = (f, x)"
    using field_index [OF assms(2,3)] by blast
  have "is_union t \<or> apart x (size_of u) y (size_of v)"
    if g: "g \<noteq> f" "offset_of t g = Some y" "field_type t g = Some v" for g y v
  proof -
    obtain j where j: "j < length (c_fields t)" "c_fields t ! j = (g, v)" "field_offsets t ! j = (g, y)"
      using field_index [OF g(2,3)] by blast
    then have "i \<noteq> j" using g(1) i(2) by auto
    then show ?thesis using fields_apart [OF assms(1) _ _ i(1) j(1) i(2,3) j(2,3)] by blast
  qed
  then show ?thesis
    using field_in_bounds [OF assms(1) i] size_dvd [OF assms(1)] field_aligned [OF assms(1) _ i] by blast
qed

theorem layout_sound_witness:
  "offset_of (CStruct [(''c'', CPrim 1), (''p'', CPtr)]) ''p'' = Some 8
   \<and> 8 dvd size_of (CStruct [(''c'', CPrim 1), (''p'', CPtr)])"
proof -
  let ?t = "CStruct [(''c'', CPrim 1), (''p'', CPtr)]"
  have "wf_ctype ?t" "offset_of ?t ''p'' = Some 8" "field_type ?t ''p'' = Some CPtr" "align_of ?t = 8"
    by (simp_all add: pow2_def offset_of_def field_type_def round_up_def)
  from layout_sound [OF this(1-3)] this(2,4) show ?thesis by simp
qed

end
