(* ===== verification/Procstat_Sys.thy ===== *)
theory Procstat_Sys
  imports C_Layout
begin

text \<open>
  The types of the bindings to libprocstat (\<open>src/procstat_sys.rs\<close>), as descriptions of their memory layout: every
  constant, type name, structure and union of the file, with the size and the alignment that follow from the
  fields.  A type named \<open>x\<close> there is \<open>c_x\<close> here; a pointer is a pointer whatever it points to, which is what
  makes the types a hierarchy.  The order is that of their dependence.
\<close>

named_theorems layout \<open>the layout of the types that have been described\<close>

declare round_up_def [layout] pow2_def [layout]

section \<open>Constants\<close>

definition PS_FST_VTYPE_VNON :: u32 where "PS_FST_VTYPE_VNON = 1"
definition PS_FST_VTYPE_VREG :: u32 where "PS_FST_VTYPE_VREG = 2"
definition PS_FST_VTYPE_VDIR :: u32 where "PS_FST_VTYPE_VDIR = 3"
definition PS_FST_VTYPE_VBLK :: u32 where "PS_FST_VTYPE_VBLK = 4"
definition PS_FST_VTYPE_VCHR :: u32 where "PS_FST_VTYPE_VCHR = 5"
definition PS_FST_VTYPE_VLNK :: u32 where "PS_FST_VTYPE_VLNK = 6"
definition PS_FST_VTYPE_VSOCK :: u32 where "PS_FST_VTYPE_VSOCK = 7"
definition PS_FST_VTYPE_VFIFO :: u32 where "PS_FST_VTYPE_VFIFO = 8"
definition PS_FST_VTYPE_VBAD :: u32 where "PS_FST_VTYPE_VBAD = 9"
definition PS_FST_VTYPE_UNKNOWN :: u32 where "PS_FST_VTYPE_UNKNOWN = 255"
definition PS_FST_TYPE_VNODE :: u32 where "PS_FST_TYPE_VNODE = 1"
definition PS_FST_TYPE_FIFO :: u32 where "PS_FST_TYPE_FIFO = 2"
definition PS_FST_TYPE_SOCKET :: u32 where "PS_FST_TYPE_SOCKET = 3"
definition PS_FST_TYPE_PIPE :: u32 where "PS_FST_TYPE_PIPE = 4"
definition PS_FST_TYPE_PTS :: u32 where "PS_FST_TYPE_PTS = 5"
definition PS_FST_TYPE_KQUEUE :: u32 where "PS_FST_TYPE_KQUEUE = 6"
definition PS_FST_TYPE_MQUEUE :: u32 where "PS_FST_TYPE_MQUEUE = 8"
definition PS_FST_TYPE_SHM :: u32 where "PS_FST_TYPE_SHM = 9"
definition PS_FST_TYPE_SEM :: u32 where "PS_FST_TYPE_SEM = 10"
definition PS_FST_TYPE_UNKNOWN :: u32 where "PS_FST_TYPE_UNKNOWN = 11"
definition PS_FST_TYPE_NONE :: u32 where "PS_FST_TYPE_NONE = 12"
definition PS_FST_TYPE_PROCDESC :: u32 where "PS_FST_TYPE_PROCDESC = 13"
definition PS_FST_TYPE_DEV :: u32 where "PS_FST_TYPE_DEV = 14"
definition PS_FST_TYPE_EVENTFD :: u32 where "PS_FST_TYPE_EVENTFD = 15"
definition PS_FST_TYPE_INOTIFY :: u32 where "PS_FST_TYPE_INOTIFY = 16"
definition PS_FST_UFLAG_RDIR :: u32 where "PS_FST_UFLAG_RDIR = 1"
definition PS_FST_UFLAG_CDIR :: u32 where "PS_FST_UFLAG_CDIR = 2"
definition PS_FST_UFLAG_JAIL :: u32 where "PS_FST_UFLAG_JAIL = 4"
definition PS_FST_UFLAG_TRACE :: u32 where "PS_FST_UFLAG_TRACE = 8"
definition PS_FST_UFLAG_TEXT :: u32 where "PS_FST_UFLAG_TEXT = 16"
definition PS_FST_UFLAG_MMAP :: u32 where "PS_FST_UFLAG_MMAP = 32"
definition PS_FST_UFLAG_CTTY :: u32 where "PS_FST_UFLAG_CTTY = 64"
definition PS_FST_FFLAG_READ :: u32 where "PS_FST_FFLAG_READ = 1"
definition PS_FST_FFLAG_WRITE :: u32 where "PS_FST_FFLAG_WRITE = 2"
definition PS_FST_FFLAG_NONBLOCK :: u32 where "PS_FST_FFLAG_NONBLOCK = 4"
definition PS_FST_FFLAG_APPEND :: u32 where "PS_FST_FFLAG_APPEND = 8"
definition PS_FST_FFLAG_SHLOCK :: u32 where "PS_FST_FFLAG_SHLOCK = 16"
definition PS_FST_FFLAG_EXLOCK :: u32 where "PS_FST_FFLAG_EXLOCK = 32"
definition PS_FST_FFLAG_ASYNC :: u32 where "PS_FST_FFLAG_ASYNC = 64"
definition PS_FST_FFLAG_SYNC :: u32 where "PS_FST_FFLAG_SYNC = 128"
definition PS_FST_FFLAG_NOFOLLOW :: u32 where "PS_FST_FFLAG_NOFOLLOW = 256"
definition PS_FST_FFLAG_CREAT :: u32 where "PS_FST_FFLAG_CREAT = 512"
definition PS_FST_FFLAG_TRUNC :: u32 where "PS_FST_FFLAG_TRUNC = 1024"
definition PS_FST_FFLAG_EXCL :: u32 where "PS_FST_FFLAG_EXCL = 2048"
definition PS_FST_FFLAG_DIRECT :: u32 where "PS_FST_FFLAG_DIRECT = 4096"
definition PS_FST_FFLAG_EXEC :: u32 where "PS_FST_FFLAG_EXEC = 8192"
definition PS_FST_FFLAG_HASLOCK :: u32 where "PS_FST_FFLAG_HASLOCK = 16384"
definition thread_td_states_TDS_INACTIVE :: u32 where "thread_td_states_TDS_INACTIVE = 0"
definition thread_td_states_TDS_INHIBITED :: u32 where "thread_td_states_TDS_INHIBITED = 1"
definition thread_td_states_TDS_CAN_RUN :: u32 where "thread_td_states_TDS_CAN_RUN = 2"
definition thread_td_states_TDS_RUNQ :: u32 where "thread_td_states_TDS_RUNQ = 3"
definition thread_td_states_TDS_RUNNING :: u32 where "thread_td_states_TDS_RUNNING = 4"
definition proc_p_states_PRS_NEW :: u32 where "proc_p_states_PRS_NEW = 0"
definition proc_p_states_PRS_NORMAL :: u32 where "proc_p_states_PRS_NORMAL = 1"
definition proc_p_states_PRS_ZOMBIE :: u32 where "proc_p_states_PRS_ZOMBIE = 2"
definition pmap_type_PT_X86 :: u32 where "pmap_type_PT_X86 = 0"
definition pmap_type_PT_EPT :: u32 where "pmap_type_PT_EPT = 1"
definition pmap_type_PT_RVI :: u32 where "pmap_type_PT_RVI = 2"

section \<open>Generic types\<close>

definition c_BindgenBitfieldUnit :: "ctype \<Rightarrow> ctype" where
  "c_BindgenBitfieldUnit s = CStruct [(''storage'', s)]"

definition c_IncompleteArrayField :: "ctype \<Rightarrow> ctype" where
  "c_IncompleteArrayField t = CStruct [(''0'', CStruct []), (''1'', CArr 0 t)]"

declare c_BindgenBitfieldUnit_def [layout] c_IncompleteArrayField_def [layout]

section \<open>Types\<close>

definition c___uint8_t :: ctype where "c___uint8_t = c_uchar"

lemma c___uint8_t_layout [layout]: "size_of c___uint8_t = 1" "align_of c___uint8_t = 1" "wf_ctype c___uint8_t"
  by (simp_all add: layout c___uint8_t_def)

definition c___int32_t :: ctype where "c___int32_t = c_int"

lemma c___int32_t_layout [layout]: "size_of c___int32_t = 4" "align_of c___int32_t = 4" "wf_ctype c___int32_t"
  by (simp_all add: layout c___int32_t_def)

definition c___uint32_t :: ctype where "c___uint32_t = c_uint"

lemma c___uint32_t_layout [layout]: "size_of c___uint32_t = 4" "align_of c___uint32_t = 4" "wf_ctype c___uint32_t"
  by (simp_all add: layout c___uint32_t_def)

definition c___int64_t :: ctype where "c___int64_t = c_long"

lemma c___int64_t_layout [layout]: "size_of c___int64_t = 8" "align_of c___int64_t = 8" "wf_ctype c___int64_t"
  by (simp_all add: layout c___int64_t_def)

definition c___uint64_t :: ctype where "c___uint64_t = c_ulong"

lemma c___uint64_t_layout [layout]: "size_of c___uint64_t = 8" "align_of c___uint64_t = 8" "wf_ctype c___uint64_t"
  by (simp_all add: layout c___uint64_t_def)

definition c___uintptr_t :: ctype where "c___uintptr_t = c___uint64_t"

lemma c___uintptr_t_layout [layout]: "size_of c___uintptr_t = 8" "align_of c___uintptr_t = 8" "wf_ctype c___uintptr_t"
  by (simp_all add: layout c___uintptr_t_def)

definition c___vm_offset_t :: ctype where "c___vm_offset_t = c___uint64_t"

lemma c___vm_offset_t_layout [layout]: "size_of c___vm_offset_t = 8" "align_of c___vm_offset_t = 8" "wf_ctype c___vm_offset_t"
  by (simp_all add: layout c___vm_offset_t_def)

definition c___vm_size_t :: ctype where "c___vm_size_t = c___uint64_t"

lemma c___vm_size_t_layout [layout]: "size_of c___vm_size_t = 8" "align_of c___vm_size_t = 8" "wf_ctype c___vm_size_t"
  by (simp_all add: layout c___vm_size_t_def)

definition c___size_t :: ctype where "c___size_t = c___uint64_t"

lemma c___size_t_layout [layout]: "size_of c___size_t = 8" "align_of c___size_t = 8" "wf_ctype c___size_t"
  by (simp_all add: layout c___size_t_def)

definition c___register_t :: ctype where "c___register_t = c___int64_t"

lemma c___register_t_layout [layout]: "size_of c___register_t = 8" "align_of c___register_t = 8" "wf_ctype c___register_t"
  by (simp_all add: layout c___register_t_def)

definition c___segsz_t :: ctype where "c___segsz_t = c___int64_t"

lemma c___segsz_t_layout [layout]: "size_of c___segsz_t = 8" "align_of c___segsz_t = 8" "wf_ctype c___segsz_t"
  by (simp_all add: layout c___segsz_t_def)

definition c___time_t :: ctype where "c___time_t = c___int64_t"

lemma c___time_t_layout [layout]: "size_of c___time_t = 8" "align_of c___time_t = 8" "wf_ctype c___time_t"
  by (simp_all add: layout c___time_t_def)

definition c___gid_t :: ctype where "c___gid_t = c___uint32_t"

lemma c___gid_t_layout [layout]: "size_of c___gid_t = 4" "align_of c___gid_t = 4" "wf_ctype c___gid_t"
  by (simp_all add: layout c___gid_t_def)

definition c___ino_t :: ctype where "c___ino_t = c___uint64_t"

lemma c___ino_t_layout [layout]: "size_of c___ino_t = 8" "align_of c___ino_t = 8" "wf_ctype c___ino_t"
  by (simp_all add: layout c___ino_t_def)

definition c___lwpid_t :: ctype where "c___lwpid_t = c___int32_t"

lemma c___lwpid_t_layout [layout]: "size_of c___lwpid_t = 4" "align_of c___lwpid_t = 4" "wf_ctype c___lwpid_t"
  by (simp_all add: layout c___lwpid_t_def)

definition c___off_t :: ctype where "c___off_t = c___int64_t"

lemma c___off_t_layout [layout]: "size_of c___off_t = 8" "align_of c___off_t = 8" "wf_ctype c___off_t"
  by (simp_all add: layout c___off_t_def)

definition c___pid_t :: ctype where "c___pid_t = c___int32_t"

lemma c___pid_t_layout [layout]: "size_of c___pid_t = 4" "align_of c___pid_t = 4" "wf_ctype c___pid_t"
  by (simp_all add: layout c___pid_t_def)

definition c___sbintime_t :: ctype where "c___sbintime_t = c___int64_t"

lemma c___sbintime_t_layout [layout]: "size_of c___sbintime_t = 8" "align_of c___sbintime_t = 8" "wf_ctype c___sbintime_t"
  by (simp_all add: layout c___sbintime_t_def)

definition c___rlim_t :: ctype where "c___rlim_t = c___int64_t"

lemma c___rlim_t_layout [layout]: "size_of c___rlim_t = 8" "align_of c___rlim_t = 8" "wf_ctype c___rlim_t"
  by (simp_all add: layout c___rlim_t_def)

definition c___sa_family_t :: ctype where "c___sa_family_t = c___uint8_t"

lemma c___sa_family_t_layout [layout]: "size_of c___sa_family_t = 1" "align_of c___sa_family_t = 1" "wf_ctype c___sa_family_t"
  by (simp_all add: layout c___sa_family_t_def)

definition c___suseconds_t :: ctype where "c___suseconds_t = c_long"

lemma c___suseconds_t_layout [layout]: "size_of c___suseconds_t = 8" "align_of c___suseconds_t = 8" "wf_ctype c___suseconds_t"
  by (simp_all add: layout c___suseconds_t_def)

definition c___uid_t :: ctype where "c___uid_t = c___uint32_t"

lemma c___uid_t_layout [layout]: "size_of c___uid_t = 4" "align_of c___uid_t = 4" "wf_ctype c___uid_t"
  by (simp_all add: layout c___uid_t_def)

definition c___fixpt_t :: ctype where "c___fixpt_t = c___uint32_t"

lemma c___fixpt_t_layout [layout]: "size_of c___fixpt_t = 4" "align_of c___fixpt_t = 4" "wf_ctype c___fixpt_t"
  by (simp_all add: layout c___fixpt_t_def)

definition c_u_char :: ctype where "c_u_char = c_uchar"

lemma c_u_char_layout [layout]: "size_of c_u_char = 1" "align_of c_u_char = 1" "wf_ctype c_u_char"
  by (simp_all add: layout c_u_char_def)

definition c_u_short :: ctype where "c_u_short = c_ushort"

lemma c_u_short_layout [layout]: "size_of c_u_short = 2" "align_of c_u_short = 2" "wf_ctype c_u_short"
  by (simp_all add: layout c_u_short_def)

definition c_u_int :: ctype where "c_u_int = c_uint"

lemma c_u_int_layout [layout]: "size_of c_u_int = 4" "align_of c_u_int = 4" "wf_ctype c_u_int"
  by (simp_all add: layout c_u_int_def)

definition c_u_long :: ctype where "c_u_long = c_ulong"

lemma c_u_long_layout [layout]: "size_of c_u_long = 8" "align_of c_u_long = 8" "wf_ctype c_u_long"
  by (simp_all add: layout c_u_long_def)

definition c_u_int64_t :: ctype where "c_u_int64_t = c___uint64_t"

lemma c_u_int64_t_layout [layout]: "size_of c_u_int64_t = 8" "align_of c_u_int64_t = 8" "wf_ctype c_u_int64_t"
  by (simp_all add: layout c_u_int64_t_def)

definition c_caddr_t :: ctype where "c_caddr_t = CPtr"

lemma c_caddr_t_layout [layout]: "size_of c_caddr_t = 8" "align_of c_caddr_t = 8" "wf_ctype c_caddr_t"
  by (simp_all add: layout c_caddr_t_def)

definition c_fixpt_t :: ctype where "c_fixpt_t = c___fixpt_t"

lemma c_fixpt_t_layout [layout]: "size_of c_fixpt_t = 4" "align_of c_fixpt_t = 4" "wf_ctype c_fixpt_t"
  by (simp_all add: layout c_fixpt_t_def)

definition c_gid_t :: ctype where "c_gid_t = c___gid_t"

lemma c_gid_t_layout [layout]: "size_of c_gid_t = 4" "align_of c_gid_t = 4" "wf_ctype c_gid_t"
  by (simp_all add: layout c_gid_t_def)

definition c_ino_t :: ctype where "c_ino_t = c___ino_t"

lemma c_ino_t_layout [layout]: "size_of c_ino_t = 8" "align_of c_ino_t = 8" "wf_ctype c_ino_t"
  by (simp_all add: layout c_ino_t_def)

definition c_lwpid_t :: ctype where "c_lwpid_t = c___lwpid_t"

lemma c_lwpid_t_layout [layout]: "size_of c_lwpid_t = 4" "align_of c_lwpid_t = 4" "wf_ctype c_lwpid_t"
  by (simp_all add: layout c_lwpid_t_def)

definition c_off_t :: ctype where "c_off_t = c___off_t"

lemma c_off_t_layout [layout]: "size_of c_off_t = 8" "align_of c_off_t = 8" "wf_ctype c_off_t"
  by (simp_all add: layout c_off_t_def)

definition c_pid_t :: ctype where "c_pid_t = c___pid_t"

lemma c_pid_t_layout [layout]: "size_of c_pid_t = 4" "align_of c_pid_t = 4" "wf_ctype c_pid_t"
  by (simp_all add: layout c_pid_t_def)

definition c_register_t :: ctype where "c_register_t = c___register_t"

lemma c_register_t_layout [layout]: "size_of c_register_t = 8" "align_of c_register_t = 8" "wf_ctype c_register_t"
  by (simp_all add: layout c_register_t_def)

definition c_rlim_t :: ctype where "c_rlim_t = c___rlim_t"

lemma c_rlim_t_layout [layout]: "size_of c_rlim_t = 8" "align_of c_rlim_t = 8" "wf_ctype c_rlim_t"
  by (simp_all add: layout c_rlim_t_def)

definition c_sbintime_t :: ctype where "c_sbintime_t = c___sbintime_t"

lemma c_sbintime_t_layout [layout]: "size_of c_sbintime_t = 8" "align_of c_sbintime_t = 8" "wf_ctype c_sbintime_t"
  by (simp_all add: layout c_sbintime_t_def)

definition c_segsz_t :: ctype where "c_segsz_t = c___segsz_t"

lemma c_segsz_t_layout [layout]: "size_of c_segsz_t = 8" "align_of c_segsz_t = 8" "wf_ctype c_segsz_t"
  by (simp_all add: layout c_segsz_t_def)

definition c_suseconds_t :: ctype where "c_suseconds_t = c___suseconds_t"

lemma c_suseconds_t_layout [layout]: "size_of c_suseconds_t = 8" "align_of c_suseconds_t = 8" "wf_ctype c_suseconds_t"
  by (simp_all add: layout c_suseconds_t_def)

definition c_time_t :: ctype where "c_time_t = c___time_t"

lemma c_time_t_layout [layout]: "size_of c_time_t = 8" "align_of c_time_t = 8" "wf_ctype c_time_t"
  by (simp_all add: layout c_time_t_def)

definition c_uid_t :: ctype where "c_uid_t = c___uid_t"

lemma c_uid_t_layout [layout]: "size_of c_uid_t = 4" "align_of c_uid_t = 4" "wf_ctype c_uid_t"
  by (simp_all add: layout c_uid_t_def)

definition c_cap_rights :: ctype where
  "c_cap_rights = CStruct [
     (''cr_rights'', CArr 2 cu64)]"

lemma c_cap_rights_layout [layout]: "size_of c_cap_rights = 16" "align_of c_cap_rights = 8" "wf_ctype c_cap_rights"
  by (simp_all add: layout c_cap_rights_def)

definition c_cap_rights_t :: ctype where "c_cap_rights_t = c_cap_rights"

lemma c_cap_rights_t_layout [layout]: "size_of c_cap_rights_t = 16" "align_of c_cap_rights_t = 8" "wf_ctype c_cap_rights_t"
  by (simp_all add: layout c_cap_rights_t_def)

definition c_vm_offset_t :: ctype where "c_vm_offset_t = c___vm_offset_t"

lemma c_vm_offset_t_layout [layout]: "size_of c_vm_offset_t = 8" "align_of c_vm_offset_t = 8" "wf_ctype c_vm_offset_t"
  by (simp_all add: layout c_vm_offset_t_def)

definition c_vm_ooffset_t :: ctype where "c_vm_ooffset_t = c___uint64_t"

lemma c_vm_ooffset_t_layout [layout]: "size_of c_vm_ooffset_t = 8" "align_of c_vm_ooffset_t = 8" "wf_ctype c_vm_ooffset_t"
  by (simp_all add: layout c_vm_ooffset_t_def)

definition c_vm_size_t :: ctype where "c_vm_size_t = c___vm_size_t"

lemma c_vm_size_t_layout [layout]: "size_of c_vm_size_t = 8" "align_of c_vm_size_t = 8" "wf_ctype c_vm_size_t"
  by (simp_all add: layout c_vm_size_t_def)

definition c_syscallarg_t :: ctype where "c_syscallarg_t = c___register_t"

lemma c_syscallarg_t_layout [layout]: "size_of c_syscallarg_t = 8" "align_of c_syscallarg_t = 8" "wf_ctype c_syscallarg_t"
  by (simp_all add: layout c_syscallarg_t_def)

definition c___sigset :: ctype where
  "c___sigset = CStruct [
     (''__bits'', CArr 4 c___uint32_t)]"

lemma c___sigset_layout [layout]: "size_of c___sigset = 16" "align_of c___sigset = 4" "wf_ctype c___sigset"
  by (simp_all add: layout c___sigset_def)

definition c___sigset_t :: ctype where "c___sigset_t = c___sigset"

lemma c___sigset_t_layout [layout]: "size_of c___sigset_t = 16" "align_of c___sigset_t = 4" "wf_ctype c___sigset_t"
  by (simp_all add: layout c___sigset_t_def)

definition c_timeval :: ctype where
  "c_timeval = CStruct [
     (''tv_sec'', c_time_t), (''tv_usec'', c_suseconds_t)]"

lemma c_timeval_layout [layout]: "size_of c_timeval = 16" "align_of c_timeval = 8" "wf_ctype c_timeval"
  by (simp_all add: layout c_timeval_def)

definition c_sigset_t :: ctype where "c_sigset_t = c___sigset_t"

lemma c_sigset_t_layout [layout]: "size_of c_sigset_t = 16" "align_of c_sigset_t = 4" "wf_ctype c_sigset_t"
  by (simp_all add: layout c_sigset_t_def)

definition c_sigaltstack :: ctype where
  "c_sigaltstack = CStruct [
     (''ss_sp'', CPtr), (''ss_size'', c___size_t), (''ss_flags'', c_int)]"

lemma c_sigaltstack_layout [layout]: "size_of c_sigaltstack = 24" "align_of c_sigaltstack = 8" "wf_ctype c_sigaltstack"
  by (simp_all add: layout c_sigaltstack_def)

definition c_stack_t :: ctype where "c_stack_t = c_sigaltstack"

lemma c_stack_t_layout [layout]: "size_of c_stack_t = 24" "align_of c_stack_t = 8" "wf_ctype c_stack_t"
  by (simp_all add: layout c_stack_t_def)

definition c_sigval :: ctype where
  "c_sigval = CUnion [
     (''sival_int'', c_int), (''sival_ptr'', CPtr), (''sigval_int'', c_int), (''sigval_ptr'', CPtr)]"

lemma c_sigval_layout [layout]: "size_of c_sigval = 8" "align_of c_sigval = 8" "wf_ctype c_sigval"
  by (simp_all add: layout c_sigval_def)

definition c___sighandler_t :: ctype where "c___sighandler_t = CPtr"

lemma c___sighandler_t_layout [layout]: "size_of c___sighandler_t = 8" "align_of c___sighandler_t = 8" "wf_ctype c___sighandler_t"
  by (simp_all add: layout c___sighandler_t_def)

definition c___siginfo__bindgen_ty_1__bindgen_ty_1 :: ctype where
  "c___siginfo__bindgen_ty_1__bindgen_ty_1 = CStruct [
     (''_trapno'', c_int)]"

lemma c___siginfo__bindgen_ty_1__bindgen_ty_1_layout [layout]: "size_of c___siginfo__bindgen_ty_1__bindgen_ty_1 = 4" "align_of c___siginfo__bindgen_ty_1__bindgen_ty_1 = 4" "wf_ctype c___siginfo__bindgen_ty_1__bindgen_ty_1"
  by (simp_all add: layout c___siginfo__bindgen_ty_1__bindgen_ty_1_def)

definition c___siginfo__bindgen_ty_1__bindgen_ty_2 :: ctype where
  "c___siginfo__bindgen_ty_1__bindgen_ty_2 = CStruct [
     (''_timerid'', c_int), (''_overrun'', c_int)]"

lemma c___siginfo__bindgen_ty_1__bindgen_ty_2_layout [layout]: "size_of c___siginfo__bindgen_ty_1__bindgen_ty_2 = 8" "align_of c___siginfo__bindgen_ty_1__bindgen_ty_2 = 4" "wf_ctype c___siginfo__bindgen_ty_1__bindgen_ty_2"
  by (simp_all add: layout c___siginfo__bindgen_ty_1__bindgen_ty_2_def)

definition c___siginfo__bindgen_ty_1__bindgen_ty_3 :: ctype where
  "c___siginfo__bindgen_ty_1__bindgen_ty_3 = CStruct [
     (''_mqd'', c_int)]"

lemma c___siginfo__bindgen_ty_1__bindgen_ty_3_layout [layout]: "size_of c___siginfo__bindgen_ty_1__bindgen_ty_3 = 4" "align_of c___siginfo__bindgen_ty_1__bindgen_ty_3 = 4" "wf_ctype c___siginfo__bindgen_ty_1__bindgen_ty_3"
  by (simp_all add: layout c___siginfo__bindgen_ty_1__bindgen_ty_3_def)

definition c___siginfo__bindgen_ty_1__bindgen_ty_4 :: ctype where
  "c___siginfo__bindgen_ty_1__bindgen_ty_4 = CStruct [
     (''_band'', c_long)]"

lemma c___siginfo__bindgen_ty_1__bindgen_ty_4_layout [layout]: "size_of c___siginfo__bindgen_ty_1__bindgen_ty_4 = 8" "align_of c___siginfo__bindgen_ty_1__bindgen_ty_4 = 8" "wf_ctype c___siginfo__bindgen_ty_1__bindgen_ty_4"
  by (simp_all add: layout c___siginfo__bindgen_ty_1__bindgen_ty_4_def)

definition c___siginfo__bindgen_ty_1__bindgen_ty_5 :: ctype where
  "c___siginfo__bindgen_ty_1__bindgen_ty_5 = CStruct [
     (''_syscall'', c_int)]"

lemma c___siginfo__bindgen_ty_1__bindgen_ty_5_layout [layout]: "size_of c___siginfo__bindgen_ty_1__bindgen_ty_5 = 4" "align_of c___siginfo__bindgen_ty_1__bindgen_ty_5 = 4" "wf_ctype c___siginfo__bindgen_ty_1__bindgen_ty_5"
  by (simp_all add: layout c___siginfo__bindgen_ty_1__bindgen_ty_5_def)

definition c___siginfo__bindgen_ty_1__bindgen_ty_6 :: ctype where
  "c___siginfo__bindgen_ty_1__bindgen_ty_6 = CStruct [
     (''__spare1__'', c_long), (''__spare2__'', CArr 7 c_int)]"

lemma c___siginfo__bindgen_ty_1__bindgen_ty_6_layout [layout]: "size_of c___siginfo__bindgen_ty_1__bindgen_ty_6 = 40" "align_of c___siginfo__bindgen_ty_1__bindgen_ty_6 = 8" "wf_ctype c___siginfo__bindgen_ty_1__bindgen_ty_6"
  by (simp_all add: layout c___siginfo__bindgen_ty_1__bindgen_ty_6_def)

definition c___siginfo__bindgen_ty_1 :: ctype where
  "c___siginfo__bindgen_ty_1 = CUnion [
     (''_fault'', c___siginfo__bindgen_ty_1__bindgen_ty_1), (''_timer'', c___siginfo__bindgen_ty_1__bindgen_ty_2),
     (''_mesgq'', c___siginfo__bindgen_ty_1__bindgen_ty_3), (''_poll'', c___siginfo__bindgen_ty_1__bindgen_ty_4),
     (''_capsicum'', c___siginfo__bindgen_ty_1__bindgen_ty_5),
     (''__spare__'', c___siginfo__bindgen_ty_1__bindgen_ty_6)]"

lemma c___siginfo__bindgen_ty_1_layout [layout]: "size_of c___siginfo__bindgen_ty_1 = 40" "align_of c___siginfo__bindgen_ty_1 = 8" "wf_ctype c___siginfo__bindgen_ty_1"
  by (simp_all add: layout c___siginfo__bindgen_ty_1_def)

definition c___siginfo :: ctype where
  "c___siginfo = CStruct [
     (''si_signo'', c_int), (''si_errno'', c_int), (''si_code'', c_int), (''si_pid'', c___pid_t),
     (''si_uid'', c___uid_t), (''si_status'', c_int), (''si_addr'', CPtr), (''si_value'', c_sigval),
     (''_reason'', c___siginfo__bindgen_ty_1)]"

lemma c___siginfo_layout [layout]: "size_of c___siginfo = 80" "align_of c___siginfo = 8" "wf_ctype c___siginfo"
  by (simp_all add: layout c___siginfo_def)

definition c_siginfo_t :: ctype where "c_siginfo_t = c___siginfo"

lemma c_siginfo_t_layout [layout]: "size_of c_siginfo_t = 80" "align_of c_siginfo_t = 8" "wf_ctype c_siginfo_t"
  by (simp_all add: layout c_siginfo_t_def)

definition c_sig_t :: ctype where "c_sig_t = c___sighandler_t"

lemma c_sig_t_layout [layout]: "size_of c_sig_t = 8" "align_of c_sig_t = 8" "wf_ctype c_sig_t"
  by (simp_all add: layout c_sig_t_def)

definition c_sa_family_t :: ctype where "c_sa_family_t = c___sa_family_t"

lemma c_sa_family_t_layout [layout]: "size_of c_sa_family_t = 1" "align_of c_sa_family_t = 1" "wf_ctype c_sa_family_t"
  by (simp_all add: layout c_sa_family_t_def)

definition c_sockaddr_storage :: ctype where
  "c_sockaddr_storage = CStruct [
     (''ss_len'', c_uchar), (''ss_family'', c_sa_family_t), (''__ss_pad1'', CArr 6 c_char),
     (''__ss_align'', c___int64_t), (''__ss_pad2'', CArr 112 c_char)]"

lemma c_sockaddr_storage_layout [layout]: "size_of c_sockaddr_storage = 128" "align_of c_sockaddr_storage = 8" "wf_ctype c_sockaddr_storage"
  by (simp_all add: layout c_sockaddr_storage_def)

definition c_fpacc87 :: ctype where
  "c_fpacc87 = CStruct [
     (''fp_bytes'', CArr 10 cu8)]"

lemma c_fpacc87_layout [layout]: "size_of c_fpacc87 = 10" "align_of c_fpacc87 = 1" "wf_ctype c_fpacc87"
  by (simp_all add: layout c_fpacc87_def)

definition c_xmmacc :: ctype where
  "c_xmmacc = CStruct [
     (''xmm_bytes'', CArr 16 cu8)]"

lemma c_xmmacc_layout [layout]: "size_of c_xmmacc = 16" "align_of c_xmmacc = 1" "wf_ctype c_xmmacc"
  by (simp_all add: layout c_xmmacc_def)

definition c_envxmm :: ctype where
  "c_envxmm = CStruct [
     (''en_cw'', cu16), (''en_sw'', cu16), (''en_tw'', cu8), (''en_zero'', cu8), (''en_opcode'', cu16),
     (''en_rip'', cu64), (''en_rdp'', cu64), (''en_mxcsr'', cu32), (''en_mxcsr_mask'', cu32)]"

lemma c_envxmm_layout [layout]: "size_of c_envxmm = 32" "align_of c_envxmm = 8" "wf_ctype c_envxmm"
  by (simp_all add: layout c_envxmm_def)

definition c_savefpu__bindgen_ty_1 :: ctype where
  "c_savefpu__bindgen_ty_1 = CStruct [
     (''fp_acc'', c_fpacc87), (''fp_pad'', CArr 6 cu8)]"

lemma c_savefpu__bindgen_ty_1_layout [layout]: "size_of c_savefpu__bindgen_ty_1 = 16" "align_of c_savefpu__bindgen_ty_1 = 1" "wf_ctype c_savefpu__bindgen_ty_1"
  by (simp_all add: layout c_savefpu__bindgen_ty_1_def)

definition c_savefpu :: ctype where
  "c_savefpu = CAligned 16 (CStruct [
     (''sv_env'', c_envxmm), (''sv_fp'', CArr 8 c_savefpu__bindgen_ty_1), (''sv_xmm'', CArr 16 c_xmmacc),
     (''sv_pad'', CArr 96 cu8)])"

lemma c_savefpu_layout [layout]: "size_of c_savefpu = 512" "align_of c_savefpu = 16" "wf_ctype c_savefpu"
  by (simp_all add: layout c_savefpu_def)

definition c_system_segment_descriptor :: ctype where
  "c_system_segment_descriptor = CPacked [
     (''_bitfield_align_1'', CArr 0 cu8), (''_bitfield_1'', c_BindgenBitfieldUnit (CArr 16 cu8))]"

lemma c_system_segment_descriptor_layout [layout]: "size_of c_system_segment_descriptor = 16" "align_of c_system_segment_descriptor = 1" "wf_ctype c_system_segment_descriptor"
  by (simp_all add: layout c_system_segment_descriptor_def)

definition c_region_descriptor :: ctype where
  "c_region_descriptor = CPacked [
     (''_bitfield_align_1'', CArr 0 cu8), (''_bitfield_1'', c_BindgenBitfieldUnit (CArr 10 cu8))]"

lemma c_region_descriptor_layout [layout]: "size_of c_region_descriptor = 10" "align_of c_region_descriptor = 1" "wf_ctype c_region_descriptor"
  by (simp_all add: layout c_region_descriptor_def)

definition c_pcb :: ctype where
  "c_pcb = CStruct [
     (''pcb_r15'', c_register_t), (''pcb_r14'', c_register_t), (''pcb_r13'', c_register_t),
     (''pcb_r12'', c_register_t), (''pcb_rbp'', c_register_t), (''pcb_rsp'', c_register_t),
     (''pcb_rbx'', c_register_t), (''pcb_rip'', c_register_t), (''pcb_fsbase'', c_register_t),
     (''pcb_gsbase'', c_register_t), (''pcb_kgsbase'', c_register_t), (''pcb_cr0'', c_register_t),
     (''pcb_cr2'', c_register_t), (''pcb_cr3'', c_register_t), (''pcb_cr4'', c_register_t),
     (''pcb_dr0'', c_register_t), (''pcb_dr1'', c_register_t), (''pcb_dr2'', c_register_t),
     (''pcb_dr3'', c_register_t), (''pcb_dr6'', c_register_t), (''pcb_dr7'', c_register_t),
     (''pcb_gdt'', c_region_descriptor), (''pcb_idt'', c_region_descriptor), (''pcb_ldt'', c_region_descriptor),
     (''pcb_tr'', cu16), (''pcb_flags'', c_u_int), (''pcb_initial_fpucw'', cu16), (''pcb_onfault'', c_caddr_t),
     (''pcb_saved_ucr3'', cu64), (''pcb_tssp'', CPtr), (''pcb_efer'', c_register_t), (''pcb_star'', c_register_t),
     (''pcb_lstar'', c_register_t), (''pcb_cstar'', c_register_t), (''pcb_sfmask'', c_register_t),
     (''pcb_save'', CPtr), (''pcb_tlsbase'', c_register_t), (''pcb_pad'', CArr 4 cu64)]"

lemma c_pcb_layout [layout]: "size_of c_pcb = 320" "align_of c_pcb = 8" "wf_ctype c_pcb"
  by (simp_all add: layout c_pcb_def)

definition c_kevent :: ctype where
  "c_kevent = CStruct [
     (''ident'', c___uintptr_t), (''filter'', c_short), (''flags'', c_ushort), (''fflags'', c_uint),
     (''data'', c___int64_t), (''udata'', CPtr), (''ext'', CArr 4 c___uint64_t)]"

lemma c_kevent_layout [layout]: "size_of c_kevent = 64" "align_of c_kevent = 8" "wf_ctype c_kevent"
  by (simp_all add: layout c_kevent_def)

definition c_knote :: ctype where
  "c_knote = CStruct [
     (''_unused'', CArr 0 cu8)]"

lemma c_knote_layout [layout]: "size_of c_knote = 0" "align_of c_knote = 1" "wf_ctype c_knote"
  by (simp_all add: layout c_knote_def)

definition c_klist :: ctype where
  "c_klist = CStruct [
     (''slh_first'', CPtr)]"

lemma c_klist_layout [layout]: "size_of c_klist = 8" "align_of c_klist = 8" "wf_ctype c_klist"
  by (simp_all add: layout c_klist_def)

definition c_kqueue :: ctype where
  "c_kqueue = CStruct [
     (''_unused'', CArr 0 cu8)]"

lemma c_kqueue_layout [layout]: "size_of c_kqueue = 0" "align_of c_kqueue = 1" "wf_ctype c_kqueue"
  by (simp_all add: layout c_kqueue_def)

definition c_kqlist :: ctype where
  "c_kqlist = CStruct [
     (''tqh_first'', CPtr), (''tqh_last'', CPtr)]"

lemma c_kqlist_layout [layout]: "size_of c_kqlist = 16" "align_of c_kqlist = 8" "wf_ctype c_kqlist"
  by (simp_all add: layout c_kqlist_def)

definition c_knlist :: ctype where
  "c_knlist = CStruct [
     (''kl_list'', c_klist), (''kl_lock'', CPtr), (''kl_unlock'', CPtr), (''kl_assert_lock'', CPtr),
     (''kl_lockarg'', CPtr), (''kl_autodestroy'', c_int)]"

lemma c_knlist_layout [layout]: "size_of c_knlist = 48" "align_of c_knlist = 8" "wf_ctype c_knlist"
  by (simp_all add: layout c_knlist_def)

definition c_itimerval :: ctype where
  "c_itimerval = CStruct [
     (''it_interval'', c_timeval), (''it_value'', c_timeval)]"

lemma c_itimerval_layout [layout]: "size_of c_itimerval = 32" "align_of c_itimerval = 8" "wf_ctype c_itimerval"
  by (simp_all add: layout c_itimerval_def)

definition c_rusage :: ctype where
  "c_rusage = CStruct [
     (''ru_utime'', c_timeval), (''ru_stime'', c_timeval), (''ru_maxrss'', c_long), (''ru_ixrss'', c_long),
     (''ru_idrss'', c_long), (''ru_isrss'', c_long), (''ru_minflt'', c_long), (''ru_majflt'', c_long),
     (''ru_nswap'', c_long), (''ru_inblock'', c_long), (''ru_oublock'', c_long), (''ru_msgsnd'', c_long),
     (''ru_msgrcv'', c_long), (''ru_nsignals'', c_long), (''ru_nvcsw'', c_long), (''ru_nivcsw'', c_long)]"

lemma c_rusage_layout [layout]: "size_of c_rusage = 144" "align_of c_rusage = 8" "wf_ctype c_rusage"
  by (simp_all add: layout c_rusage_def)

definition c_rlimit :: ctype where
  "c_rlimit = CStruct [
     (''rlim_cur'', c_rlim_t), (''rlim_max'', c_rlim_t)]"

lemma c_rlimit_layout [layout]: "size_of c_rlimit = 16" "align_of c_rlimit = 8" "wf_ctype c_rlimit"
  by (simp_all add: layout c_rlimit_def)

definition c_lock_object :: ctype where
  "c_lock_object = CStruct [
     (''lo_name'', CPtr), (''lo_flags'', c_uint), (''lo_data'', c_uint), (''lo_witness'', CPtr)]"

lemma c_lock_object_layout [layout]: "size_of c_lock_object = 24" "align_of c_lock_object = 8" "wf_ctype c_lock_object"
  by (simp_all add: layout c_lock_object_def)

definition c_mtx :: ctype where
  "c_mtx = CStruct [
     (''lock_object'', c_lock_object), (''mtx_lock'', c___uintptr_t)]"

lemma c_mtx_layout [layout]: "size_of c_mtx = 32" "align_of c_mtx = 8" "wf_ctype c_mtx"
  by (simp_all add: layout c_mtx_def)

definition c_callout_func_t :: ctype where "c_callout_func_t = CPtr"

lemma c_callout_func_t_layout [layout]: "size_of c_callout_func_t = 8" "align_of c_callout_func_t = 8" "wf_ctype c_callout_func_t"
  by (simp_all add: layout c_callout_func_t_def)

definition c_callout__bindgen_ty_1__bindgen_ty_1 :: ctype where
  "c_callout__bindgen_ty_1__bindgen_ty_1 = CStruct [
     (''le_next'', CPtr), (''le_prev'', CPtr)]"

lemma c_callout__bindgen_ty_1__bindgen_ty_1_layout [layout]: "size_of c_callout__bindgen_ty_1__bindgen_ty_1 = 16" "align_of c_callout__bindgen_ty_1__bindgen_ty_1 = 8" "wf_ctype c_callout__bindgen_ty_1__bindgen_ty_1"
  by (simp_all add: layout c_callout__bindgen_ty_1__bindgen_ty_1_def)

definition c_callout__bindgen_ty_1__bindgen_ty_2 :: ctype where
  "c_callout__bindgen_ty_1__bindgen_ty_2 = CStruct [
     (''sle_next'', CPtr)]"

lemma c_callout__bindgen_ty_1__bindgen_ty_2_layout [layout]: "size_of c_callout__bindgen_ty_1__bindgen_ty_2 = 8" "align_of c_callout__bindgen_ty_1__bindgen_ty_2 = 8" "wf_ctype c_callout__bindgen_ty_1__bindgen_ty_2"
  by (simp_all add: layout c_callout__bindgen_ty_1__bindgen_ty_2_def)

definition c_callout__bindgen_ty_1__bindgen_ty_3 :: ctype where
  "c_callout__bindgen_ty_1__bindgen_ty_3 = CStruct [
     (''tqe_next'', CPtr), (''tqe_prev'', CPtr)]"

lemma c_callout__bindgen_ty_1__bindgen_ty_3_layout [layout]: "size_of c_callout__bindgen_ty_1__bindgen_ty_3 = 16" "align_of c_callout__bindgen_ty_1__bindgen_ty_3 = 8" "wf_ctype c_callout__bindgen_ty_1__bindgen_ty_3"
  by (simp_all add: layout c_callout__bindgen_ty_1__bindgen_ty_3_def)

definition c_callout__bindgen_ty_1 :: ctype where
  "c_callout__bindgen_ty_1 = CUnion [
     (''le'', c_callout__bindgen_ty_1__bindgen_ty_1), (''sle'', c_callout__bindgen_ty_1__bindgen_ty_2),
     (''tqe'', c_callout__bindgen_ty_1__bindgen_ty_3)]"

lemma c_callout__bindgen_ty_1_layout [layout]: "size_of c_callout__bindgen_ty_1 = 16" "align_of c_callout__bindgen_ty_1 = 8" "wf_ctype c_callout__bindgen_ty_1"
  by (simp_all add: layout c_callout__bindgen_ty_1_def)

definition c_callout :: ctype where
  "c_callout = CStruct [
     (''c_links'', c_callout__bindgen_ty_1), (''c_time'', c___sbintime_t), (''c_precision'', c___sbintime_t),
     (''c_arg'', CPtr), (''c_func'', c_callout_func_t), (''c_lock'', CPtr), (''c_flags'', c_short),
     (''c_iflags'', c_short), (''c_cpu'', c_int)]"

lemma c_callout_layout [layout]: "size_of c_callout = 64" "align_of c_callout = 8" "wf_ctype c_callout"
  by (simp_all add: layout c_callout_def)

definition c_kexterr :: ctype where
  "c_kexterr = CStruct [
     (''error'', c_int), (''msg'', CPtr), (''p1'', c___uint64_t), (''p2'', c___uint64_t), (''cat'', c_uint),
     (''src_line'', c_uint)]"

lemma c_kexterr_layout [layout]: "size_of c_kexterr = 40" "align_of c_kexterr = 8" "wf_ctype c_kexterr"
  by (simp_all add: layout c_kexterr_def)

definition c_cv :: ctype where
  "c_cv = CStruct [
     (''cv_description'', CPtr), (''cv_waiters'', c_int)]"

lemma c_cv_layout [layout]: "size_of c_cv = 16" "align_of c_cv = 8" "wf_ctype c_cv"
  by (simp_all add: layout c_cv_def)

definition c_lock_list_entry :: ctype where
  "c_lock_list_entry = CStruct [
     (''_unused'', CArr 0 cu8)]"

lemma c_lock_list_entry_layout [layout]: "size_of c_lock_list_entry = 0" "align_of c_lock_list_entry = 1" "wf_ctype c_lock_list_entry"
  by (simp_all add: layout c_lock_list_entry_def)

definition c_priority :: ctype where
  "c_priority = CStruct [
     (''pri_class'', c_u_char), (''pri_level'', c_u_char), (''pri_native'', c_u_char), (''pri_user'', c_u_char)]"

lemma c_priority_layout [layout]: "size_of c_priority = 4" "align_of c_priority = 1" "wf_ctype c_priority"
  by (simp_all add: layout c_priority_def)

definition c_seqc_t :: ctype where "c_seqc_t = cu32"

lemma c_seqc_t_layout [layout]: "size_of c_seqc_t = 4" "align_of c_seqc_t = 4" "wf_ctype c_seqc_t"
  by (simp_all add: layout c_seqc_t_def)

definition c_sx :: ctype where
  "c_sx = CStruct [
     (''lock_object'', c_lock_object), (''sx_lock'', c___uintptr_t)]"

lemma c_sx_layout [layout]: "size_of c_sx = 32" "align_of c_sx = 8" "wf_ctype c_sx"
  by (simp_all add: layout c_sx_def)

definition c_smr :: ctype where
  "c_smr = CStruct [
     (''_unused'', CArr 0 cu8)]"

lemma c_smr_layout [layout]: "size_of c_smr = 0" "align_of c_smr = 1" "wf_ctype c_smr"
  by (simp_all add: layout c_smr_def)

definition c_smr_t :: ctype where "c_smr_t = CPtr"

lemma c_smr_t_layout [layout]: "size_of c_smr_t = 8" "align_of c_smr_t = 8" "wf_ctype c_smr_t"
  by (simp_all add: layout c_smr_t_def)

definition c_filecaps :: ctype where
  "c_filecaps = CStruct [
     (''fc_rights'', c_cap_rights_t), (''fc_ioctls'', CPtr), (''fc_nioctls'', ci16), (''fc_fcntls'', cu32)]"

lemma c_filecaps_layout [layout]: "size_of c_filecaps = 32" "align_of c_filecaps = 8" "wf_ctype c_filecaps"
  by (simp_all add: layout c_filecaps_def)

definition c_filedescent :: ctype where
  "c_filedescent = CStruct [
     (''fde_file'', CPtr), (''fde_caps'', c_filecaps), (''fde_flags'', cu8), (''fde_seqc'', c_seqc_t)]"

lemma c_filedescent_layout [layout]: "size_of c_filedescent = 48" "align_of c_filedescent = 8" "wf_ctype c_filedescent"
  by (simp_all add: layout c_filedescent_def)

definition c_fdescenttbl :: ctype where
  "c_fdescenttbl = CStruct [
     (''fdt_nfiles'', c_int), (''fdt_ofiles'', c_IncompleteArrayField c_filedescent)]"

lemma c_fdescenttbl_layout [layout]: "size_of c_fdescenttbl = 8" "align_of c_fdescenttbl = 8" "wf_ctype c_fdescenttbl"
  by (simp_all add: layout c_fdescenttbl_def)

definition c_pwd :: ctype where
  "c_pwd = CStruct [
     (''pwd_refcount'', c_u_int), (''pwd_cdir'', CPtr), (''pwd_rdir'', CPtr), (''pwd_jdir'', CPtr),
     (''pwd_adir'', CPtr)]"

lemma c_pwd_layout [layout]: "size_of c_pwd = 40" "align_of c_pwd = 8" "wf_ctype c_pwd"
  by (simp_all add: layout c_pwd_def)

definition c_smrpwd_t :: ctype where
  "c_smrpwd_t = CStruct [
     (''__ptr'', CPtr)]"

lemma c_smrpwd_t_layout [layout]: "size_of c_smrpwd_t = 8" "align_of c_smrpwd_t = 8" "wf_ctype c_smrpwd_t"
  by (simp_all add: layout c_smrpwd_t_def)

definition c_pwddesc :: ctype where
  "c_pwddesc = CStruct [
     (''pd_lock'', c_mtx), (''pd_pwd'', c_smrpwd_t), (''pd_refcount'', c_u_int), (''pd_cmask'', c_u_short)]"

lemma c_pwddesc_layout [layout]: "size_of c_pwddesc = 48" "align_of c_pwddesc = 8" "wf_ctype c_pwddesc"
  by (simp_all add: layout c_pwddesc_def)

definition c_filedesc :: ctype where
  "c_filedesc = CStruct [
     (''fd_files'', CPtr), (''fd_map'', CPtr), (''fd_freefile'', c_int), (''fd_refcnt'', c_int),
     (''fd_holdcnt'', c_int), (''fd_sx'', c_sx), (''fd_kqlist'', c_kqlist), (''fd_holdleaderscount'', c_int),
     (''fd_holdleaderswakeup'', c_int)]"

lemma c_filedesc_layout [layout]: "size_of c_filedesc = 88" "align_of c_filedesc = 8" "wf_ctype c_filedesc"
  by (simp_all add: layout c_filedesc_def)

definition c_filedesc_to_leader :: ctype where
  "c_filedesc_to_leader = CStruct [
     (''fdl_refcount'', c_int), (''fdl_holdcount'', c_int), (''fdl_wakeup'', c_int), (''fdl_leader'', CPtr),
     (''fdl_prev'', CPtr), (''fdl_next'', CPtr)]"

lemma c_filedesc_to_leader_layout [layout]: "size_of c_filedesc_to_leader = 40" "align_of c_filedesc_to_leader = 8" "wf_ctype c_filedesc_to_leader"
  by (simp_all add: layout c_filedesc_to_leader_def)

definition c_lock_profile_object :: ctype where
  "c_lock_profile_object = CStruct [
     (''_unused'', CArr 0 cu8)]"

lemma c_lock_profile_object_layout [layout]: "size_of c_lock_profile_object = 0" "align_of c_lock_profile_object = 1" "wf_ctype c_lock_profile_object"
  by (simp_all add: layout c_lock_profile_object_def)

definition c_lpohead :: ctype where
  "c_lpohead = CStruct [
     (''lh_first'', CPtr)]"

lemma c_lpohead_layout [layout]: "size_of c_lpohead = 8" "align_of c_lpohead = 8" "wf_ctype c_lpohead"
  by (simp_all add: layout c_lpohead_def)

definition c_osd__bindgen_ty_1 :: ctype where
  "c_osd__bindgen_ty_1 = CStruct [
     (''le_next'', CPtr), (''le_prev'', CPtr)]"

lemma c_osd__bindgen_ty_1_layout [layout]: "size_of c_osd__bindgen_ty_1 = 16" "align_of c_osd__bindgen_ty_1 = 8" "wf_ctype c_osd__bindgen_ty_1"
  by (simp_all add: layout c_osd__bindgen_ty_1_def)

definition c_osd :: ctype where
  "c_osd = CStruct [
     (''osd_nslots'', c_u_int), (''osd_slots'', CPtr), (''osd_next'', c_osd__bindgen_ty_1)]"

lemma c_osd_layout [layout]: "size_of c_osd = 32" "align_of c_osd = 8" "wf_ctype c_osd"
  by (simp_all add: layout c_osd_def)

definition c_sigio__bindgen_ty_1 :: ctype where
  "c_sigio__bindgen_ty_1 = CUnion [
     (''siu_proc'', CPtr), (''siu_pgrp'', CPtr)]"

lemma c_sigio__bindgen_ty_1_layout [layout]: "size_of c_sigio__bindgen_ty_1 = 8" "align_of c_sigio__bindgen_ty_1 = 8" "wf_ctype c_sigio__bindgen_ty_1"
  by (simp_all add: layout c_sigio__bindgen_ty_1_def)

definition c_sigio__bindgen_ty_2 :: ctype where
  "c_sigio__bindgen_ty_2 = CStruct [
     (''sle_next'', CPtr)]"

lemma c_sigio__bindgen_ty_2_layout [layout]: "size_of c_sigio__bindgen_ty_2 = 8" "align_of c_sigio__bindgen_ty_2 = 8" "wf_ctype c_sigio__bindgen_ty_2"
  by (simp_all add: layout c_sigio__bindgen_ty_2_def)

definition c_sigio :: ctype where
  "c_sigio = CStruct [
     (''sio_u'', c_sigio__bindgen_ty_1), (''sio_pgsigio'', c_sigio__bindgen_ty_2), (''sio_myref'', CPtr),
     (''sio_ucred'', CPtr), (''sio_pgid'', c_pid_t)]"

lemma c_sigio_layout [layout]: "size_of c_sigio = 40" "align_of c_sigio = 8" "wf_ctype c_sigio"
  by (simp_all add: layout c_sigio_def)

definition c_sigiolst :: ctype where
  "c_sigiolst = CStruct [
     (''slh_first'', CPtr)]"

lemma c_sigiolst_layout [layout]: "size_of c_sigiolst = 8" "align_of c_sigiolst = 8" "wf_ctype c_sigiolst"
  by (simp_all add: layout c_sigiolst_def)

definition c_sigacts :: ctype where
  "c_sigacts = CStruct [
     (''ps_sigact'', CArr 128 c_sig_t), (''ps_catchmask'', CArr 128 c_sigset_t), (''ps_sigonstack'', c_sigset_t),
     (''ps_sigintr'', c_sigset_t), (''ps_sigreset'', c_sigset_t), (''ps_signodefer'', c_sigset_t),
     (''ps_siginfo'', c_sigset_t), (''ps_sigignore'', c_sigset_t), (''ps_sigcatch'', c_sigset_t),
     (''ps_freebsd4'', c_sigset_t), (''ps_osigset'', c_sigset_t), (''ps_usertramp'', c_sigset_t),
     (''ps_flag'', c_int), (''ps_refcnt'', c_u_int), (''ps_mtx'', c_mtx)]"

lemma c_sigacts_layout [layout]: "size_of c_sigacts = 3272" "align_of c_sigacts = 8" "wf_ctype c_sigacts"
  by (simp_all add: layout c_sigacts_def)

definition c_ksiginfo__bindgen_ty_1 :: ctype where
  "c_ksiginfo__bindgen_ty_1 = CStruct [
     (''tqe_next'', CPtr), (''tqe_prev'', CPtr)]"

lemma c_ksiginfo__bindgen_ty_1_layout [layout]: "size_of c_ksiginfo__bindgen_ty_1 = 16" "align_of c_ksiginfo__bindgen_ty_1 = 8" "wf_ctype c_ksiginfo__bindgen_ty_1"
  by (simp_all add: layout c_ksiginfo__bindgen_ty_1_def)

definition c_ksiginfo :: ctype where
  "c_ksiginfo = CStruct [
     (''ksi_link'', c_ksiginfo__bindgen_ty_1), (''ksi_info'', c_siginfo_t), (''ksi_flags'', c_int),
     (''ksi_sigq'', CPtr)]"

lemma c_ksiginfo_layout [layout]: "size_of c_ksiginfo = 112" "align_of c_ksiginfo = 8" "wf_ctype c_ksiginfo"
  by (simp_all add: layout c_ksiginfo_def)

definition c_sigqueue__bindgen_ty_1 :: ctype where
  "c_sigqueue__bindgen_ty_1 = CStruct [
     (''tqh_first'', CPtr), (''tqh_last'', CPtr)]"

lemma c_sigqueue__bindgen_ty_1_layout [layout]: "size_of c_sigqueue__bindgen_ty_1 = 16" "align_of c_sigqueue__bindgen_ty_1 = 8" "wf_ctype c_sigqueue__bindgen_ty_1"
  by (simp_all add: layout c_sigqueue__bindgen_ty_1_def)

definition c_sigqueue :: ctype where
  "c_sigqueue = CStruct [
     (''sq_signals'', c_sigset_t), (''sq_kill'', c_sigset_t), (''sq_ptrace'', c_sigset_t),
     (''sq_list'', c_sigqueue__bindgen_ty_1), (''sq_proc'', CPtr), (''sq_flags'', c_int)]"

lemma c_sigqueue_layout [layout]: "size_of c_sigqueue = 80" "align_of c_sigqueue = 8" "wf_ctype c_sigqueue"
  by (simp_all add: layout c_sigqueue_def)

definition c_sigqueue_t :: ctype where "c_sigqueue_t = c_sigqueue"

lemma c_sigqueue_t_layout [layout]: "size_of c_sigqueue_t = 80" "align_of c_sigqueue_t = 8" "wf_ctype c_sigqueue_t"
  by (simp_all add: layout c_sigqueue_t_def)

definition c_domainset :: ctype where
  "c_domainset = CStruct [
     (''_unused'', CArr 0 cu8)]"

lemma c_domainset_layout [layout]: "size_of c_domainset = 0" "align_of c_domainset = 1" "wf_ctype c_domainset"
  by (simp_all add: layout c_domainset_def)

definition c_domainset_ref :: ctype where
  "c_domainset_ref = CStruct [
     (''dr_policy'', CPtr), (''dr_iter'', c_uint)]"

lemma c_domainset_ref_layout [layout]: "size_of c_domainset_ref = 16" "align_of c_domainset_ref = 8" "wf_ctype c_domainset_ref"
  by (simp_all add: layout c_domainset_ref_def)

definition c_proc_ldt :: ctype where
  "c_proc_ldt = CStruct [
     (''ldt_base'', c_caddr_t), (''ldt_refcnt'', c_int)]"

lemma c_proc_ldt_layout [layout]: "size_of c_proc_ldt = 16" "align_of c_proc_ldt = 8" "wf_ctype c_proc_ldt"
  by (simp_all add: layout c_proc_ldt_def)

definition c_pmap_invl_gen__bindgen_ty_1__bindgen_ty_1 :: ctype where
  "c_pmap_invl_gen__bindgen_ty_1__bindgen_ty_1 = CStruct [
     (''le_next'', CPtr), (''le_prev'', CPtr)]"

lemma c_pmap_invl_gen__bindgen_ty_1__bindgen_ty_1_layout [layout]: "size_of c_pmap_invl_gen__bindgen_ty_1__bindgen_ty_1 = 16" "align_of c_pmap_invl_gen__bindgen_ty_1__bindgen_ty_1 = 8" "wf_ctype c_pmap_invl_gen__bindgen_ty_1__bindgen_ty_1"
  by (simp_all add: layout c_pmap_invl_gen__bindgen_ty_1__bindgen_ty_1_def)

definition c_pmap_invl_gen__bindgen_ty_1__bindgen_ty_2 :: ctype where
  "c_pmap_invl_gen__bindgen_ty_1__bindgen_ty_2 = CStruct [
     (''next'', CPtr), (''saved_pri'', c_u_char)]"

lemma c_pmap_invl_gen__bindgen_ty_1__bindgen_ty_2_layout [layout]: "size_of c_pmap_invl_gen__bindgen_ty_1__bindgen_ty_2 = 16" "align_of c_pmap_invl_gen__bindgen_ty_1__bindgen_ty_2 = 8" "wf_ctype c_pmap_invl_gen__bindgen_ty_1__bindgen_ty_2"
  by (simp_all add: layout c_pmap_invl_gen__bindgen_ty_1__bindgen_ty_2_def)

definition c_pmap_invl_gen__bindgen_ty_1 :: ctype where
  "c_pmap_invl_gen__bindgen_ty_1 = CUnion [
     (''link'', c_pmap_invl_gen__bindgen_ty_1__bindgen_ty_1),
     (''__bindgen_anon_1'', c_pmap_invl_gen__bindgen_ty_1__bindgen_ty_2)]"

lemma c_pmap_invl_gen__bindgen_ty_1_layout [layout]: "size_of c_pmap_invl_gen__bindgen_ty_1 = 16" "align_of c_pmap_invl_gen__bindgen_ty_1 = 8" "wf_ctype c_pmap_invl_gen__bindgen_ty_1"
  by (simp_all add: layout c_pmap_invl_gen__bindgen_ty_1_def)

definition c_pmap_invl_gen :: ctype where
  "c_pmap_invl_gen = CAligned 16 (CStruct [
     (''gen_'', c_u_long), (''__bindgen_anon_1'', c_pmap_invl_gen__bindgen_ty_1)])"

lemma c_pmap_invl_gen_layout [layout]: "size_of c_pmap_invl_gen = 32" "align_of c_pmap_invl_gen = 16" "wf_ctype c_pmap_invl_gen"
  by (simp_all add: layout c_pmap_invl_gen_def)

definition c_mdthread :: ctype where
  "c_mdthread = CAligned 16 (CStruct [
     (''md_spinlock_count'', c_int), (''md_saved_flags'', c_register_t), (''md_spurflt_addr'', c_register_t),
     (''__bindgen_padding_0'', cu64), (''md_invl_gen'', c_pmap_invl_gen), (''md_efirt_tmp'', c_register_t),
     (''md_efirt_dis_pf'', c_int), (''md_pcb'', c_pcb), (''md_stack_base'', c_vm_offset_t),
     (''md_usr_fpu_save'', CPtr)])"

lemma c_mdthread_layout [layout]: "size_of c_mdthread = 416" "align_of c_mdthread = 16" "wf_ctype c_mdthread"
  by (simp_all add: layout c_mdthread_def)

definition c_mdproc :: ctype where
  "c_mdproc = CStruct [
     (''md_ldt'', CPtr), (''md_ldt_sd'', c_system_segment_descriptor), (''md_flags'', c_u_int)]"

lemma c_mdproc_layout [layout]: "size_of c_mdproc = 32" "align_of c_mdproc = 8" "wf_ctype c_mdproc"
  by (simp_all add: layout c_mdproc_def)

definition c_session :: ctype where
  "c_session = CStruct [
     (''s_count'', c_u_int), (''s_leader'', CPtr), (''s_ttyvp'', CPtr), (''s_ttydp'', CPtr), (''s_ttyp'', CPtr),
     (''s_sid'', c_pid_t), (''s_login'', CArr 40 c_char), (''s_mtx'', c_mtx)]"

lemma c_session_layout [layout]: "size_of c_session = 120" "align_of c_session = 8" "wf_ctype c_session"
  by (simp_all add: layout c_session_def)

definition c_pgrp__bindgen_ty_1 :: ctype where
  "c_pgrp__bindgen_ty_1 = CStruct [
     (''le_next'', CPtr), (''le_prev'', CPtr)]"

lemma c_pgrp__bindgen_ty_1_layout [layout]: "size_of c_pgrp__bindgen_ty_1 = 16" "align_of c_pgrp__bindgen_ty_1 = 8" "wf_ctype c_pgrp__bindgen_ty_1"
  by (simp_all add: layout c_pgrp__bindgen_ty_1_def)

definition c_pgrp__bindgen_ty_2 :: ctype where
  "c_pgrp__bindgen_ty_2 = CStruct [
     (''lh_first'', CPtr)]"

lemma c_pgrp__bindgen_ty_2_layout [layout]: "size_of c_pgrp__bindgen_ty_2 = 8" "align_of c_pgrp__bindgen_ty_2 = 8" "wf_ctype c_pgrp__bindgen_ty_2"
  by (simp_all add: layout c_pgrp__bindgen_ty_2_def)

definition c_pgrp :: ctype where
  "c_pgrp = CStruct [
     (''pg_hash'', c_pgrp__bindgen_ty_1), (''pg_members'', c_pgrp__bindgen_ty_2), (''pg_session'', CPtr),
     (''pg_sigiolst'', c_sigiolst), (''pg_id'', c_pid_t), (''pg_mtx'', c_mtx), (''pg_flags'', c_int),
     (''pg_killsx'', c_sx)]"

lemma c_pgrp_layout [layout]: "size_of c_pgrp = 120" "align_of c_pgrp = 8" "wf_ctype c_pgrp"
  by (simp_all add: layout c_pgrp_def)

definition c_pargs :: ctype where
  "c_pargs = CStruct [
     (''ar_ref'', c_u_int), (''ar_length'', c_u_int), (''ar_args'', CArr 1 c_u_char)]"

lemma c_pargs_layout [layout]: "size_of c_pargs = 12" "align_of c_pargs = 4" "wf_ctype c_pargs"
  by (simp_all add: layout c_pargs_def)

definition c_cpuset :: ctype where
  "c_cpuset = CStruct [
     (''_unused'', CArr 0 cu8)]"

lemma c_cpuset_layout [layout]: "size_of c_cpuset = 0" "align_of c_cpuset = 1" "wf_ctype c_cpuset"
  by (simp_all add: layout c_cpuset_def)

definition c_filemon :: ctype where
  "c_filemon = CStruct [
     (''_unused'', CArr 0 cu8)]"

lemma c_filemon_layout [layout]: "size_of c_filemon = 0" "align_of c_filemon = 1" "wf_ctype c_filemon"
  by (simp_all add: layout c_filemon_def)

definition c_kaioinfo :: ctype where
  "c_kaioinfo = CStruct [
     (''_unused'', CArr 0 cu8)]"

lemma c_kaioinfo_layout [layout]: "size_of c_kaioinfo = 0" "align_of c_kaioinfo = 1" "wf_ctype c_kaioinfo"
  by (simp_all add: layout c_kaioinfo_def)

definition c_kaudit_record :: ctype where
  "c_kaudit_record = CStruct [
     (''_unused'', CArr 0 cu8)]"

lemma c_kaudit_record_layout [layout]: "size_of c_kaudit_record = 0" "align_of c_kaudit_record = 1" "wf_ctype c_kaudit_record"
  by (simp_all add: layout c_kaudit_record_def)

definition c_kcov_info :: ctype where
  "c_kcov_info = CStruct [
     (''_unused'', CArr 0 cu8)]"

lemma c_kcov_info_layout [layout]: "size_of c_kcov_info = 0" "align_of c_kcov_info = 1" "wf_ctype c_kcov_info"
  by (simp_all add: layout c_kcov_info_def)

definition c_kdtrace_proc :: ctype where
  "c_kdtrace_proc = CStruct [
     (''_unused'', CArr 0 cu8)]"

lemma c_kdtrace_proc_layout [layout]: "size_of c_kdtrace_proc = 0" "align_of c_kdtrace_proc = 1" "wf_ctype c_kdtrace_proc"
  by (simp_all add: layout c_kdtrace_proc_def)

definition c_kdtrace_thread :: ctype where
  "c_kdtrace_thread = CStruct [
     (''_unused'', CArr 0 cu8)]"

lemma c_kdtrace_thread_layout [layout]: "size_of c_kdtrace_thread = 0" "align_of c_kdtrace_thread = 1" "wf_ctype c_kdtrace_thread"
  by (simp_all add: layout c_kdtrace_thread_def)

definition c_kmsan_td :: ctype where
  "c_kmsan_td = CStruct [
     (''_unused'', CArr 0 cu8)]"

lemma c_kmsan_td_layout [layout]: "size_of c_kmsan_td = 0" "align_of c_kmsan_td = 1" "wf_ctype c_kmsan_td"
  by (simp_all add: layout c_kmsan_td_def)

definition c_kq_timer_cb_data :: ctype where
  "c_kq_timer_cb_data = CStruct [
     (''_unused'', CArr 0 cu8)]"

lemma c_kq_timer_cb_data_layout [layout]: "size_of c_kq_timer_cb_data = 0" "align_of c_kq_timer_cb_data = 1" "wf_ctype c_kq_timer_cb_data"
  by (simp_all add: layout c_kq_timer_cb_data_def)

definition c_mqueue_notifier :: ctype where
  "c_mqueue_notifier = CStruct [
     (''_unused'', CArr 0 cu8)]"

lemma c_mqueue_notifier_layout [layout]: "size_of c_mqueue_notifier = 0" "align_of c_mqueue_notifier = 1" "wf_ctype c_mqueue_notifier"
  by (simp_all add: layout c_mqueue_notifier_def)

definition c_procdesc :: ctype where
  "c_procdesc = CStruct [
     (''_unused'', CArr 0 cu8)]"

lemma c_procdesc_layout [layout]: "size_of c_procdesc = 0" "align_of c_procdesc = 1" "wf_ctype c_procdesc"
  by (simp_all add: layout c_procdesc_def)

definition c_racct :: ctype where
  "c_racct = CStruct [
     (''_unused'', CArr 0 cu8)]"

lemma c_racct_layout [layout]: "size_of c_racct = 0" "align_of c_racct = 1" "wf_ctype c_racct"
  by (simp_all add: layout c_racct_def)

definition c_sleepqueue :: ctype where
  "c_sleepqueue = CStruct [
     (''_unused'', CArr 0 cu8)]"

lemma c_sleepqueue_layout [layout]: "size_of c_sleepqueue = 0" "align_of c_sleepqueue = 1" "wf_ctype c_sleepqueue"
  by (simp_all add: layout c_sleepqueue_def)

definition c_trapframe :: ctype where
  "c_trapframe = CStruct [
     (''_unused'', CArr 0 cu8)]"

lemma c_trapframe_layout [layout]: "size_of c_trapframe = 0" "align_of c_trapframe = 1" "wf_ctype c_trapframe"
  by (simp_all add: layout c_trapframe_def)

definition c_turnstile :: ctype where
  "c_turnstile = CStruct [
     (''_unused'', CArr 0 cu8)]"

lemma c_turnstile_layout [layout]: "size_of c_turnstile = 0" "align_of c_turnstile = 1" "wf_ctype c_turnstile"
  by (simp_all add: layout c_turnstile_def)

definition c_syscall_args :: ctype where
  "c_syscall_args = CStruct [
     (''code'', c_u_int), (''original_code'', c_u_int), (''callp'', CPtr), (''args'', CArr 8 c_register_t)]"

lemma c_syscall_args_layout [layout]: "size_of c_syscall_args = 80" "align_of c_syscall_args = 8" "wf_ctype c_syscall_args"
  by (simp_all add: layout c_syscall_args_def)

definition c_rusage_ext :: ctype where
  "c_rusage_ext = CStruct [
     (''rux_runtime'', cu64), (''rux_uticks'', cu64), (''rux_sticks'', cu64), (''rux_iticks'', cu64),
     (''rux_uu'', cu64), (''rux_su'', cu64), (''rux_tu'', cu64)]"

lemma c_rusage_ext_layout [layout]: "size_of c_rusage_ext = 56" "align_of c_rusage_ext = 8" "wf_ctype c_rusage_ext"
  by (simp_all add: layout c_rusage_ext_def)

definition c_thread__bindgen_ty_1 :: ctype where
  "c_thread__bindgen_ty_1 = CStruct [
     (''tqe_next'', CPtr), (''tqe_prev'', CPtr)]"

lemma c_thread__bindgen_ty_1_layout [layout]: "size_of c_thread__bindgen_ty_1 = 16" "align_of c_thread__bindgen_ty_1 = 8" "wf_ctype c_thread__bindgen_ty_1"
  by (simp_all add: layout c_thread__bindgen_ty_1_def)

definition c_thread__bindgen_ty_2 :: ctype where
  "c_thread__bindgen_ty_2 = CStruct [
     (''tqe_next'', CPtr), (''tqe_prev'', CPtr)]"

lemma c_thread__bindgen_ty_2_layout [layout]: "size_of c_thread__bindgen_ty_2 = 16" "align_of c_thread__bindgen_ty_2 = 8" "wf_ctype c_thread__bindgen_ty_2"
  by (simp_all add: layout c_thread__bindgen_ty_2_def)

definition c_thread__bindgen_ty_3__bindgen_ty_1 :: ctype where
  "c_thread__bindgen_ty_3__bindgen_ty_1 = CStruct [
     (''tqe_next'', CPtr), (''tqe_prev'', CPtr)]"

lemma c_thread__bindgen_ty_3__bindgen_ty_1_layout [layout]: "size_of c_thread__bindgen_ty_3__bindgen_ty_1 = 16" "align_of c_thread__bindgen_ty_3__bindgen_ty_1 = 8" "wf_ctype c_thread__bindgen_ty_3__bindgen_ty_1"
  by (simp_all add: layout c_thread__bindgen_ty_3__bindgen_ty_1_def)

definition c_thread__bindgen_ty_3 :: ctype where
  "c_thread__bindgen_ty_3 = CUnion [
     (''td_slpq'', c_thread__bindgen_ty_3__bindgen_ty_1), (''td_zombie'', CPtr)]"

lemma c_thread__bindgen_ty_3_layout [layout]: "size_of c_thread__bindgen_ty_3 = 16" "align_of c_thread__bindgen_ty_3 = 8" "wf_ctype c_thread__bindgen_ty_3"
  by (simp_all add: layout c_thread__bindgen_ty_3_def)

definition c_thread__bindgen_ty_4 :: ctype where
  "c_thread__bindgen_ty_4 = CStruct [
     (''tqe_next'', CPtr), (''tqe_prev'', CPtr)]"

lemma c_thread__bindgen_ty_4_layout [layout]: "size_of c_thread__bindgen_ty_4 = 16" "align_of c_thread__bindgen_ty_4 = 8" "wf_ctype c_thread__bindgen_ty_4"
  by (simp_all add: layout c_thread__bindgen_ty_4_def)

definition c_thread__bindgen_ty_5 :: ctype where
  "c_thread__bindgen_ty_5 = CStruct [
     (''le_next'', CPtr), (''le_prev'', CPtr)]"

lemma c_thread__bindgen_ty_5_layout [layout]: "size_of c_thread__bindgen_ty_5 = 16" "align_of c_thread__bindgen_ty_5 = 8" "wf_ctype c_thread__bindgen_ty_5"
  by (simp_all add: layout c_thread__bindgen_ty_5_def)

definition c_thread__bindgen_ty_6 :: ctype where
  "c_thread__bindgen_ty_6 = CStruct [
     (''lh_first'', CPtr)]"

lemma c_thread__bindgen_ty_6_layout [layout]: "size_of c_thread__bindgen_ty_6 = 8" "align_of c_thread__bindgen_ty_6 = 8" "wf_ctype c_thread__bindgen_ty_6"
  by (simp_all add: layout c_thread__bindgen_ty_6_def)

definition c_thread_td_states :: ctype where "c_thread_td_states = c_uint"

lemma c_thread_td_states_layout [layout]: "size_of c_thread_td_states = 4" "align_of c_thread_td_states = 4" "wf_ctype c_thread_td_states"
  by (simp_all add: layout c_thread_td_states_def)

definition c_thread__bindgen_ty_7 :: ctype where
  "c_thread__bindgen_ty_7 = CUnion [
     (''tdu_retval'', CArr 2 c_syscallarg_t), (''tdu_off'', c_off_t)]"

lemma c_thread__bindgen_ty_7_layout [layout]: "size_of c_thread__bindgen_ty_7 = 16" "align_of c_thread__bindgen_ty_7 = 8" "wf_ctype c_thread__bindgen_ty_7"
  by (simp_all add: layout c_thread__bindgen_ty_7_def)

definition c_thread :: ctype where
  "c_thread = CAligned 16 (CStruct [
     (''td_lock'', CPtr), (''td_proc'', CPtr), (''td_plist'', c_thread__bindgen_ty_1),
     (''td_runq'', c_thread__bindgen_ty_2), (''__bindgen_anon_1'', c_thread__bindgen_ty_3),
     (''td_lockq'', c_thread__bindgen_ty_4), (''td_hash'', c_thread__bindgen_ty_5), (''td_cpuset'', CPtr),
     (''td_domain'', c_domainset_ref), (''td_sel'', CPtr), (''td_sleepqueue'', CPtr), (''td_turnstile'', CPtr),
     (''td_pad1'', CPtr), (''td_umtxq'', CPtr), (''td_tid'', c_lwpid_t), (''td_sigqueue'', c_sigqueue_t),
     (''td_lend_user_pri'', c_u_char), (''td_allocdomain'', c_u_char), (''td_base_ithread_pri'', c_u_char),
     (''td_kmsan'', CPtr), (''td_flags'', c_int), (''td_ast'', c_int), (''td_inhibitors'', c_int),
     (''td_pflags'', c_int), (''td_pflags2'', c_int), (''td_dupfd'', c_int), (''td_sqqueue'', c_int),
     (''td_wchan'', CPtr), (''td_wmesg'', CPtr), (''td_owepreempt'', c_u_char), (''td_tsqueue'', c_u_char),
     (''_td_pad0'', CArr 2 c_u_char), (''td_locks'', c_int), (''td_rw_rlocks'', c_int), (''td_sx_slocks'', c_int),
     (''td_lk_slocks'', c_int), (''td_wantedlock'', CPtr), (''td_blocked'', CPtr), (''td_lockname'', CPtr),
     (''td_contested'', c_thread__bindgen_ty_6), (''td_sleeplocks'', CPtr), (''td_intr_nesting_level'', c_int),
     (''td_pinned'', c_int), (''td_realucred'', CPtr), (''td_ucred'', CPtr), (''td_limit'', CPtr),
     (''td_slptick'', c_int), (''td_blktick'', c_int), (''td_swvoltick'', c_int), (''td_swinvoltick'', c_int),
     (''td_cow'', c_u_int), (''td_ru'', c_rusage), (''td_rux'', c_rusage_ext), (''td_incruntime'', cu64),
     (''td_runtime'', cu64), (''td_pticks'', c_u_int), (''td_sticks'', c_u_int), (''td_iticks'', c_u_int),
     (''td_uticks'', c_u_int), (''td_intrval'', c_int), (''td_oldsigmask'', c_sigset_t),
     (''td_generation'', c_u_int), (''td_sigstk'', c_stack_t), (''td_xsig'', c_int),
     (''td_profil_addr'', c_u_long), (''td_profil_ticks'', c_u_int), (''td_name'', CArr 20 c_char),
     (''td_fpop'', CPtr), (''td_dbgflags'', c_int), (''td_si'', c_siginfo_t), (''td_ng_outbound'', c_int),
     (''td_osd'', c_osd), (''td_map_def_user'', CPtr), (''td_dbg_forked'', c_pid_t), (''td_no_sleeping'', c_u_int),
     (''td_vp_reserved'', CPtr), (''td_su'', CPtr), (''td_sleeptimo'', c_sbintime_t), (''td_rtcgen'', c_int),
     (''td_errno'', c_int), (''td_vslock_sz'', cusize), (''td_kcov_info'', CPtr), (''td_ucredref'', c_long),
     (''td_kexterr'', c_kexterr), (''td_sigmask'', c_sigset_t), (''td_rqindex'', c_u_char),
     (''td_base_pri'', c_u_char), (''td_priority'', c_u_char), (''td_pri_class'', c_u_char),
     (''td_user_pri'', c_u_char), (''td_base_user_pri'', c_u_char), (''td_rb_list'', cusize),
     (''td_rbp_list'', cusize), (''td_rb_inact'', cusize), (''td_sa'', c_syscall_args),
     (''td_sigblock_ptr'', CPtr), (''td_sigblock_val'', cu32), (''td_exterr_ptr'', CPtr), (''td_pcb'', CPtr),
     (''td_state'', c_thread_td_states), (''td_uretoff'', c_thread__bindgen_ty_7), (''td_cowgen'', c_u_int),
     (''td_slpcallout'', c_callout), (''td_frame'', CPtr), (''td_kstack'', c_vm_offset_t),
     (''td_kstack_pages'', c_u_short), (''td_kstack_domain'', c_u_short), (''td_critnest'', c_u_int),
     (''td_md'', c_mdthread), (''td_ar'', CPtr), (''td_lprof'', CArr 2 c_lpohead), (''td_dtrace'', CPtr),
     (''td_vnet'', CPtr), (''td_vnet_lpush'', CPtr), (''td_intr_frame'', CPtr), (''td_rfppwait_p'', CPtr),
     (''td_ma'', CPtr), (''td_ma_cnt'', c_int), (''td_emuldata'', CPtr), (''td_lastcpu'', c_int),
     (''td_oncpu'', c_int), (''td_lkpi_task'', CPtr), (''td_pmcpend'', c_int), (''td_remotereq'', CPtr),
     (''td_ktr_io_lim'', c_off_t)])"

lemma c_thread_layout [layout]: "size_of c_thread = 1824" "align_of c_thread = 16" "wf_ctype c_thread"
  by (simp_all add: layout c_thread_def)

definition c_proc__bindgen_ty_1 :: ctype where
  "c_proc__bindgen_ty_1 = CStruct [
     (''le_next'', CPtr), (''le_prev'', CPtr)]"

lemma c_proc__bindgen_ty_1_layout [layout]: "size_of c_proc__bindgen_ty_1 = 16" "align_of c_proc__bindgen_ty_1 = 8" "wf_ctype c_proc__bindgen_ty_1"
  by (simp_all add: layout c_proc__bindgen_ty_1_def)

definition c_proc__bindgen_ty_2 :: ctype where
  "c_proc__bindgen_ty_2 = CStruct [
     (''tqh_first'', CPtr), (''tqh_last'', CPtr)]"

lemma c_proc__bindgen_ty_2_layout [layout]: "size_of c_proc__bindgen_ty_2 = 16" "align_of c_proc__bindgen_ty_2 = 8" "wf_ctype c_proc__bindgen_ty_2"
  by (simp_all add: layout c_proc__bindgen_ty_2_def)

definition c_proc_p_states :: ctype where "c_proc_p_states = c_uint"

lemma c_proc_p_states_layout [layout]: "size_of c_proc_p_states = 4" "align_of c_proc_p_states = 4" "wf_ctype c_proc_p_states"
  by (simp_all add: layout c_proc_p_states_def)

definition c_proc__bindgen_ty_3 :: ctype where
  "c_proc__bindgen_ty_3 = CStruct [
     (''le_next'', CPtr), (''le_prev'', CPtr)]"

lemma c_proc__bindgen_ty_3_layout [layout]: "size_of c_proc__bindgen_ty_3 = 16" "align_of c_proc__bindgen_ty_3 = 8" "wf_ctype c_proc__bindgen_ty_3"
  by (simp_all add: layout c_proc__bindgen_ty_3_def)

definition c_proc__bindgen_ty_4 :: ctype where
  "c_proc__bindgen_ty_4 = CStruct [
     (''le_next'', CPtr), (''le_prev'', CPtr)]"

lemma c_proc__bindgen_ty_4_layout [layout]: "size_of c_proc__bindgen_ty_4 = 16" "align_of c_proc__bindgen_ty_4 = 8" "wf_ctype c_proc__bindgen_ty_4"
  by (simp_all add: layout c_proc__bindgen_ty_4_def)

definition c_proc__bindgen_ty_5 :: ctype where
  "c_proc__bindgen_ty_5 = CStruct [
     (''le_next'', CPtr), (''le_prev'', CPtr)]"

lemma c_proc__bindgen_ty_5_layout [layout]: "size_of c_proc__bindgen_ty_5 = 16" "align_of c_proc__bindgen_ty_5 = 8" "wf_ctype c_proc__bindgen_ty_5"
  by (simp_all add: layout c_proc__bindgen_ty_5_def)

definition c_proc__bindgen_ty_6 :: ctype where
  "c_proc__bindgen_ty_6 = CStruct [
     (''lh_first'', CPtr)]"

lemma c_proc__bindgen_ty_6_layout [layout]: "size_of c_proc__bindgen_ty_6 = 8" "align_of c_proc__bindgen_ty_6 = 8" "wf_ctype c_proc__bindgen_ty_6"
  by (simp_all add: layout c_proc__bindgen_ty_6_def)

definition c_proc__bindgen_ty_7 :: ctype where
  "c_proc__bindgen_ty_7 = CStruct [
     (''lh_first'', CPtr)]"

lemma c_proc__bindgen_ty_7_layout [layout]: "size_of c_proc__bindgen_ty_7 = 8" "align_of c_proc__bindgen_ty_7 = 8" "wf_ctype c_proc__bindgen_ty_7"
  by (simp_all add: layout c_proc__bindgen_ty_7_def)

definition c_proc__bindgen_ty_8 :: ctype where
  "c_proc__bindgen_ty_8 = CStruct [
     (''le_next'', CPtr), (''le_prev'', CPtr)]"

lemma c_proc__bindgen_ty_8_layout [layout]: "size_of c_proc__bindgen_ty_8 = 16" "align_of c_proc__bindgen_ty_8 = 8" "wf_ctype c_proc__bindgen_ty_8"
  by (simp_all add: layout c_proc__bindgen_ty_8_def)

definition c_proc__bindgen_ty_9 :: ctype where
  "c_proc__bindgen_ty_9 = CStruct [
     (''stqh_first'', CPtr), (''stqh_last'', CPtr)]"

lemma c_proc__bindgen_ty_9_layout [layout]: "size_of c_proc__bindgen_ty_9 = 16" "align_of c_proc__bindgen_ty_9 = 8" "wf_ctype c_proc__bindgen_ty_9"
  by (simp_all add: layout c_proc__bindgen_ty_9_def)

definition c_proc__bindgen_ty_10 :: ctype where
  "c_proc__bindgen_ty_10 = CStruct [
     (''lh_first'', CPtr)]"

lemma c_proc__bindgen_ty_10_layout [layout]: "size_of c_proc__bindgen_ty_10 = 8" "align_of c_proc__bindgen_ty_10 = 8" "wf_ctype c_proc__bindgen_ty_10"
  by (simp_all add: layout c_proc__bindgen_ty_10_def)

definition c_proc__bindgen_ty_11 :: ctype where
  "c_proc__bindgen_ty_11 = CStruct [
     (''le_next'', CPtr), (''le_prev'', CPtr)]"

lemma c_proc__bindgen_ty_11_layout [layout]: "size_of c_proc__bindgen_ty_11 = 16" "align_of c_proc__bindgen_ty_11 = 8" "wf_ctype c_proc__bindgen_ty_11"
  by (simp_all add: layout c_proc__bindgen_ty_11_def)

definition c_proc__bindgen_ty_12 :: ctype where
  "c_proc__bindgen_ty_12 = CStruct [
     (''lh_first'', CPtr)]"

lemma c_proc__bindgen_ty_12_layout [layout]: "size_of c_proc__bindgen_ty_12 = 8" "align_of c_proc__bindgen_ty_12 = 8" "wf_ctype c_proc__bindgen_ty_12"
  by (simp_all add: layout c_proc__bindgen_ty_12_def)

definition c_proc__bindgen_ty_13 :: ctype where
  "c_proc__bindgen_ty_13 = CStruct [
     (''tqh_first'', CPtr), (''tqh_last'', CPtr)]"

lemma c_proc__bindgen_ty_13_layout [layout]: "size_of c_proc__bindgen_ty_13 = 16" "align_of c_proc__bindgen_ty_13 = 8" "wf_ctype c_proc__bindgen_ty_13"
  by (simp_all add: layout c_proc__bindgen_ty_13_def)

definition c_proc__bindgen_ty_14 :: ctype where
  "c_proc__bindgen_ty_14 = CStruct [
     (''le_next'', CPtr), (''le_prev'', CPtr)]"

lemma c_proc__bindgen_ty_14_layout [layout]: "size_of c_proc__bindgen_ty_14 = 16" "align_of c_proc__bindgen_ty_14 = 8" "wf_ctype c_proc__bindgen_ty_14"
  by (simp_all add: layout c_proc__bindgen_ty_14_def)

definition c_proc_struct :: ctype where
  "c_proc_struct = CStruct [
     (''p_list'', c_proc__bindgen_ty_1), (''p_threads'', c_proc__bindgen_ty_2), (''p_slock'', c_mtx),
     (''p_ucred'', CPtr), (''p_fd'', CPtr), (''p_fdtol'', CPtr), (''p_pd'', CPtr), (''p_stats'', CPtr),
     (''p_limit'', CPtr), (''p_limco'', c_callout), (''p_sigacts'', CPtr), (''p_flag'', c_int),
     (''p_flag2'', c_int), (''p_state'', c_proc_p_states), (''p_pid'', c_pid_t),
     (''p_hash'', c_proc__bindgen_ty_3), (''p_pglist'', c_proc__bindgen_ty_4), (''p_pptr'', CPtr),
     (''p_sibling'', c_proc__bindgen_ty_5), (''p_children'', c_proc__bindgen_ty_6), (''p_reaper'', CPtr),
     (''p_reaplist'', c_proc__bindgen_ty_7), (''p_reapsibling'', c_proc__bindgen_ty_8), (''p_mtx'', c_mtx),
     (''p_statmtx'', c_mtx), (''p_itimmtx'', c_mtx), (''p_profmtx'', c_mtx), (''p_ksi'', CPtr),
     (''p_sigqueue'', c_sigqueue_t), (''p_oppid'', c_pid_t), (''p_vmspace'', CPtr), (''p_swtick'', c_u_int),
     (''p_cowgen'', c_u_int), (''p_realtimer'', c_itimerval), (''p_ru'', c_rusage), (''p_rux'', c_rusage_ext),
     (''p_crux'', c_rusage_ext), (''p_profthreads'', c_int), (''p_exitthreads'', c_int), (''p_traceflag'', c_int),
     (''p_ktrioparms'', CPtr), (''p_textvp'', CPtr), (''p_textdvp'', CPtr), (''p_binname'', CPtr),
     (''p_lock'', c_u_int), (''p_sigiolst'', c_sigiolst), (''p_sigparent'', c_int), (''p_sig'', c_int),
     (''p_ptevents'', c_u_int), (''p_aioinfo'', CPtr), (''p_singlethread'', CPtr), (''p_suspcount'', c_int),
     (''p_xthread'', CPtr), (''p_boundary_count'', c_int), (''p_pendingcnt'', c_int), (''p_itimers'', CPtr),
     (''p_procdesc'', CPtr), (''p_treeflag'', c_u_int), (''p_pendingexits'', c_int), (''p_filemon'', CPtr),
     (''p_pdeathsig'', c_int), (''p_magic'', c_u_int), (''p_osrel'', c_int), (''p_fctl0'', cu32),
     (''p_comm'', CArr 20 c_char), (''p_sysent'', CPtr), (''p_args'', CPtr), (''p_cpulimit'', c_rlim_t),
     (''p_nice'', c_schar), (''p_fibnum'', c_int), (''p_reapsubtree'', c_pid_t), (''p_elf_flags'', cu64),
     (''p_elf_brandinfo'', CPtr), (''p_umtx_min_timeout'', c_sbintime_t), (''p_xexit'', c_u_int),
     (''p_xsig'', c_u_int), (''p_pgrp'', CPtr), (''p_klist'', CPtr), (''p_numthreads'', c_int),
     (''p_md'', c_mdproc), (''p_itcallout'', c_callout), (''p_acflag'', c_u_short), (''p_peers'', CPtr),
     (''p_leader'', CPtr), (''p_emuldata'', CPtr), (''p_label'', CPtr), (''p_ktr'', c_proc__bindgen_ty_9),
     (''p_mqnotifier'', c_proc__bindgen_ty_10), (''p_dtrace'', CPtr), (''p_pwait'', c_cv), (''p_racct'', CPtr),
     (''p_throttled'', c_int), (''p_orphan'', c_proc__bindgen_ty_11), (''p_orphans'', c_proc__bindgen_ty_12),
     (''p_kqtim_stop'', c_proc__bindgen_ty_13), (''p_jaillist'', c_proc__bindgen_ty_14), (''p_execblock'', c_u_int)]"

lemma c_proc_struct_layout [layout]: "size_of c_proc_struct = 1376" "align_of c_proc_struct = 8" "wf_ctype c_proc_struct"
  by (simp_all add: layout c_proc_struct_def)

definition c_vm_inherit_t :: ctype where "c_vm_inherit_t = c_char"

lemma c_vm_inherit_t_layout [layout]: "size_of c_vm_inherit_t = 1" "align_of c_vm_inherit_t = 1" "wf_ctype c_vm_inherit_t"
  by (simp_all add: layout c_vm_inherit_t_def)

definition c_vm_prot_t :: ctype where "c_vm_prot_t = c_u_char"

lemma c_vm_prot_t_layout [layout]: "size_of c_vm_prot_t = 1" "align_of c_vm_prot_t = 1" "wf_ctype c_vm_prot_t"
  by (simp_all add: layout c_vm_prot_t_def)

definition c_vm_map_entry_t :: ctype where "c_vm_map_entry_t = CPtr"

lemma c_vm_map_entry_t_layout [layout]: "size_of c_vm_map_entry_t = 8" "align_of c_vm_map_entry_t = 8" "wf_ctype c_vm_map_entry_t"
  by (simp_all add: layout c_vm_map_entry_t_def)

definition c_vm_object :: ctype where
  "c_vm_object = CStruct [
     (''_unused'', CArr 0 cu8)]"

lemma c_vm_object_layout [layout]: "size_of c_vm_object = 0" "align_of c_vm_object = 1" "wf_ctype c_vm_object"
  by (simp_all add: layout c_vm_object_def)

definition c_vm_page :: ctype where
  "c_vm_page = CStruct [
     (''_unused'', CArr 0 cu8)]"

lemma c_vm_page_layout [layout]: "size_of c_vm_page = 0" "align_of c_vm_page = 1" "wf_ctype c_vm_page"
  by (simp_all add: layout c_vm_page_def)

definition c_pmap_statistics :: ctype where
  "c_pmap_statistics = CStruct [
     (''resident_count'', c_long), (''wired_count'', c_long)]"

lemma c_pmap_statistics_layout [layout]: "size_of c_pmap_statistics = 16" "align_of c_pmap_statistics = 8" "wf_ctype c_pmap_statistics"
  by (simp_all add: layout c_pmap_statistics_def)

definition c__cpuset :: ctype where
  "c__cpuset = CStruct [
     (''__bits'', CArr 16 c_ulong)]"

lemma c__cpuset_layout [layout]: "size_of c__cpuset = 128" "align_of c__cpuset = 8" "wf_ctype c__cpuset"
  by (simp_all add: layout c__cpuset_def)

definition c_cpuset_t :: ctype where "c_cpuset_t = c__cpuset"

lemma c_cpuset_t_layout [layout]: "size_of c_cpuset_t = 128" "align_of c_cpuset_t = 8" "wf_ctype c_cpuset_t"
  by (simp_all add: layout c_cpuset_t_def)

definition c_pctrie_node :: ctype where
  "c_pctrie_node = CStruct [
     (''_unused'', CArr 0 cu8)]"

lemma c_pctrie_node_layout [layout]: "size_of c_pctrie_node = 0" "align_of c_pctrie_node = 1" "wf_ctype c_pctrie_node"
  by (simp_all add: layout c_pctrie_node_def)

definition c_pctrie :: ctype where
  "c_pctrie = CStruct [
     (''pt_root'', CPtr)]"

lemma c_pctrie_layout [layout]: "size_of c_pctrie = 8" "align_of c_pctrie = 8" "wf_ctype c_pctrie"
  by (simp_all add: layout c_pctrie_def)

definition c_pmap_pcid :: ctype where
  "c_pmap_pcid = CStruct [
     (''pm_pcid'', cu32), (''pm_gen'', cu32)]"

lemma c_pmap_pcid_layout [layout]: "size_of c_pmap_pcid = 8" "align_of c_pmap_pcid = 4" "wf_ctype c_pmap_pcid"
  by (simp_all add: layout c_pmap_pcid_def)

definition c_pv_entry__bindgen_ty_1 :: ctype where
  "c_pv_entry__bindgen_ty_1 = CStruct [
     (''tqe_next'', CPtr), (''tqe_prev'', CPtr)]"

lemma c_pv_entry__bindgen_ty_1_layout [layout]: "size_of c_pv_entry__bindgen_ty_1 = 16" "align_of c_pv_entry__bindgen_ty_1 = 8" "wf_ctype c_pv_entry__bindgen_ty_1"
  by (simp_all add: layout c_pv_entry__bindgen_ty_1_def)

definition c_pv_entry :: ctype where
  "c_pv_entry = CStruct [
     (''pv_va'', c_vm_offset_t), (''pv_next'', c_pv_entry__bindgen_ty_1)]"

lemma c_pv_entry_layout [layout]: "size_of c_pv_entry = 24" "align_of c_pv_entry = 8" "wf_ctype c_pv_entry"
  by (simp_all add: layout c_pv_entry_def)

definition c_pv_chunk__bindgen_ty_1 :: ctype where
  "c_pv_chunk__bindgen_ty_1 = CStruct [
     (''tqe_next'', CPtr), (''tqe_prev'', CPtr)]"

lemma c_pv_chunk__bindgen_ty_1_layout [layout]: "size_of c_pv_chunk__bindgen_ty_1 = 16" "align_of c_pv_chunk__bindgen_ty_1 = 8" "wf_ctype c_pv_chunk__bindgen_ty_1"
  by (simp_all add: layout c_pv_chunk__bindgen_ty_1_def)

definition c_pv_chunk__bindgen_ty_2 :: ctype where
  "c_pv_chunk__bindgen_ty_2 = CStruct [
     (''tqe_next'', CPtr), (''tqe_prev'', CPtr)]"

lemma c_pv_chunk__bindgen_ty_2_layout [layout]: "size_of c_pv_chunk__bindgen_ty_2 = 16" "align_of c_pv_chunk__bindgen_ty_2 = 8" "wf_ctype c_pv_chunk__bindgen_ty_2"
  by (simp_all add: layout c_pv_chunk__bindgen_ty_2_def)

definition c_pv_chunk :: ctype where
  "c_pv_chunk = CStruct [
     (''pc_pmap'', CPtr), (''pc_list'', c_pv_chunk__bindgen_ty_1), (''pc_map'', CArr 3 c_ulong),
     (''pc_lru'', c_pv_chunk__bindgen_ty_2), (''pc_pventry'', CArr 168 c_pv_entry),
     (''pc_pad'', c_IncompleteArrayField c_ulong)]"

lemma c_pv_chunk_layout [layout]: "size_of c_pv_chunk = 4096" "align_of c_pv_chunk = 8" "wf_ctype c_pv_chunk"
  by (simp_all add: layout c_pv_chunk_def)

definition c_rs_dup_data_t :: ctype where "c_rs_dup_data_t = CPtr"

lemma c_rs_dup_data_t_layout [layout]: "size_of c_rs_dup_data_t = 8" "align_of c_rs_dup_data_t = 8" "wf_ctype c_rs_dup_data_t"
  by (simp_all add: layout c_rs_dup_data_t_def)

definition c_rs_free_data_t :: ctype where "c_rs_free_data_t = CPtr"

lemma c_rs_free_data_t_layout [layout]: "size_of c_rs_free_data_t = 8" "align_of c_rs_free_data_t = 8" "wf_ctype c_rs_free_data_t"
  by (simp_all add: layout c_rs_free_data_t_def)

definition c_rangeset :: ctype where
  "c_rangeset = CStruct [
     (''rs_trie'', c_pctrie), (''rs_dup_data'', c_rs_dup_data_t), (''rs_free_data'', c_rs_free_data_t),
     (''rs_data_ctx'', CPtr), (''rs_alloc_flags'', c_u_int)]"

lemma c_rangeset_layout [layout]: "size_of c_rangeset = 40" "align_of c_rangeset = 8" "wf_ctype c_rangeset"
  by (simp_all add: layout c_rangeset_def)

definition c_vm_radix :: ctype where
  "c_vm_radix = CStruct [
     (''rt_trie'', c_pctrie)]"

lemma c_vm_radix_layout [layout]: "size_of c_vm_radix = 8" "align_of c_vm_radix = 8" "wf_ctype c_vm_radix"
  by (simp_all add: layout c_vm_radix_def)

definition c_pml4_entry_t :: ctype where "c_pml4_entry_t = c_u_int64_t"

lemma c_pml4_entry_t_layout [layout]: "size_of c_pml4_entry_t = 8" "align_of c_pml4_entry_t = 8" "wf_ctype c_pml4_entry_t"
  by (simp_all add: layout c_pml4_entry_t_def)

definition c_pmap_type :: ctype where "c_pmap_type = c_uint"

lemma c_pmap_type_layout [layout]: "size_of c_pmap_type = 4" "align_of c_pmap_type = 4" "wf_ctype c_pmap_type"
  by (simp_all add: layout c_pmap_type_def)

definition c_pmap__bindgen_ty_1 :: ctype where
  "c_pmap__bindgen_ty_1 = CStruct [
     (''tqh_first'', CPtr), (''tqh_last'', CPtr)]"

lemma c_pmap__bindgen_ty_1_layout [layout]: "size_of c_pmap__bindgen_ty_1 = 16" "align_of c_pmap__bindgen_ty_1 = 8" "wf_ctype c_pmap__bindgen_ty_1"
  by (simp_all add: layout c_pmap__bindgen_ty_1_def)

definition c_pmap :: ctype where
  "c_pmap = CStruct [
     (''pm_mtx'', c_mtx), (''pm_pmltop'', CPtr), (''pm_pmltopu'', CPtr), (''pm_cr3'', cu64), (''pm_ucr3'', cu64),
     (''pm_pvchunk'', c_pmap__bindgen_ty_1), (''pm_active'', c_cpuset_t), (''pm_type'', c_pmap_type),
     (''pm_stats'', c_pmap_statistics), (''pm_root'', c_vm_radix), (''pm_eptgen'', c_long),
     (''pm_eptsmr'', c_smr_t), (''pm_flags'', c_int), (''pm_pcidp'', CPtr), (''pm_pkru'', c_rangeset)]"

lemma c_pmap_layout [layout]: "size_of c_pmap = 312" "align_of c_pmap = 8" "wf_ctype c_pmap"
  by (simp_all add: layout c_pmap_def)

definition c_pmap_t :: ctype where "c_pmap_t = CPtr"

lemma c_pmap_t_layout [layout]: "size_of c_pmap_t = 8" "align_of c_pmap_t = 8" "wf_ctype c_pmap_t"
  by (simp_all add: layout c_pmap_t_def)

definition c_vm_eflags_t :: ctype where "c_vm_eflags_t = c_u_int"

lemma c_vm_eflags_t_layout [layout]: "size_of c_vm_eflags_t = 4" "align_of c_vm_eflags_t = 4" "wf_ctype c_vm_eflags_t"
  by (simp_all add: layout c_vm_eflags_t_def)

definition c_vm_map_object :: ctype where
  "c_vm_map_object = CUnion [
     (''vm_object'', CPtr), (''sub_map'', CPtr)]"

lemma c_vm_map_object_layout [layout]: "size_of c_vm_map_object = 8" "align_of c_vm_map_object = 8" "wf_ctype c_vm_map_object"
  by (simp_all add: layout c_vm_map_object_def)

definition c_vm_map_entry :: ctype where
  "c_vm_map_entry = CStruct [
     (''left'', CPtr), (''right'', CPtr), (''start'', c_vm_offset_t), (''end'', c_vm_offset_t),
     (''next_read'', c_vm_offset_t), (''max_free'', c_vm_size_t), (''object'', c_vm_map_object),
     (''offset'', c_vm_ooffset_t), (''eflags'', c_vm_eflags_t), (''protection'', c_vm_prot_t),
     (''max_protection'', c_vm_prot_t), (''inheritance'', c_vm_inherit_t), (''read_ahead'', cu8),
     (''wired_count'', c_int), (''cred'', CPtr), (''wiring_thread'', CPtr)]"

lemma c_vm_map_entry_layout [layout]: "size_of c_vm_map_entry = 96" "align_of c_vm_map_entry = 8" "wf_ctype c_vm_map_entry"
  by (simp_all add: layout c_vm_map_entry_def)

definition c_vm_map__bindgen_ty_1 :: ctype where
  "c_vm_map__bindgen_ty_1 = CUnion [
     (''lock'', c_sx), (''system_mtx'', c_mtx)]"

lemma c_vm_map__bindgen_ty_1_layout [layout]: "size_of c_vm_map__bindgen_ty_1 = 32" "align_of c_vm_map__bindgen_ty_1 = 8" "wf_ctype c_vm_map__bindgen_ty_1"
  by (simp_all add: layout c_vm_map__bindgen_ty_1_def)

definition c_vm_map :: ctype where
  "c_vm_map = CStruct [
     (''header'', c_vm_map_entry), (''__bindgen_anon_1'', c_vm_map__bindgen_ty_1), (''nentries'', c_int),
     (''size'', c_vm_size_t), (''timestamp'', c_u_int), (''flags'', c_u_int), (''root'', c_vm_map_entry_t),
     (''pmap'', c_pmap_t), (''anon_loc'', c_vm_offset_t), (''busy'', c_int)]"

lemma c_vm_map_layout [layout]: "size_of c_vm_map = 184" "align_of c_vm_map = 8" "wf_ctype c_vm_map"
  by (simp_all add: layout c_vm_map_def)

definition c_vmspace :: ctype where
  "c_vmspace = CStruct [
     (''vm_map'', c_vm_map), (''vm_shm'', CPtr), (''vm_swrss'', c_segsz_t), (''vm_tsize'', c_segsz_t),
     (''vm_dsize'', c_segsz_t), (''vm_ssize'', c_segsz_t), (''vm_taddr'', c_caddr_t), (''vm_daddr'', c_caddr_t),
     (''vm_maxsaddr'', c_caddr_t), (''vm_stacktop'', c_vm_offset_t), (''vm_shp_base'', c_vm_offset_t),
     (''vm_refcnt'', c_u_int), (''vm_pmap'', c_pmap)]"

lemma c_vmspace_layout [layout]: "size_of c_vmspace = 584" "align_of c_vmspace = 8" "wf_ctype c_vmspace"
  by (simp_all add: layout c_vmspace_def)

definition c_pstats_uprof :: ctype where
  "c_pstats_uprof = CStruct [
     (''pr_base'', c_caddr_t), (''pr_size'', c_u_long), (''pr_off'', c_u_long), (''pr_scale'', c_u_long)]"

lemma c_pstats_uprof_layout [layout]: "size_of c_pstats_uprof = 32" "align_of c_pstats_uprof = 8" "wf_ctype c_pstats_uprof"
  by (simp_all add: layout c_pstats_uprof_def)

definition c_pstats :: ctype where
  "c_pstats = CStruct [
     (''p_cru'', c_rusage), (''p_timer'', CArr 3 c_itimerval), (''p_prof'', c_pstats_uprof),
     (''p_start'', c_timeval)]"

lemma c_pstats_layout [layout]: "size_of c_pstats = 288" "align_of c_pstats = 8" "wf_ctype c_pstats"
  by (simp_all add: layout c_pstats_def)

definition c_kinfo_proc :: ctype where
  "c_kinfo_proc = CStruct [
     (''ki_structsize'', c_int), (''ki_layout'', c_int), (''ki_args'', CPtr), (''ki_paddr'', CPtr),
     (''ki_addr'', CPtr), (''ki_tracep'', CPtr), (''ki_textvp'', CPtr), (''ki_fd'', CPtr), (''ki_vmspace'', CPtr),
     (''ki_wchan'', CPtr), (''ki_pid'', c_pid_t), (''ki_ppid'', c_pid_t), (''ki_pgid'', c_pid_t),
     (''ki_tpgid'', c_pid_t), (''ki_sid'', c_pid_t), (''ki_tsid'', c_pid_t), (''ki_jobc'', c_short),
     (''ki_spare_short1'', c_short), (''ki_tdev_freebsd11'', cu32), (''ki_siglist'', c_sigset_t),
     (''ki_sigmask'', c_sigset_t), (''ki_sigignore'', c_sigset_t), (''ki_sigcatch'', c_sigset_t),
     (''ki_uid'', c_uid_t), (''ki_ruid'', c_uid_t), (''ki_svuid'', c_uid_t), (''ki_rgid'', c_gid_t),
     (''ki_svgid'', c_gid_t), (''ki_ngroups'', c_short), (''ki_spare_short2'', c_short),
     (''ki_groups'', CArr 16 c_gid_t), (''ki_size'', c_vm_size_t), (''ki_rssize'', c_segsz_t),
     (''ki_swrss'', c_segsz_t), (''ki_tsize'', c_segsz_t), (''ki_dsize'', c_segsz_t), (''ki_ssize'', c_segsz_t),
     (''ki_xstat'', c_u_short), (''ki_acflag'', c_u_short), (''ki_pctcpu'', c_fixpt_t), (''ki_estcpu'', c_u_int),
     (''ki_slptime'', c_u_int), (''ki_swtime'', c_u_int), (''ki_cow'', c_u_int), (''ki_runtime'', c_u_int64_t),
     (''ki_start'', c_timeval), (''ki_childtime'', c_timeval), (''ki_flag'', c_long), (''ki_kiflag'', c_long),
     (''ki_traceflag'', c_int), (''ki_stat'', c_char), (''ki_nice'', c_schar), (''ki_lock'', c_char),
     (''ki_rqindex'', c_char), (''ki_oncpu_old'', c_u_char), (''ki_lastcpu_old'', c_u_char),
     (''ki_tdname'', CArr 17 c_char), (''ki_wmesg'', CArr 9 c_char), (''ki_login'', CArr 18 c_char),
     (''ki_lockname'', CArr 9 c_char), (''ki_comm'', CArr 20 c_char), (''ki_emul'', CArr 17 c_char),
     (''ki_loginclass'', CArr 18 c_char), (''ki_moretdname'', CArr 4 c_char),
     (''ki_sparestrings'', CArr 38 c_char), (''ki_spareints'', CArr 2 c_int), (''ki_reaper'', c_pid_t),
     (''ki_reapsubtree'', c_pid_t), (''ki_tdev'', cu64), (''ki_oncpu'', c_int), (''ki_lastcpu'', c_int),
     (''ki_tracer'', c_int), (''ki_flag2'', c_int), (''ki_fibnum'', c_int), (''ki_cr_flags'', c_u_int),
     (''ki_jid'', c_int), (''ki_numthreads'', c_int), (''ki_tid'', c_lwpid_t), (''ki_pri'', c_priority),
     (''ki_rusage'', c_rusage), (''ki_rusage_ch'', c_rusage), (''ki_pcb'', CPtr), (''ki_kstack'', CPtr),
     (''ki_udata'', CPtr), (''ki_tdaddr'', CPtr), (''ki_pd'', CPtr), (''ki_uerrmsg'', CPtr),
     (''ki_spareptrs'', CArr 4 CPtr), (''ki_sparelongs'', CArr 12 c_long), (''ki_sflag'', c_long),
     (''ki_tdflags'', c_long)]"

lemma c_kinfo_proc_layout [layout]: "size_of c_kinfo_proc = 1088" "align_of c_kinfo_proc = 8" "wf_ctype c_kinfo_proc"
  by (simp_all add: layout c_kinfo_proc_def)

definition c_user :: ctype where
  "c_user = CStruct [
     (''u_stats'', c_pstats), (''u_kproc'', c_kinfo_proc)]"

lemma c_user_layout [layout]: "size_of c_user = 1376" "align_of c_user = 8" "wf_ctype c_user"
  by (simp_all add: layout c_user_def)

definition c_kinfo_vmentry__bindgen_ty_1 :: ctype where
  "c_kinfo_vmentry__bindgen_ty_1 = CUnion [
     (''_kve_vn_fsid'', cu64), (''_kve_obj'', cu64)]"

lemma c_kinfo_vmentry__bindgen_ty_1_layout [layout]: "size_of c_kinfo_vmentry__bindgen_ty_1 = 8" "align_of c_kinfo_vmentry__bindgen_ty_1 = 8" "wf_ctype c_kinfo_vmentry__bindgen_ty_1"
  by (simp_all add: layout c_kinfo_vmentry__bindgen_ty_1_def)

definition c_kinfo_vmentry :: ctype where
  "c_kinfo_vmentry = CStruct [
     (''kve_structsize'', c_int), (''kve_type'', c_int), (''kve_start'', cu64), (''kve_end'', cu64),
     (''kve_offset'', cu64), (''kve_vn_fileid'', cu64), (''kve_vn_fsid_freebsd11'', cu32), (''kve_flags'', c_int),
     (''kve_resident'', c_int), (''kve_private_resident'', c_int), (''kve_protection'', c_int),
     (''kve_ref_count'', c_int), (''kve_shadow_count'', c_int), (''kve_vn_type'', c_int), (''kve_vn_size'', cu64),
     (''kve_vn_rdev_freebsd11'', cu32), (''kve_vn_mode'', cu16), (''kve_status'', cu16),
     (''kve_type_spec'', c_kinfo_vmentry__bindgen_ty_1), (''kve_vn_rdev'', cu64), (''_kve_ispare'', CArr 8 c_int),
     (''kve_path'', CArr 1024 c_char)]"

lemma c_kinfo_vmentry_layout [layout]: "size_of c_kinfo_vmentry = 1160" "align_of c_kinfo_vmentry = 8" "wf_ctype c_kinfo_vmentry"
  by (simp_all add: layout c_kinfo_vmentry_def)

definition c_kinfo_kstack :: ctype where
  "c_kinfo_kstack = CStruct [
     (''kkst_tid'', c_lwpid_t), (''kkst_state'', c_int), (''kkst_trace'', CArr 1024 c_char),
     (''_kkst_ispare'', CArr 16 c_int)]"

lemma c_kinfo_kstack_layout [layout]: "size_of c_kinfo_kstack = 1096" "align_of c_kinfo_kstack = 4" "wf_ctype c_kinfo_kstack"
  by (simp_all add: layout c_kinfo_kstack_def)

definition c_kinfo_knote__bindgen_ty_1__bindgen_ty_1 :: ctype where
  "c_kinfo_knote__bindgen_ty_1__bindgen_ty_1 = CStruct [
     (''knt_vnode_type'', c_int), (''knt_vnode_fsid'', cu64), (''knt_vnode_fileid'', cu64),
     (''knt_vnode_fullpath'', CArr 1024 c_char)]"

lemma c_kinfo_knote__bindgen_ty_1__bindgen_ty_1_layout [layout]: "size_of c_kinfo_knote__bindgen_ty_1__bindgen_ty_1 = 1048" "align_of c_kinfo_knote__bindgen_ty_1__bindgen_ty_1 = 8" "wf_ctype c_kinfo_knote__bindgen_ty_1__bindgen_ty_1"
  by (simp_all add: layout c_kinfo_knote__bindgen_ty_1__bindgen_ty_1_def)

definition c_kinfo_knote__bindgen_ty_1__bindgen_ty_2 :: ctype where
  "c_kinfo_knote__bindgen_ty_1__bindgen_ty_2 = CStruct [
     (''knt_pipe_ino'', c_ino_t)]"

lemma c_kinfo_knote__bindgen_ty_1__bindgen_ty_2_layout [layout]: "size_of c_kinfo_knote__bindgen_ty_1__bindgen_ty_2 = 8" "align_of c_kinfo_knote__bindgen_ty_1__bindgen_ty_2 = 8" "wf_ctype c_kinfo_knote__bindgen_ty_1__bindgen_ty_2"
  by (simp_all add: layout c_kinfo_knote__bindgen_ty_1__bindgen_ty_2_def)

definition c_kinfo_knote__bindgen_ty_1 :: ctype where
  "c_kinfo_knote__bindgen_ty_1 = CUnion [
     (''knt_vnode'', c_kinfo_knote__bindgen_ty_1__bindgen_ty_1),
     (''knt_pipe'', c_kinfo_knote__bindgen_ty_1__bindgen_ty_2)]"

lemma c_kinfo_knote__bindgen_ty_1_layout [layout]: "size_of c_kinfo_knote__bindgen_ty_1 = 1048" "align_of c_kinfo_knote__bindgen_ty_1 = 8" "wf_ctype c_kinfo_knote__bindgen_ty_1"
  by (simp_all add: layout c_kinfo_knote__bindgen_ty_1_def)

definition c_kinfo_knote :: ctype where
  "c_kinfo_knote = CStruct [
     (''knt_kq_fd'', c_int), (''knt_event'', c_kevent), (''knt_status'', c_int), (''knt_extdata'', c_int),
     (''knt_spare0'', CArr 4 cu64), (''__bindgen_anon_1'', c_kinfo_knote__bindgen_ty_1)]"

lemma c_kinfo_knote_layout [layout]: "size_of c_kinfo_knote = 1160" "align_of c_kinfo_knote = 8" "wf_ctype c_kinfo_knote"
  by (simp_all add: layout c_kinfo_knote_def)

definition c_Elf64_Auxinfo__bindgen_ty_1 :: ctype where
  "c_Elf64_Auxinfo__bindgen_ty_1 = CUnion [
     (''a_val'', c_long), (''a_ptr'', CPtr), (''a_fcn'', CPtr)]"

lemma c_Elf64_Auxinfo__bindgen_ty_1_layout [layout]: "size_of c_Elf64_Auxinfo__bindgen_ty_1 = 8" "align_of c_Elf64_Auxinfo__bindgen_ty_1 = 8" "wf_ctype c_Elf64_Auxinfo__bindgen_ty_1"
  by (simp_all add: layout c_Elf64_Auxinfo__bindgen_ty_1_def)

definition c_Elf64_Auxinfo :: ctype where
  "c_Elf64_Auxinfo = CStruct [
     (''a_type'', c_long), (''a_un'', c_Elf64_Auxinfo__bindgen_ty_1)]"

lemma c_Elf64_Auxinfo_layout [layout]: "size_of c_Elf64_Auxinfo = 16" "align_of c_Elf64_Auxinfo = 8" "wf_ctype c_Elf64_Auxinfo"
  by (simp_all add: layout c_Elf64_Auxinfo_def)

definition c_Elf_Auxinfo :: ctype where "c_Elf_Auxinfo = c_Elf64_Auxinfo"

lemma c_Elf_Auxinfo_layout [layout]: "size_of c_Elf_Auxinfo = 16" "align_of c_Elf_Auxinfo = 8" "wf_ctype c_Elf_Auxinfo"
  by (simp_all add: layout c_Elf_Auxinfo_def)

definition c_procstat :: ctype where
  "c_procstat = CStruct [
     (''_unused'', CArr 0 cu8)]"

lemma c_procstat_layout [layout]: "size_of c_procstat = 0" "align_of c_procstat = 1" "wf_ctype c_procstat"
  by (simp_all add: layout c_procstat_def)

definition c_ptrace_lwpinfo :: ctype where
  "c_ptrace_lwpinfo = CStruct [
     (''_unused'', CArr 0 cu8)]"

lemma c_ptrace_lwpinfo_layout [layout]: "size_of c_ptrace_lwpinfo = 0" "align_of c_ptrace_lwpinfo = 1" "wf_ctype c_ptrace_lwpinfo"
  by (simp_all add: layout c_ptrace_lwpinfo_def)

definition c_filestat__bindgen_ty_1 :: ctype where
  "c_filestat__bindgen_ty_1 = CStruct [
     (''stqe_next'', CPtr)]"

lemma c_filestat__bindgen_ty_1_layout [layout]: "size_of c_filestat__bindgen_ty_1 = 8" "align_of c_filestat__bindgen_ty_1 = 8" "wf_ctype c_filestat__bindgen_ty_1"
  by (simp_all add: layout c_filestat__bindgen_ty_1_def)

definition c_filestat :: ctype where
  "c_filestat = CStruct [
     (''fs_type'', c_int), (''fs_flags'', c_int), (''fs_fflags'', c_int), (''fs_uflags'', c_int),
     (''fs_fd'', c_int), (''fs_ref_count'', c_int), (''fs_offset'', c_off_t), (''fs_typedep'', CPtr),
     (''fs_path'', CPtr), (''next'', c_filestat__bindgen_ty_1), (''fs_cap_rights'', c_cap_rights_t)]"

lemma c_filestat_layout [layout]: "size_of c_filestat = 72" "align_of c_filestat = 8" "wf_ctype c_filestat"
  by (simp_all add: layout c_filestat_def)

definition c_vnstat :: ctype where
  "c_vnstat = CStruct [
     (''vn_fileid'', cu64), (''vn_size'', cu64), (''vn_dev'', cu64), (''vn_fsid'', cu64), (''vn_mntdir'', CPtr),
     (''vn_type'', c_int), (''vn_mode'', cu16), (''vn_devname'', CArr 256 c_char)]"

lemma c_vnstat_layout [layout]: "size_of c_vnstat = 304" "align_of c_vnstat = 8" "wf_ctype c_vnstat"
  by (simp_all add: layout c_vnstat_def)

definition c_ptsstat :: ctype where
  "c_ptsstat = CStruct [
     (''dev'', cu64), (''devname'', CArr 256 c_char)]"

lemma c_ptsstat_layout [layout]: "size_of c_ptsstat = 264" "align_of c_ptsstat = 8" "wf_ctype c_ptsstat"
  by (simp_all add: layout c_ptsstat_def)

definition c_pipestat :: ctype where
  "c_pipestat = CStruct [
     (''buffer_cnt'', cusize), (''addr'', cu64), (''peer'', cu64)]"

lemma c_pipestat_layout [layout]: "size_of c_pipestat = 24" "align_of c_pipestat = 8" "wf_ctype c_pipestat"
  by (simp_all add: layout c_pipestat_def)

definition c_semstat :: ctype where
  "c_semstat = CStruct [
     (''value'', cu32), (''mode'', cu16)]"

lemma c_semstat_layout [layout]: "size_of c_semstat = 8" "align_of c_semstat = 4" "wf_ctype c_semstat"
  by (simp_all add: layout c_semstat_def)

definition c_shmstat :: ctype where
  "c_shmstat = CStruct [
     (''size'', cu64), (''mode'', cu16)]"

lemma c_shmstat_layout [layout]: "size_of c_shmstat = 16" "align_of c_shmstat = 8" "wf_ctype c_shmstat"
  by (simp_all add: layout c_shmstat_def)

definition c_sockstat :: ctype where
  "c_sockstat = CStruct [
     (''so_addr'', cu64), (''so_pcb'', cu64), (''unp_conn'', cu64), (''dom_family'', c_int), (''proto'', c_int),
     (''so_rcv_sb_state'', c_int), (''so_snd_sb_state'', c_int), (''sa_local'', c_sockaddr_storage),
     (''sa_peer'', c_sockaddr_storage), (''type_'', c_int), (''dname'', CArr 32 c_char), (''sendq'', c_uint),
     (''recvq'', c_uint)]"

lemma c_sockstat_layout [layout]: "size_of c_sockstat = 344" "align_of c_sockstat = 8" "wf_ctype c_sockstat"
  by (simp_all add: layout c_sockstat_def)

definition c_filestat_list :: ctype where
  "c_filestat_list = CStruct [
     (''stqh_first'', CPtr), (''stqh_last'', CPtr)]"

lemma c_filestat_list_layout [layout]: "size_of c_filestat_list = 16" "align_of c_filestat_list = 8" "wf_ctype c_filestat_list"
  by (simp_all add: layout c_filestat_list_def)

definition c_advlock__bindgen_ty_1 :: ctype where
  "c_advlock__bindgen_ty_1 = CStruct [
     (''stqe_next'', CPtr)]"

lemma c_advlock__bindgen_ty_1_layout [layout]: "size_of c_advlock__bindgen_ty_1 = 8" "align_of c_advlock__bindgen_ty_1 = 8" "wf_ctype c_advlock__bindgen_ty_1"
  by (simp_all add: layout c_advlock__bindgen_ty_1_def)

definition c_advlock :: ctype where
  "c_advlock = CStruct [
     (''rw'', c_int), (''type_'', c_int), (''pid'', c_int), (''sysid'', c_int), (''file_fsid'', cu64),
     (''file_rdev'', cu64), (''file_fileid'', cu64), (''start'', c_off_t), (''len'', c_off_t), (''path'', CPtr),
     (''next'', c_advlock__bindgen_ty_1)]"

lemma c_advlock_layout [layout]: "size_of c_advlock = 72" "align_of c_advlock = 8" "wf_ctype c_advlock"
  by (simp_all add: layout c_advlock_def)

definition c_advlock_list :: ctype where
  "c_advlock_list = CStruct [
     (''stqh_first'', CPtr), (''stqh_last'', CPtr)]"

lemma c_advlock_list_layout [layout]: "size_of c_advlock_list = 16" "align_of c_advlock_list = 8" "wf_ctype c_advlock_list"
  by (simp_all add: layout c_advlock_list_def)

definition c_amd64tss :: ctype where
  "c_amd64tss = CStruct [
     (''_address'', cu8)]"

lemma c_amd64tss_layout [layout]: "size_of c_amd64tss = 1" "align_of c_amd64tss = 1" "wf_ctype c_amd64tss"
  by (simp_all add: layout c_amd64tss_def)

definition c_witness :: ctype where
  "c_witness = CStruct [
     (''_address'', cu8)]"

lemma c_witness_layout [layout]: "size_of c_witness = 1" "align_of c_witness = 1" "wf_ctype c_witness"
  by (simp_all add: layout c_witness_def)

definition c_file :: ctype where
  "c_file = CStruct [
     (''_address'', cu8)]"

lemma c_file_layout [layout]: "size_of c_file = 1" "align_of c_file = 1" "wf_ctype c_file"
  by (simp_all add: layout c_file_def)

definition c_vnode :: ctype where
  "c_vnode = CStruct [
     (''_address'', cu8)]"

lemma c_vnode_layout [layout]: "size_of c_vnode = 1" "align_of c_vnode = 1" "wf_ctype c_vnode"
  by (simp_all add: layout c_vnode_def)

definition c_ucred :: ctype where
  "c_ucred = CStruct [
     (''_address'', cu8)]"

lemma c_ucred_layout [layout]: "size_of c_ucred = 1" "align_of c_ucred = 1" "wf_ctype c_ucred"
  by (simp_all add: layout c_ucred_def)

definition c_cdev_priv :: ctype where
  "c_cdev_priv = CStruct [
     (''_address'', cu8)]"

lemma c_cdev_priv_layout [layout]: "size_of c_cdev_priv = 1" "align_of c_cdev_priv = 1" "wf_ctype c_cdev_priv"
  by (simp_all add: layout c_cdev_priv_def)

definition c_tty :: ctype where
  "c_tty = CStruct [
     (''_address'', cu8)]"

lemma c_tty_layout [layout]: "size_of c_tty = 1" "align_of c_tty = 1" "wf_ctype c_tty"
  by (simp_all add: layout c_tty_def)

definition c_sysent :: ctype where
  "c_sysent = CStruct [
     (''_address'', cu8)]"

lemma c_sysent_layout [layout]: "size_of c_sysent = 1" "align_of c_sysent = 1" "wf_ctype c_sysent"
  by (simp_all add: layout c_sysent_def)

definition c_seltd :: ctype where
  "c_seltd = CStruct [
     (''_address'', cu8)]"

lemma c_seltd_layout [layout]: "size_of c_seltd = 1" "align_of c_seltd = 1" "wf_ctype c_seltd"
  by (simp_all add: layout c_seltd_def)

definition c_umtx_q :: ctype where
  "c_umtx_q = CStruct [
     (''_address'', cu8)]"

lemma c_umtx_q_layout [layout]: "size_of c_umtx_q = 1" "align_of c_umtx_q = 1" "wf_ctype c_umtx_q"
  by (simp_all add: layout c_umtx_q_def)

definition c_plimit :: ctype where
  "c_plimit = CStruct [
     (''_address'', cu8)]"

lemma c_plimit_layout [layout]: "size_of c_plimit = 1" "align_of c_plimit = 1" "wf_ctype c_plimit"
  by (simp_all add: layout c_plimit_def)

definition c_vnet :: ctype where
  "c_vnet = CStruct [
     (''_address'', cu8)]"

lemma c_vnet_layout [layout]: "size_of c_vnet = 1" "align_of c_vnet = 1" "wf_ctype c_vnet"
  by (simp_all add: layout c_vnet_def)

definition c_ktr_io_params :: ctype where
  "c_ktr_io_params = CStruct [
     (''_address'', cu8)]"

lemma c_ktr_io_params_layout [layout]: "size_of c_ktr_io_params = 1" "align_of c_ktr_io_params = 1" "wf_ctype c_ktr_io_params"
  by (simp_all add: layout c_ktr_io_params_def)

definition c_itimers :: ctype where
  "c_itimers = CStruct [
     (''_address'', cu8)]"

lemma c_itimers_layout [layout]: "size_of c_itimers = 1" "align_of c_itimers = 1" "wf_ctype c_itimers"
  by (simp_all add: layout c_itimers_def)

definition c_sysentvec :: ctype where
  "c_sysentvec = CStruct [
     (''_address'', cu8)]"

lemma c_sysentvec_layout [layout]: "size_of c_sysentvec = 1" "align_of c_sysentvec = 1" "wf_ctype c_sysentvec"
  by (simp_all add: layout c_sysentvec_def)

definition c_label :: ctype where
  "c_label = CStruct [
     (''_address'', cu8)]"

lemma c_label_layout [layout]: "size_of c_label = 1" "align_of c_label = 1" "wf_ctype c_label"
  by (simp_all add: layout c_label_def)

definition c_ktr_request :: ctype where
  "c_ktr_request = CStruct [
     (''_address'', cu8)]"

lemma c_ktr_request_layout [layout]: "size_of c_ktr_request = 1" "align_of c_ktr_request = 1" "wf_ctype c_ktr_request"
  by (simp_all add: layout c_ktr_request_def)

definition c_shmmap_state :: ctype where
  "c_shmmap_state = CStruct [
     (''_address'', cu8)]"

lemma c_shmmap_state_layout [layout]: "size_of c_shmmap_state = 1" "align_of c_shmmap_state = 1" "wf_ctype c_shmmap_state"
  by (simp_all add: layout c_shmmap_state_def)

end
