(* ===== verification/Procinfo.thy ===== *)
theory Procinfo
  imports Ip_Addr Procstat_Sys
begin

text \<open>
  Attribution of flows to processes (\<open>src/procinfo.rs\<close>): the three tables of sockets, the lookup
  from the strongest tier to the weakest, the cached resolver, the walk over the processes, and
  the test for a running daemon.

  libprocstat is not part of the program: what it reports is an argument, a list of processes with
  their open files.  Socket addresses are the bytes of the C structures.  A clock reading is a number
  of milliseconds.
\<close>

section \<open>Data\<close>

record owner =
  pid :: int
  command :: string
  opath :: string

record tuple =
  t_proto :: u8
  t_src :: ip_addr
  t_sport :: u16
  t_dst :: ip_addr
  t_dport :: u16

datatype confidence = Kernel | Exact | Local | Port

fun confidence_str :: "confidence \<Rightarrow> string" where
  "confidence_str Kernel = ''kernel''"
| "confidence_str Exact = ''exact''"
| "confidence_str Local = ''local''"
| "confidence_str Port = ''port''"

record attributed =
  a_owner :: owner
  a_confidence :: confidence

record probe_entry =
  pe_proto :: u8
  pe_local :: ip_addr
  pe_lport :: u16
  pe_peer :: "(ip_addr \<times> u16) option"
  pe_owner :: owner
  pe_confidence :: confidence

type_synonym local_key = "u8 \<times> ip_addr \<times> u16"
type_synonym port_key = "u8 \<times> u16"

record tables =
  exact :: "(tuple, owner) hashmap"
  locals_tbl :: "(local_key, owner) hashmap"
  ports_tbl :: "(port_key, owner) hashmap"
  contested_local :: "local_key set"
  contested_port :: "port_key set"

definition empty_tables :: tables where
  "empty_tables = \<lparr>exact = [], locals_tbl = [], ports_tbl = [], contested_local = {}, contested_port = {}\<rparr>"

section \<open>The tables\<close>

definition add_local :: "local_key \<Rightarrow> owner \<Rightarrow> tables \<Rightarrow> tables" where
  "add_local k ow tb = (case hm_get (locals_tbl tb) k of
      Some prev \<Rightarrow> if pid prev \<noteq> pid ow then tb\<lparr>contested_local := insert k (contested_local tb)\<rparr> else tb
    | None \<Rightarrow> tb\<lparr>locals_tbl := hm_insert k ow (locals_tbl tb)\<rparr>)"

definition add_port :: "port_key \<Rightarrow> owner \<Rightarrow> tables \<Rightarrow> tables" where
  "add_port k ow tb = (case hm_get (ports_tbl tb) k of
      Some prev \<Rightarrow> if pid prev \<noteq> pid ow then tb\<lparr>contested_port := insert k (contested_port tb)\<rparr> else tb
    | None \<Rightarrow> tb\<lparr>ports_tbl := hm_insert k ow (ports_tbl tb)\<rparr>)"

text \<open>\<open>Tables::get\<close>\<close>

definition tables_get :: "tables \<Rightarrow> tuple \<Rightarrow> bool \<Rightarrow> attributed option" where
  "tables_get tb t outbound = (case hm_get (exact tb) t of
      Some ow \<Rightarrow> Some \<lparr>a_owner = ow, a_confidence = Exact\<rparr>
    | None \<Rightarrow>
       if \<not> outbound then None
       else let lk = (t_proto t, t_src t, t_sport t); pk = (t_proto t, t_sport t) in
         (case (if lk \<notin> contested_local tb then hm_get (locals_tbl tb) lk else None) of
            Some ow \<Rightarrow> Some \<lparr>a_owner = ow, a_confidence = Local\<rparr>
          | None \<Rightarrow>
             (case (if pk \<notin> contested_port tb then hm_get (ports_tbl tb) pk else None) of
                Some ow \<Rightarrow> Some \<lparr>a_owner = ow, a_confidence = Port\<rparr>
              | None \<Rightarrow> None)))"

definition exact_entry :: "tuple \<times> owner \<Rightarrow> probe_entry" where
  "exact_entry e = (case e of (t, ow) \<Rightarrow>
     \<lparr>pe_proto = t_proto t, pe_local = t_src t, pe_lport = t_sport t, pe_peer = Some (t_dst t, t_dport t),
      pe_owner = ow, pe_confidence = Exact\<rparr>)"

definition local_entry :: "local_key \<times> owner \<Rightarrow> probe_entry" where
  "local_entry e = (case e of ((pr, ip, p), ow) \<Rightarrow>
     \<lparr>pe_proto = pr, pe_local = ip, pe_lport = p, pe_peer = None, pe_owner = ow, pe_confidence = Local\<rparr>)"

definition port_entry :: "port_key \<times> owner \<Rightarrow> probe_entry" where
  "port_entry e = (case e of ((pr, p), ow) \<Rightarrow>
     \<lparr>pe_proto = pr, pe_local = V4 0 0 0 0, pe_lport = p, pe_peer = None, pe_owner = ow, pe_confidence = Port\<rparr>)"

definition entries :: "tables \<Rightarrow> probe_entry list" where
  "entries tb = map exact_entry (exact tb)
     @ map local_entry (filter (\<lambda>(k, ow). k \<notin> contested_local tb) (locals_tbl tb))
     @ map port_entry (filter (\<lambda>((pr, p), ow). (pr, p) \<notin> contested_port tb
          \<and> \<not> list_ex (\<lambda>((pr', ip, p'), ow'). pr' = pr \<and> p' = p) (locals_tbl tb)) (ports_tbl tb))"

definition tables_len :: "tables \<Rightarrow> nat" where
  "tables_len tb = length (entries tb)"

definition tables_is_empty :: "tables \<Rightarrow> bool" where
  "tables_is_empty tb \<longleftrightarrow> tables_len tb = 0"

section \<open>The walk over the processes\<close>

text \<open>What libprocstat reports: a file of a process, with the socket information if there is any, and
  a process with its executable and its files, \<open>None\<close> where a call fails.\<close>

record kfile =
  fs_type :: int
  fs_sock :: "(int \<times> bytes \<times> bytes) option"

record kproc =
  ki_pid :: int
  ki_comm :: bytes
  ki_path :: "bytes option"
  ki_files :: "kfile list option"
  ki_argv :: "bytes list option"

record procstat =
  ps_open :: bool
  ps_procs :: "kproc list option"

definition endpoint :: "bytes \<Rightarrow> (ip_addr \<times> u16) option" where
  "endpoint sa = (let port = from_be16 (sa ! 2) (sa ! 3) in
     if sa ! 1 = 2 then
       (if port = 0 then None else Some (V4 (sa ! 4) (sa ! 5) (sa ! 6) (sa ! 7), port))
     else if sa ! 1 = 28 then
       (if port = 0 then None else Some (v6_of_octets (take 16 (drop 8 sa)), port))
     else None)"

definition proc_path :: "kproc \<Rightarrow> string" where
  "proc_path p = (let command = from_utf8_lossy (ki_comm p); unknown = ''<unknown:'' @ command @ ''>'' in
     case ki_path p of
       Some b \<Rightarrow> (let s = from_utf8_lossy b in if s = [] then unknown else s)
     | None \<Rightarrow> unknown)"

definition proc_owner :: "kproc \<Rightarrow> owner" where
  "proc_owner p = \<lparr>pid = ki_pid p, command = from_utf8_lossy (ki_comm p), opath = proc_path p\<rparr>"

definition add_socket :: "owner \<Rightarrow> kfile \<Rightarrow> tables \<Rightarrow> tables" where
  "add_socket ow f tb =
     (if fs_type f = uint PS_FST_TYPE_SOCKET then
        (case fs_sock f of
           None \<Rightarrow> tb
         | Some (pr, lsa, psa) \<Rightarrow> (let proto = word_of_int pr in
             case endpoint lsa of
               None \<Rightarrow> tb
             | Some (sa, sp) \<Rightarrow>
                (case endpoint psa of
                   Some (da, dp) \<Rightarrow>
                     tb\<lparr>exact := hm_insert \<lparr>t_proto = proto, t_src = sa, t_sport = sp, t_dst = da, t_dport = dp\<rparr> ow (exact tb)\<rparr>
                 | None \<Rightarrow>
                     if is_unspecified sa then add_port (proto, sp) ow tb
                     else add_port (proto, sp) ow (add_local (proto, sa, sp) ow tb))))
      else tb)"

definition add_proc :: "kproc \<Rightarrow> tables \<Rightarrow> tables" where
  "add_proc p tb = (case ki_files p of
      None \<Rightarrow> tb
    | Some fs \<Rightarrow> fold (add_socket (proc_owner p)) fs tb)"

definition snapshot :: "procstat \<Rightarrow> tables" where
  "snapshot ps = (if \<not> ps_open ps then empty_tables
     else case ps_procs ps of
       None \<Rightarrow> empty_tables
     | Some procs \<Rightarrow> fold add_proc procs empty_tables)"

section \<open>The resolver\<close>

record resolver =
  r_tables :: tables
  last_scan :: "nat option"
  r_ttl :: nat
  missed :: "tuple set"

definition resolver_new :: resolver where
  "resolver_new = \<lparr>r_tables = empty_tables, last_scan = None, r_ttl = 750, missed = {}\<rparr>"

definition rescan :: "procstat \<Rightarrow> nat \<Rightarrow> resolver \<Rightarrow> resolver" where
  "rescan ps now r = r\<lparr>r_tables := snapshot ps, last_scan := Some now, missed := {}\<rparr>"

text \<open>\<open>now\<close> is the clock while the call runs, \<open>ps\<close> the processes at that moment.\<close>

definition resolve :: "procstat \<Rightarrow> nat \<Rightarrow> resolver \<Rightarrow> tuple \<Rightarrow> bool \<Rightarrow> attributed option \<times> resolver" where
  "resolve ps now r t outbound = (case tables_get (r_tables r) t outbound of
      Some a \<Rightarrow> (Some a, r)
    | None \<Rightarrow>
       (let stale = (case last_scan r of None \<Rightarrow> True | Some i \<Rightarrow> r_ttl r < now - i) in
        if stale \<or> t \<notin> missed r then
          (let r' = rescan ps now r in
           case tables_get (r_tables r') t outbound of
             Some a \<Rightarrow> (Some a, r')
           | None \<Rightarrow> (None, r'\<lparr>missed := insert t (missed r')\<rparr>))
        else (None, r\<lparr>missed := insert t (missed r)\<rparr>)))"

definition resolver_owner :: "procstat \<Rightarrow> nat \<Rightarrow> resolver \<Rightarrow> tuple \<Rightarrow> owner option \<times> resolver" where
  "resolver_owner ps now r t = apfst (map_option a_owner) (resolve ps now r t True)"

section \<open>Is a daemon running\<close>

definition MODES :: "string list" where
  "MODES = [''visibility'', ''enforcement'', ''listen'', ''enforce'']"

definition names_daemon :: "bytes list \<Rightarrow> bool" where
  "names_daemon argv = (let words = map from_utf8_lossy (take 8 argv) in
     (case get words 0 of Some a \<Rightarrow> after_last_char (CHR ''/'') a = ''pfsnitch'' | None \<Rightarrow> False)
     \<and> (case get words 1 of Some m \<Rightarrow> m \<in> set MODES | None \<Rightarrow> False))"

definition is_daemon :: "int \<Rightarrow> kproc \<Rightarrow> bool" where
  "is_daemon me p = (if ki_pid p = me then False
     else case ki_argv p of None \<Rightarrow> False | Some argv \<Rightarrow> names_daemon argv)"

definition daemon_running :: "procstat \<Rightarrow> int \<Rightarrow> bool" where
  "daemon_running ps me = (if \<not> ps_open ps then False
     else case ps_procs ps of
       None \<Rightarrow> False
     | Some procs \<Rightarrow> list_ex (is_daemon me) procs)"

section \<open>The sockets behind the tables\<close>

text \<open>An attributable socket: its owner, protocol, local end and peer.\<close>

type_synonym sock = "owner \<times> u8 \<times> (ip_addr \<times> u16) \<times> (ip_addr \<times> u16) option"

definition sock_of :: "owner \<Rightarrow> kfile \<Rightarrow> sock option" where
  "sock_of ow f = (if fs_type f = uint PS_FST_TYPE_SOCKET then
      (case fs_sock f of None \<Rightarrow> None
       | Some (pr, lsa, psa) \<Rightarrow> map_option (\<lambda>l. (ow, word_of_int pr, l, endpoint psa)) (endpoint lsa))
    else None)"

definition proc_socks :: "kproc \<Rightarrow> sock list" where
  "proc_socks p = (case ki_files p of None \<Rightarrow> [] | Some fs \<Rightarrow> List.map_filter (sock_of (proc_owner p)) fs)"

definition socks :: "procstat \<Rightarrow> sock list" where
  "socks ps = (if \<not> ps_open ps then [] else case ps_procs ps of None \<Rightarrow> [] | Some procs \<Rightarrow> concat (map proc_socks procs))"

definition add_sock :: "sock \<Rightarrow> tables \<Rightarrow> tables" where
  "add_sock s tb = (case s of (ow, pr, (sa, sp), peer) \<Rightarrow>
     (case peer of
        Some (da, dp) \<Rightarrow> tb\<lparr>exact := hm_insert \<lparr>t_proto = pr, t_src = sa, t_sport = sp, t_dst = da, t_dport = dp\<rparr> ow (exact tb)\<rparr>
      | None \<Rightarrow> if is_unspecified sa then add_port (pr, sp) ow tb
               else add_port (pr, sp) ow (add_local (pr, sa, sp) ow tb)))"

lemma add_socket_sock: "add_socket ow f tb = (case sock_of ow f of None \<Rightarrow> tb | Some s \<Rightarrow> add_sock s tb)"
  by (auto simp: add_socket_def sock_of_def add_sock_def Let_def split: option.splits)

lemma fold_add_socket: "fold (add_socket ow) fs tb = fold add_sock (List.map_filter (sock_of ow) fs) tb"
  by (induction fs arbitrary: tb) (auto simp: add_socket_sock map_filter_def split: option.splits)

lemma fold_add_proc: "fold add_proc procs tb = fold add_sock (concat (map proc_socks procs)) tb"
  by (induction procs arbitrary: tb)
    (auto simp: add_proc_def proc_socks_def fold_add_socket split: option.splits)

lemma snapshot_socks: "snapshot ps = fold add_sock (socks ps) empty_tables"
  by (auto simp: snapshot_def socks_def fold_add_proc split: option.splits)

text \<open>
  The contract of a weak tier.  A tier holds for each key the first process that claimed it, and the
  keys that another process claimed too; an operation \<open>add\<close> records one claim.  So a key that is
  present and not contested has been claimed by one process only.
\<close>

locale weak_tier =
  fixes table :: "tables \<Rightarrow> ('k, owner) hashmap"
    and contested :: "tables \<Rightarrow> 'k set"
    and add :: "'k \<Rightarrow> owner \<Rightarrow> tables \<Rightarrow> tables"
  assumes add_new: "hm_get (table tb) k = None \<Longrightarrow>
      table (add k ow tb) = hm_insert k ow (table tb) \<and> contested (add k ow tb) = contested tb"
    and add_same: "hm_get (table tb) k = Some prev \<Longrightarrow> pid prev = pid ow \<Longrightarrow>
      table (add k ow tb) = table tb \<and> contested (add k ow tb) = contested tb"
    and add_other: "hm_get (table tb) k = Some prev \<Longrightarrow> pid prev \<noteq> pid ow \<Longrightarrow>
      table (add k ow tb) = table tb \<and> contested (add k ow tb) = insert k (contested tb)"
begin

definition claims_ok :: "('k \<times> owner) set \<Rightarrow> tables \<Rightarrow> bool" where
  "claims_ok C tb \<longleftrightarrow> (\<forall>k ow. (k, ow) \<in> C \<longrightarrow> hm_get (table tb) k \<noteq> None)
     \<and> (\<forall>k. k \<in> contested tb \<longrightarrow> hm_get (table tb) k \<noteq> None)
     \<and> (\<forall>k ow. hm_get (table tb) k = Some ow \<longrightarrow> (k, ow) \<in> C)
     \<and> (\<forall>k ow. hm_get (table tb) k = Some ow \<longrightarrow> (k \<in> contested tb \<longleftrightarrow> (\<exists>ow'. (k, ow') \<in> C \<and> pid ow' \<noteq> pid ow)))"

lemma claims_add:
  assumes "claims_ok C tb"
  shows "claims_ok (insert (k, ow) C) (add k ow tb)"
proof (cases "hm_get (table tb) k")
  case None
  then have "(k, ow') \<notin> C" for ow' using assms unfolding claims_ok_def by blast
  moreover have "k \<notin> contested tb" using None assms unfolding claims_ok_def by blast
  ultimately show ?thesis
    using assms add_new [OF None, of ow] unfolding claims_ok_def by auto
next
  case (Some prev)
  show ?thesis
  proof (cases "pid prev = pid ow")
    case True
    show ?thesis using assms Some True add_same [OF Some True] unfolding claims_ok_def by auto
  next
    case False
    note c = assms [unfolded claims_ok_def]
    have t: "table (add k ow tb) = table tb" "contested (add k ow tb) = insert k (contested tb)"
      using add_other [OF Some False] by simp_all
    have "k' \<in> insert k (contested tb) \<longleftrightarrow> (\<exists>ow'. (k', ow') \<in> insert (k, ow) C \<and> pid ow' \<noteq> pid ow0)"
      if "hm_get (table tb) k' = Some ow0" for k' ow0
    proof (cases "k' = k")
      case True
      then show ?thesis using that Some False by auto
    next
      case False
      then show ?thesis using c that by blast
    qed
    then show ?thesis using c Some unfolding claims_ok_def t by blast
  qed
qed

lemma claims_frame: "claims_ok C tb \<Longrightarrow> table tb' = table tb \<Longrightarrow> contested tb' = contested tb \<Longrightarrow> claims_ok C tb'"
  unfolding claims_ok_def by auto

lemma uncontested_unique:
  assumes "claims_ok C tb" "hm_get (table tb) k = Some ow" "k \<notin> contested tb"
  shows "(k, ow) \<in> C" and "(k, ow') \<in> C \<Longrightarrow> pid ow' = pid ow"
  using assms unfolding claims_ok_def by blast+

lemma refused:
  assumes "claims_ok C tb"
  shows "(hm_get (table tb) k = None \<or> k \<in> contested tb) \<longleftrightarrow>
    (\<forall>ow. (k, ow) \<notin> C) \<or> (\<exists>ow ow'. (k, ow) \<in> C \<and> (k, ow') \<in> C \<and> pid ow \<noteq> pid ow')"
proof (cases "hm_get (table tb) k")
  case None
  then show ?thesis using assms unfolding claims_ok_def by blast
next
  case (Some ow)
  then have "(k, ow) \<in> C" "k \<in> contested tb \<longleftrightarrow> (\<exists>ow'. (k, ow') \<in> C \<and> pid ow' \<noteq> pid ow)"
    using assms unfolding claims_ok_def by blast+
  then show ?thesis using Some by (metis option.distinct(1))
qed

end

interpretation lt: weak_tier locals_tbl contested_local add_local
  by unfold_locales (auto simp: add_local_def)

interpretation pt: weak_tier ports_tbl contested_port add_port
  by unfold_locales (auto simp: add_port_def)

lemma tier_frames:
  "ports_tbl (add_local k ow tb) = ports_tbl tb" "contested_port (add_local k ow tb) = contested_port tb"
  "exact (add_local k ow tb) = exact tb"
  "locals_tbl (add_port k' ow tb) = locals_tbl tb" "contested_local (add_port k' ow tb) = contested_local tb"
  "exact (add_port k' ow tb) = exact tb"
  by (simp_all add: add_local_def add_port_def split: option.splits)

text \<open>The claims of a list of sockets.\<close>

definition local_claims :: "sock list \<Rightarrow> (local_key \<times> owner) set" where
  "local_claims ss = {((pr, sa, sp), ow) | pr sa sp ow. (ow, pr, (sa, sp), None) \<in> set ss \<and> \<not> is_unspecified sa}"

definition port_claims :: "sock list \<Rightarrow> (port_key \<times> owner) set" where
  "port_claims ss = {((pr, sp), ow) | pr sp ow. \<exists>sa. (ow, pr, (sa, sp), None) \<in> set ss}"

definition tuple_sock :: "tuple \<Rightarrow> owner \<Rightarrow> sock" where
  "tuple_sock t ow = (ow, t_proto t, (t_src t, t_sport t), Some (t_dst t, t_dport t))"

definition exact_ok :: "sock list \<Rightarrow> tables \<Rightarrow> bool" where
  "exact_ok ss tb \<longleftrightarrow> (\<forall>t ow. hm_get (exact tb) t = Some ow \<longrightarrow> tuple_sock t ow \<in> set ss)
     \<and> (\<forall>t ow. tuple_sock t ow \<in> set ss \<longrightarrow> hm_get (exact tb) t \<noteq> None)"

lemma tuple_sock_eq: "tuple_sock t ow' = (ow, pr, (sa, sp), Some (da, dp)) \<longleftrightarrow>
    ow' = ow \<and> t = \<lparr>t_proto = pr, t_src = sa, t_sport = sp, t_dst = da, t_dport = dp\<rparr>"
  by (cases t) (auto simp: tuple_sock_def)

lemma tuple_sock_None: "tuple_sock t ow' \<noteq> (ow, pr, l, None)"
  by (simp add: tuple_sock_def)

definition tables_ok :: "sock list \<Rightarrow> tables \<Rightarrow> bool" where
  "tables_ok ss tb \<longleftrightarrow> lt.claims_ok (local_claims ss) tb \<and> pt.claims_ok (port_claims ss) tb \<and> exact_ok ss tb"

lemma tables_ok_empty: "tables_ok [] empty_tables"
  by (simp add: tables_ok_def lt.claims_ok_def pt.claims_ok_def exact_ok_def local_claims_def port_claims_def empty_tables_def)

lemma exact_ok_frame: "exact_ok ss tb \<Longrightarrow> exact tb' = exact tb \<Longrightarrow> exact_ok ((ow, pr, l, None) # ss) tb'"
  by (simp add: exact_ok_def tuple_sock_None)

lemma exact_ok_insert:
  "exact_ok ss tb \<Longrightarrow> exact tb' = hm_insert \<lparr>t_proto = pr, t_src = sa, t_sport = sp, t_dst = da, t_dport = dp\<rparr> ow (exact tb)
    \<Longrightarrow> exact_ok ((ow, pr, (sa, sp), Some (da, dp)) # ss) tb'"
  by (auto simp: exact_ok_def tuple_sock_eq)

lemma claims_Cons:
  "local_claims ((ow, pr, (sa, sp), Some q) # ss) = local_claims ss"
  "port_claims ((ow, pr, (sa, sp), Some q) # ss) = port_claims ss"
  "local_claims ((ow, pr, (sa, sp), None) # ss)
     = (if is_unspecified sa then local_claims ss else insert ((pr, sa, sp), ow) (local_claims ss))"
  "port_claims ((ow, pr, (sa, sp), None) # ss) = insert ((pr, sp), ow) (port_claims ss)"
  by (auto simp: local_claims_def port_claims_def)

lemma add_sock_ok:
  assumes "tables_ok ss tb"
  shows "tables_ok (s # ss) (add_sock s tb)"
proof -
  obtain ow pr sa sp peer where s: "s = (ow, pr, (sa, sp), peer)" by (metis prod.collapse)
  have ok: "lt.claims_ok (local_claims ss) tb" "pt.claims_ok (port_claims ss) tb" "exact_ok ss tb"
    using assms by (auto simp: tables_ok_def)
  show ?thesis
  proof (cases peer)
    case None
    have p: "pt.claims_ok (port_claims ss) (add_local k ow tb)" for k
      by (rule pt.claims_frame [OF ok(2)]) (simp_all add: tier_frames)
    have l: "lt.claims_ok C (add_port k ow tb')" if "lt.claims_ok C tb'" for C k tb'
      by (rule lt.claims_frame [OF that]) (simp_all add: tier_frames)
    show ?thesis
      using l [OF ok(1)] l [OF lt.claims_add [OF ok(1)]] pt.claims_add [OF p] pt.claims_add [OF ok(2)] exact_ok_frame [OF ok(3)]
      by (simp add: s None add_sock_def tables_ok_def claims_Cons tier_frames)
  next
    case (Some q)
    obtain da dp where q: "q = (da, dp)" by fastforce
    show ?thesis
      using lt.claims_frame [OF ok(1)] pt.claims_frame [OF ok(2)] exact_ok_insert [OF ok(3)]
      by (simp add: s Some q add_sock_def tables_ok_def claims_Cons)
  qed
qed

lemma tables_ok_set: "set ss = set ss' \<Longrightarrow> tables_ok ss tb = tables_ok ss' tb"
proof -
  assume eq: "set ss = set ss'"
  have "local_claims ss = local_claims ss'" "port_claims ss = port_claims ss'" "exact_ok ss tb = exact_ok ss' tb"
    unfolding local_claims_def port_claims_def exact_ok_def eq by (rule refl)+
  then show ?thesis by (simp only: tables_ok_def)
qed

lemma fold_sock_ok: "tables_ok ss tb \<Longrightarrow> tables_ok (rev xs @ ss) (fold add_sock xs tb)"
  by (induction xs arbitrary: ss tb) (auto dest: add_sock_ok)

lemma snapshot_ok: "tables_ok (socks ps) (snapshot ps)"
  using fold_sock_ok [OF tables_ok_empty, of "socks ps"] tables_ok_set [of "rev (socks ps) @ []" "socks ps"]
  by (simp add: snapshot_socks)

lemma snapshot_claims:
  "lt.claims_ok (local_claims (socks ps)) (snapshot ps)" "pt.claims_ok (port_claims (socks ps)) (snapshot ps)"
  "exact_ok (socks ps) (snapshot ps)"
  using snapshot_ok [of ps] by (simp_all add: tables_ok_def)

text \<open>Every table has one entry per key.\<close>

definition tables_wf :: "tables \<Rightarrow> bool" where
  "tables_wf tb \<longleftrightarrow> hm_wf (exact tb) \<and> hm_wf (locals_tbl tb) \<and> hm_wf (ports_tbl tb)"

lemma add_sock_wf: "tables_wf tb \<Longrightarrow> tables_wf (add_sock s tb)"
  by (auto simp: tables_wf_def add_sock_def add_local_def add_port_def split: prod.splits option.splits)

lemma fold_sock_wf: "tables_wf tb \<Longrightarrow> tables_wf (fold add_sock ss tb)"
  by (induction ss arbitrary: tb) (simp_all add: add_sock_wf)

lemma snapshot_wf: "tables_wf (snapshot ps)"
  unfolding snapshot_socks by (rule fold_sock_wf) (simp add: tables_wf_def empty_tables_def)

lemma hm_wf_get: "hm_wf m \<Longrightarrow> (k, v) \<in> set m \<Longrightarrow> hm_get m k = Some v"
  by (simp add: hm_wf_def)

lemma tables_get_cases:
  assumes "tables_get tb t out = Some a"
  obtains (exact) "hm_get (exact tb) t = Some (a_owner a)" "a_confidence a = Exact"
  | (local) "out" "hm_get (exact tb) t = None" "hm_get (locals_tbl tb) (t_proto t, t_src t, t_sport t) = Some (a_owner a)"
      "(t_proto t, t_src t, t_sport t) \<notin> contested_local tb" "a_confidence a = Local"
  | (port) "out" "hm_get (exact tb) t = None" "hm_get (ports_tbl tb) (t_proto t, t_sport t) = Some (a_owner a)"
      "(t_proto t, t_sport t) \<notin> contested_port tb" "a_confidence a = Port"
  using assms by (auto simp: tables_get_def Let_def split: option.splits if_splits)

lemma rescan_tables: "r_tables (rescan ps now r) = snapshot ps"
  by (simp add: rescan_def)

lemma tables_get_empty: "tables_get empty_tables t out = None"
  by (simp add: tables_get_def empty_tables_def)

section \<open>Properties\<close>

definition demo_sa :: "u8 \<Rightarrow> u8 \<Rightarrow> bytes" where
  "demo_sa a p = [16, 2, 0, p, a, 0, 0, a] @ replicate 120 0"

definition demo_proc :: "int \<Rightarrow> u8 \<Rightarrow> u8 \<Rightarrow> kproc" where
  "demo_proc n a p = \<lparr>ki_pid = n, ki_comm = [97], ki_path = Some [47, 97],
     ki_files = Some [\<lparr>fs_type = 3, fs_sock = Some (17, demo_sa a p, replicate 128 0)\<rparr>], ki_argv = None\<rparr>"

definition demo_ps :: procstat where
  "demo_ps = \<lparr>ps_open = True, ps_procs = Some [demo_proc 7 10 123, demo_proc 8 10 53, demo_proc 9 10 53]\<rparr>"

definition demo_flow :: "u16 \<Rightarrow> tuple" where
  "demo_flow p = \<lparr>t_proto = 17, t_src = V4 10 0 0 10, t_sport = p, t_dst = V4 1 1 1 1, t_dport = 123\<rparr>"

text \<open>C25: an attribution of a weak tier is unanimous: when the tables of a process walk name a
  process by local address and port, or by port alone, every unconnected socket of the walk that has
  this key belongs to that process, and there is one; a contested key is never answered.\<close>

theorem weak_attribution_unanimous:
  assumes "tables_get (snapshot ps) t out = Some a" and "a_confidence a \<noteq> Exact"
  shows "out
    \<and> (\<exists>sa. (a_owner a, t_proto t, (sa, t_sport t), None) \<in> set (socks ps) \<and> (a_confidence a = Local \<longrightarrow> sa = t_src t))
    \<and> (\<forall>ow sa. (ow, t_proto t, (sa, t_sport t), None) \<in> set (socks ps)
         \<and> (a_confidence a = Local \<longrightarrow> sa = t_src t \<and> \<not> is_unspecified sa) \<longrightarrow> pid ow = pid (a_owner a))"
  using assms(1)
proof (cases rule: tables_get_cases)
  case exact
  then show ?thesis using assms(2) by simp
next
  case local
  note u = lt.uncontested_unique [OF snapshot_claims(1) local(3,4)]
  have "(a_owner a, t_proto t, (t_src t, t_sport t), None) \<in> set (socks ps)"
    using u(1) by (simp add: local_claims_def)
  moreover have "pid ow = pid (a_owner a)"
    if "(ow, t_proto t, (t_src t, t_sport t), None) \<in> set (socks ps)" "\<not> is_unspecified (t_src t)" for ow
    by (rule u(2)) (simp add: local_claims_def that)
  ultimately show ?thesis using local(1,5) by blast
next
  case port
  note u = pt.uncontested_unique [OF snapshot_claims(2) port(3,4)]
  have "\<exists>sa. (a_owner a, t_proto t, (sa, t_sport t), None) \<in> set (socks ps)"
    using u(1) by (simp add: port_claims_def)
  moreover have "pid ow = pid (a_owner a)" if "(ow, t_proto t, (sa, t_sport t), None) \<in> set (socks ps)" for ow sa
    by (rule u(2)) (use that in \<open>auto simp: port_claims_def\<close>)
  ultimately show ?thesis using port(1,5) by auto
qed

theorem weak_attribution_unanimous_witness:
  "pid (a_owner (the (tables_get (snapshot demo_ps) (demo_flow 123) True))) = 7
   \<and> (\<exists>sa. (a_owner (the (tables_get (snapshot demo_ps) (demo_flow 123) True)), 17, (sa, 123), None) \<in> set (socks demo_ps))"
proof -
  obtain a where a: "tables_get (snapshot demo_ps) (demo_flow 123) True = Some a" "a_confidence a = Local" "pid (a_owner a) = 7"
  proof -
    have "map_option (\<lambda>a. (a_confidence a, pid (a_owner a))) (tables_get (snapshot demo_ps) (demo_flow 123) True) = Some (Local, 7)"
      by code_simp
    then show ?thesis using that by auto
  qed
  have "t_proto (demo_flow 123) = 17" "t_sport (demo_flow 123) = 123" by (simp_all add: demo_flow_def)
  moreover obtain sa where "(a_owner a, t_proto (demo_flow 123), (sa, t_sport (demo_flow 123)), None) \<in> set (socks demo_ps)"
    using weak_attribution_unanimous [OF a(1)] a(2) by (metis confidence.distinct(7))
  ultimately show ?thesis unfolding a(1) option.sel using a(3) by metis
qed

text \<open>C35: the strongest tier decides first and is the only one for inbound packets: a flow that a
  connected socket of the walk has is attributed exactly, to a process that holds such a socket; an
  inbound packet is attributed exactly or not at all; an outbound flow of no connected socket gets no
  answer exactly when nobody, or more than one process, claims each of its weak keys.\<close>

theorem attribution_complete:
  "(tuple_sock t ow \<in> set (socks ps) \<longrightarrow>
      (\<exists>a. tables_get (snapshot ps) t out = Some a \<and> a_confidence a = Exact \<and> tuple_sock t (a_owner a) \<in> set (socks ps)))
   \<and> (tables_get (snapshot ps) t False = Some b \<longrightarrow> a_confidence b = Exact)
   \<and> ((\<forall>ow. tuple_sock t ow \<notin> set (socks ps)) \<longrightarrow>
      (tables_get (snapshot ps) t True = None \<longleftrightarrow>
         (let L = {ow. ((t_proto t, t_src t, t_sport t), ow) \<in> local_claims (socks ps)};
              P = {ow. ((t_proto t, t_sport t), ow) \<in> port_claims (socks ps)} in
          (L = {} \<or> (\<exists>x \<in> L. \<exists>y \<in> L. pid x \<noteq> pid y)) \<and> (P = {} \<or> (\<exists>x \<in> P. \<exists>y \<in> P. pid x \<noteq> pid y)))))"
proof (intro conjI impI)
  assume "tuple_sock t ow \<in> set (socks ps)"
  then obtain ow' where g: "hm_get (exact (snapshot ps)) t = Some ow'"
    using snapshot_claims(3) [of ps] unfolding exact_ok_def by blast
  then have "tuple_sock t ow' \<in> set (socks ps)" using snapshot_claims(3) [of ps] unfolding exact_ok_def by blast
  then show "\<exists>a. tables_get (snapshot ps) t out = Some a \<and> a_confidence a = Exact \<and> tuple_sock t (a_owner a) \<in> set (socks ps)"
    using g by (simp add: tables_get_def)
next
  assume "tables_get (snapshot ps) t False = Some b"
  then show "a_confidence b = Exact" by (cases rule: tables_get_cases) auto
next
  assume none: "\<forall>ow. tuple_sock t ow \<notin> set (socks ps)"
  have e: "hm_get (exact (snapshot ps)) t = None"
    using none snapshot_claims(3) [of ps] unfolding exact_ok_def by (metis option.exhaust)
  note r = lt.refused [OF snapshot_claims(1), of ps "(t_proto t, t_src t, t_sport t)"]
    pt.refused [OF snapshot_claims(2), of ps "(t_proto t, t_sport t)"]
  have "tables_get (snapshot ps) t True = None \<longleftrightarrow>
      (hm_get (locals_tbl (snapshot ps)) (t_proto t, t_src t, t_sport t) = None \<or> (t_proto t, t_src t, t_sport t) \<in> contested_local (snapshot ps))
      \<and> (hm_get (ports_tbl (snapshot ps)) (t_proto t, t_sport t) = None \<or> (t_proto t, t_sport t) \<in> contested_port (snapshot ps))"
    by (auto simp: tables_get_def e Let_def split: option.splits)
  then show "tables_get (snapshot ps) t True = None \<longleftrightarrow>
         (let L = {ow. ((t_proto t, t_src t, t_sport t), ow) \<in> local_claims (socks ps)};
              P = {ow. ((t_proto t, t_sport t), ow) \<in> port_claims (socks ps)} in
          (L = {} \<or> (\<exists>x \<in> L. \<exists>y \<in> L. pid x \<noteq> pid y)) \<and> (P = {} \<or> (\<exists>x \<in> P. \<exists>y \<in> P. pid x \<noteq> pid y)))"
    unfolding r Let_def by blast
qed

lemma demo_contested: "tables_get (snapshot demo_ps) (demo_flow 53) True = None"
  by code_simp

theorem attribution_complete_witness:
  "(\<forall>ow. tuple_sock (demo_flow 53) ow \<notin> set (socks demo_ps)) \<and>
   (let P = {ow. ((17, 53), ow) \<in> port_claims (socks demo_ps)} in P = {} \<or> (\<exists>x \<in> P. \<exists>y \<in> P. pid x \<noteq> pid y))"
proof -
  have "list_all (\<lambda>(ow, pr, l, p). p = None) (socks demo_ps)" by code_simp
  then have n: "\<forall>ow. tuple_sock (demo_flow 53) ow \<notin> set (socks demo_ps)"
    by (auto simp: tuple_sock_def list_all_iff)
  have "t_proto (demo_flow 53) = 17" "t_sport (demo_flow 53) = 53" by (simp_all add: demo_flow_def)
  then show ?thesis
    using attribution_complete [of "demo_flow 53" undefined demo_ps True undefined] n demo_contested by (auto simp: Let_def)
qed

text \<open>The probe lists what the lookup says: every row of \<open>entries\<close> is what \<open>get\<close> answers for an
  outbound flow with the row's protocol and local end that no stronger tier claims.\<close>

theorem entries_agree_with_get:
  assumes "e \<in> set (entries (snapshot ps))"
    and "t_proto t = pe_proto e" and "t_sport t = pe_lport e"
    and "pe_confidence e = Port \<or> t_src t = pe_local e"
    and "case pe_peer e of Some (d, p) \<Rightarrow> t_dst t = d \<and> t_dport t = p | None \<Rightarrow> hm_get (exact (snapshot ps)) t = None"
  shows "tables_get (snapshot ps) t True = Some \<lparr>a_owner = pe_owner e, a_confidence = pe_confidence e\<rparr>"
proof -
  let ?tb = "snapshot ps"
  have wf: "hm_wf (exact ?tb)" "hm_wf (locals_tbl ?tb)" "hm_wf (ports_tbl ?tb)" using snapshot_wf by (simp_all add: tables_wf_def)
  from assms(1) consider
      (ex) x where "x \<in> set (exact ?tb)" "e = exact_entry x"
    | (lo) x where "x \<in> set (locals_tbl ?tb)" "fst x \<notin> contested_local ?tb" "e = local_entry x"
    | (po) x where "x \<in> set (ports_tbl ?tb)" "fst x \<notin> contested_port ?tb" "e = port_entry x"
        "\<not> list_ex (\<lambda>((pr', ip, p'), ow'). pr' = fst (fst x) \<and> p' = snd (fst x)) (locals_tbl ?tb)"
    unfolding entries_def by (auto split: prod.splits)
  then show ?thesis
  proof cases
    case ex
    obtain t' ow where x: "x = (t', ow)" by fastforce
    have "t = t'" using assms ex x by (cases t; cases t') (simp add: exact_entry_def)
    then show ?thesis using hm_wf_get [OF wf(1)] ex x by (simp add: tables_get_def exact_entry_def)
  next
    case lo
    obtain pr ip p ow where x: "x = ((pr, ip, p), ow)" by (metis prod.collapse)
    then show ?thesis
      using assms lo hm_wf_get [OF wf(2), of "(pr, ip, p)" ow] by (simp add: tables_get_def local_entry_def Let_def)
  next
    case po
    obtain pr p ow where x: "x = ((pr, p), ow)" by (metis prod.collapse)
    have "hm_get (locals_tbl ?tb) (pr, ip, p) = None" for ip
      using po(4) x by (auto simp: list_ex_iff map_of_eq_None_iff)
    then show ?thesis
      using assms po x hm_wf_get [OF wf(3), of "(pr, p)" ow] by (simp add: tables_get_def port_entry_def Let_def)
  qed
qed

theorem entries_agree_with_get_witness:
  "tables_get (snapshot demo_ps) (demo_flow 123) True
     = Some \<lparr>a_owner = proc_owner (demo_proc 7 10 123), a_confidence = Local\<rparr>"
proof -
  let ?e = "\<lparr>pe_proto = 17, pe_local = V4 10 0 0 10, pe_lport = 123, pe_peer = None,
    pe_owner = proc_owner (demo_proc 7 10 123), pe_confidence = Local\<rparr>"
  have "?e \<in> set (entries (snapshot demo_ps))" by code_simp
  moreover have "hm_get (exact (snapshot demo_ps)) (demo_flow 123) = None" by code_simp
  ultimately show ?thesis
    using entries_agree_with_get [of ?e demo_ps "demo_flow 123"] by (simp add: demo_flow_def)
qed

text \<open>A flow that cannot be attributed costs one process walk per lifetime of the tables: after
  a miss, asking again within 750 ms gives the same answer and changes nothing, so no packet of the
  flow walks the processes again; and what is resolved was in the tables or is in a fresh walk.\<close>

theorem resolver_miss_is_remembered:
  assumes "r_ttl r = 750" and "resolve ps now r t out = (res, r')"
  shows "(res = None \<longrightarrow> (\<forall>ps' later. (case last_scan r' of Some i \<Rightarrow> later - i \<le> 750 | None \<Rightarrow> False) \<longrightarrow>
            resolve ps' later r' t out = (None, r')))
    \<and> (case res of Some a \<Rightarrow> tables_get (r_tables r) t out = Some a
          \<or> tables_get (snapshot ps) t out = Some a \<and> last_scan r' = Some now
        | None \<Rightarrow> tables_get (r_tables r') t out = None \<and> t \<in> missed r')
    \<and> r_ttl r' = 750"
proof (cases "tables_get (r_tables r) t out")
  case (Some a)
  then have "res = Some a" "r' = r" using assms(2) by (simp_all add: resolve_def)
  then show ?thesis using Some assms(1) by simp
next
  case None
  let ?stale = "case last_scan r of None \<Rightarrow> True | Some i \<Rightarrow> r_ttl r < now - i"
  show ?thesis
  proof (cases "?stale \<or> t \<notin> missed r")
    case True
    then have "resolve ps now r t out = (case tables_get (snapshot ps) t out of Some a \<Rightarrow> (Some a, rescan ps now r)
        | None \<Rightarrow> (None, (rescan ps now r)\<lparr>missed := insert t (missed (rescan ps now r))\<rparr>))"
      using None by (simp add: resolve_def Let_def rescan_tables)
    then show ?thesis
      using assms by (cases "tables_get (snapshot ps) t out") (auto simp: rescan_def, auto simp: resolve_def Let_def)
  next
    case False
    then have "res = None" "r' = r\<lparr>missed := insert t (missed r)\<rparr>"
      using assms(2) None by (simp_all add: resolve_def Let_def)
    then show ?thesis
      using assms(1) None by (auto simp: resolve_def Let_def split: option.splits)
  qed
qed

theorem resolver_miss_is_remembered_witness:
  "let r = snd (resolve demo_ps 1000 resolver_new (demo_flow 53) True)
   in resolve demo_ps 1700 r (demo_flow 53) True = (None, r)"
proof -
  let ?q = "resolve demo_ps 1000 resolver_new (demo_flow 53) True"
  have g: "fst ?q = None" "last_scan (snd ?q) = Some 1000"
    using demo_contested tables_get_empty by (simp_all add: resolve_def resolver_new_def Let_def rescan_def)
  have "r_ttl resolver_new = 750" by (simp add: resolver_new_def)
  moreover obtain r where "?q = (None, r)" "last_scan r = Some 1000" using g by (metis prod.collapse)
  ultimately show ?thesis
    using resolver_miss_is_remembered [of resolver_new demo_ps 1000 "demo_flow 53" True None r] by (simp add: Let_def)
qed

text \<open>When two processes share a connected socket (after a fork), the exact tier names the last one.\<close>

lemma exact_tier_last_wins:
  "tables_get (add_sock (tuple_sock t ow2) (add_sock (tuple_sock t ow1) tb)) t out
     = Some \<lparr>a_owner = ow2, a_confidence = Exact\<rparr>"
  by (cases t) (simp add: tables_get_def add_sock_def tuple_sock_def)

end
