(* ===== verification/Identity.thy ===== *)
theory Identity
  imports Policy_File
begin

text \<open>
  Is a binary still the one that was approved (\<open>src/identity.rs\<close>): the content hash of a binary, and
  the cache that avoids computing it again while the modification time and the size stay the same.

  What the system reports is an argument: the result of \<open>metadata\<close>, and the exit status and output
  of \<open>/sbin/sha256 -q\<close>.
\<close>

section \<open>State and operation\<close>

text \<open>\<open>st_mtime\<close> is \<open>None\<close> where \<open>modified\<close> fails or lies before the epoch.\<close>

record file_stat =
  st_size :: u64
  st_mtime :: "u64 option"

record proc_output =
  po_success :: bool
  po_stdout :: bytes

record identity =
  id_cache :: "(string, u64 \<times> u64 \<times> string) hashmap"

definition identity_new :: identity where
  "identity_new = \<lparr>id_cache = []\<rparr>"

definition id_put :: "string \<Rightarrow> u64 \<times> u64 \<times> string \<Rightarrow> (string, u64 \<times> u64 \<times> string) hashmap \<Rightarrow> (string, u64 \<times> u64 \<times> string) hashmap" where
  "id_put path e m = hm_insert path e (if 2048 < hm_len m then [] else m)"

text \<open>The hash that \<open>sha256\<close> printed.\<close>

definition sha_output :: "proc_output option \<Rightarrow> string option" where
  "sha_output out = (case out of
      None \<Rightarrow> None
    | Some o' \<Rightarrow>
       (if \<not> po_success o' then None
        else let h = trim (from_utf8_lossy (po_stdout o')) in if h = [] then None else Some h))"

definition identity_hash :: "file_stat option \<Rightarrow> proc_output option \<Rightarrow> string \<Rightarrow> identity \<Rightarrow> string option \<times> identity" where
  "identity_hash md out path i = (case md of
      None \<Rightarrow> (None, i)
    | Some st \<Rightarrow> (case st_mtime st of
        None \<Rightarrow> (None, i)
      | Some mtime \<Rightarrow>
         (case (case hm_get (id_cache i) path of
                  Some (m, s, h) \<Rightarrow> if m = mtime \<and> s = st_size st then Some h else None
                | None \<Rightarrow> None) of
            Some h \<Rightarrow> (Some h, i)
          | None \<Rightarrow> (case sha_output out of
              None \<Rightarrow> (None, i)
            | Some h \<Rightarrow> (Some h, i\<lparr>id_cache := id_put path (mtime, st_size st, h) (id_cache i)\<rparr>)))))"

interpretation idc: bounded_map 2048 id_put
  by unfold_locales (rule id_put_def)

section \<open>The cache is transparent\<close>

text \<open>The hash without a cache.\<close>

definition hash_now :: "file_stat option \<Rightarrow> proc_output option \<Rightarrow> string option" where
  "hash_now md out = (case md of None \<Rightarrow> None | Some st \<Rightarrow> (case st_mtime st of None \<Rightarrow> None | Some _ \<Rightarrow> sha_output out))"

text \<open>A sequence of calls, each with what the system reported at the time.\<close>

type_synonym hash_call = "string \<times> file_stat option \<times> proc_output option"

fun hash_calls :: "hash_call list \<Rightarrow> identity \<Rightarrow> string option list \<times> identity" where
  "hash_calls [] i = ([], i)"
| "hash_calls ((path, md, out) # cs) i = (case identity_hash md out path i of
     (r, i') \<Rightarrow> (case hash_calls cs i' of (rs, i'') \<Rightarrow> (r # rs, i'')))"

text \<open>\<open>H path mtime size\<close> is the hash of the file that is at \<open>path\<close> with that time and size.\<close>

definition call_ok :: "(string \<Rightarrow> u64 \<Rightarrow> u64 \<Rightarrow> string option) \<Rightarrow> hash_call \<Rightarrow> bool" where
  "call_ok H c = (case c of (path, md, out) \<Rightarrow> (case md of
      None \<Rightarrow> True
    | Some st \<Rightarrow> (case st_mtime st of None \<Rightarrow> True | Some m \<Rightarrow> sha_output out = H path m (st_size st))))"

definition hashes_ok :: "(string \<Rightarrow> u64 \<Rightarrow> u64 \<Rightarrow> string option) \<Rightarrow> identity \<Rightarrow> bool" where
  "hashes_ok H i \<longleftrightarrow> hm_len (id_cache i) \<le> 2049
     \<and> (\<forall>path m s h. hm_get (id_cache i) path = Some (m, s, h) \<longrightarrow> H path m s = Some h)"

lemma hashes_ok_new: "hashes_ok H identity_new"
  by (simp add: hashes_ok_def identity_new_def)

lemma hashes_ok_put:
  assumes "hashes_ok H i" "H path m s = Some h"
  shows "hashes_ok H (i\<lparr>id_cache := id_put path (m, s, h) (id_cache i)\<rparr>)"
  using assms idc.put_len [of "id_cache i" path "(m, s, h)"] unfolding hashes_ok_def
  by (auto simp: id_put_def split: if_splits)

lemma identity_hash_ok:
  assumes "hashes_ok H i" "call_ok H (path, md, out)"
  shows "fst (identity_hash md out path i) = hash_now md out \<and> hashes_ok H (snd (identity_hash md out path i))"
proof (cases "md = None \<or> st_mtime (the md) = None")
  case True
  then show ?thesis using assms(1) by (auto simp: identity_hash_def hash_now_def split: option.splits)
next
  case False
  then obtain st m where md: "md = Some st" "st_mtime st = Some m" by auto
  have H: "sha_output out = H path m (st_size st)" using assms(2) md by (simp add: call_ok_def)
  show ?thesis
  proof (cases "\<exists>h. hm_get (id_cache i) path = Some (m, st_size st, h)")
    case True
    then obtain h where h: "hm_get (id_cache i) path = Some (m, st_size st, h)" by blast
    then have "H path m (st_size st) = Some h" using assms(1) by (simp add: hashes_ok_def)
    then show ?thesis using h md H assms(1) by (simp add: identity_hash_def hash_now_def)
  next
    case False
    then have "(case hm_get (id_cache i) path of Some (m', s, h) \<Rightarrow> if m' = m \<and> s = st_size st then Some h else None
       | None \<Rightarrow> None) = None"
      by (auto split: option.splits)
    then show ?thesis using md H assms(1) hashes_ok_put [OF assms(1)]
      by (auto simp: identity_hash_def hash_now_def split: option.split)
  qed
qed

text \<open>C40: caching hashes is transparent: as long as the modification time and the size of a path
  determine its contents, any sequence of calls from the fresh state answers what hashing every time
  would answer, and the cache never holds more than 2049 entries.\<close>

theorem hash_cache_transparent:
  assumes "\<forall>c \<in> set cs. call_ok H c"
  shows "fst (hash_calls cs identity_new) = map (\<lambda>(path, md, out). hash_now md out) cs
    \<and> hm_len (id_cache (snd (hash_calls cs identity_new))) \<le> 2049"
proof -
  have "fst (hash_calls cs i) = map (\<lambda>(path, md, out). hash_now md out) cs \<and> hashes_ok H (snd (hash_calls cs i))"
    if "hashes_ok H i" for i
    using assms that
  proof (induction cs arbitrary: i)
    case (Cons c cs)
    obtain path md out where c: "c = (path, md, out)" by (cases c) auto
    have one: "fst (identity_hash md out path i) = hash_now md out \<and> hashes_ok H (snd (identity_hash md out path i))"
      using identity_hash_ok [OF Cons.prems(2)] Cons.prems(1) c by simp
    then show ?case
      using Cons.IH [of "snd (identity_hash md out path i)"] Cons.prems(1) c
      by (auto split: prod.split)
  qed simp
  from this [OF hashes_ok_new] show ?thesis unfolding hashes_ok_def by blast
qed

definition demo_stat :: "u64 \<Rightarrow> file_stat option" where
  "demo_stat m = Some \<lparr>st_size = 7, st_mtime = Some m\<rparr>"

definition demo_sha :: "string \<Rightarrow> proc_output option" where
  "demo_sha h = Some \<lparr>po_success = True, po_stdout = as_bytes (h @ [newline])\<rparr>"

lemma hash_cache_transparent_witness:
  "fst (hash_calls [(''/bin/a'', demo_stat 1, demo_sha ''ab''), (''/bin/a'', demo_stat 1, demo_sha ''ab''),
      (''/bin/a'', demo_stat 2, demo_sha ''cd'')] identity_new) = [Some ''ab'', Some ''ab'', Some ''cd'']"
proof -
  let ?cs = "[(''/bin/a'', demo_stat 1, demo_sha ''ab''), (''/bin/a'', demo_stat 1, demo_sha ''ab''),
      (''/bin/a'', demo_stat 2, demo_sha ''cd'')]"
  let ?H = "\<lambda>(p :: string) (m :: u64) (s :: u64). if m = 1 then Some ''ab'' else Some ''cd''"
  have sha: "sha_output (demo_sha ''ab'') = Some ''ab''" "sha_output (demo_sha ''cd'') = Some ''cd''"
    by code_simp+
  have "call_ok ?H (''/bin/a'', demo_stat 1, demo_sha ''ab'')" "call_ok ?H (''/bin/a'', demo_stat 2, demo_sha ''cd'')"
    unfolding call_ok_def demo_stat_def by (simp_all add: sha)
  then have "\<forall>c \<in> set ?cs. call_ok ?H c" by (simp only: list.set ball_simps simp_thms)
  from hash_cache_transparent [OF this]
  have "fst (hash_calls ?cs identity_new) = map (\<lambda>(path, md, out). hash_now md out) ?cs" ..
  then show ?thesis
    by (simp only: list.map prod.case hash_now_def demo_stat_def option.case file_stat.select_convs sha)
qed

text \<open>A replaced binary that keeps the modification time, in seconds, and the size of the original
  is given the original's hash.\<close>

lemma replaced_binary_keeps_hash:
  "fst (hash_calls [(''/bin/a'', demo_stat 1, demo_sha ''ab''), (''/bin/a'', demo_stat 1, demo_sha ''cd'')]
     identity_new) = [Some ''ab'', Some ''ab'']"
  by code_simp

end
