(* ===== verification/Seen.thy ===== *)
theory Seen
  imports Policy_File
begin

text \<open>
  When each binary last talked to each destination (\<open>src/seen.rs\<close>): the table in memory, its file,
  and the age shown to the user.

  The clock (unix seconds for the time stamps, milliseconds for the rate limit) is an argument, and
  so is the outcome of \<open>write_all\<close>: \<open>None\<close> when everything was written, \<open>Some n\<close> when writing failed
  after \<open>n\<close> bytes.
\<close>

section \<open>State and operations\<close>

definition SEEN_PATH :: string where
  "SEEN_PATH = ''/var/run/pfsnitch/lastseen''"

type_synonym seen_table = "(string \<times> string, u64) hashmap"

record seen =
  seen_map :: seen_table
  dirty :: bool
  last_flush :: "nat option"

definition parse_u64 :: "string \<Rightarrow> u64 option" where
  "parse_u64 s = map_option word_of_nat (parse_uint 18446744073709551615 s)"

definition seen_row :: "string \<Rightarrow> seen_table \<Rightarrow> seen_table" where
  "seen_row line out = (case splitn3 tab line of
      None \<Rightarrow> out
    | Some (ts, dest, exe) \<Rightarrow>
       (case parse_u64 ts of Some t \<Rightarrow> hm_insert (exe, to_lowercase dest) t out | None \<Rightarrow> out))"

definition seen_load :: "disk \<Rightarrow> seen_table" where
  "seen_load d = (case read_to_string d SEEN_PATH of
      Inl e \<Rightarrow> []
    | Inr text \<Rightarrow> fold seen_row (lines text) [])"

definition seen_new :: "disk \<Rightarrow> seen" where
  "seen_new d = \<lparr>seen_map = seen_load d, dirty = False, last_flush = None\<rparr>"

definition seen_put :: "string \<times> string \<Rightarrow> u64 \<Rightarrow> seen_table \<Rightarrow> seen_table" where
  "seen_put k t m = hm_insert k t (if 4096 < hm_len m then [] else m)"

definition touch :: "u64 \<Rightarrow> string \<Rightarrow> string \<Rightarrow> seen \<Rightarrow> seen" where
  "touch now exe dst s =
     (if exe = [] \<or> dst = [] \<or> dst = ''-'' then s
      else s\<lparr>seen_map := seen_put (exe, to_lowercase dst) now (seen_map s), dirty := True\<rparr>)"

definition table_row :: "(string \<times> string) \<times> u64 \<Rightarrow> string" where
  "table_row e = (case e of ((exe, dst), ts) \<Rightarrow> show_nat (unat ts) @ [tab] @ dst @ [tab] @ exe)"

definition table_text :: "seen_table \<Rightarrow> string" where
  "table_text m = concat (map (\<lambda>e. table_row e @ [newline]) m)"

definition write_all :: "nat option \<Rightarrow> disk \<Rightarrow> string \<Rightarrow> string \<Rightarrow> bool \<times> disk" where
  "write_all wr d p data = (case wr of
      None \<Rightarrow> (True, d\<lparr>files := (files d)(p \<mapsto> data)\<rparr>)
    | Some n \<Rightarrow> (False, d\<lparr>files := (files d)(p \<mapsto> take n data)\<rparr>))"

definition flush_due :: "nat \<Rightarrow> nat \<Rightarrow> seen \<Rightarrow> bool" where
  "flush_due every clock s \<longleftrightarrow> dirty s \<and> (case last_flush s of None \<Rightarrow> True | Some t \<Rightarrow> every \<le> clock - t)"

definition seen_flush :: "nat \<Rightarrow> nat \<Rightarrow> nat option \<Rightarrow> seen \<Rightarrow> disk \<Rightarrow> seen \<times> disk" where
  "seen_flush every clock wr s d =
     (if \<not> flush_due every clock s then (s, d)
      else (s\<lparr>last_flush := Some clock, dirty := False\<rparr>,
        let tmp = with_extension SEEN_PATH ''tmp'' in
        case fs_write d tmp [] of
          (Inl e, d1) \<Rightarrow> d1
        | (Inr _, d1) \<Rightarrow>
           (case write_all wr d1 tmp (table_text (seen_map s)) of
              (False, d2) \<Rightarrow> d2
            | (True, d2) \<Rightarrow> snd (fs_rename d2 tmp SEEN_PATH))))"

definition ago :: "u64 \<Rightarrow> u64 option \<Rightarrow> string" where
  "ago now ts = (case ts of
      None \<Rightarrow> ''never''
    | Some t \<Rightarrow>
       (if t = 0 then ''never''
        else if now < t then ''just now''
        else let d = now - t in
          if d \<le> 59 then show_nat (unat d) @ ''s ago''
          else if d \<le> 3599 then show_nat (unat (d div 60)) @ ''m ago''
          else if d \<le> 86399 then show_nat (unat (d div 3600)) @ ''h ago''
          else show_nat (unat (d div 86400)) @ ''d ago''))"

interpretation seenm: bounded_map 4096 seen_put
  by unfold_locales (rule seen_put_def)

section \<open>The file\<close>

lemma seen_tmp: "with_extension SEEN_PATH ''tmp'' = ''/var/run/pfsnitch/lastseen.tmp''"
  by code_simp

lemma seen_tmp_neq: "with_extension SEEN_PATH ''tmp'' \<noteq> SEEN_PATH"
  unfolding seen_tmp by code_simp

text \<open>Names a row can carry: a destination without separators in lower case, a path on one line.\<close>

definition row_ok :: "(string \<times> string) \<times> u64 \<Rightarrow> bool" where
  "row_ok e \<longleftrightarrow> (case e of ((exe, dst), ts) \<Rightarrow>
     tab \<notin> set dst \<and> line_ok dst \<and> to_lowercase dst = dst \<and> line_ok exe \<and> str_valid dst \<and> str_valid exe)"

definition seen_ok :: "seen \<Rightarrow> bool" where
  "seen_ok s \<longleftrightarrow> hm_wf (seen_map s) \<and> (\<forall>e \<in> set (seen_map s). row_ok e)"

lemma table_text_unlines: "table_text m = unlines (map table_row m)"
  by (simp add: table_text_def unlines_def comp_def)

lemma plain_no_sep: "plain s \<Longrightarrow> tab \<notin> set s \<and> line_ok s"
  by (auto simp: plain_def plain_char_def tab_def newline_def line_ok_def)

lemma str_valid_tab: "str_valid (a @ tab # b) \<longleftrightarrow> str_valid a \<and> str_valid b"
  by (simp add: str_valid_def utf8_valid_cut tab_def)

lemma str_valid_plain: "plain s \<Longrightarrow> str_valid s"
proof (induction s)
  case (Cons c s)
  have "(of_char c :: nat) < 0x80" using Cons.prems by (simp add: plain_def plain_char_def)
  moreover have "str_valid s" using Cons by (simp add: plain_def)
  ultimately show ?case
    using utf8_valid_cut [of "of_char c" "[]"] by (simp add: str_valid_def utf8_valid.simps [of "[]"])
qed simp

lemma table_row_ok:
  assumes "row_ok e"
  shows "line_ok (table_row e)" "str_valid (table_row e)"
    "seen_row (table_row e) out = hm_insert (fst e) (snd e) out"
proof -
  obtain exe dst ts where e: "e = ((exe, dst), ts)" by (metis surj_pair)
  have n: "tab \<notin> set (show_nat (unat ts))" "line_ok (show_nat (unat ts))" "str_valid (show_nat (unat ts))"
    using plain_no_sep [OF digits_plain(1)] str_valid_plain [OF digits_plain(1)] by auto
  have d: "tab \<notin> set dst" "line_ok dst" "to_lowercase dst = dst" "line_ok exe" "str_valid dst" "str_valid exe"
    using assms e by (simp_all add: row_ok_def)
  show "line_ok (table_row e)"
    using n d by (simp add: e table_row_def line_ok_def tab_def newline_def)
  show "str_valid (table_row e)"
    using n d by (simp add: e table_row_def str_valid_tab)
  have "split_at_char tab (show_nat (unat ts) @ tab # dst @ tab # exe) = Some (show_nat (unat ts), dst @ tab # exe)"
    "split_at_char tab (dst @ tab # exe) = Some (dst, exe)"
    using n d by (simp_all add: split_at_char_Some)
  then have "splitn3 tab (table_row e) = Some (show_nat (unat ts), dst, exe)"
    by (simp add: splitn3_def e table_row_def)
  moreover have "unat ts \<le> 18446744073709551615"
    using unsigned_less [of ts, where ?'a = nat] by simp
  then have "parse_u64 (show_nat (unat ts)) = Some ts" by (simp add: parse_u64_def parse_uint_show_nat)
  ultimately show "seen_row (table_row e) out = hm_insert (fst e) (snd e) out"
    using d by (simp add: seen_row_def e)
qed

lemma fold_seen_rows:
  "\<forall>e \<in> set m. row_ok e \<Longrightarrow> fold seen_row (map table_row m) out = fold (\<lambda>e. hm_insert (fst e) (snd e)) m out"
  by (induction m arbitrary: out) (simp_all add: table_row_ok)

lemma fold_insert_hm_get:
  "hm_wf m \<Longrightarrow> hm_get (fold (\<lambda>e. hm_insert (fst e) (snd e)) m out) k
     = (case hm_get m k of None \<Rightarrow> hm_get out k | Some v \<Rightarrow> Some v)"
proof (induction m arbitrary: out)
  case (Cons e m)
  have "fst e \<notin> fst ` set m" "hm_wf m" using Cons.prems by (auto simp: hm_wf_def)
  moreover have "hm_get m (fst e) = None" using \<open>fst e \<notin> fst ` set m\<close> by (simp add: map_of_eq_None_iff)
  ultimately show ?case using Cons.IH by (cases e) (auto split: option.splits)
qed simp

lemma seen_load_table:
  assumes "seen_ok s" "read_to_string d SEEN_PATH = Inr (table_text (seen_map s))"
  shows "hm_get (seen_load d) k = hm_get (seen_map s) k"
proof -
  have r: "\<forall>e \<in> set (seen_map s). row_ok e" "hm_wf (seen_map s)" using assms(1) by (simp_all add: seen_ok_def)
  then have "lines (table_text (seen_map s)) = map table_row (seen_map s)"
    unfolding table_text_unlines by (intro lines_unlines) (simp add: table_row_ok(1))
  then show ?thesis
    using r assms(2) fold_insert_hm_get [OF r(2), of "[]" k]
    by (simp add: seen_load_def fold_seen_rows split: option.splits)
qed

lemma table_text_valid: "seen_ok s \<Longrightarrow> str_valid (table_text (seen_map s))"
  unfolding table_text_unlines by (intro str_valid_unlines) (simp add: seen_ok_def table_row_ok(2))

section \<open>What the file keeps\<close>

lemma seen_flush_cases:
  assumes "flush_due every clock s"
  shows "files (snd (seen_flush every clock wr s d)) SEEN_PATH
     \<in> {files d SEEN_PATH, Some (table_text (seen_map s))}"
  using seen_tmp_neq
  by (cases wr) (simp_all add: seen_flush_def assms Let_def fs_write_def write_all_def fs_rename_def)

lemma seen_flush_succeeds:
  assumes "flush_due every clock s" "(WriteOp, with_extension SEEN_PATH ''tmp'') \<notin> denied d"
    "(RenameOp, SEEN_PATH) \<notin> denied d"
  shows "files (snd (seen_flush every clock None s d)) SEEN_PATH = Some (table_text (seen_map s))"
    "denied (snd (seen_flush every clock None s d)) = denied d"
  using assms seen_tmp_neq
  by (simp_all add: seen_flush_def Let_def fs_write_def write_all_def fs_rename_def)

lemma touch_ok:
  assumes "seen_ok s" "tab \<notin> set dst" "line_ok dst" "line_ok exe" "str_valid (to_lowercase dst)" "str_valid exe"
  shows "seen_ok (touch now exe dst s)"
proof -
  have sub: "set (hm_insert k v m) \<subseteq> insert (k, v) (set m)" for k v and m :: seen_table
    by (induction m) auto
  have "tab \<notin> set (to_lowercase dst)" "line_ok (to_lowercase dst)"
    using assms(2,3) by (simp_all add: line_ok_def in_to_lowercase_iff tab_def newline_def)
  then have r: "row_ok ((exe, to_lowercase dst), now)" using assms by (simp add: row_ok_def)
  have "row_ok e" if "e \<in> set (seen_put (exe, to_lowercase dst) now (seen_map s))" for e
  proof -
    have "e = ((exe, to_lowercase dst), now) \<or> e \<in> set (seen_map s)"
      using subsetD [OF sub that [unfolded seen_put_def]] by (auto split: if_splits)
    then show ?thesis using r assms(1) by (auto simp: seen_ok_def)
  qed
  moreover have "hm_wf (seen_put (exe, to_lowercase dst) now (seen_map s))"
    by (rule seenm.put_wf) (use assms(1) in \<open>simp add: seen_ok_def\<close>)
  ultimately show ?thesis using assms(1) by (simp add: touch_def seen_ok_def)
qed

text \<open>Time stamps survive a restart: once the table has been flushed, a new daemon starts from the
  same table.\<close>

theorem seen_survives_restart:
  assumes "seen_ok s" "flush_due every clock s" "(ReadOp, SEEN_PATH) \<notin> denied d"
    "(WriteOp, with_extension SEEN_PATH ''tmp'') \<notin> denied d" "(RenameOp, SEEN_PATH) \<notin> denied d"
  shows "hm_get (seen_map (seen_new (snd (seen_flush every clock None s d)))) k = hm_get (seen_map s) k"
proof -
  have "read_to_string (snd (seen_flush every clock None s d)) SEEN_PATH = Inr (table_text (seen_map s))"
    using seen_flush_succeeds [OF assms(2,4,5)] assms(3) table_text_valid [OF assms(1)]
    by (simp add: read_to_string_def)
  then show ?thesis using seen_load_table [OF assms(1)] by (simp add: seen_new_def)
qed

definition empty_disk :: disk where
  "empty_disk = \<lparr>files = (\<lambda>p. None), denied = {}\<rparr>"

definition demo_seen :: seen where
  "demo_seen = touch 1700000000 ''/usr/bin/my fetch'' ''Example.ORG'' (seen_new empty_disk)"

lemma demo_seen_ok: "seen_ok demo_seen" "flush_due 10000 5 demo_seen"
proof -
  have "seen_new empty_disk = \<lparr>seen_map = [], dirty = False, last_flush = None\<rparr>"
    by (simp add: seen_new_def seen_load_def read_to_string_def empty_disk_def)
  moreover have "str_valid (to_lowercase ''Example.ORG'')" "str_valid ''/usr/bin/my fetch''" by code_simp+
  ultimately show "seen_ok demo_seen" unfolding demo_seen_def
    by (intro touch_ok) (simp_all add: seen_ok_def tab_def line_ok_def newline_def)
  show "flush_due 10000 5 demo_seen"
    using \<open>seen_new empty_disk = _\<close> by (simp add: demo_seen_def flush_due_def touch_def)
qed

lemma seen_survives_restart_witness:
  "hm_get (seen_map (seen_new (snd (seen_flush 10000 5 None demo_seen empty_disk)))) (''/usr/bin/my fetch'', ''example.org'')
     = hm_get (seen_map demo_seen) (''/usr/bin/my fetch'', ''example.org'')"
  by (rule seen_survives_restart [OF demo_seen_ok]) (simp_all add: empty_disk_def)

text \<open>A reader never sees a half-written table: whatever fails while flushing, the file holds its
  old contents or the whole new table, and nothing is written before the table has changed and the
  interval has passed.\<close>

theorem seen_flush_atomic:
  "files (snd (seen_flush every clock wr s d)) SEEN_PATH \<in>
     {files d SEEN_PATH} \<union> (if flush_due every clock s then {Some (table_text (seen_map s))} else {})"
  using seen_flush_cases [of every clock s wr d] by (cases "flush_due every clock s") (auto simp: seen_flush_def)

text \<open>A flush that fails is not tried again until the next contact: the table is clean all the same.\<close>

lemma failed_flush_is_clean:
  "flush_due every clock s \<Longrightarrow> \<not> flush_due every' clock' (fst (seen_flush every clock (Some n) s d))"
  by (simp add: seen_flush_def flush_due_def)

end
