(* ===== verification/Kernattr.thy ===== *)
theory Kernattr
  imports Procinfo C_Layout
begin

unbundle bit_operations_syntax

text \<open>
  The kernel module as a backend (\<open>src/kernattr.rs\<close>): the structures that cross the boundary and
  their memory layout, the ioctl commands computed from their sizes, the operations on the control
  handle, and the reader of upcall events.

  The module is not part of the program: a device is what it answers to an ioctl, the error number or
  the structure after the call.  A structure is a record of its fields; a fixed array is a list of bytes of
  that length.  The machine is little-endian, as FreeBSD's amd64 and arm64 are.
\<close>

section \<open>Structures\<close>

definition PFSNITCH_ATTR_VERSION :: u32 where "PFSNITCH_ATTR_VERSION = 1"
definition PFSNITCH_MISS :: u8 where "PFSNITCH_MISS = 0"
definition PFSNITCH_V_ALLOW :: u8 where "PFSNITCH_V_ALLOW = 1"
definition PFSNITCH_V_DENY :: u8 where "PFSNITCH_V_DENY = 2"

record pfsnitch_attr =
  q_version :: u32
  q_af :: u8
  q_proto :: u8
  q_lport :: u16
  q_fport :: u16
  q_laddr :: bytes
  q_faddr :: bytes
  q_found :: u8
  q_pid :: int
  q_uid :: u32
  q_comm :: bytes
  q_path :: bytes

record pfsnitch_verdict =
  v_version :: u32
  v_af :: u8
  v_proto :: u8
  v_fport :: u16
  v_faddr :: bytes
  v_verdict :: u8
  v_path :: bytes

record pfsnitch_event =
  ev_id :: u64
  ev_af :: u8
  ev_proto :: u8
  ev_fport :: u16
  ev_faddr :: bytes
  ev_nonblock :: u8
  ev_pid :: int
  ev_uid :: u32
  ev_path :: bytes

record pfsnitch_resolve =
  r_version :: u32
  r_verdict :: u8
  r_id :: u64

record kern_event =
  ke_id :: u64
  ke_proto :: u8
  ke_dst :: ip_addr
  ke_dport :: u16
  ke_nonblock :: bool
  ke_pid :: int
  ke_uid :: u32
  ke_path :: string

section \<open>Layout of the structures\<close>

definition PfsnitchAttr :: ctype where
  "PfsnitchAttr = CStruct [(''version'', cu32), (''af'', cu8), (''proto'', cu8), (''lport'', cu16), (''fport'', cu16),
     (''_pad0'', CArr 2 cu8), (''laddr'', CArr 16 cu8), (''faddr'', CArr 16 cu8), (''found'', cu8), (''_pad1'', CArr 3 cu8),
     (''pid'', ci32), (''uid'', cu32), (''_pad2'', CArr 4 cu8), (''comm'', CArr 24 cu8), (''path'', CArr 1024 cu8)]"

definition PfsnitchVerdict :: ctype where
  "PfsnitchVerdict = CStruct [(''version'', cu32), (''af'', cu8), (''proto'', cu8), (''fport'', cu16), (''faddr'',
     CArr 16 cu8), (''verdict'', cu8), (''_pad'', CArr 3 cu8), (''path'', CArr 1024 cu8)]"

definition PfsnitchEvent :: ctype where
  "PfsnitchEvent = CStruct [(''id'', cu64), (''af'', cu8), (''proto'', cu8), (''fport'', cu16), (''faddr'', CArr 16 cu8),
     (''nonblock'', cu8), (''_pad'', CArr 3 cu8), (''pid'', ci32), (''uid'', cu32), (''path'', CArr 1024 cu8)]"

definition PfsnitchResolve :: ctype where
  "PfsnitchResolve = CStruct [(''version'', cu32), (''verdict'', cu8), (''_pad'', CArr 3 cu8), (''id'', cu64)]"

text \<open>The same structures in the module's header, \<open>kmod/pfsnitch_ioctl.h\<close>.\<close>

definition pfsnitch_attr_h :: ctype where
  "pfsnitch_attr_h = CStruct [(''version'', cu32), (''af'', cu8), (''proto'', cu8), (''lport'', cu16), (''fport'', cu16),
     (''_pad0'', CArr 2 cu8), (''laddr'', CArr 16 cu8), (''faddr'', CArr 16 cu8),
     (''found'', cu8), (''_pad1'', CArr 3 cu8), (''pid'', ci32), (''uid'', cu32), (''_pad2'', CArr 4 cu8),
     (''comm'', CArr 24 cu8), (''path'', CArr 1024 cu8)]"

definition pfsnitch_verdict_h :: ctype where
  "pfsnitch_verdict_h = CStruct [(''version'', cu32), (''af'', cu8), (''proto'', cu8), (''fport'', cu16),
     (''faddr'', CArr 16 cu8), (''verdict'', cu8), (''_pad'', CArr 3 cu8), (''path'', CArr 1024 cu8)]"

definition pfsnitch_event_h :: ctype where
  "pfsnitch_event_h = CStruct [(''id'', cu64), (''af'', cu8), (''proto'', cu8), (''fport'', cu16), (''faddr'', CArr 16 cu8),
     (''nonblock'', cu8), (''_pad'', CArr 3 cu8), (''pid'', ci32), (''uid'', cu32), (''path'', CArr 1024 cu8)]"

definition pfsnitch_resolve_h :: ctype where
  "pfsnitch_resolve_h = CStruct [(''version'', cu32), (''verdict'', cu8), (''_pad'', CArr 3 cu8), (''id'', cu64)]"

section \<open>Commands\<close>

definition IOC_VOID :: u64 where "IOC_VOID = 0x20000000"
definition IOC_IN :: u64 where "IOC_IN = 0x80000000"
definition IOC_INOUT :: u64 where "IOC_INOUT = 0xC0000000"
definition IOCPARM_MASK :: u64 where "IOCPARM_MASK = 0x1fff"

definition ioc :: "u64 \<Rightarrow> u64 \<Rightarrow> u64 \<Rightarrow> u64" where
  "ioc inout num len = or (or (or inout (push_bit 16 (len AND IOCPARM_MASK))) (push_bit 8 0x46)) num"

definition attr_query_cmd :: u64 where "attr_query_cmd = ioc IOC_INOUT 1 (word_of_nat (size_of PfsnitchAttr))"
definition verdict_push_cmd :: u64 where "verdict_push_cmd = ioc IOC_IN 2 (word_of_nat (size_of PfsnitchVerdict))"
definition verdict_flush_cmd :: u64 where "verdict_flush_cmd = ioc IOC_VOID 3 0"
definition resolve_cmd :: u64 where "resolve_cmd = ioc IOC_IN 4 (word_of_nat (size_of PfsnitchResolve))"
definition upcall_set_cmd :: u64 where "upcall_set_cmd = ioc IOC_IN 5 (word_of_nat (size_of c_int))"

section \<open>The device\<close>

datatype ioctl_arg =
    AttrArg pfsnitch_attr
  | VerdictArg pfsnitch_verdict
  | NoArg
  | ResolveArg pfsnitch_resolve
  | IntArg int

type_synonym ioctl_call = "u64 \<times> ioctl_arg"

text \<open>A query answers with an error number or with the structure filled in; the other commands answer
  with an error number or nothing.\<close>

record device =
  dev_query :: "u64 \<Rightarrow> pfsnitch_attr \<Rightarrow> int + pfsnitch_attr"
  dev_ctl :: "u64 \<Rightarrow> ioctl_arg \<Rightarrow> int option"

record kern_attr =
  k_fd :: int
  dead :: bool

definition ENXIO :: int where "ENXIO = 6"
definition EBADF :: int where "EBADF = 9"
definition ENODEV :: int where "ENODEV = 19"
definition ENOTTY :: int where "ENOTTY = 25"

definition note_errno :: "int \<Rightarrow> kern_attr \<Rightarrow> kern_attr" where
  "note_errno e k = (if e \<in> {ENOTTY, ENXIO, EBADF, ENODEV} then k\<lparr>dead := True\<rparr> else k)"

definition ctl :: "device \<Rightarrow> u64 \<Rightarrow> ioctl_arg \<Rightarrow> kern_attr \<Rightarrow> kern_attr \<times> ioctl_call list" where
  "ctl dev cmd arg k = (case dev_ctl dev cmd arg of
      Some e \<Rightarrow> (note_errno e k, [(cmd, arg)])
    | None \<Rightarrow> (k, [(cmd, arg)]))"

text \<open>\<open>KernAttr::open\<close>: what \<open>open(2)\<close> returned, and the error number.\<close>

definition kern_open :: "int \<Rightarrow> int \<Rightarrow> int + kern_attr" where
  "kern_open fd err = (if fd < 0 then Inl err else Inr \<lparr>k_fd = fd, dead = False\<rparr>)"

definition is_dead :: "kern_attr \<Rightarrow> bool" where
  "is_dead k = dead k"

section \<open>Operations of the control handle\<close>

text \<open>\<open>u16::to_be\<close> and \<open>u16::from_be\<close> swap the bytes.\<close>

definition swap16 :: "u16 \<Rightarrow> u16" where
  "swap16 w = from_be16 (word_of_nat (unat w mod 256)) (word_of_nat (unat w div 256))"

text \<open>\<open>f[..n].copy_from_slice(b)\<close> into a zeroed array.\<close>

definition pad_to :: "nat \<Rightarrow> bytes \<Rightarrow> bytes" where
  "pad_to n b = b @ replicate (n - length b) 0"

definition cstr :: "bytes \<Rightarrow> string" where
  "cstr b = from_utf8_lossy (takeWhile (\<lambda>c. c \<noteq> 0) b)"

definition zeroed_attr :: pfsnitch_attr where
  "zeroed_attr = \<lparr>q_version = 0, q_af = 0, q_proto = 0, q_lport = 0, q_fport = 0, q_laddr = replicate 16 0,
     q_faddr = replicate 16 0, q_found = 0, q_pid = 0, q_uid = 0, q_comm = replicate 24 0, q_path = replicate 1024 0\<rparr>"

definition attr_answer :: "pfsnitch_attr \<Rightarrow> attributed option" where
  "attr_answer q =
     (if q_found q = PFSNITCH_MISS then None
      else let cmd = cstr (q_comm q); path = cstr (q_path q) in
        Some \<lparr>a_owner = \<lparr>pid = q_pid q, command = cmd,
                 opath = (if path = [] then ''<unknown:'' @ cmd @ ''>'' else path)\<rparr>,
              a_confidence = Kernel\<rparr>)"

text \<open>The structures \<open>query\<close> and \<open>push_verdict\<close> fill in.\<close>

definition query_attr :: "tuple \<Rightarrow> pfsnitch_attr" where
  "query_attr t = zeroed_attr\<lparr>q_version := PFSNITCH_ATTR_VERSION, q_proto := t_proto t,
     q_lport := swap16 (t_sport t), q_fport := swap16 (t_dport t), q_af := (if is_v4 (t_src t) then 4 else 6),
     q_laddr := pad_to 16 (octets (t_src t)), q_faddr := pad_to 16 (octets (t_dst t))\<rparr>"

definition verdict_struct :: "u8 \<Rightarrow> ip_addr \<Rightarrow> u16 \<Rightarrow> string \<Rightarrow> bool \<Rightarrow> pfsnitch_verdict" where
  "verdict_struct proto dst dport path allow = \<lparr>v_version = PFSNITCH_ATTR_VERSION,
     v_af = (if is_v4 dst then 4 else 6), v_proto = proto, v_fport = swap16 dport, v_faddr = pad_to 16 (octets dst),
     v_verdict = (if allow then PFSNITCH_V_ALLOW else PFSNITCH_V_DENY), v_path = pad_to 1024 (as_bytes path)\<rparr>"

definition kern_query :: "device \<Rightarrow> kern_attr \<Rightarrow> tuple \<Rightarrow> attributed option \<times> kern_attr \<times> ioctl_call list" where
  "kern_query dev k t =
     (if t_proto t \<noteq> 6 \<and> t_proto t \<noteq> 17 then (None, k, [])
      else if is_v4 (t_src t) \<noteq> is_v4 (t_dst t) then (None, k, [])
      else let q = query_attr t in
        case dev_query dev attr_query_cmd q of
          Inl e \<Rightarrow> (None, note_errno e k, [(attr_query_cmd, AttrArg q)])
        | Inr q' \<Rightarrow> (attr_answer q', k, [(attr_query_cmd, AttrArg q)]))"

definition push_verdict :: "device \<Rightarrow> u8 \<Rightarrow> ip_addr \<Rightarrow> u16 \<Rightarrow> string \<Rightarrow> bool \<Rightarrow> kern_attr \<Rightarrow> kern_attr \<times> ioctl_call list" where
  "push_verdict dev proto dst dport path allow k =
     (if dead k \<or> proto \<noteq> 6 \<and> proto \<noteq> 17 then (k, [])
      else if as_bytes path = [] \<or> 1024 \<le> length (as_bytes path) then (k, [])
      else ctl dev verdict_push_cmd (VerdictArg (verdict_struct proto dst dport path allow)) k)"

definition flush_verdicts :: "device \<Rightarrow> kern_attr \<Rightarrow> kern_attr \<times> ioctl_call list" where
  "flush_verdicts dev k = (if dead k then (k, []) else ctl dev verdict_flush_cmd NoArg k)"

definition kern_resolve :: "device \<Rightarrow> u64 \<Rightarrow> bool \<Rightarrow> kern_attr \<Rightarrow> kern_attr \<times> ioctl_call list" where
  "kern_resolve dev eid allow k =
     (if dead k then (k, [])
      else ctl dev resolve_cmd
        (ResolveArg \<lparr>r_version = PFSNITCH_ATTR_VERSION,
           r_verdict = (if allow then PFSNITCH_V_ALLOW else PFSNITCH_V_DENY), r_id = eid\<rparr>) k)"

definition set_upcall :: "device \<Rightarrow> bool \<Rightarrow> kern_attr \<Rightarrow> kern_attr \<times> ioctl_call list" where
  "set_upcall dev on k = (if dead k then (k, []) else ctl dev upcall_set_cmd (IntArg (if on then 1 else 0)) k)"

section \<open>The event reader\<close>

datatype read_error = OsError int | ShortEvent | BadAf

text \<open>\<open>KernReader::open\<close>: a descriptor of its own on the device.\<close>

definition reader_open :: "int \<Rightarrow> int \<Rightarrow> int + int" where
  "reader_open fd err = (if fd < 0 then Inl err else Inr fd)"

text \<open>\<open>n\<close> is what \<open>read(2)\<close> returned, \<open>err\<close> the error number, and \<open>ev\<close> the buffer.\<close>

definition read_event :: "int \<Rightarrow> int \<Rightarrow> pfsnitch_event \<Rightarrow> read_error + kern_event option" where
  "read_event n err ev =
     (if n = 0 then Inr None
      else if n < 0 then Inl (OsError err)
      else if nat n \<noteq> size_of PfsnitchEvent then Inl ShortEvent
      else case (if ev_af ev = 4 then Some (V4 (ev_faddr ev ! 0) (ev_faddr ev ! 1) (ev_faddr ev ! 2) (ev_faddr ev ! 3))
                 else if ev_af ev = 6 then Some (v6_of_octets (ev_faddr ev)) else None) of
        None \<Rightarrow> Inl BadAf
      | Some dst \<Rightarrow> Inr (Some \<lparr>ke_id = ev_id ev, ke_proto = ev_proto ev, ke_dst = dst, ke_dport = swap16 (ev_fport ev),
          ke_nonblock = (ev_nonblock ev \<noteq> 0), ke_pid = ev_pid ev, ke_uid = ev_uid ev, ke_path = cstr (ev_path ev)\<rparr>))"

section \<open>The boundary with the module\<close>

lemmas struct_defs = PfsnitchAttr_def PfsnitchVerdict_def PfsnitchEvent_def PfsnitchResolve_def

lemma sizes: "size_of PfsnitchAttr = 1108" "size_of PfsnitchVerdict = 1052" "size_of PfsnitchEvent = 1064"
  "size_of PfsnitchResolve = 16"
  by (simp_all add: round_up_def struct_defs)

lemma command_numbers: "attr_query_cmd = 0xC4544601" "verdict_push_cmd = 0x841C4602" "verdict_flush_cmd = 0x20004603"
  "resolve_cmd = 0x80104604" "upcall_set_cmd = 0x80044605"
  by (simp_all add: attr_query_cmd_def verdict_push_cmd_def verdict_flush_cmd_def resolve_cmd_def upcall_set_cmd_def
      sizes ioc_def IOC_VOID_def IOC_IN_def IOC_INOUT_def IOCPARM_MASK_def)


section \<open>What the module reads\<close>

text \<open>A port as the module reads it from memory: the two bytes of the field, the first one the high one.\<close>

definition le16 :: "u16 \<Rightarrow> bytes" where
  "le16 w = [word_of_nat (unat w mod 256), word_of_nat (unat w div 256)]"

definition ntohs_mem :: "u16 \<Rightarrow> u16" where
  "ntohs_mem w = from_be16 (le16 w ! 0) (le16 w ! 1)"

definition addr_of :: "u8 \<Rightarrow> bytes \<Rightarrow> ip_addr option" where
  "addr_of af b = (if length b \<noteq> 16 then None
     else if af = 4 then Some (V4 (b ! 0) (b ! 1) (b ! 2) (b ! 3))
     else if af = 6 then Some (v6_of_octets b) else None)"

lemma swap16_bytes: "le16 (swap16 w) = to_be16 w"
proof -
  have a: "unat w mod 256 < 256" "unat w div 256 < 256" using unat_lt_65536 [of w] by (simp, linarith)
  then have u: "unat (swap16 w) = 256 * (unat w mod 256) + unat w div 256"
    by (simp add: swap16_def unat_from_be16)
  have "unat (swap16 w) mod 256 = unat w div 256" "unat (swap16 w) div 256 = unat w mod 256"
    using a unfolding u by auto
  then show ?thesis by (simp add: le16_def to_be16_def)
qed

lemma ntohs_swap16 [simp]: "ntohs_mem (swap16 w) = w"
  by (simp add: ntohs_mem_def swap16_bytes from_be16_nth_to_be16 del: One_nat_def) (simp add: from_be16_nth_to_be16)

lemma swap16_swap16 [simp]: "swap16 (swap16 w) = w"
  using ntohs_swap16 [of w] by (simp add: ntohs_mem_def le16_def swap16_def)

lemma length_pad_to: "length b \<le> n \<Longrightarrow> length (pad_to n b) = n"
  by (simp add: pad_to_def)

lemma addr_of_pad [simp]: "addr_of (if is_v4 a then 4 else 6) (pad_to 16 (octets a)) = Some a"
proof (cases a)
  case (V4 p q r s)
  then show ?thesis by (simp add: addr_of_def pad_to_def)
next
  case V6
  then have "\<not> is_v4 a" by simp
  moreover from this have "pad_to 16 (octets a) = octets a" by (simp add: pad_to_def length_octets)
  ultimately show ?thesis by (simp add: addr_of_def length_octets v6_of_octets_octets)
qed

lemma takeWhile_pad: "0 \<notin> set b \<Longrightarrow> takeWhile (\<lambda>c. c \<noteq> 0) (pad_to n b) = b"
  by (auto simp: pad_to_def takeWhile_append)

text \<open>The tuple a query asks about.\<close>

definition asked_tuple :: "pfsnitch_attr \<Rightarrow> tuple option" where
  "asked_tuple q = (case (addr_of (q_af q) (q_laddr q), addr_of (q_af q) (q_faddr q)) of
      (Some l, Some f) \<Rightarrow> Some \<lparr>t_proto = q_proto q, t_src = l, t_sport = ntohs_mem (q_lport q),
                           t_dst = f, t_dport = ntohs_mem (q_fport q)\<rparr>
    | _ \<Rightarrow> None)"

text \<open>The flow and the binary a pushed verdict is for.\<close>

definition pushed_for :: "pfsnitch_verdict \<Rightarrow> (u8 \<times> ip_addr \<times> u16 \<times> bytes) option" where
  "pushed_for v = map_option (\<lambda>a. (v_proto v, a, ntohs_mem (v_fport v), takeWhile (\<lambda>c. c \<noteq> 0) (v_path v)))
     (addr_of (v_af v) (v_faddr v))"

text \<open>A query asks the module about exactly the tuple it was given, in the module's encoding, and
  answers what the module answered; nothing is asked for other protocols or mixed families.\<close>

theorem query_asks_tuple:
  "case kern_query dev k t of (r, k', calls) \<Rightarrow>
     if t_proto t \<in> {6, 17} \<and> is_v4 (t_src t) = is_v4 (t_dst t)
     then calls = [(attr_query_cmd, AttrArg (query_attr t))] \<and> asked_tuple (query_attr t) = Some t
        \<and> r = (case dev_query dev attr_query_cmd (query_attr t) of Inl e \<Rightarrow> None | Inr q' \<Rightarrow> attr_answer q')
     else calls = [] \<and> r = None \<and> k' = k"
proof -
  have "asked_tuple (query_attr t) = Some t" if "is_v4 (t_src t) = is_v4 (t_dst t)"
    using addr_of_pad [of "t_dst t"] addr_of_pad [of "t_src t"] that
    by (cases "is_v4 (t_dst t)") (simp_all add: asked_tuple_def query_attr_def zeroed_attr_def)
  then show ?thesis by (auto simp: kern_query_def Let_def split: sum.split)
qed

text \<open>A pushed verdict is keyed on exactly the binary, destination and protocol it was settled for: a
  path that does not fit the field is never cut to another one, and then nothing is pushed.\<close>

theorem pushed_verdict_exact:
  assumes "0 \<notin> set (as_bytes path)"
  shows "snd (push_verdict dev proto dst dport path allow k)
     = (if dead k \<or> proto \<notin> {6, 17} \<or> path = [] \<or> 1024 \<le> length path then []
        else [(verdict_push_cmd, VerdictArg (verdict_struct proto dst dport path allow))])
    \<and> pushed_for (verdict_struct proto dst dport path allow) = Some (proto, dst, dport, as_bytes path)
    \<and> (v_verdict (verdict_struct proto dst dport path allow) = PFSNITCH_V_ALLOW \<longleftrightarrow> allow)"
  using takeWhile_pad [OF assms, of 1024]
  by (auto simp: push_verdict_def ctl_def pushed_for_def verdict_struct_def as_bytes_def
      PFSNITCH_V_ALLOW_def PFSNITCH_V_DENY_def split: option.split)

lemma pushed_verdict_exact_witness:
  "pushed_for (verdict_struct 6 (V4 10 0 0 7) 443 ''/bin/a'' False) = Some (6, V4 10 0 0 7, 443, as_bytes ''/bin/a'')"
proof -
  have "0 \<notin> set (as_bytes ''/bin/a'')" by code_simp
  from pushed_verdict_exact [OF this] show ?thesis by blast
qed

section \<open>A dead handle\<close>

text \<open>
  The contract of the commands on the control handle: a dead handle issues nothing and stays dead, and a
  live one dies exactly when the device answers with one of the errors of a device that is gone.
\<close>

definition gone :: "int \<Rightarrow> bool" where
  "gone e \<longleftrightarrow> e \<in> {ENOTTY, ENXIO, EBADF, ENODEV}"

locale control_command =
  fixes op :: "device \<Rightarrow> 'a \<Rightarrow> kern_attr \<Rightarrow> kern_attr \<times> ioctl_call list"
  assumes dead_silent: "dead k \<Longrightarrow> op dev a k = (k, [])"
    and at_most_one: "op dev a k = (k', calls) \<Longrightarrow> calls = [] \<and> k' = k \<or>
      (\<exists>cmd arg. calls = [(cmd, arg)] \<and> k_fd k' = k_fd k
         \<and> dead k' = (dead k \<or> (\<exists>e. dev_ctl dev cmd arg = Some e \<and> gone e)))"
begin

lemma stays_dead: "dead k \<Longrightarrow> dead (fst (op dev a k))"
  by (simp add: dead_silent)

lemma fd_kept: "k_fd (fst (op dev a k)) = k_fd k"
  using at_most_one [of dev a k "fst (op dev a k)" "snd (op dev a k)"] by auto

lemma fold_dead:
  "dead k \<Longrightarrow> fold (\<lambda>a (k, calls). case op dev a k of (k', new) \<Rightarrow> (k', calls @ new)) as (k, calls) = (k, calls)"
  by (induction as) (simp_all add: dead_silent)

end

lemma ctl_command:
  "ctl dev cmd arg k = (k', calls) \<Longrightarrow> calls = [(cmd, arg)] \<and> k_fd k' = k_fd k
     \<and> dead k' = (dead k \<or> (\<exists>e. dev_ctl dev cmd arg = Some e \<and> gone e))"
  by (auto simp: ctl_def note_errno_def gone_def split: option.splits if_splits)

interpretation kpush: control_command "\<lambda>dev (proto, dst, dport, path, allow). push_verdict dev proto dst dport path allow"
  by unfold_locales
    (auto simp: push_verdict_def split: prod.splits if_splits dest!: ctl_command)

interpretation kflush: control_command "\<lambda>dev (u :: unit). flush_verdicts dev"
  by unfold_locales (auto simp: flush_verdicts_def split: if_splits dest!: ctl_command)

interpretation kres: control_command "\<lambda>dev (eid, allow). kern_resolve dev eid allow"
  by unfold_locales (auto simp: kern_resolve_def split: prod.splits if_splits dest!: ctl_command)

interpretation kup: control_command set_upcall
  by unfold_locales (auto simp: set_upcall_def split: if_splits dest!: ctl_command)

text \<open>A session on the handle: the operations the daemon issues, each with the device at that moment.\<close>

datatype kern_op =
    Query tuple
  | PushVerdict u8 ip_addr u16 string bool
  | FlushVerdicts
  | ResolveEvent u64 bool
  | SetUpcall bool

fun run_op :: "device \<Rightarrow> kern_op \<Rightarrow> kern_attr \<Rightarrow> kern_attr \<times> ioctl_call list" where
  "run_op dev (Query t) k = (case kern_query dev k t of (r, k', cs) \<Rightarrow> (k', cs))"
| "run_op dev (PushVerdict pr a p path allow) k = push_verdict dev pr a p path allow k"
| "run_op dev FlushVerdicts k = flush_verdicts dev k"
| "run_op dev (ResolveEvent eid allow) k = kern_resolve dev eid allow k"
| "run_op dev (SetUpcall on) k = set_upcall dev on k"

fun kern_session :: "(device \<times> kern_op) list \<Rightarrow> kern_attr \<Rightarrow> kern_attr \<times> ioctl_call list" where
  "kern_session [] k = (k, [])"
| "kern_session ((dev, c) # cs) k = (case run_op dev c k of (k', new) \<Rightarrow>
     (case kern_session cs k' of (k'', rest) \<Rightarrow> (k'', new @ rest)))"

lemma run_op_dead:
  assumes "dead k"
  shows "dead (fst (run_op dev c k)) \<and> set (snd (run_op dev c k)) \<subseteq> range (\<lambda>q. (attr_query_cmd, AttrArg q))"
proof (cases c)
  case (Query t)
  then show ?thesis using assms by (auto simp: kern_query_def note_errno_def Let_def split: sum.split)
next
  case (PushVerdict pr a p path allow)
  then show ?thesis using kpush.dead_silent [OF assms, of dev "(pr, a, p, path, allow)"] assms by simp
next
  case FlushVerdicts
  then show ?thesis using kflush.dead_silent [OF assms] assms by simp
next
  case (ResolveEvent eid allow)
  then show ?thesis using kres.dead_silent [OF assms, of dev "(eid, allow)"] assms by simp
next
  case (SetUpcall on)
  then show ?thesis using kup.dead_silent [OF assms] assms by simp
qed

text \<open>A handle that died stays dead: whatever is done with it afterwards, no verdict, flush, answer or
  switch is sent to the device again; only queries still reach it.\<close>

theorem dead_handle_silent:
  assumes "dead k"
  shows "dead (fst (kern_session ops k)) \<and> set (snd (kern_session ops k)) \<subseteq> range (\<lambda>q. (attr_query_cmd, AttrArg q))"
  using assms
proof (induction ops arbitrary: k)
  case (Cons oc ops)
  obtain dev c where oc: "oc = (dev, c)" by fastforce
  have one: "dead (fst (run_op dev c k))" "set (snd (run_op dev c k)) \<subseteq> range (\<lambda>q. (attr_query_cmd, AttrArg q))"
    using run_op_dead [OF Cons.prems] by auto
  show ?case using Cons.IH [OF one(1)] one oc by (simp split: prod.split) auto
qed simp

lemma dead_handle_silent_witness:
  "dead (fst (kern_session [(\<lparr>dev_query = (\<lambda>c q. Inl 25), dev_ctl = (\<lambda>c a. None)\<rparr>, SetUpcall False)] \<lparr>k_fd = 3, dead = True\<rparr>))"
  by (rule conjunct1 [OF dead_handle_silent]) simp

section \<open>Events\<close>

text \<open>The event the module writes for a connection attempt.\<close>

definition event_struct :: "kern_event \<Rightarrow> pfsnitch_event" where
  "event_struct e = \<lparr>ev_id = ke_id e, ev_af = (if is_v4 (ke_dst e) then 4 else 6), ev_proto = ke_proto e,
     ev_fport = swap16 (ke_dport e), ev_faddr = pad_to 16 (octets (ke_dst e)), ev_nonblock = (if ke_nonblock e then 1 else 0),
     ev_pid = ke_pid e, ev_uid = ke_uid e, ev_path = pad_to 1024 (as_bytes (ke_path e))\<rparr>"

text \<open>The reader gets every event back as the module wrote it: for a path in UTF-8 without a zero byte,
  the record read is the connection attempt, and anything that is not a whole event is an error or the end.\<close>

theorem read_event_roundtrip:
  assumes "str_valid (ke_path e)" "0 \<notin> set (as_bytes (ke_path e))"
  shows "read_event n err (event_struct e)
    = (if n = 0 then Inr None else if n < 0 then Inl (OsError err)
       else if n \<noteq> 1064 then Inl ShortEvent else Inr (Some e))"
proof -
  have path: "cstr (pad_to 1024 (as_bytes (ke_path e))) = ke_path e"
    by (simp add: cstr_def takeWhile_pad [OF assms(2)] from_utf8_lossy_as_bytes [OF assms(1)])
  have "n = 1064 \<Longrightarrow> read_event n err (event_struct e) = Inr (Some e)"
    using addr_of_pad [of "ke_dst e"] path
    by (cases "is_v4 (ke_dst e)")
      (simp_all add: read_event_def event_struct_def sizes addr_of_def split: if_splits)
  then show ?thesis by (auto simp: read_event_def sizes)
qed

lemma read_event_roundtrip_witness:
  "read_event 1064 0 (event_struct \<lparr>ke_id = 9, ke_proto = 17, ke_dst = V4 10 0 0 7, ke_dport = 443, ke_nonblock = True,
      ke_pid = 77, ke_uid = 1001, ke_path = ''/bin/a''\<rparr>)
   = Inr (Some \<lparr>ke_id = 9, ke_proto = 17, ke_dst = V4 10 0 0 7, ke_dport = 443, ke_nonblock = True,
      ke_pid = 77, ke_uid = 1001, ke_path = ''/bin/a''\<rparr>)"
proof -
  have "str_valid ''/bin/a''" "0 \<notin> set (as_bytes ''/bin/a'')" by code_simp+
  then show ?thesis by (subst read_event_roundtrip) simp_all
qed

text \<open>Paths that are not UTF-8 are told apart by the module but not by the daemon.\<close>

lemma lossy_paths_collide:
  "cstr (pad_to 1024 [0x2f, 0xff]) = cstr (pad_to 1024 [0x2f, 0xfe])"
proof -
  have "cstr (pad_to 1024 p) = from_utf8_lossy p" if "0 \<notin> set p" for p
    by (simp add: cstr_def takeWhile_pad [OF that])
  moreover have "from_utf8_lossy [0x2f, 0xff] = from_utf8_lossy [0x2f, 0xfe]" by code_simp
  ultimately show ?thesis by simp
qed

end
