(* ===== verification/Fmt.thy ===== *)
theory Fmt
  imports Rust_Str
begin

text \<open>
  What the program uses of Rust's formatting: signed integers, fields padded to a width counted in
  characters, and what the commands and the daemon share of \<open>src/main.rs\<close>: the paths and the JSON
  escapes.
\<close>

text \<open>The paths the commands and the daemon share.\<close>

definition POLICY_PATH :: string where "POLICY_PATH = ''/usr/local/etc/pfsnitch/policy.conf''"
definition PROMPT_BIN :: string where "PROMPT_BIN = ''/usr/local/libexec/pfsnitch-prompt''"

section \<open>Numbers and fields\<close>

definition show_int :: "int \<Rightarrow> string" where
  "show_int i = (if i < 0 then ''-'' @ show_nat (nat (- i)) else show_nat (nat i))"

text \<open>The number of characters of a string: the bytes that do not continue one.\<close>

definition char_count :: "string \<Rightarrow> nat" where
  "char_count s = length (filter (\<lambda>c. \<not> cont_byte (of_char c)) s)"

text \<open>\<open>{:<n}\<close> and \<open>{:>n}\<close>\<close>

definition ljust :: "nat \<Rightarrow> string \<Rightarrow> string" where
  "ljust n s = s @ replicate (n - char_count s) (CHR '' '')"

definition rjust :: "nat \<Rightarrow> string \<Rightarrow> string" where
  "rjust n s = replicate (n - char_count s) (CHR '' '') @ s"

section \<open>JSON\<close>

definition quote_char :: char where "quote_char = CHR 0x22"
definition backslash :: char where "backslash = CHR 0x5C"

definition hex4 :: "nat \<Rightarrow> string" where
  "hex4 n = (let h = show_base 16 n in replicate (4 - length h) (CHR ''0'') @ h)"

definition json_escape_char :: "char \<Rightarrow> string" where
  "json_escape_char c =
     (if c = quote_char then [backslash, quote_char]
      else if c = backslash then [backslash, backslash]
      else if c = newline then [backslash, CHR ''n'']
      else if c = CHR 0x0D then [backslash, CHR ''r'']
      else if c = tab then [backslash, CHR ''t'']
      else if (of_char c :: nat) < 0x20 then backslash # CHR ''u'' # hex4 (of_char c)
      else [c])"

definition json_escape :: "string \<Rightarrow> string" where
  "json_escape s = concat (map json_escape_char s)"

text \<open>Reading the body of a JSON string back: the escapes of RFC 8259 with code points below 256.\<close>

fun json_unescape :: "string \<Rightarrow> string option" where
  "json_unescape [] = Some []"
| "json_unescape [c] = (if c = backslash \<or> c = quote_char \<or> (of_char c :: nat) < 0x20 then None else Some [c])"
| "json_unescape (c # d # s) =
     (if c = backslash then
        (if d = CHR ''u'' then
           (case s of
              h1 # h2 # h3 # h4 # r \<Rightarrow>
                (case (to_digit 16 h1, to_digit 16 h2, to_digit 16 h3, to_digit 16 h4) of
                   (Some a, Some b, Some e, Some f) \<Rightarrow>
                     map_option ((#) (char_of (4096 * a + 256 * b + 16 * e + f))) (json_unescape r)
                 | _ \<Rightarrow> None)
            | _ \<Rightarrow> None)
         else if d = CHR ''n'' then map_option ((#) newline) (json_unescape s)
         else if d = CHR ''r'' then map_option ((#) (CHR 0x0D)) (json_unescape s)
         else if d = CHR ''t'' then map_option ((#) tab) (json_unescape s)
         else if d = quote_char \<or> d = backslash then map_option ((#) d) (json_unescape s)
         else None)
      else if c = quote_char \<or> (of_char c :: nat) < 0x20 then None
      else map_option ((#) c) (json_unescape (d # s)))"

definition json_u4 :: "nat \<Rightarrow> bool" where
  "json_u4 n \<longleftrightarrow> (case hex4 n of
      [h1, h2, h3, h4] \<Rightarrow>
        (case (to_digit 16 h1, to_digit 16 h2, to_digit 16 h3, to_digit 16 h4) of
           (Some a, Some b, Some e, Some f) \<Rightarrow> 4096 * a + 256 * b + 16 * e + f = n
         | _ \<Rightarrow> False)
    | _ \<Rightarrow> False)"

lemma json_u4_small: "n < 32 \<Longrightarrow> json_u4 n"
proof -
  assume n: "n < 32"
  have "\<forall>n \<in> set [0..<32]. json_u4 n" by code_simp
  then show ?thesis using n by simp
qed

lemma json_unescape_cons:
  "c \<noteq> backslash \<Longrightarrow> c \<noteq> quote_char \<Longrightarrow> \<not> (of_char c :: nat) < 0x20 \<Longrightarrow>
     json_unescape (c # s) = map_option ((#) c) (json_unescape s)"
  by (cases s) auto

lemma json_unescape_escape_char: "json_unescape (json_escape_char c @ s) = map_option ((#) c) (json_unescape s)"
proof -
  have neq: "CHR ''n'' \<noteq> CHR ''u''" "backslash \<noteq> CHR ''u''" "quote_char \<noteq> CHR ''u''"
    "quote_char \<noteq> CHR ''n''" "quote_char \<noteq> CHR ''r''" "quote_char \<noteq> CHR ''t''"
    "backslash \<noteq> CHR ''n''" "backslash \<noteq> CHR ''r''" "backslash \<noteq> CHR ''t''"
    by (simp_all add: backslash_def quote_char_def)
  have "json_unescape (backslash # CHR ''u'' # hex4 (of_char c) @ s) = map_option ((#) c) (json_unescape s)"
    if "(of_char c :: nat) < 0x20"
  proof -
    have "json_u4 (of_char c)" using that by (simp add: json_u4_small)
    then show ?thesis
      by (auto simp: json_u4_def simp del: json_unescape.simps split: list.splits option.splits)
        (auto simp: json_unescape.simps)
  qed
  then show ?thesis
    using neq by (auto simp: json_escape_char_def json_unescape_cons)
qed

lemma json_unescape_escape: "json_unescape (json_escape s) = Some s"
  by (induction s) (simp_all add: json_escape_def json_unescape_escape_char)

text \<open>An escaped string has no bare quote and no control character, so it stays inside its quotes and on its
  line.\<close>

lemma json_escape_one_line: "newline \<notin> set (json_escape s) \<and> CHR 0x0D \<notin> set (json_escape s)"
proof -
  have d: "\<not> (of_char x :: nat) < 0x20" if "to_digit 16 x \<noteq> None" for x
    using that by (auto simp: to_digit_def Let_def split: if_splits)
  have h: "x \<in> set (hex4 (of_char c)) \<Longrightarrow> \<not> (of_char x :: nat) < 0x20" if "(of_char c :: nat) < 0x20" for x c
  proof -
    assume "x \<in> set (hex4 (of_char c))"
    moreover have "\<forall>n \<in> set [0..<32]. \<forall>x \<in> set (hex4 n). \<not> (of_char x :: nat) < 0x20" by code_simp
    ultimately show ?thesis using that by auto
  qed
  have "\<not> (of_char x :: nat) < 0x20" if "x \<in> set (json_escape_char c)" for x c
    using that h [of c x] by (auto simp: json_escape_char_def backslash_def quote_char_def split: if_splits)
  then have "\<not> (of_char x :: nat) < 0x20" if "x \<in> set (json_escape s)" for x
    using that by (auto simp: json_escape_def)
  from this [of newline] this [of "CHR 0x0D"] show ?thesis by (auto simp: newline_def)
qed

end
