(* ===== verification/Daemon.thy ===== *)
theory Daemon
  imports Policy_File Divert Dns Identity Seen Kernattr Fmt
begin

text \<open>
  The daemon (\<open>run\<close> in \<open>src/main.rs\<close>): its state, the handlers of one round of its loop, and the loop as
  a step relation.

  The state holds the local variables of \<open>run\<close>, the disk, the prompts that are open, and the trace of the
  actions the daemon has taken on the outside world: ioctls, packets sent, prompts raised, pf's UDP divert
  rule, rows of the log.  What the outside world answers is an argument \<open>env\<close> of every handler.  Messages to
  standard error are left out, except for the warning that a binary has changed.
\<close>

section \<open>Actions and state\<close>

definition DIVERT_PORT :: u16 where "DIVERT_PORT = 8668"

datatype action =
    Ioctl u64 ioctl_arg
  | OpenDevice
  | CloseDevice int
  | SpawnReader int
  | UdpDivert bool
  | Prompt string "string list"
  | ChangedWarning string
  | Reinject bytes sockaddr_in
  | ReinjectInbound bytes
  | FlowRow string
  | Exit int

record pending =
  pn_host :: "string option"
  pn_exe :: "string option"
  pn_dst :: ip_addr
  pn_dport :: u16

type_synonym flow_key = "u8 \<times> ip_addr \<times> u16 \<times> ip_addr \<times> u16"
type_synonym question = "string \<times> string"

record daemon =
  d_pol :: policy
  d_mode :: mode
  d_mode_fallback :: mode
  d_kern :: "kern_attr option"
  d_mtime :: "nat option"
  d_last_check :: nat
  d_upcall_on :: bool
  d_pending :: "(question, u64 list) hashmap"
  d_res :: resolver
  d_ident :: identity
  d_seen :: seen
  d_id_warned :: "string set"
  d_names :: dns_cache
  d_asking :: "question set"
  d_logged :: "flow_key list"
  d_decided :: "(flow_key, verdict) hashmap"
  d_logged_cleared :: nat
  d_prompt_bin :: string
  d_prompts :: "pending list"
  d_disk :: disk
  d_trace :: "action list"

text \<open>What the outside world answers while a handler runs: the clocks, the device, \<open>open(2)\<close> on it, the
  modification time of the policy file, the files and their hashes, the processes.\<close>

record env =
  e_clock :: nat
  e_unix :: u64
  e_dev :: device
  e_open :: "int \<times> int"
  e_reader :: "int \<times> int"
  e_mtime :: "disk \<Rightarrow> nat option"
  e_stat :: "string \<Rightarrow> file_stat option"
  e_sha :: "string \<Rightarrow> proc_output option"
  e_ps :: procstat
  e_write :: "nat option"

definition emit :: "action list \<Rightarrow> daemon \<Rightarrow> daemon" where
  "emit as d = d\<lparr>d_trace := d_trace d @ as\<rparr>"

text \<open>\<open>if let Some(k) = kern.as_ref()\<close> and a command on the handle.\<close>

definition with_kern :: "(kern_attr \<Rightarrow> kern_attr \<times> ioctl_call list) \<Rightarrow> daemon \<Rightarrow> daemon" where
  "with_kern f d = (case d_kern d of
      None \<Rightarrow> d
    | Some k \<Rightarrow> (case f k of (k', calls) \<Rightarrow>
        emit (map (\<lambda>(c, a). Ioctl c a) calls) (d\<lparr>d_kern := Some k'\<rparr>)))"

text \<open>\<open>kern = \<dots>\<close>: the handle that is replaced is closed.\<close>

definition set_kern :: "kern_attr option \<Rightarrow> daemon \<Rightarrow> daemon" where
  "set_kern k d = (case d_kern d of
      None \<Rightarrow> d\<lparr>d_kern := k\<rparr>
    | Some old \<Rightarrow> emit [CloseDevice (k_fd old)] (d\<lparr>d_kern := k\<rparr>))"

definition set_udp_divert :: "bool \<Rightarrow> daemon \<Rightarrow> daemon" where
  "set_udp_divert b d = emit [UdpDivert b] d"

section \<open>Questions and prompts\<close>

definition ask_key :: "string option \<Rightarrow> ip_addr \<Rightarrow> string" where
  "ask_key host dst = (case host of
      Some h \<Rightarrow> if h \<noteq> [] \<and> h \<noteq> ''-'' then to_lowercase h else show_ip dst
    | None \<Rightarrow> show_ip dst)"

definition opt_name :: "string \<Rightarrow> string option" where
  "opt_name h = (if h = [] then None else Some h)"

definition prompt_args ::
  "bool \<Rightarrow> string option \<Rightarrow> int \<Rightarrow> string \<Rightarrow> ip_addr \<Rightarrow> u16 \<Rightarrow> string \<Rightarrow> string \<Rightarrow> string list" where
  "prompt_args id_changed exe pd cmd dst dport host scp =
     [case exe of Some e \<Rightarrow> e | None \<Rightarrow> ''<unknown>'', show_int pd, if cmd = [] then ''<unknown>'' else cmd,
      show_ip dst, show_nat (unat dport), if host = [] then ''-'' else host,
      if id_changed then ''changed'' else ''ok'', scp]"

text \<open>The thread started by \<open>spawn_prompt\<close> runs the prompt program and sends its answer with the question.\<close>

definition spawn_prompt ::
  "bool \<Rightarrow> string option \<Rightarrow> int \<Rightarrow> string \<Rightarrow> ip_addr \<Rightarrow> u16 \<Rightarrow> string \<Rightarrow> string \<Rightarrow> daemon \<Rightarrow> daemon" where
  "spawn_prompt id_changed exe pd cmd dst dport host scp d =
     emit [Prompt (d_prompt_bin d) (prompt_args id_changed exe pd cmd dst dport host scp)]
       (d\<lparr>d_prompts := d_prompts d @ [\<lparr>pn_host = opt_name host, pn_exe = exe, pn_dst = dst, pn_dport = dport\<rparr>]\<rparr>)"

definition prompt_answer :: "bytes option \<Rightarrow> answer" where
  "prompt_answer out = (case out of
      None \<Rightarrow> Timeout
    | Some b \<Rightarrow> (case parse_answer (from_utf8_lossy b) of Some a \<Rightarrow> a | None \<Rightarrow> Timeout))"

definition pending_key :: "pending \<Rightarrow> question" where
  "pending_key p = (unwrap_or_empty (pn_exe p), ask_key (pn_host p) (pn_dst p))"

section \<open>The policy file and the identity of a binary\<close>

definition ident_hash :: "env \<Rightarrow> string \<Rightarrow> daemon \<Rightarrow> string option \<times> daemon" where
  "ident_hash env e d = (case identity_hash (e_stat env e) (e_sha env e) e (d_ident d) of
      (h, i) \<Rightarrow> (h, d\<lparr>d_ident := i\<rparr>))"

definition pol_record ::
  "answer \<Rightarrow> string option \<Rightarrow> ip_addr \<Rightarrow> string option \<Rightarrow> u16 \<Rightarrow> origin \<Rightarrow> daemon \<Rightarrow> daemon" where
  "pol_record ans exe dst host dport orig d =
     (case policy_record (d_disk d) POLICY_PATH (d_pol d) ans exe dst host dport orig of
        (p, dk) \<Rightarrow> d\<lparr>d_pol := p, d_disk := dk\<rparr>)"

definition pol_record_id :: "string \<Rightarrow> string \<Rightarrow> daemon \<Rightarrow> daemon" where
  "pol_record_id e sha d = (case policy_record_id (d_disk d) POLICY_PATH (d_pol d) e sha of
      (p, dk) \<Rightarrow> d\<lparr>d_pol := p, d_disk := dk\<rparr>)"

text \<open>Is the binary at \<open>e\<close> another one than the approved one?  The warning is given once.\<close>

definition check_id :: "env \<Rightarrow> string \<Rightarrow> daemon \<Rightarrow> bool \<times> daemon" where
  "check_id env e d = (case expected_id (d_pol d) e of
      None \<Rightarrow> (False, d)
    | Some expected \<Rightarrow>
       (case ident_hash env e d of
          (None, d1) \<Rightarrow> (False, d1)
        | (Some actual, d1) \<Rightarrow>
           if actual \<noteq> expected then
             (True, if e \<in> d_id_warned d1 then d1
                    else emit [ChangedWarning e] (d1\<lparr>d_id_warned := insert e (d_id_warned d1)\<rparr>))
           else (False, d1)))"

section \<open>Answers\<close>

definition allows :: "answer \<Rightarrow> bool" where
  "allows ans \<longleftrightarrow> ans = AllowConn \<or> ans = AllowApp"

definition resolve_all :: "env \<Rightarrow> bool \<Rightarrow> u64 list \<Rightarrow> daemon \<Rightarrow> daemon" where
  "resolve_all env allow ids d = fold (\<lambda>i. with_kern (kern_resolve (e_dev env) i allow)) ids d"

definition answer_upcalls :: "env \<Rightarrow> answer \<Rightarrow> question \<Rightarrow> daemon \<Rightarrow> daemon" where
  "answer_upcalls env ans key d = (case hm_get (d_pending d) key of
      None \<Rightarrow> d
    | Some ids \<Rightarrow> resolve_all env (allows ans) ids (d\<lparr>d_pending := hm_remove key (d_pending d)\<rparr>))"

text \<open>An approval pins the binary that is there now.\<close>

definition repin :: "env \<Rightarrow> answer \<Rightarrow> string option \<Rightarrow> daemon \<Rightarrow> daemon" where
  "repin env ans exe d = (case exe of
      None \<Rightarrow> d
    | Some e \<Rightarrow>
       (if allows ans then
          (case ident_hash env e (d\<lparr>d_pol := forget_id (d_pol d) e, d_id_warned := d_id_warned d - {e}\<rparr>) of
             (None, d1) \<Rightarrow> d1
           | (Some sha, d1) \<Rightarrow> pol_record_id e sha d1)
        else d))"

definition drain_answer :: "env \<Rightarrow> answer \<Rightarrow> pending \<Rightarrow> daemon \<Rightarrow> daemon" where
  "drain_answer env ans p d =
     (let key = pending_key p;
          d = d\<lparr>d_prompts := remove1 p (d_prompts d), d_asking := d_asking d - {key}\<rparr>;
          d = answer_upcalls env ans key d;
          d = repin env ans (pn_exe p) d
      in pol_record ans (pn_exe p) (pn_dst p) (pn_host p) (pn_dport p) Approved d)"

section \<open>Upcalls\<close>

definition kern_answer :: "env \<Rightarrow> u64 \<Rightarrow> bool \<Rightarrow> daemon \<Rightarrow> daemon" where
  "kern_answer env eid allow = with_kern (kern_resolve (e_dev env) eid allow)"

definition push_pending :: "question \<Rightarrow> u64 \<Rightarrow> (question, u64 list) hashmap \<Rightarrow> (question, u64 list) hashmap" where
  "push_pending key eid m = hm_insert key ((case hm_get m key of None \<Rightarrow> [] | Some ids \<Rightarrow> ids) @ [eid]) m"

definition ask_upcall :: "bool \<Rightarrow> kern_event \<Rightarrow> string option \<Rightarrow> daemon \<Rightarrow> daemon" where
  "ask_upcall id_changed ev host d =
     (let hostname = unwrap_or_empty host;
          key = (ke_path ev, ask_key (opt_name hostname) (ke_dst ev));
          d = (if key \<in> d_asking d then d
               else spawn_prompt id_changed (Some (ke_path ev)) (ke_pid ev) (after_last_char (CHR ''/'') (ke_path ev))
                      (ke_dst ev) (ke_dport ev) hostname ''kernel'' (d\<lparr>d_asking := insert key (d_asking d)\<rparr>))
      in d\<lparr>d_pending := push_pending key (ke_id ev) (d_pending d)\<rparr>)"

definition drain_upcall :: "env \<Rightarrow> kern_event \<Rightarrow> daemon \<Rightarrow> daemon" where
  "drain_upcall env ev d =
     (if ke_path ev = [] then kern_answer env (ke_id ev) True d
      else let host = name_for (d_names d) (ke_dst ev) in
        case check_id env (ke_path ev) d of (id_changed, d1) \<Rightarrow>
          (case (if id_changed then Ask else decide (d_pol d1) (Some (ke_path ev)) (ke_dst ev) host (ke_dport ev)) of
             Allow \<Rightarrow> kern_answer env (ke_id ev) True d1
           | Deny \<Rightarrow> kern_answer env (ke_id ev) False d1
           | Ask \<Rightarrow> ask_upcall id_changed ev host d1))"

section \<open>The periodic work\<close>

definition tick_seen :: "env \<Rightarrow> daemon \<Rightarrow> daemon" where
  "tick_seen env d = (case seen_flush (10 * 1000) (e_clock env) (e_write env) (d_seen d) (d_disk d) of
      (s, dk) \<Rightarrow> d\<lparr>d_seen := s, d_disk := dk\<rparr>)"

definition tick_logged :: "env \<Rightarrow> daemon \<Rightarrow> daemon" where
  "tick_logged env d =
     (if 120 * 1000 \<le> e_clock env - d_logged_cleared d \<or> 8192 < length (d_logged d)
      then d\<lparr>d_logged := [], d_logged_cleared := e_clock env\<rparr> else d)"

text \<open>Opening the control device and clearing its cache.\<close>

definition open_kern :: "env \<Rightarrow> kern_attr option \<times> action list" where
  "open_kern env = (case kern_open (fst (e_open env)) (snd (e_open env)) of
      Inl e \<Rightarrow> (None, [OpenDevice])
    | Inr k \<Rightarrow> (case flush_verdicts (e_dev env) k of
        (k', calls) \<Rightarrow> (Some k', OpenDevice # map (\<lambda>(c, a). Ioctl c a) calls)))"

definition kern_backend :: "env \<Rightarrow> policy \<Rightarrow> kern_attr option \<times> action list" where
  "kern_backend env p = (if policy_attribution p \<noteq> KernelModule then (None, []) else open_kern env)"

definition tick_kern :: "env \<Rightarrow> daemon \<Rightarrow> daemon" where
  "tick_kern env d =
     (if policy_attribution (d_pol d) = KernelModule then
        (case d_kern d of
           Some k \<Rightarrow> if is_dead k then set_kern None d else d
         | None \<Rightarrow> (case open_kern env of (k, as) \<Rightarrow> emit as (d\<lparr>d_kern := k\<rparr>)))
      else d)"

definition upcall_off :: "env \<Rightarrow> daemon \<Rightarrow> daemon" where
  "upcall_off env d =
     set_udp_divert True ((with_kern (set_upcall (e_dev env) False) d)\<lparr>d_upcall_on := False, d_pending := []\<rparr>)"

definition switch_attribution :: "env \<Rightarrow> daemon \<Rightarrow> daemon" where
  "switch_attribution env d =
     (let d = (if d_upcall_on d then upcall_off env d else d)
      in case kern_backend env (d_pol d) of (k, as) \<Rightarrow> set_kern k (emit as d))"

definition reload_policy :: "env \<Rightarrow> daemon \<Rightarrow> daemon" where
  "reload_policy env d0 =
     (let p = fst (policy_load (d_disk d0) POLICY_PATH);
          d = d0\<lparr>d_pol := p, d_mode := policy_mode p (d_mode_fallback d0)\<rparr>;
          d = (if policy_attribution p \<noteq> policy_attribution (d_pol d0) then switch_attribution env d else d);
          d = d\<lparr>d_decided := []\<rparr>
      in with_kern (flush_verdicts (e_dev env)) d)"

definition tick_reload :: "env \<Rightarrow> daemon \<Rightarrow> daemon" where
  "tick_reload env d = (let m = e_mtime env (d_disk d) in
     if m \<noteq> d_mtime d then reload_policy env (d\<lparr>d_mtime := m\<rparr>) else d)"

definition want_upcall :: "daemon \<Rightarrow> bool" where
  "want_upcall d \<longleftrightarrow> d_kern d \<noteq> None \<and> enforcing (d_mode d)"

definition tick_reconcile :: "env \<Rightarrow> daemon \<Rightarrow> daemon" where
  "tick_reconcile env d =
     (if want_upcall d \<and> \<not> d_upcall_on d then
        (case reader_open (fst (e_reader env)) (snd (e_reader env)) of
           Inr fd \<Rightarrow> set_udp_divert False
             (emit [SpawnReader fd] ((with_kern (set_upcall (e_dev env) True) d)\<lparr>d_upcall_on := True\<rparr>))
         | Inl e \<Rightarrow> d)
      else if \<not> want_upcall d \<and> d_upcall_on d then upcall_off env d
      else d)"

definition tick :: "env \<Rightarrow> daemon \<Rightarrow> daemon" where
  "tick env d0 = (let d = tick_logged env (tick_seen env d0) in
     if 1000 \<le> e_clock env - d_last_check d
     then tick_reconcile env (tick_reload env (tick_kern env (d\<lparr>d_last_check := e_clock env\<rparr>)))
     else d)"

section \<open>Packets\<close>

definition flow_key :: "flow \<Rightarrow> flow_key" where
  "flow_key f = (f_proto f, f_src f, f_sport f, f_dst f, f_dport f)"

definition flow_tuple :: "flow \<Rightarrow> tuple" where
  "flow_tuple f = \<lparr>t_proto = f_proto f, t_src = f_src f, t_sport = f_sport f, t_dst = f_dst f, t_dport = f_dport f\<rparr>"

text \<open>The kernel is asked first, then the scan of the processes.\<close>

definition attribute_flow :: "env \<Rightarrow> flow \<Rightarrow> daemon \<Rightarrow> attributed option \<times> daemon" where
  "attribute_flow env f d =
     (let t = flow_tuple f;
          (ka, d) = (case d_kern d of
             None \<Rightarrow> (None, d)
           | Some k \<Rightarrow> (case kern_query (e_dev env) k t of
               (a, k', calls) \<Rightarrow> (a, emit (map (\<lambda>(c, a). Ioctl c a) calls) (d\<lparr>d_kern := Some k'\<rparr>))))
      in case ka of
           Some a \<Rightarrow> (Some a, d)
         | None \<Rightarrow> (case resolve (e_ps env) (e_clock env) (d_res d) t True of (a, r) \<Rightarrow> (a, d\<lparr>d_res := r\<rparr>)))"

text \<open>Holding a packet while its question is open.\<close>

definition ask_packet :: "bool \<Rightarrow> attributed option \<Rightarrow> flow \<Rightarrow> daemon \<Rightarrow> daemon" where
  "ask_packet id_changed att f d =
     (let owner = map_option a_owner att;
          exe = map_option opath owner;
          scp = (case att of Some a \<Rightarrow> confidence_str (a_confidence a) | None \<Rightarrow> ''none'');
          host = unwrap_or_empty (name_for (d_names d) (f_dst f));
          key = (unwrap_or_empty exe, ask_key (opt_name host) (f_dst f))
      in if key \<in> d_asking d then d
         else spawn_prompt id_changed exe (case owner of Some o' \<Rightarrow> pid o' | None \<Rightarrow> 0)
                (case owner of Some o' \<Rightarrow> command o' | None \<Rightarrow> []) (f_dst f) (f_dport f) host scp
                (d\<lparr>d_asking := insert key (d_asking d)\<rparr>))"

text \<open>Learning a destination instead of asking.\<close>

definition learn_packet :: "env \<Rightarrow> string option \<Rightarrow> string option \<Rightarrow> flow \<Rightarrow> daemon \<Rightarrow> daemon" where
  "learn_packet env exe hostname f d =
     (let d = pol_record AllowConn exe (f_dst f) hostname (f_dport f) Learned d
      in d\<lparr>d_mtime := e_mtime env (d_disk d)\<rparr>)"

text \<open>Whether to let the packet through, whether to reject it, and what the log calls it.\<close>

definition act_on_verdict ::
  "env \<Rightarrow> verdict \<Rightarrow> bool \<Rightarrow> attributed option \<Rightarrow> string option \<Rightarrow> flow \<Rightarrow> daemon \<Rightarrow> bool \<times> bool \<times> string \<times> daemon" where
  "act_on_verdict env v id_changed att hostname f d = (case v of
      Allow \<Rightarrow> (True, False, verdict_debug v, d)
    | Deny \<Rightarrow> (False, True, verdict_debug v, d)
    | Ask \<Rightarrow>
       if enforcing (d_mode d) then (False, False, verdict_debug v, ask_packet id_changed att f d)
       else (True, False, ''Learn'', learn_packet env (map_option (opath \<circ> a_owner) att) hostname f d))"

definition decided_put :: "flow_key \<Rightarrow> verdict \<Rightarrow> (flow_key, verdict) hashmap \<Rightarrow> (flow_key, verdict) hashmap" where
  "decided_put k v m = hm_insert k v (if 16384 < hm_len m then [] else m)"

definition settle :: "env \<Rightarrow> verdict \<Rightarrow> string option \<Rightarrow> flow \<Rightarrow> daemon \<Rightarrow> daemon" where
  "settle env v exe f d =
     (if v = Allow \<or> v = Deny then
        (let d = d\<lparr>d_decided := decided_put (flow_key f) v (d_decided d)\<rparr> in
         if enforcing (d_mode d) then
           (case exe of
              Some p \<Rightarrow> with_kern (push_verdict (e_dev env) (f_proto f) (f_dst f) (f_dport f) p (v = Allow)) d
            | None \<Rightarrow> d)
         else d)
      else d)"

definition note_contact :: "env \<Rightarrow> string option \<Rightarrow> flow \<Rightarrow> daemon \<Rightarrow> daemon" where
  "note_contact env exe f d =
     (let host = (case name_for (d_names d) (f_dst f) of Some h \<Rightarrow> h | None \<Rightarrow> ''-'') in
      case exe of
        Some e \<Rightarrow> d\<lparr>d_seen := touch (e_unix env) e (if host = ''-'' then show_ip (f_dst f) else host) (d_seen d)\<rparr>
      | None \<Rightarrow> d)"

definition flow_row :: "string \<Rightarrow> attributed option \<Rightarrow> string \<Rightarrow> flow \<Rightarrow> string" where
  "flow_row label att host f = ljust 6 label @ '' '' @ show_ip (f_src f) @ '':'' @ show_nat (unat (f_sport f)) @ '' -> ''
     @ show_ip (f_dst f) @ '' ('' @ host @ '') :'' @ show_nat (unat (f_dport f)) @ ''  ''
     @ (case att of
          Some a \<Rightarrow> command (a_owner a) @ '' ['' @ show_int (pid (a_owner a)) @ ''] '' @ opath (a_owner a)
             @ '' ('' @ confidence_str (a_confidence a) @ '')''
        | None \<Rightarrow> ''<unattributed>'')"

definition log_flow :: "string \<Rightarrow> attributed option \<Rightarrow> flow \<Rightarrow> daemon \<Rightarrow> daemon" where
  "log_flow label att f d =
     (if flow_key f \<in> set (d_logged d) then d
      else let host = (case name_for (d_names d) (f_dst f) of Some h \<Rightarrow> h | None \<Rightarrow> ''-'') in
        emit [FlowRow (flow_row label att host f)] (d\<lparr>d_logged := flow_key f # d_logged d\<rparr>))"

definition flow_verdict :: "env \<Rightarrow> string option \<Rightarrow> string option \<Rightarrow> flow \<Rightarrow> daemon \<Rightarrow> bool \<times> verdict \<times> daemon" where
  "flow_verdict env exe hostname f d =
     (case (case exe of Some e \<Rightarrow> check_id env e d | None \<Rightarrow> (False, d)) of
        (id_changed, d1) \<Rightarrow>
          (id_changed, if id_changed then Ask else decide (d_pol d1) exe (f_dst f) hostname (f_dport f), d1))"

text \<open>A flow without a settled verdict.\<close>

definition judge_new :: "env \<Rightarrow> flow \<Rightarrow> daemon \<Rightarrow> bool \<times> bool \<times> daemon" where
  "judge_new env f d =
     (case attribute_flow env f d of (att, d1) \<Rightarrow>
       (let exe = map_option (opath \<circ> a_owner) att; hostname = name_for (d_names d1) (f_dst f) in
        case flow_verdict env exe hostname f d1 of (id_changed, v, d2) \<Rightarrow>
          (case act_on_verdict env v id_changed att hostname f d2 of (allow, reject, label, d3) \<Rightarrow>
             (allow, reject, log_flow label att f (note_contact env exe f (settle env v exe f d3))))))"

definition judge :: "env \<Rightarrow> flow \<Rightarrow> daemon \<Rightarrow> bool \<times> bool \<times> daemon" where
  "judge env f d = (case hm_get (d_decided d) (flow_key f) of
      Some Allow \<Rightarrow> (True, False, d)
    | Some Deny \<Rightarrow> (False, True, d)
    | Some Ask \<Rightarrow> (True, False, d)
    | None \<Rightarrow> judge_new env f d)"

text \<open>The end of the packet's handling: the reset for a settled denial, then the packet itself.\<close>

definition deliver :: "bytes \<Rightarrow> sockaddr_in \<Rightarrow> bool \<Rightarrow> bool \<Rightarrow> daemon \<Rightarrow> daemon eval" where
  "deliver pkt src allow reject d =
     bindE (if enforcing (d_mode d) \<and> reject
            then bindE (tcp_rst pkt) (\<lambda>r. Ret (case r of Some rst \<Rightarrow> emit [ReinjectInbound rst] d | None \<Rightarrow> d))
            else Ret d)
       (\<lambda>d. Ret (if \<not> enforcing (d_mode d) \<or> allow then emit [Reinject pkt src] d else d))"

definition observe_dns :: "env \<Rightarrow> bytes \<Rightarrow> daemon \<Rightarrow> daemon eval" where
  "observe_dns env pkt d = bindE (payload_offset pkt) (\<lambda>po. case po of
      None \<Rightarrow> Ret d
    | Some off \<Rightarrow>
       (if off < length pkt then
          bindE (slice pkt off (length pkt)) (\<lambda>payload.
            bindE (observe (e_clock env) (e_clock env) payload (d_names d)) (\<lambda>n. Ret (d\<lparr>d_names := n\<rparr>)))
        else Ret d))"

definition packet :: "env \<Rightarrow> bytes \<Rightarrow> sockaddr_in \<Rightarrow> daemon \<Rightarrow> daemon eval" where
  "packet env pkt src d = bindE (parse pkt) (\<lambda>pf. case pf of
      None \<Rightarrow> deliver pkt src True False d
    | Some f \<Rightarrow>
       (if f_proto f = 17 \<and> f_sport f = 53 then
          bindE (observe_dns env pkt d) (\<lambda>d. Ret (emit [Reinject pkt src] d))
        else if s_addr src \<noteq> 0 then Ret (emit [Reinject pkt src] d)
        else if f_syn_only f \<or> f_proto f = 17 then
          (case judge env f d of (allow, reject, d1) \<Rightarrow> deliver pkt src allow reject d1)
        else deliver pkt src True False d))"

section \<open>Starting, stopping and the loop\<close>

definition shutdown :: "env \<Rightarrow> daemon \<Rightarrow> daemon" where
  "shutdown env d =
     (let d = with_kern (flush_verdicts (e_dev env)) (with_kern (set_upcall (e_dev env) False) d);
          d = (if d_upcall_on d then set_udp_divert True d else d)
      in emit [Exit 0] d)"

text \<open>The variables of \<open>run\<close> when the loop starts; \<open>prompt_env\<close> is the environment variable.\<close>

definition start :: "env \<Rightarrow> mode \<Rightarrow> string option \<Rightarrow> disk \<Rightarrow> daemon" where
  "start env fallback prompt_env dk =
     (let p = fst (policy_load dk POLICY_PATH) in
      case kern_backend env p of (k, as) \<Rightarrow>
        \<lparr>d_pol = p, d_mode = policy_mode p fallback, d_mode_fallback = fallback, d_kern = k,
         d_mtime = e_mtime env dk, d_last_check = e_clock env, d_upcall_on = False, d_pending = [],
         d_res = resolver_new, d_ident = identity_new, d_seen = seen_new dk, d_id_warned = {}, d_names = dns_new,
         d_asking = {}, d_logged = [], d_decided = [], d_logged_cleared = e_clock env,
         d_prompt_bin = prompt_bin prompt_env p PROMPT_BIN, d_prompts = [], d_disk = dk, d_trace = as\<rparr>)"

text \<open>\<open>run\<close> up to its loop: the divert socket, or exit code 1 when it cannot be bound; a timeout that cannot be
  set is ignored.\<close>

definition run_start ::
  "os \<Rightarrow> (syscall list \<Rightarrow> errno) \<Rightarrow> env \<Rightarrow> mode \<Rightarrow> string option \<Rightarrow> disk \<Rightarrow> (int + int \<times> daemon) \<times> syscall list" where
  "run_start os err env fallback prompt_env dk =
     (let d0 = start env fallback prompt_env dk in
      case bind_divert os err [] DIVERT_PORT of
        (Inl e, calls) \<Rightarrow> (Inl 1, calls)
      | (Inr fd, calls) \<Rightarrow> (Inr (fd, d0), snd (set_read_timeout os err calls fd 100)))"

text \<open>One round: the answers and the upcalls that have arrived, the periodic work, and a packet if one was
  received in time.\<close>

record round_input =
  rd_answers :: "(env \<times> bytes option \<times> pending) list"
  rd_upcalls :: "(env \<times> kern_event) list"
  rd_tick :: env
  rd_packet :: "(env \<times> bytes \<times> sockaddr_in) option"

definition one_round :: "round_input \<Rightarrow> daemon \<Rightarrow> daemon eval" where
  "one_round r d =
     (let d = fold (\<lambda>(env, out, p). drain_answer env (prompt_answer out) p) (rd_answers r) d;
          d = fold (\<lambda>(env, ev). drain_upcall env ev) (rd_upcalls r) d;
          d = tick (rd_tick r) d
      in case rd_packet r of None \<Rightarrow> Ret d | Some (env, pkt, src) \<Rightarrow> packet env pkt src d)"

section \<open>What the handlers leave alone\<close>

text \<open>The packets sent, the prompts raised, and pf's divert rule as the last \<open>UdpDivert\<close> left it.\<close>

fun is_send :: "action \<Rightarrow> bool" where
  "is_send (Reinject pkt src) = True"
| "is_send (ReinjectInbound pkt) = True"
| "is_send _ = False"

fun is_prompt :: "action \<Rightarrow> bool" where
  "is_prompt (Prompt bin args) = True"
| "is_prompt _ = False"

definition sent :: "daemon \<Rightarrow> action list" where
  "sent d = filter is_send (d_trace d)"

definition asked :: "daemon \<Rightarrow> action list" where
  "asked d = filter is_prompt (d_trace d)"

fun udp_rule :: "action list \<Rightarrow> bool \<Rightarrow> bool" where
  "udp_rule [] b = b"
| "udp_rule (UdpDivert x # as) b = udp_rule as x"
| "udp_rule (_ # as) b = udp_rule as b"

definition udp_diverted :: "daemon \<Rightarrow> bool" where
  "udp_diverted d = udp_rule (d_trace d) True"

lemma udp_rule_append [simp]: "udp_rule (as @ bs) b = udp_rule bs (udp_rule as b)"
  by (induction as b rule: udp_rule.induct) simp_all

lemma ioctls_quiet [simp]:
  "filter is_send (map (\<lambda>(c, a). Ioctl c a) cs) = []" "filter is_prompt (map (\<lambda>(c, a). Ioctl c a) cs) = []"
  "udp_rule (map (\<lambda>(c, a). Ioctl c a) cs) b = b"
  by (induction cs) auto

text \<open>The parts of the state a handler that only talks to the device leaves alone; and the parts one leaves
  alone that only reads or writes the policy file.\<close>

definition questions :: "daemon \<Rightarrow> pending list \<times> question set \<times> (question, u64 list) hashmap" where
  "questions d = (d_prompts d, d_asking d, d_pending d)"

definition control :: "daemon \<Rightarrow> mode \<times> mode \<times> bool \<times> bool \<times> bool" where
  "control d = (d_mode d, d_mode_fallback d, d_kern d = None, d_upcall_on d, udp_diverted d)"

definition network :: "daemon \<Rightarrow> action list \<times> action list \<times> (flow_key, verdict) hashmap" where
  "network d = (sent d, asked d, d_decided d)"

named_theorems frame \<open>what the helpers leave alone\<close>

lemma emit_frame [frame]:
  "questions (emit as d) = questions d"
  "d_pol (emit as d) = d_pol d" "d_names (emit as d) = d_names d" "d_disk (emit as d) = d_disk d"
  "d_decided (emit as d) = d_decided d" "d_mode (emit as d) = d_mode d" "d_kern (emit as d) = d_kern d"
  "d_upcall_on (emit as d) = d_upcall_on d" "d_mode_fallback (emit as d) = d_mode_fallback d"
  "sent (emit as d) = sent d @ filter is_send as" "asked (emit as d) = asked d @ filter is_prompt as"
  "udp_diverted (emit as d) = udp_rule as (udp_diverted d)"
  by (simp_all add: emit_def questions_def sent_def asked_def udp_diverted_def)

lemma emit_quiet [frame]:
  "filter is_send as = [] \<Longrightarrow> filter is_prompt as = [] \<Longrightarrow> network (emit as d) = network d"
  "udp_rule as (udp_diverted d) = udp_diverted d \<Longrightarrow> control (emit as d) = control d"
  by (simp_all add: network_def control_def emit_frame)

lemma update_frame [frame]:
  "questions (d\<lparr>d_kern := k\<rparr>) = questions d" "network (d\<lparr>d_kern := k\<rparr>) = network d"
  "udp_diverted (d\<lparr>d_kern := k\<rparr>) = udp_diverted d"
  "questions (d\<lparr>d_ident := i\<rparr>) = questions d" "network (d\<lparr>d_ident := i\<rparr>) = network d" "control (d\<lparr>d_ident := i\<rparr>) = control d"
  "questions (d\<lparr>d_res := r\<rparr>) = questions d" "network (d\<lparr>d_res := r\<rparr>) = network d" "control (d\<lparr>d_res := r\<rparr>) = control d"
  "questions (d\<lparr>d_seen := z\<rparr>) = questions d" "network (d\<lparr>d_seen := z\<rparr>) = network d" "control (d\<lparr>d_seen := z\<rparr>) = control d"
  "questions (d\<lparr>d_logged := l\<rparr>) = questions d" "network (d\<lparr>d_logged := l\<rparr>) = network d" "control (d\<lparr>d_logged := l\<rparr>) = control d"
  "questions (d\<lparr>d_mtime := m\<rparr>) = questions d" "network (d\<lparr>d_mtime := m\<rparr>) = network d" "control (d\<lparr>d_mtime := m\<rparr>) = control d"
  "questions (d\<lparr>d_id_warned := w\<rparr>) = questions d" "network (d\<lparr>d_id_warned := w\<rparr>) = network d" "control (d\<lparr>d_id_warned := w\<rparr>) = control d"
  "questions (d\<lparr>d_pol := p\<rparr>) = questions d" "network (d\<lparr>d_pol := p\<rparr>) = network d" "control (d\<lparr>d_pol := p\<rparr>) = control d"
  "questions (d\<lparr>d_disk := dk\<rparr>) = questions d" "network (d\<lparr>d_disk := dk\<rparr>) = network d" "control (d\<lparr>d_disk := dk\<rparr>) = control d"
  "questions (d\<lparr>d_names := n\<rparr>) = questions d" "network (d\<lparr>d_names := n\<rparr>) = network d" "control (d\<lparr>d_names := n\<rparr>) = control d"
  "questions (d\<lparr>d_decided := dc\<rparr>) = questions d" "control (d\<lparr>d_decided := dc\<rparr>) = control d"
  by (simp_all add: questions_def network_def control_def sent_def asked_def udp_diverted_def)

lemma with_kern_frame [frame]:
  "questions (with_kern f d) = questions d" "network (with_kern f d) = network d" "control (with_kern f d) = control d"
  "d_pol (with_kern f d) = d_pol d" "d_names (with_kern f d) = d_names d" "d_disk (with_kern f d) = d_disk d"
  by (auto simp: with_kern_def questions_def network_def control_def emit_def sent_def asked_def udp_diverted_def
      split: option.split prod.split)

lemma resolve_all_frame [frame]:
  "questions (resolve_all env b ids d) = questions d" "network (resolve_all env b ids d) = network d"
  "control (resolve_all env b ids d) = control d" "d_pol (resolve_all env b ids d) = d_pol d"
  "d_disk (resolve_all env b ids d) = d_disk d"
  unfolding resolve_all_def by (induction ids arbitrary: d) (simp_all add: with_kern_frame)

lemma ident_hash_frame [frame]:
  "questions (snd (ident_hash env e d)) = questions d" "network (snd (ident_hash env e d)) = network d"
  "control (snd (ident_hash env e d)) = control d" "d_pol (snd (ident_hash env e d)) = d_pol d"
  "d_disk (snd (ident_hash env e d)) = d_disk d" "d_names (snd (ident_hash env e d)) = d_names d"
  by (simp_all add: ident_hash_def update_frame split: prod.split)

lemma pol_record_frame [frame]:
  "questions (pol_record ans exe dst host dport orig d) = questions d"
  "network (pol_record ans exe dst host dport orig d) = network d"
  "control (pol_record ans exe dst host dport orig d) = control d"
  "d_names (pol_record ans exe dst host dport orig d) = d_names d"
  "questions (pol_record_id e sha d) = questions d" "network (pol_record_id e sha d) = network d"
  "control (pol_record_id e sha d) = control d"
  by (simp_all add: pol_record_def pol_record_id_def update_frame split: prod.split)

lemma check_id_cases:
  "check_id env e d = (False, d)
   \<or> (\<exists>b. check_id env e d = (b, snd (ident_hash env e d)))
   \<or> (\<exists>w. check_id env e d = (True, emit [ChangedWarning e] ((snd (ident_hash env e d))\<lparr>d_id_warned := w\<rparr>)))"
proof (cases "expected_id (d_pol d) e")
  case None
  then show ?thesis by (simp add: check_id_def)
next
  case (Some x)
  obtain h d1 where h: "ident_hash env e d = (h, d1)" by fastforce
  show ?thesis
  proof (cases h)
    case None
    then have "check_id env e d = (False, snd (ident_hash env e d))" using Some h by (simp add: check_id_def)
    then show ?thesis by blast
  next
    case (Some a)
    then have "check_id env e d = (a \<noteq> x, d1)
       \<or> check_id env e d = (True, emit [ChangedWarning e] (d1\<lparr>d_id_warned := insert e (d_id_warned d1)\<rparr>))"
      using \<open>expected_id (d_pol d) e = Some x\<close> h by (simp add: check_id_def)
    moreover have "d1 = snd (ident_hash env e d)" using h by simp
    ultimately show ?thesis by blast
  qed
qed

lemma check_id_frame [frame]:
  "questions (snd (check_id env e d)) = questions d" "network (snd (check_id env e d)) = network d"
  "control (snd (check_id env e d)) = control d" "d_pol (snd (check_id env e d)) = d_pol d"
  "d_names (snd (check_id env e d)) = d_names d" "d_disk (snd (check_id env e d)) = d_disk d"
  using check_id_cases [of env e d]
  by (elim disjE exE; simp add: emit_frame emit_quiet update_frame ident_hash_frame)+

lemma note_contact_frame [frame]:
  "questions (note_contact env exe f d) = questions d" "network (note_contact env exe f d) = network d"
  "control (note_contact env exe f d) = control d"
  by (simp_all add: note_contact_def Let_def update_frame split: option.split)

lemma log_flow_frame [frame]:
  "questions (log_flow label att f d) = questions d" "network (log_flow label att f d) = network d"
  "control (log_flow label att f d) = control d"
  by (simp_all add: log_flow_def Let_def questions_def network_def control_def emit_def sent_def asked_def udp_diverted_def)

lemma attribute_flow_cases:
  "\<exists>a d1. attribute_flow env f d = (a, d1) \<and> (\<exists>k cs r.
     d1 = d \<or> d1 = d\<lparr>d_res := r\<rparr>
     \<or> d_kern d \<noteq> None \<and> d1 = emit (map (\<lambda>(c, a). Ioctl c a) cs) (d\<lparr>d_kern := Some k\<rparr>)
     \<or> d_kern d \<noteq> None \<and> d1 = (emit (map (\<lambda>(c, a). Ioctl c a) cs) (d\<lparr>d_kern := Some k\<rparr>))\<lparr>d_res := r\<rparr>)"
proof (cases "d_kern d")
  case None
  obtain a r where "resolve (e_ps env) (e_clock env) (d_res d) (flow_tuple f) True = (a, r)" by fastforce
  then show ?thesis using None by (auto simp: attribute_flow_def Let_def)
next
  case (Some k)
  obtain a k' cs where q: "kern_query (e_dev env) k (flow_tuple f) = (a, k', cs)" by (metis prod_cases3)
  obtain b r where "resolve (e_ps env) (e_clock env) (d_res d) (flow_tuple f) True = (b, r)" by fastforce
  then show ?thesis using Some q by (cases a) (auto simp: attribute_flow_def Let_def emit_def)
qed

lemma attribute_flow_frame [frame]:
  "questions (snd (attribute_flow env f d)) = questions d" "network (snd (attribute_flow env f d)) = network d"
  "control (snd (attribute_flow env f d)) = control d" "d_pol (snd (attribute_flow env f d)) = d_pol d"
  "d_names (snd (attribute_flow env f d)) = d_names d" "d_disk (snd (attribute_flow env f d)) = d_disk d"
proof -
  define keeps where "keeps d1 \<longleftrightarrow> questions d1 = questions d \<and> network d1 = network d \<and> control d1 = control d
     \<and> d_pol d1 = d_pol d \<and> d_names d1 = d_names d \<and> d_disk d1 = d_disk d" for d1
  have k: "keeps (emit (map (\<lambda>(c, a). Ioctl c a) cs) (d\<lparr>d_kern := Some k\<rparr>))" if "d_kern d \<noteq> None" for cs k
    using that by (simp add: keeps_def emit_frame emit_quiet update_frame) (simp add: control_def udp_diverted_def)
  have r: "keeps (d1\<lparr>d_res := r\<rparr>)" if "keeps d1" for d1 r
    using that by (simp add: keeps_def update_frame)
  have "keeps d" by (simp add: keeps_def)
  then have "keeps (snd (attribute_flow env f d))"
    using attribute_flow_cases [of env f d] k r by (metis snd_conv)
  then show "questions (snd (attribute_flow env f d)) = questions d" "network (snd (attribute_flow env f d)) = network d"
    "control (snd (attribute_flow env f d)) = control d" "d_pol (snd (attribute_flow env f d)) = d_pol d"
    "d_names (snd (attribute_flow env f d)) = d_names d" "d_disk (snd (attribute_flow env f d)) = d_disk d"
    by (simp_all add: keeps_def)
qed

lemma learn_packet_frame [frame]:
  "questions (learn_packet env exe host f d) = questions d" "network (learn_packet env exe host f d) = network d"
  "control (learn_packet env exe host f d) = control d"
  by (simp_all add: learn_packet_def Let_def update_frame pol_record_frame)

lemma settle_frame [frame]:
  "questions (settle env v exe f d) = questions d" "control (settle env v exe f d) = control d"
  "sent (settle env v exe f d) = sent d" "asked (settle env v exe f d) = asked d"
proof -
  have "sent (with_kern g x) = sent x \<and> asked (with_kern g x) = asked x" for g x
    using with_kern_frame(2) [of g x] by (simp add: network_def)
  moreover have "sent (d\<lparr>d_decided := dc\<rparr>) = sent d \<and> asked (d\<lparr>d_decided := dc\<rparr>) = asked d" for dc
    by (simp add: sent_def asked_def)
  ultimately show "questions (settle env v exe f d) = questions d" "control (settle env v exe f d) = control d"
    "sent (settle env v exe f d) = sent d" "asked (settle env v exe f d) = asked d"
    by (simp_all add: settle_def Let_def update_frame with_kern_frame split: option.split)
qed

section \<open>The loop as a step relation\<close>

text \<open>Every handler of the loop in any order, with any answers of the outside world; other programs may
  change the files in between.\<close>

inductive dstep :: "daemon \<Rightarrow> daemon \<Rightarrow> bool" where
  answer: "p \<in> set (d_prompts d) \<Longrightarrow> dstep d (drain_answer env (prompt_answer out) p d)"
| upcall: "dstep d (drain_upcall env ev d)"
| tick: "dstep d (tick env d)"
| packet: "packet env pkt src d = Ret d' \<Longrightarrow> dstep d d'"
| files: "dstep d (d\<lparr>d_disk := dk\<rparr>)"

inductive reachable :: "daemon \<Rightarrow> bool" where
  start: "reachable (start env fallback pe dk)"
| step: "reachable d \<Longrightarrow> dstep d d' \<Longrightarrow> reachable d'"

inductive_cases dstepE: "dstep d d'"

locale loop_invariant =
  fixes inv :: "daemon \<Rightarrow> bool"
  assumes inv_start: "inv (start env fallback pe dk)"
    and inv_answer: "inv d \<Longrightarrow> p \<in> set (d_prompts d) \<Longrightarrow> inv (drain_answer env ans p d)"
    and inv_upcall: "inv d \<Longrightarrow> inv (drain_upcall env ev d)"
    and inv_tick: "inv d \<Longrightarrow> inv (tick env d)"
    and inv_packet: "inv d \<Longrightarrow> packet env pkt src d = Ret d' \<Longrightarrow> inv d'"
    and inv_files: "inv d \<Longrightarrow> inv (d\<lparr>d_disk := dk\<rparr>)"
begin

lemma inv_step: "inv d \<Longrightarrow> dstep d d' \<Longrightarrow> inv d'"
  by (elim dstepE) (auto intro: inv_answer inv_upcall inv_tick inv_packet inv_files)

lemma inv_reachable: "reachable d \<Longrightarrow> inv d"
  by (induction rule: reachable.induct) (auto intro: inv_start inv_step)

end

section \<open>What each handler changes\<close>

lemma control_simps: "control d = control d' \<longleftrightarrow> d_mode d = d_mode d' \<and> d_mode_fallback d = d_mode_fallback d'
    \<and> (d_kern d = None \<longleftrightarrow> d_kern d' = None) \<and> d_upcall_on d = d_upcall_on d' \<and> udp_diverted d = udp_diverted d'"
  by (simp add: control_def)

lemma network_simps: "network d = network d' \<longleftrightarrow> sent d = sent d' \<and> asked d = asked d' \<and> d_decided d = d_decided d'"
  by (simp add: network_def)

lemma questions_simps: "questions d = questions d' \<longleftrightarrow> d_prompts d = d_prompts d' \<and> d_asking d = d_asking d' \<and> d_pending d = d_pending d'"
  by (simp add: questions_def)

lemma spawn_prompt_frame [frame]:
  "control (spawn_prompt c exe pd cmd dst dport host scp d) = control d"
  "sent (spawn_prompt c exe pd cmd dst dport host scp d) = sent d"
  "asked (spawn_prompt c exe pd cmd dst dport host scp d) = asked d @ [Prompt (d_prompt_bin d) (prompt_args c exe pd cmd dst dport host scp)]"
  "d_decided (spawn_prompt c exe pd cmd dst dport host scp d) = d_decided d"
  "d_pending (spawn_prompt c exe pd cmd dst dport host scp d) = d_pending d"
  "d_asking (spawn_prompt c exe pd cmd dst dport host scp d) = d_asking d"
  "d_prompts (spawn_prompt c exe pd cmd dst dport host scp d) =
     d_prompts d @ [\<lparr>pn_host = opt_name host, pn_exe = exe, pn_dst = dst, pn_dport = dport\<rparr>]"
  by (simp_all add: spawn_prompt_def emit_def control_def sent_def asked_def udp_diverted_def)

lemma asking_update_frame [frame]:
  "control (d\<lparr>d_asking := q\<rparr>) = control d" "network (d\<lparr>d_asking := q\<rparr>) = network d"
  "control (d\<lparr>d_pending := pn\<rparr>) = control d" "network (d\<lparr>d_pending := pn\<rparr>) = network d"
  "control (d\<lparr>d_prompts := ps\<rparr>) = control d" "network (d\<lparr>d_prompts := ps\<rparr>) = network d"
  "sent (d\<lparr>d_asking := q\<rparr>) = sent d" "asked (d\<lparr>d_asking := q\<rparr>) = asked d"
  "sent (d\<lparr>d_pending := pn\<rparr>) = sent d" "asked (d\<lparr>d_pending := pn\<rparr>) = asked d"
  by (simp_all add: control_def network_def sent_def asked_def udp_diverted_def)

text \<open>Asking a question: nothing, or one prompt for a question that was not open.\<close>

definition asks_once :: "question \<Rightarrow> daemon \<Rightarrow> daemon \<Rightarrow> bool" where
  "asks_once key d d' \<longleftrightarrow> control d' = control d \<and> sent d' = sent d \<and> d_decided d' = d_decided d
     \<and> (if key \<in> d_asking d then d_prompts d' = d_prompts d \<and> d_asking d' = d_asking d \<and> asked d' = asked d
        else d_asking d' = insert key (d_asking d)
          \<and> (\<exists>p. pending_key p = key \<and> d_prompts d' = d_prompts d @ [p])
          \<and> (\<exists>bin args. asked d' = asked d @ [Prompt bin args]))"

lemma ask_packet_once:
  "asks_once (unwrap_or_empty (map_option (opath \<circ> a_owner) att), ask_key (opt_name (unwrap_or_empty (name_for (d_names d) (f_dst f)))) (f_dst f))
     d (ask_packet c att f d)"
  "d_pending (ask_packet c att f d) = d_pending d"
  by (auto simp: asks_once_def ask_packet_def Let_def frame pending_key_def option.map_comp)

lemma ask_upcall_once:
  "asks_once (ke_path ev, ask_key (opt_name (unwrap_or_empty host)) (ke_dst ev)) d (ask_upcall c ev host d)"
  "d_pending (ask_upcall c ev host d) = push_pending (ke_path ev, ask_key (opt_name (unwrap_or_empty host)) (ke_dst ev)) (ke_id ev) (d_pending d)"
  by (auto simp: asks_once_def ask_upcall_def Let_def frame pending_key_def unwrap_or_empty_def)

lemma answer_upcalls_frame [frame]:
  "control (answer_upcalls env ans key d) = control d" "network (answer_upcalls env ans key d) = network d"
  "questions (answer_upcalls env ans key d) = (d_prompts d, d_asking d, hm_remove key (d_pending d))"
  "d_pol (answer_upcalls env ans key d) = d_pol d" "d_disk (answer_upcalls env ans key d) = d_disk d"
proof -
  have "hm_get (d_pending d) key = None \<Longrightarrow> hm_remove key (d_pending d) = d_pending d"
    by (simp add: map_of_eq_None_iff delete_idem)
  then show "control (answer_upcalls env ans key d) = control d" "network (answer_upcalls env ans key d) = network d"
    "questions (answer_upcalls env ans key d) = (d_prompts d, d_asking d, hm_remove key (d_pending d))"
    "d_pol (answer_upcalls env ans key d) = d_pol d" "d_disk (answer_upcalls env ans key d) = d_disk d"
    by (simp_all add: answer_upcalls_def frame split: option.split) (simp_all add: questions_def)
qed

lemma repin_frame [frame]:
  "control (repin env ans exe d) = control d" "network (repin env ans exe d) = network d"
  "questions (repin env ans exe d) = questions d"
proof -
  have "control d' = control d \<and> network d' = network d \<and> questions d' = questions d"
    if "ident_hash env e (d\<lparr>d_pol := p, d_id_warned := w\<rparr>) = (h, d')" for e p w h d'
    using ident_hash_frame [of env e "d\<lparr>d_pol := p, d_id_warned := w\<rparr>"] that by (simp add: update_frame)
  then show "control (repin env ans exe d) = control d" "network (repin env ans exe d) = network d"
    "questions (repin env ans exe d) = questions d"
    by (auto simp: repin_def pol_record_frame split: option.split prod.split)
qed

lemma drain_answer_frame:
  "control (drain_answer env ans p d) = control d" "network (drain_answer env ans p d) = network d"
  "questions (drain_answer env ans p d)
     = (remove1 p (d_prompts d), d_asking d - {pending_key p}, hm_remove (pending_key p) (d_pending d))"
  by (simp_all add: drain_answer_def Let_def frame)

text \<open>The verdict on an upcall: the policy's, unless the binary is no longer the approved one.\<close>

definition upcall_verdict :: "env \<Rightarrow> kern_event \<Rightarrow> daemon \<Rightarrow> verdict" where
  "upcall_verdict env ev d = (if fst (check_id env (ke_path ev) d) then Ask
     else decide (d_pol d) (Some (ke_path ev)) (ke_dst ev) (name_for (d_names d) (ke_dst ev)) (ke_dport ev))"

lemma drain_upcall_eq:
  "drain_upcall env ev d =
     (if ke_path ev = [] then kern_answer env (ke_id ev) True d
      else case upcall_verdict env ev d of
        Ask \<Rightarrow> ask_upcall (fst (check_id env (ke_path ev) d)) ev (name_for (d_names d) (ke_dst ev)) (snd (check_id env (ke_path ev) d))
      | v \<Rightarrow> kern_answer env (ke_id ev) (v = Allow) (snd (check_id env (ke_path ev) d)))"
  using check_id_frame(4) [of env "ke_path ev" d]
  by (auto simp: drain_upcall_def upcall_verdict_def Let_def split: verdict.split prod.split)

lemma kern_answer_frame [frame]:
  "questions (kern_answer env i b d) = questions d" "network (kern_answer env i b d) = network d"
  "control (kern_answer env i b d) = control d"
  by (simp_all add: kern_answer_def with_kern_frame)

lemma network_parts: "network d' = network d \<Longrightarrow> sent d' = sent d" "network d' = network d \<Longrightarrow> asked d' = asked d"
  "network d' = network d \<Longrightarrow> d_decided d' = d_decided d"
  by (simp_all add: network_def)

lemma drain_upcall_frame:
  "control (drain_upcall env ev d) = control d" "sent (drain_upcall env ev d) = sent d"
  "d_decided (drain_upcall env ev d) = d_decided d"
proof -
  let ?d = "snd (check_id env (ke_path ev) d)"
  have c: "control ?d = control d" "sent ?d = sent d" "d_decided ?d = d_decided d"
    using check_id_frame [of env "ke_path ev" d] by (simp_all add: network_def)
  have k: "control (kern_answer env i b x) = control x" "sent (kern_answer env i b x) = sent x"
    "d_decided (kern_answer env i b x) = d_decided x" for i b x
    using kern_answer_frame [of env i b x] by (simp_all add: network_def)
  have a: "control (ask_upcall ch ev h x) = control x" "sent (ask_upcall ch ev h x) = sent x"
    "d_decided (ask_upcall ch ev h x) = d_decided x" for ch h x
    using ask_upcall_once(1) [of ev h x ch] by (simp_all add: asks_once_def)
  show "control (drain_upcall env ev d) = control d" "sent (drain_upcall env ev d) = sent d"
    "d_decided (drain_upcall env ev d) = d_decided d"
    by (simp_all add: drain_upcall_eq c k a split: verdict.split)
qed

text \<open>The periodic work keeps the questions, except that it may forget which upcalls wait; it sends
  nothing and asks nothing, and keeps or forgets the settled verdicts.\<close>

definition keeps_questions :: "daemon \<Rightarrow> daemon \<Rightarrow> bool" where
  "keeps_questions d d' \<longleftrightarrow> d_prompts d' = d_prompts d \<and> d_asking d' = d_asking d
     \<and> (d_pending d' = d_pending d \<or> d_pending d' = []) \<and> sent d' = sent d \<and> asked d' = asked d
     \<and> (d_decided d' = d_decided d \<or> d_decided d' = [])"

lemma keeps_questionsI: "questions d' = questions d \<Longrightarrow> network d' = network d \<Longrightarrow> keeps_questions d d'"
  by (simp add: keeps_questions_def questions_def network_def)

lemma keeps_questions_trans: "keeps_questions d d' \<Longrightarrow> keeps_questions d' d'' \<Longrightarrow> keeps_questions d d''"
  by (auto simp: keeps_questions_def)

lemma set_kern_frame [frame]:
  "questions (set_kern k d) = questions d" "network (set_kern k d) = network d"
  "d_upcall_on (set_kern k d) = d_upcall_on d" "udp_diverted (set_kern k d) = udp_diverted d"
  "d_pol (set_kern k d) = d_pol d" "d_mode (set_kern k d) = d_mode d" "d_kern (set_kern k d) = k"
  by (simp_all add: set_kern_def emit_frame emit_quiet update_frame split: option.split)

definition quiet :: "action list \<Rightarrow> bool" where
  "quiet as \<longleftrightarrow> filter is_send as = [] \<and> filter is_prompt as = [] \<and> (\<forall>b. udp_rule as b = b)"

lemma open_kern_quiet: "quiet (snd (open_kern env))"
  by (auto simp: open_kern_def quiet_def split: sum.split prod.split)

lemma kern_backend_quiet: "quiet (snd (kern_backend env p))"
  using open_kern_quiet [of env] by (simp add: kern_backend_def) (simp add: quiet_def)

lemma tick_seen_frame: "questions (tick_seen env d) = questions d" "network (tick_seen env d) = network d"
  "control (tick_seen env d) = control d" "d_pol (tick_seen env d) = d_pol d"
  by (auto simp: tick_seen_def questions_def network_def control_def sent_def asked_def udp_diverted_def split: prod.split)

lemma tick_logged_frame: "questions (tick_logged env d) = questions d" "network (tick_logged env d) = network d"
  "control (tick_logged env d) = control d" "d_pol (tick_logged env d) = d_pol d"
  by (simp_all add: tick_logged_def questions_def network_def control_def sent_def asked_def udp_diverted_def)

lemma tick_kern_frame: "questions (tick_kern env d) = questions d" "network (tick_kern env d) = network d"
  "d_upcall_on (tick_kern env d) = d_upcall_on d" "udp_diverted (tick_kern env d) = udp_diverted d"
proof -
  obtain k as where k: "open_kern env = (k, as)" by fastforce
  have q: "filter is_send as = []" "filter is_prompt as = []" "\<And>b. udp_rule as b = b"
    using open_kern_quiet [of env] unfolding k by (simp_all add: quiet_def)
  have "tick_kern env d \<in> {d, set_kern None d, emit as (d\<lparr>d_kern := k\<rparr>)}"
    by (simp add: tick_kern_def k split: option.split)
  then show "questions (tick_kern env d) = questions d" "network (tick_kern env d) = network d"
    "d_upcall_on (tick_kern env d) = d_upcall_on d" "udp_diverted (tick_kern env d) = udp_diverted d"
    by (auto simp: set_kern_frame emit_frame emit_quiet update_frame q)
qed

lemma upcall_off_frame:
  "keeps_questions d (upcall_off env d)" "\<not> d_upcall_on (upcall_off env d)" "udp_diverted (upcall_off env d)"
  using with_kern_frame [of "set_upcall (e_dev env) False" d]
  by (simp_all add: upcall_off_def set_udp_divert_def keeps_questions_def questions_def network_def emit_def
      sent_def asked_def udp_diverted_def)

text \<open>Whether pf diverts all UDP, against whether the module is asked about it.\<close>

definition udp_ok :: "daemon \<Rightarrow> bool" where
  "udp_ok d \<longleftrightarrow> udp_diverted d = (\<not> d_upcall_on d)"

lemma switch_attribution_frame:
  assumes "udp_ok d"
  shows "keeps_questions d (switch_attribution env d)" "udp_ok (switch_attribution env d)"
proof -
  let ?d = "if d_upcall_on d then upcall_off env d else d"
  obtain k as where k: "kern_backend env (d_pol ?d) = (k, as)" by fastforce
  have q: "filter is_send as = []" "filter is_prompt as = []" "\<And>b. udp_rule as b = b"
    using kern_backend_quiet [of env "d_pol ?d"] unfolding k by (simp_all add: quiet_def)
  have e: "switch_attribution env d = set_kern k (emit as ?d)"
    using k by (simp add: switch_attribution_def Let_def)
  have 1: "keeps_questions d ?d" "udp_ok ?d"
    using upcall_off_frame [where env = env and d = d] assms by (simp_all add: udp_ok_def keeps_questionsI)
  have "keeps_questions ?d (set_kern k (emit as ?d))"
    by (rule keeps_questionsI) (simp_all add: set_kern_frame emit_frame emit_quiet q)
  then show "keeps_questions d (switch_attribution env d)" using keeps_questions_trans [OF 1(1)] e by simp
  show "udp_ok (switch_attribution env d)"
    using 1(2) by (simp add: e udp_ok_def set_kern_frame emit_frame q)
qed

lemma reload_policy_frame:
  assumes "udp_ok d"
  shows "keeps_questions d (reload_policy env d)" "udp_ok (reload_policy env d)"
proof -
  let ?p = "fst (policy_load (d_disk d) POLICY_PATH)"
  let ?d1 = "d\<lparr>d_pol := ?p, d_mode := policy_mode ?p (d_mode_fallback d)\<rparr>"
  let ?d2 = "if policy_attribution ?p \<noteq> policy_attribution (d_pol d) then switch_attribution env ?d1 else ?d1"
  have e: "reload_policy env d = with_kern (flush_verdicts (e_dev env)) (?d2\<lparr>d_decided := []\<rparr>)"
    by (simp add: reload_policy_def Let_def)
  have 1: "keeps_questions d ?d1" "udp_ok ?d1"
    using assms by (simp_all add: keeps_questions_def sent_def asked_def udp_ok_def udp_diverted_def)
  have 2: "keeps_questions ?d1 ?d2" "udp_ok ?d2"
    using switch_attribution_frame [OF 1(2), of env] 1(2) by (simp_all add: keeps_questionsI)
  have 3: "keeps_questions ?d2 (?d2\<lparr>d_decided := []\<rparr>)" "udp_ok (?d2\<lparr>d_decided := []\<rparr>)"
    using 2(2) by (simp_all add: keeps_questions_def sent_def asked_def udp_ok_def udp_diverted_def)
  have 4: "keeps_questions x (with_kern f x)" "udp_ok (with_kern f x) = udp_ok x" for f x
    using with_kern_frame(3) [of f x] unfolding control_simps
    by (simp_all add: keeps_questionsI with_kern_frame udp_ok_def)
  show "keeps_questions d (reload_policy env d)" unfolding e
    using 1(1) 2(1) 3(1) 4(1) keeps_questions_trans by meson
  show "udp_ok (reload_policy env d)" unfolding e using 3(2) 4(2) by simp
qed

lemma tick_reload_frame:
  assumes "udp_ok d"
  shows "keeps_questions d (tick_reload env d)" "udp_ok (tick_reload env d)"
proof -
  have "keeps_questions d (d\<lparr>d_mtime := m\<rparr>)" "udp_ok (d\<lparr>d_mtime := m\<rparr>)" for m
    using assms by (simp_all add: keeps_questions_def sent_def asked_def udp_ok_def udp_diverted_def)
  then show "keeps_questions d (tick_reload env d)" "udp_ok (tick_reload env d)"
    using reload_policy_frame [of "d\<lparr>d_mtime := m\<rparr>" env for m] assms keeps_questions_trans
    by (auto simp: tick_reload_def Let_def keeps_questionsI intro: keeps_questions_trans)
qed

text \<open>After the periodic work the module is asked only in enforcement and while it is there.\<close>

definition upcall_ok :: "daemon \<Rightarrow> bool" where
  "upcall_ok d \<longleftrightarrow> udp_ok d \<and> (d_upcall_on d \<longrightarrow> want_upcall d)"

lemma upcall_ok_control: "control d' = control d \<Longrightarrow> upcall_ok d' = upcall_ok d"
  by (simp add: upcall_ok_def udp_ok_def want_upcall_def control_simps)

lemma tick_reconcile_frame:
  assumes "udp_ok d"
  shows "keeps_questions d (tick_reconcile env d)" "upcall_ok (tick_reconcile env d)"
proof -
  define on where "on fd = set_udp_divert False
    (emit [SpawnReader fd] ((with_kern (set_upcall (e_dev env) True) d)\<lparr>d_upcall_on := True\<rparr>))" for fd
  have on: "keeps_questions d (on fd)" "upcall_ok (on fd)" if "want_upcall d" for fd
    using with_kern_frame(1,2,3) [of "set_upcall (e_dev env) True" d] that
    unfolding control_simps questions_simps network_simps
    by (simp_all add: on_def set_udp_divert_def keeps_questions_def emit_def
        sent_def asked_def udp_diverted_def upcall_ok_def udp_ok_def want_upcall_def)
  have off: "keeps_questions d (upcall_off env d)" "upcall_ok (upcall_off env d)"
    using upcall_off_frame [where env = env and d = d] by (simp_all add: upcall_ok_def udp_ok_def)
  show "keeps_questions d (tick_reconcile env d)" "upcall_ok (tick_reconcile env d)"
    using on off assms unfolding on_def
    by (auto simp: tick_reconcile_def keeps_questionsI upcall_ok_def split: sum.split)
qed

lemma tick_frame:
  assumes "upcall_ok d"
  shows "keeps_questions d (tick env d)" "upcall_ok (tick env d)"
proof -
  let ?d1 = "tick_logged env (tick_seen env d)"
  let ?d2 = "tick_kern env (?d1\<lparr>d_last_check := e_clock env\<rparr>)"
  let ?d3 = "tick_reload env ?d2"
  have 1: "questions ?d1 = questions d" "network ?d1 = network d" "control ?d1 = control d"
    by (simp_all add: tick_seen_frame tick_logged_frame)
  have l: "questions (x\<lparr>d_last_check := t\<rparr>) = questions x" "network (x\<lparr>d_last_check := t\<rparr>) = network x"
    "d_upcall_on (x\<lparr>d_last_check := t\<rparr>) = d_upcall_on x" "udp_diverted (x\<lparr>d_last_check := t\<rparr>) = udp_diverted x" for x t
    by (simp_all add: questions_def network_def sent_def asked_def udp_diverted_def)
  have 2: "keeps_questions d ?d2"
    by (rule keeps_questionsI) (simp_all add: tick_kern_frame l 1)
  have "udp_ok ?d2" using assms 1(3) by (simp add: udp_ok_def tick_kern_frame l upcall_ok_def control_simps)
  then have 3: "keeps_questions ?d2 ?d3" "udp_ok ?d3" by (simp_all add: tick_reload_frame)
  then have 4: "keeps_questions ?d3 (tick_reconcile env ?d3)" "upcall_ok (tick_reconcile env ?d3)"
    by (simp_all add: tick_reconcile_frame)
  show "keeps_questions d (tick env d)"
    using keeps_questions_trans [OF keeps_questions_trans [OF 2 3(1)] 4(1)] keeps_questionsI [OF 1(1,2)]
    by (simp add: tick_def Let_def)
  show "upcall_ok (tick env d)"
    using 4(2) assms upcall_ok_control [OF 1(3)] by (simp add: tick_def Let_def)
qed

section \<open>What a packet does\<close>

text \<open>The verdict on a flow without a settled one: the owner the kernel or the process table names, the
  policy's decision for it, unless its binary is no longer the approved one.\<close>

definition new_verdict :: "env \<Rightarrow> flow \<Rightarrow> daemon \<Rightarrow> verdict" where
  "new_verdict env f d =
     (case attribute_flow env f d of (att, d1) \<Rightarrow>
        (let exe = map_option (opath \<circ> a_owner) att in
         if on_some exe (\<lambda>e. fst (check_id env e d1)) then Ask
         else decide (d_pol d) exe (f_dst f) (name_for (d_names d) (f_dst f)) (f_dport f)))"

definition verdict_on :: "env \<Rightarrow> flow \<Rightarrow> daemon \<Rightarrow> verdict" where
  "verdict_on env f d = (case hm_get (d_decided d) (flow_key f) of Some v \<Rightarrow> v | None \<Rightarrow> new_verdict env f d)"

lemma flow_verdict_eq:
  "flow_verdict env exe host f d =
     (on_some exe (\<lambda>e. fst (check_id env e d)),
      if on_some exe (\<lambda>e. fst (check_id env e d)) then Ask else decide (d_pol d) exe (f_dst f) host (f_dport f),
      case exe of Some e \<Rightarrow> snd (check_id env e d) | None \<Rightarrow> d)"
proof (cases exe)
  case (Some e)
  obtain c d1 where c: "check_id env e d = (c, d1)" by fastforce
  then have "d_pol d1 = d_pol d" using check_id_frame(4) [of env e d] by simp
  then show ?thesis using Some c by (simp add: flow_verdict_def on_some_def)
qed (simp add: flow_verdict_def on_some_def)

definition flow_question :: "env \<Rightarrow> flow \<Rightarrow> daemon \<Rightarrow> question" where
  "flow_question env f d = (unwrap_or_empty (map_option (opath \<circ> a_owner) (fst (attribute_flow env f d))),
     ask_key (opt_name (unwrap_or_empty (name_for (d_names d) (f_dst f)))) (f_dst f))"

text \<open>What judging a flow does to the state: nothing is sent, and a question is raised exactly when the verdict
  is to ask, in enforcement.\<close>

definition judged :: "question \<Rightarrow> verdict \<Rightarrow> daemon \<Rightarrow> daemon \<Rightarrow> bool" where
  "judged key v d d' \<longleftrightarrow> control d' = control d \<and> sent d' = sent d \<and> d_pending d' = d_pending d
     \<and> (if v = Ask \<and> enforcing (d_mode d) then asks_once key d d'
        else questions d' = questions d \<and> asked d' = asked d)"

lemma judged_frame:
  assumes "judged key v d0 d1" "control d2 = control d1" "sent d2 = sent d1" "asked d2 = asked d1"
    "questions d2 = questions d1" "d_decided d2 = d_decided d1 \<or> \<not> (v = Ask \<and> enforcing (d_mode d0))"
  shows "judged key v d0 d2"
proof -
  have e: "d_prompts d2 = d_prompts d1" "d_asking d2 = d_asking d1" "d_pending d2 = d_pending d1"
    using assms(5) by (simp_all add: questions_simps)
  show ?thesis
  proof (cases "v = Ask \<and> enforcing (d_mode d0)")
    case True
    then have "d_decided d2 = d_decided d1" using assms(6) by blast
    then show ?thesis using assms(1) True unfolding judged_def asks_once_def e assms(2-4) by simp
  next
    case False
    then show ?thesis using assms(1) unfolding judged_def if_not_P [OF False] e assms(2-5) by blast
  qed
qed

lemma judged_start:
  assumes "control d1 = control d" "network d1 = network d" "questions d1 = questions d" "judged key v d1 d2"
  shows "judged key v d d2"
proof -
  have e: "d_mode d1 = d_mode d" "sent d1 = sent d" "asked d1 = asked d" "d_decided d1 = d_decided d"
    "d_prompts d1 = d_prompts d" "d_asking d1 = d_asking d" "d_pending d1 = d_pending d"
    using assms(1,2,3) by (simp_all add: control_def network_simps questions_simps)
  show ?thesis using assms(4) unfolding judged_def asks_once_def e assms(1,3) .
qed

lemma act_on_verdict_spec:
  assumes "key = (unwrap_or_empty (map_option (opath \<circ> a_owner) att),
      ask_key (opt_name (unwrap_or_empty (name_for (d_names d) (f_dst f)))) (f_dst f))"
  shows "case act_on_verdict env v c att host f d of (allow, reject, label, d') \<Rightarrow>
      allow = (v = Allow \<or> v = Ask \<and> \<not> enforcing (d_mode d)) \<and> reject = (v = Deny)
      \<and> judged key v d d' \<and> d_decided d' = d_decided d"
proof (cases "v = Ask")
  case True
  then show ?thesis
    using ask_packet_once [where att = att and d = d and f = f and c = c, folded assms] learn_packet_frame [of env "map_option (opath \<circ> a_owner) att" host f d]
    by (auto simp: act_on_verdict_def judged_def asks_once_def questions_simps network_simps)
next
  case False
  then show ?thesis by (cases v) (auto simp: act_on_verdict_def judged_def)
qed

lemma settle_decided:
  "d_decided (settle env v exe f d) = (if v = Ask then d_decided d else decided_put (flow_key f) v (d_decided d))"
  using with_kern_frame(2) unfolding network_simps
  by (cases v) (simp_all add: settle_def Let_def split: option.split)

lemma judge_new_spec:
  "case judge_new env f d of (allow, reject, d') \<Rightarrow>
      allow = (new_verdict env f d = Allow \<or> new_verdict env f d = Ask \<and> \<not> enforcing (d_mode d))
      \<and> reject = (new_verdict env f d = Deny)
      \<and> judged (flow_question env f d) (new_verdict env f d) d d'
      \<and> d_decided d' = (if new_verdict env f d = Ask then d_decided d
                         else decided_put (flow_key f) (new_verdict env f d) (d_decided d))"
proof -
  obtain att d1 where a: "attribute_flow env f d = (att, d1)" by fastforce
  have d1: "questions d1 = questions d" "network d1 = network d" "control d1 = control d" "d_pol d1 = d_pol d" "d_names d1 = d_names d"
    using attribute_flow_frame [of env f d] a by simp_all
  let ?exe = "map_option (opath \<circ> a_owner) att" and ?host = "name_for (d_names d1) (f_dst f)"
  obtain c v d2 where v: "flow_verdict env ?exe ?host f d1 = (c, v, d2)" by (metis prod_cases3)
  have "fst (snd (flow_verdict env ?exe ?host f d1)) = v" "snd (snd (flow_verdict env ?exe ?host f d1)) = d2"
    using v by simp_all
  then have v: "v = (if on_some ?exe (\<lambda>e. fst (check_id env e d1)) then Ask else decide (d_pol d1) ?exe (f_dst f) ?host (f_dport f))"
    and d2': "d2 = (case ?exe of Some e \<Rightarrow> snd (check_id env e d1) | None \<Rightarrow> d1)"
    and fv: "flow_verdict env ?exe ?host f d1 = (c, v, d2)"
    using v unfolding flow_verdict_eq fst_conv snd_conv by simp_all
  have nv: "new_verdict env f d = v"
    unfolding v by (simp only: new_verdict_def a d1 Let_def prod.case)
  have d2: "questions d2 = questions d1" "network d2 = network d1" "control d2 = control d1" "d_names d2 = d_names d1"
    unfolding d2' by (cases ?exe; simp only: check_id_frame option.case)+
  obtain al rj lb d3 where act: "act_on_verdict env v c att ?host f d2 = (al, rj, lb, d3)" by (metis prod_cases4)
  have q: "flow_question env f d = (unwrap_or_empty ?exe, ask_key (opt_name (unwrap_or_empty (name_for (d_names d2) (f_dst f)))) (f_dst f))"
    using a d1 d2 by (simp add: flow_question_def)
  have m: "d_mode d2 = d_mode d" using d1(3) d2(3) by (simp add: control_def)
  have s: "al = (v = Allow \<or> v = Ask \<and> \<not> enforcing (d_mode d))" "rj = (v = Deny)"
    "judged (flow_question env f d) v d2 d3" "d_decided d3 = d_decided d2"
    using act_on_verdict_spec [OF q, where env = env and v = v and c = c and host = ?host] act m by auto
  let ?d4 = "settle env v ?exe f d3"
  let ?d5 = "log_flow lb att f (note_contact env ?exe f ?d4)"
  have e: "judge_new env f d = (al, rj, ?d5)"
    using a fv act by (simp only: judge_new_def Let_def prod.case)
  have f5: "control ?d5 = control ?d4" "network ?d5 = network ?d4" "questions ?d5 = questions ?d4"
    by (simp_all add: log_flow_frame note_contact_frame)
  have "judged (flow_question env f d) v d2 ?d5"
    using f5 settle_frame [of env v ?exe f d3] settle_decided [of env v ?exe f d3]
    by (intro judged_frame [OF s(3)]) (auto simp: network_simps)
  then have "judged (flow_question env f d) v d ?d5"
    using judged_start [of d2 d "flow_question env f d" v ?d5] d1 d2 by simp
  moreover have "d_decided ?d5 = (if v = Ask then d_decided d else decided_put (flow_key f) v (d_decided d))"
    using f5(2) s(4) d1(2) d2(2) by (simp add: network_simps settle_decided)
  ultimately show ?thesis using s(1,2) by (simp add: e nv)
qed

section \<open>The packet handler returns\<close>

lemma parse_ret: "\<exists>r. parse pkt = Ret r"
  by (cases pkt rule: l3_ok) (simp_all add: parse_None parse_eq)

lemma tcp_rst_ret: "\<exists>r. tcp_rst pkt = Ret r"
  by (cases pkt rule: l3_ok) (simp_all add: tcp_rst_None tcp_rst_eq)

lemma payload_offset_ret: "\<exists>r. payload_offset pkt = Ret r"
  by (cases pkt rule: l3_ok) (auto simp: payload_offset_def split: option.split)

lemma emit_emit [simp]: "emit bs (emit as d) = emit (as @ bs) d" "emit [] d = d"
  by (simp_all add: emit_def)

text \<open>The reset that answers a packet, if there is one.\<close>

definition rst_actions :: "bytes \<Rightarrow> action list" where
  "rst_actions pkt = (case tcp_rst pkt of Ret (Some rst) \<Rightarrow> [ReinjectInbound rst] | _ \<Rightarrow> [])"

lemma deliver_ret:
  "deliver pkt src allow reject d = Ret (emit ((if enforcing (d_mode d) \<and> reject then rst_actions pkt else [])
     @ (if \<not> enforcing (d_mode d) \<or> allow then [Reinject pkt src] else [])) d)"
proof -
  obtain r where "tcp_rst pkt = Ret r" using tcp_rst_ret by blast
  then show ?thesis by (auto simp: deliver_def rst_actions_def emit_frame split: option.split)
qed

lemma observe_dns_ret: "\<exists>n. observe_dns env pkt d = Ret (d\<lparr>d_names := n\<rparr>)"
proof -
  obtain po where po: "payload_offset pkt = Ret po" using payload_offset_ret by blast
  have same: "\<exists>n. d = d\<lparr>d_names := n\<rparr>" by (rule exI [of _ "d_names d"]) simp
  show ?thesis
  proof (cases "po = None \<or> length pkt \<le> the po")
    case True
    then have "observe_dns env pkt d = Ret d" using po by (auto simp: observe_dns_def split: option.split)
    then show ?thesis using same by simp
  next
    case False
    then obtain off where off: "po = Some off" "off < length pkt" by auto
    obtain r where "parse_response (take (length pkt - off) (drop off pkt)) = Ret r" using parse_response_ok by blast
    then have "\<exists>n. observe (e_clock env) (e_clock env) (take (length pkt - off) (drop off pkt)) (d_names d) = Ret n"
      by (simp add: observe_def Let_def)
    then show ?thesis using po off by (auto simp: observe_dns_def slice_ok)
  qed
qed

text \<open>The flow of a packet that is an outgoing attempt and has to be judged.\<close>

definition attempt :: "bytes \<Rightarrow> sockaddr_in \<Rightarrow> flow option" where
  "attempt pkt src = (case parse pkt of
      Ret (Some f) \<Rightarrow> if \<not> (f_proto f = 17 \<and> f_sport f = 53) \<and> s_addr src = 0 \<and> (f_syn_only f \<or> f_proto f = 17)
                      then Some f else None
    | _ \<Rightarrow> None)"

lemma packet_attempt:
  "attempt pkt src = Some f \<Longrightarrow>
     packet env pkt src d = (case judge env f d of (allow, reject, d1) \<Rightarrow> deliver pkt src allow reject d1)"
  by (auto simp: attempt_def packet_def split: eval.splits option.splits if_splits)

lemma packet_other:
  assumes "attempt pkt src = None"
  shows "\<exists>n. packet env pkt src d = Ret (emit [Reinject pkt src] (d\<lparr>d_names := n\<rparr>))"
proof -
  obtain pf where pf: "parse pkt = Ret pf" using parse_ret by blast
  have same: "\<exists>n. emit [Reinject pkt src] d = emit [Reinject pkt src] (d\<lparr>d_names := n\<rparr>)"
    by (rule exI [of _ "d_names d"]) simp
  show ?thesis
  proof (cases "\<exists>f. pf = Some f \<and> f_proto f = 17 \<and> f_sport f = 53")
    case True
    then show ?thesis using pf observe_dns_ret [of env pkt d] by (auto simp: packet_def)
  next
    case False
    then have "packet env pkt src d = Ret (emit [Reinject pkt src] d)"
      using pf assms by (auto simp: packet_def attempt_def deliver_ret split: option.splits if_splits)
    then show ?thesis using same by simp
  qed
qed

definition decided_ok :: "daemon \<Rightarrow> bool" where
  "decided_ok d \<longleftrightarrow> hm_wf (d_decided d) \<and> hm_len (d_decided d) \<le> 16385 \<and> (\<forall>k. hm_get (d_decided d) k \<noteq> Some Ask)"

interpretation dec: bounded_map 16384 decided_put
  by unfold_locales (rule decided_put_def)

lemma decided_ok_put:
  assumes "decided_ok d" "v \<noteq> Ask" "d_decided d' = decided_put k v (d_decided d)"
  shows "decided_ok d'"
  unfolding decided_ok_def assms(3)
proof (intro conjI allI)
  show "hm_wf (decided_put k v (d_decided d))" using assms(1) by (intro dec.put_wf) (simp add: decided_ok_def)
  show "hm_len (decided_put k v (d_decided d)) \<le> 16385"
    using dec.put_len [of "d_decided d" k v] assms(1) by (simp add: decided_ok_def)
  have "hm_get (d_decided d) k' \<noteq> Some Ask" for k' using assms(1) unfolding decided_ok_def by blast
  then show "hm_get (decided_put k v (d_decided d)) k' \<noteq> Some Ask" for k'
    using assms(2) by (simp add: decided_put_def)
qed

lemma judge_spec:
  assumes "decided_ok d"
  shows "case judge env f d of (allow, reject, d') \<Rightarrow>
      allow = (verdict_on env f d = Allow \<or> verdict_on env f d = Ask \<and> \<not> enforcing (d_mode d))
      \<and> reject = (verdict_on env f d = Deny)
      \<and> judged (flow_question env f d) (verdict_on env f d) d d' \<and> decided_ok d'"
proof (cases "hm_get (d_decided d) (flow_key f)")
  case None
  obtain al rj d' where j: "judge_new env f d = (al, rj, d')" by (metis prod_cases3)
  have e: "judge env f d = (al, rj, d')" "verdict_on env f d = new_verdict env f d"
    using None j by (simp_all add: judge_def verdict_on_def)
  have s: "al = (new_verdict env f d = Allow \<or> new_verdict env f d = Ask \<and> \<not> enforcing (d_mode d))"
    "rj = (new_verdict env f d = Deny)" "judged (flow_question env f d) (new_verdict env f d) d d'"
    "d_decided d' = (if new_verdict env f d = Ask then d_decided d else decided_put (flow_key f) (new_verdict env f d) (d_decided d))"
    using judge_new_spec [of env f d] j by auto
  have "decided_ok d'"
    using s(4) assms decided_ok_put [OF assms] by (cases "new_verdict env f d = Ask") (simp_all add: decided_ok_def)
  then show ?thesis using s by (simp add: e)
next
  case (Some v)
  then have "v \<noteq> Ask" using assms unfolding decided_ok_def by metis
  then show ?thesis using Some assms by (cases v) (auto simp: judge_def verdict_on_def judged_def)
qed

text \<open>What is sent for a packet: the packet itself, a reset, or nothing.\<close>

definition sent_for :: "env \<Rightarrow> bytes \<Rightarrow> sockaddr_in \<Rightarrow> daemon \<Rightarrow> action list" where
  "sent_for env pkt src d = (case attempt pkt src of
      None \<Rightarrow> [Reinject pkt src]
    | Some f \<Rightarrow>
       (if \<not> enforcing (d_mode d) then [Reinject pkt src]
        else case verdict_on env f d of Allow \<Rightarrow> [Reinject pkt src] | Deny \<Rightarrow> rst_actions pkt | Ask \<Rightarrow> []))"

lemma rst_actions_quiet: "filter is_send (rst_actions pkt) = rst_actions pkt" "filter is_prompt (rst_actions pkt) = []"
  "udp_rule (rst_actions pkt) b = b"
  by (simp_all add: rst_actions_def split: eval.split option.split)

lemma packet_spec:
  assumes "decided_ok d"
  shows "\<exists>d'. packet env pkt src d = Ret d' \<and> sent d' = sent d @ sent_for env pkt src d \<and> control d' = control d
    \<and> decided_ok d' \<and> d_pending d' = d_pending d
    \<and> (case attempt pkt src of
         None \<Rightarrow> questions d' = questions d \<and> asked d' = asked d
       | Some f \<Rightarrow> if verdict_on env f d = Ask \<and> enforcing (d_mode d)
                   then \<exists>d1. asks_once (flow_question env f d) d d1 \<and> questions d' = questions d1 \<and> asked d' = asked d1
                   else questions d' = questions d \<and> asked d' = asked d)"
proof (cases "attempt pkt src")
  case None
  then obtain n where n: "packet env pkt src d = Ret (emit [Reinject pkt src] (d\<lparr>d_names := n\<rparr>))"
    using packet_other by blast
  have f: "control (emit [Reinject pkt src] (d\<lparr>d_names := n\<rparr>)) = control d"
    by (simp add: emit_quiet update_frame)
  have u: "sent (d\<lparr>d_names := n\<rparr>) = sent d" "asked (d\<lparr>d_names := n\<rparr>) = asked d"
    by (simp_all add: sent_def asked_def)
  show ?thesis unfolding n
    using assms None f by (simp add: emit_frame update_frame u sent_for_def decided_ok_def) (simp add: emit_def)
next
  case (Some f)
  obtain al rj d1 where j: "judge env f d = (al, rj, d1)" by (metis prod_cases3)
  let ?v = "verdict_on env f d"
  have s: "al = (?v = Allow \<or> ?v = Ask \<and> \<not> enforcing (d_mode d))" "rj = (?v = Deny)"
    "judged (flow_question env f d) ?v d d1" "decided_ok d1"
    using judge_spec [OF assms, of env f] j by auto
  have c: "control d1 = control d" "sent d1 = sent d" "d_pending d1 = d_pending d" using s(3) by (simp_all add: judged_def)
  then have m: "d_mode d1 = d_mode d" by (simp add: control_def)
  let ?as = "(if enforcing (d_mode d) \<and> rj then rst_actions pkt else []) @ (if \<not> enforcing (d_mode d) \<or> al then [Reinject pkt src] else [])"
  have p: "packet env pkt src d = Ret (emit ?as d1)"
    using packet_attempt [OF Some, of env d] j by (simp add: deliver_ret m)
  have q: "filter is_prompt ?as = []" "udp_rule ?as b = b" for b by (simp_all add: rst_actions_quiet)
  have fs: "filter is_send ?as = sent_for env pkt src d"
    using Some s(1,2) by (cases ?v) (auto simp: sent_for_def rst_actions_quiet)
  have f: "control (emit ?as d1) = control d" using emit_quiet(2) [OF q(2)] c(1) by simp
  have dp: "d_pending (emit ?as d1) = d_pending d" using c(3) by (simp add: emit_def)
  have qs: "questions (emit ?as d1) = questions d1" "asked (emit ?as d1) = asked d1"
    using q(1) by (simp_all only: emit_frame append_Nil2)
  have sn: "sent (emit ?as d1) = sent d @ sent_for env pkt src d" using fs c(2) by (simp only: emit_frame)
  have dc: "decided_ok (emit ?as d1)" using s(4) unfolding decided_ok_def emit_frame .
  have "if ?v = Ask \<and> enforcing (d_mode d) then asks_once (flow_question env f d) d d1
        else questions d1 = questions d \<and> asked d1 = asked d"
    using s(3) unfolding judged_def by blast
  then show ?thesis unfolding p using f dp qs sn dc Some by (auto split: if_splits)
qed

lemma packet_ret: "\<exists>d'. packet env pkt src d = Ret d'"
proof (cases "attempt pkt src")
  case None
  then show ?thesis using packet_other by blast
next
  case (Some f)
  obtain al rj d1 where j: "judge env f d = (al, rj, d1)" by (metis prod_cases3)
  show ?thesis using packet_attempt [OF Some, of env d] j by (simp add: deliver_ret)
qed

lemma packet_asks:
  assumes "decided_ok d" "packet env pkt src d = Ret d'"
  shows "questions d' = questions d \<and> asked d' = asked d
    \<or> (\<exists>key d1. asks_once key d d1 \<and> questions d' = questions d1 \<and> asked d' = asked d1)"
proof -
  note spec = packet_spec [OF assms(1), of env pkt src, unfolded assms(2) eval.inject]
  show ?thesis
  proof (cases "attempt pkt src")
    case None
    then show ?thesis using spec by simp
  next
    case (Some f)
    then have c: "if verdict_on env f d = Ask \<and> enforcing (d_mode d)
       then \<exists>d1. asks_once (flow_question env f d) d d1 \<and> questions d' = questions d1 \<and> asked d' = asked d1
       else questions d' = questions d \<and> asked d' = asked d"
      using spec by simp
    show ?thesis
    proof (cases "verdict_on env f d = Ask \<and> enforcing (d_mode d)")
      case True
      then show ?thesis using c unfolding if_P [OF True] by blast
    next
      case False
      then show ?thesis using c unfolding if_not_P [OF False] by blast
    qed
  qed
qed

section \<open>Invariants of the loop\<close>

text \<open>At most one prompt is open per question, and every upcall that waits has one.\<close>

definition questions_ok :: "daemon \<Rightarrow> bool" where
  "questions_ok d \<longleftrightarrow> distinct (map pending_key (d_prompts d)) \<and> d_asking d = set (map pending_key (d_prompts d))
     \<and> fst ` set (d_pending d) \<subseteq> d_asking d"

lemma questions_ok_cong: "questions d' = questions d \<Longrightarrow> questions_ok d' = questions_ok d"
  by (simp add: questions_ok_def questions_simps)

lemma questions_ok_keeps: "questions_ok d \<Longrightarrow> keeps_questions d d' \<Longrightarrow> questions_ok d'"
  unfolding questions_ok_def keeps_questions_def by (elim conjE disjE) simp_all

lemma questions_ok_asks:
  assumes "questions_ok d" "asks_once key d d'" "fst ` set (d_pending d') \<subseteq> insert key (fst ` set (d_pending d))"
  shows "questions_ok d'"
proof (cases "key \<in> d_asking d")
  case True
  then have e: "d_prompts d' = d_prompts d" "d_asking d' = d_asking d" using assms(2) by (simp_all add: asks_once_def)
  have "fst ` set (d_pending d) \<subseteq> d_asking d" using assms(1) unfolding questions_ok_def by (elim conjE)
  then have "insert key (fst ` set (d_pending d)) \<subseteq> d_asking d" using True by (rule insert_subsetI [rotated])
  from subset_trans [OF assms(3) this] show ?thesis
    using assms(1) unfolding questions_ok_def e by (elim conjE) (intro conjI)
next
  case False
  then obtain p where e: "d_asking d' = insert key (d_asking d)" "pending_key p = key" "d_prompts d' = d_prompts d @ [p]"
    using assms(2) by (auto simp: asks_once_def)
  have "fst ` set (d_pending d) \<subseteq> d_asking d" using assms(1) unfolding questions_ok_def by (elim conjE)
  then have "fst ` set (d_pending d') \<subseteq> d_asking d'"
    unfolding e(1) by (intro subset_trans [OF assms(3)] insert_mono)
  then show ?thesis using assms(1) False e unfolding questions_ok_def by simp
qed

lemma update_keys: "fst ` set (hm_insert k v m) = insert k (fst ` set m)"
  by (simp add: dom_update)

lemma remove_keys: "fst ` set (hm_remove k m) = fst ` set m - {k}"
  by (metis delete_keys set_map set_removeAll)

lemma questions_ok_answer:
  assumes "questions_ok d" "p \<in> set (d_prompts d)"
  shows "questions_ok (drain_answer env ans p d)"
proof -
  have "inj_on pending_key (set (d_prompts d))" "distinct (d_prompts d)"
    using assms(1) by (simp_all add: questions_ok_def distinct_map)
  then have "pending_key ` (set (d_prompts d) - {p}) = pending_key ` set (d_prompts d) - {pending_key p}"
    using assms(2) by (simp add: inj_on_image_set_diff)
  moreover have "set (remove1 p (d_prompts d)) = set (d_prompts d) - {p}"
    using \<open>distinct (d_prompts d)\<close> by simp
  moreover have "distinct (map pending_key (remove1 p (d_prompts d)))"
    using assms(1) \<open>distinct (d_prompts d)\<close> unfolding questions_ok_def distinct_map
    by (auto intro: inj_on_subset)
  ultimately show ?thesis
    using assms(1) drain_answer_frame(3) [of env ans p d] unfolding questions_ok_def questions_def prod.inject
    by (simp add: remove_keys) blast
qed

lemma questions_ok_upcall:
  assumes "questions_ok d"
  shows "questions_ok (drain_upcall env ev d)"
proof -
  let ?d = "snd (check_id env (ke_path ev) d)" and ?h = "name_for (d_names d) (ke_dst ev)"
  have c: "questions_ok ?d" using questions_ok_cong check_id_frame(1) assms by blast
  have k: "questions_ok (kern_answer env i b x) = questions_ok x" for i b x
    by (rule questions_ok_cong) (simp add: kern_answer_frame)
  have "questions_ok (ask_upcall ch ev ?h ?d)" for ch
    by (rule questions_ok_asks [OF c ask_upcall_once(1)])
      (simp add: ask_upcall_once(2) push_pending_def update_keys)
  then show ?thesis using assms c k by (simp add: drain_upcall_eq split: verdict.split)
qed

lemma start_fields:
  "d_prompts (start env fb pe dk) = []" "d_asking (start env fb pe dk) = {}" "d_pending (start env fb pe dk) = []"
  "d_decided (start env fb pe dk) = []" "d_upcall_on (start env fb pe dk) = False" "udp_diverted (start env fb pe dk)"
proof -
  let ?p = "fst (policy_load dk POLICY_PATH)"
  obtain k as where k: "kern_backend env ?p = (k, as)" by fastforce
  then have "udp_rule as True" using kern_backend_quiet [of env ?p] by (simp add: quiet_def)
  then show "d_prompts (start env fb pe dk) = []" "d_asking (start env fb pe dk) = {}" "d_pending (start env fb pe dk) = []"
    "d_decided (start env fb pe dk) = []" "d_upcall_on (start env fb pe dk) = False" "udp_diverted (start env fb pe dk)"
    using k by (simp_all add: start_def Let_def udp_diverted_def)
qed

text \<open>All that the loop keeps.\<close>

definition daemon_ok :: "daemon \<Rightarrow> bool" where
  "daemon_ok d \<longleftrightarrow> questions_ok d \<and> upcall_ok d \<and> decided_ok d"

lemma decided_ok_keeps: "decided_ok d \<Longrightarrow> d_decided d' = d_decided d \<or> d_decided d' = [] \<Longrightarrow> decided_ok d'"
  by (auto simp: decided_ok_def)

interpretation loop: loop_invariant daemon_ok
proof
  show "daemon_ok (start env fallback pe dk)" for env fallback pe dk
    by (simp add: daemon_ok_def questions_ok_def upcall_ok_def udp_ok_def decided_ok_def start_fields)
  show "daemon_ok (drain_answer env ans p d)" if "daemon_ok d" "p \<in> set (d_prompts d)" for d p env ans
    using that questions_ok_answer [of d p env ans] drain_answer_frame(1,2) [of env ans p d]
      upcall_ok_control [of "drain_answer env ans p d" d] decided_ok_keeps [of d "drain_answer env ans p d"]
    by (simp add: daemon_ok_def network_simps)
  show "daemon_ok (drain_upcall env ev d)" if "daemon_ok d" for d env ev
    using that questions_ok_upcall [of d env ev] drain_upcall_frame [of env ev d]
      upcall_ok_control [of "drain_upcall env ev d" d] decided_ok_keeps [of d "drain_upcall env ev d"]
    by (simp add: daemon_ok_def)
  show "daemon_ok (tick env d)" if "daemon_ok d" for d env
  proof -
    have t: "keeps_questions d (tick env d)" "upcall_ok (tick env d)"
      using tick_frame [of d env] that by (simp_all add: daemon_ok_def)
    have "decided_ok (tick env d)"
      using decided_ok_keeps [of d "tick env d"] t(1) that by (simp add: daemon_ok_def keeps_questions_def)
    then show ?thesis using t questions_ok_keeps [OF _ t(1)] that by (simp add: daemon_ok_def)
  qed
  show "daemon_ok d'" if "daemon_ok d" "packet env pkt src d = Ret d'" for d env pkt src d'
  proof -
    have ok: "decided_ok d" using that(1) by (simp add: daemon_ok_def)
    note spec = packet_spec [OF ok, of env pkt src, unfolded that(2) eval.inject]
    have "control d' = control d" "decided_ok d'" "d_pending d' = d_pending d" using spec by blast+
    moreover have q: "questions d' = questions d \<or> (\<exists>key d1. asks_once key d d1 \<and> questions d' = questions d1)"
      using packet_asks [OF ok that(2)] by blast
    moreover have qd: "questions_ok d" using that(1) by (simp add: daemon_ok_def)
    moreover have "questions_ok d'"
      using q
    proof (elim disjE exE conjE)
      show "questions_ok d'" if "questions d' = questions d" using questions_ok_cong [OF that] qd by simp
      show "questions_ok d'" if "asks_once key d d1" "questions d' = questions d1" for key d1
      proof -
        have "d_pending d1 = d_pending d" using that(2) \<open>d_pending d' = d_pending d\<close> by (simp add: questions_simps)
        then have "questions_ok d1" using questions_ok_asks [OF qd that(1)] by (simp only:) blast
        then show ?thesis using questions_ok_cong [OF that(2)] by simp
      qed
    qed
    ultimately show ?thesis using that(1) upcall_ok_control [of d' d] by (simp add: daemon_ok_def)
  qed
  show "daemon_ok (d\<lparr>d_disk := dk\<rparr>)" if "daemon_ok d" for d dk
  proof -
    have f: "questions (d\<lparr>d_disk := dk\<rparr>) = questions d" "control (d\<lparr>d_disk := dk\<rparr>) = control d"
      by (simp_all add: update_frame)
    have "decided_ok (d\<lparr>d_disk := dk\<rparr>) = decided_ok d" by (simp add: decided_ok_def)
    then show ?thesis using that questions_ok_cong [OF f(1)] upcall_ok_control [OF f(2)] by (simp add: daemon_ok_def)
  qed
qed

section \<open>Answers take effect\<close>

text \<open>What decides: the rules and the default.\<close>

definition deciding :: "policy \<Rightarrow> prule set \<times> verdict" where
  "deciding p = (rules_of p, default_or_ask p)"

lemma deciding_id: "deciding (forget_id p e) = deciding p" "deciding (fst (policy_record_id dk path p e sha)) = deciding p"
  by (simp_all add: deciding_def forget_id_def policy_record_id_def record_id_def rules_of_def default_or_ask_def split: prod.split)

lemma repin_deciding: "deciding (d_pol (repin env ans exe d)) = deciding (d_pol d)"
proof -
  have "d_pol d' = p" if "ident_hash env e (d\<lparr>d_pol := p, d_id_warned := w\<rparr>) = (h, d')" for e p w h d'
    using ident_hash_frame(4) [of env e "d\<lparr>d_pol := p, d_id_warned := w\<rparr>"] that by simp
  then show ?thesis
    using deciding_id
    by (auto simp: repin_def pol_record_id_def split: option.split prod.split) (metis deciding_id(1) deciding_id(2) fst_conv)+
qed

lemma drain_answer_rules:
  "rules_of (d_pol (drain_answer env ans p d)) =
     (case answer_rule ans (pn_exe p) (pn_dst p) (pn_host p) (pn_dport p) of
        None \<Rightarrow> rules_of (d_pol d) | Some r \<Rightarrow> insert r (rules_of (d_pol d)))"
  "default_or_ask (d_pol (drain_answer env ans p d)) = default_or_ask (d_pol d)"
proof -
  let ?d = "repin env ans (pn_exe p) (answer_upcalls env ans (pending_key p)
     (d\<lparr>d_prompts := remove1 p (d_prompts d), d_asking := d_asking d - {pending_key p}\<rparr>))"
  have r: "rules_of (d_pol ?d) = rules_of (d_pol d)" "default_or_ask (d_pol ?d) = default_or_ask (d_pol d)"
    using repin_deciding [of env ans "pn_exe p"] by (simp_all add: deciding_def answer_upcalls_frame)
  have "d_pol (drain_answer env ans p d) =
      fst (record_answer (d_pol ?d) ans (pn_exe p) (pn_dst p) (pn_host p) (pn_dport p) Approved)"
    by (simp add: drain_answer_def Let_def pol_record_def policy_record_def split: prod.split)
  then show "rules_of (d_pol (drain_answer env ans p d)) =
     (case answer_rule ans (pn_exe p) (pn_dst p) (pn_host p) (pn_dport p) of
        None \<Rightarrow> rules_of (d_pol d) | Some r \<Rightarrow> insert r (rules_of (d_pol d)))"
    "default_or_ask (d_pol (drain_answer env ans p d)) = default_or_ask (d_pol d)"
    by (cases "answer_rule ans (pn_exe p) (pn_dst p) (pn_host p) (pn_dport p)"; simp add: record_rules record_default r)+
qed

text \<open>The ioctls that answer waiting upcalls.\<close>

definition resolve_calls :: "bool \<Rightarrow> u64 list \<Rightarrow> action list" where
  "resolve_calls allow ids = map (\<lambda>i. Ioctl resolve_cmd (ResolveArg \<lparr>r_version = PFSNITCH_ATTR_VERSION,
     r_verdict = (if allow then PFSNITCH_V_ALLOW else PFSNITCH_V_DENY), r_id = i\<rparr>)) ids"

text \<open>A control handle on a device that obeys.\<close>

definition live :: "env \<Rightarrow> daemon \<Rightarrow> bool" where
  "live env d \<longleftrightarrow> (\<exists>k. d_kern d = Some k \<and> \<not> dead k) \<and> (\<forall>c a. dev_ctl (e_dev env) c a = None)"

lemma kern_resolve_live:
  assumes "live env d"
  shows "with_kern (kern_resolve (e_dev env) i allow) d = emit (resolve_calls allow [i]) d"
  using assms by (auto simp: live_def with_kern_def kern_resolve_def ctl_def resolve_calls_def emit_def)

lemma live_emit: "live env (emit as d) = live env d"
  by (simp add: live_def emit_frame)

lemma resolve_all_live: "live env d \<Longrightarrow> resolve_all env allow ids d = emit (resolve_calls allow ids) d"
proof (induction ids arbitrary: d)
  case (Cons i ids)
  have "resolve_all env allow (i # ids) d = resolve_all env allow ids (emit (resolve_calls allow [i]) d)"
    using kern_resolve_live [OF Cons.prems] by (simp add: resolve_all_def)
  also have "\<dots> = emit (resolve_calls allow ids) (emit (resolve_calls allow [i]) d)"
    using Cons by (simp add: live_emit)
  finally show ?case by (simp add: resolve_calls_def)
qed (simp add: resolve_all_def resolve_calls_def)

lemma quiet_trace:
  "d_trace (snd (ident_hash env e d)) = d_trace d" "d_trace (pol_record ans exe dst host dport orig d) = d_trace d"
  "d_trace (pol_record_id e sha d) = d_trace d"
  by (simp_all add: ident_hash_def pol_record_def pol_record_id_def split: prod.split)

lemma repin_trace: "d_trace (repin env ans exe d) = d_trace d"
proof -
  have "d_trace d' = d_trace d" if "ident_hash env e (d\<lparr>d_pol := p, d_id_warned := w\<rparr>) = (h, d')" for e p w h d'
    using quiet_trace(1) [of env e "d\<lparr>d_pol := p, d_id_warned := w\<rparr>"] that by simp
  then show ?thesis by (auto simp: repin_def quiet_trace split: option.split prod.split)
qed

lemma drain_answer_trace:
  assumes "live env d" "hm_get (d_pending d) (pending_key p) = Some ids"
  shows "d_trace (drain_answer env ans p d) = d_trace d @ resolve_calls (allows ans) ids"
proof -
  let ?d = "d\<lparr>d_prompts := remove1 p (d_prompts d), d_asking := d_asking d - {pending_key p},
     d_pending := hm_remove (pending_key p) (d_pending d)\<rparr>"
  have "live env ?d" using assms(1) by (simp add: live_def)
  then have "resolve_all env (allows ans) ids ?d = emit (resolve_calls (allows ans) ids) ?d" by (rule resolve_all_live)
  then show ?thesis
    using assms(2) by (simp add: drain_answer_def Let_def quiet_trace repin_trace answer_upcalls_def) (simp add: emit_def)
qed

end
