(* ===== verification/Daemon_Safety.thy ===== *)
theory Daemon_Safety
  imports Daemon
begin

text \<open>
  What the daemon guarantees (\<open>run\<close> in \<open>src/main.rs\<close>): properties of every state its loop can reach and of
  the handlers from there, from the invariants of \<open>Daemon\<close>.
\<close>

section \<open>States to try the properties on\<close>

text \<open>A daemon that has just started on an empty disk, with a device that obeys and knows no socket.\<close>

definition demo_env :: env where
  "demo_env = \<lparr>e_clock = 0, e_unix = 1, e_dev = \<lparr>dev_query = (\<lambda>c q. Inl 2), dev_ctl = (\<lambda>c a. None)\<rparr>,
     e_open = (3, 0), e_reader = (4, 0), e_mtime = (\<lambda>dk. None), e_stat = (\<lambda>p. None), e_sha = (\<lambda>p. None),
     e_ps = \<lparr>ps_open = False, ps_procs = None\<rparr>, e_write = None\<rparr>"

definition demo_daemon :: "mode \<Rightarrow> daemon" where
  "demo_daemon m = start demo_env m None empty_disk"

lemma demo_reachable: "reachable (demo_daemon m)"
  unfolding demo_daemon_def by (rule reachable.start)

lemma demo_policy: "fst (policy_load empty_disk POLICY_PATH) = default_policy"
  by (simp add: policy_load_def read_to_string_def empty_disk_def result_ok_def load_def)

lemma demo_fields: "d_mode (demo_daemon m) = m" "d_pol (demo_daemon m) = default_policy" "d_kern (demo_daemon m) = None"
  "d_decided (demo_daemon m) = []" "d_names (demo_daemon m) = dns_new" "d_res (demo_daemon m) = resolver_new"
  "d_asking (demo_daemon m) = {}" "d_trace (demo_daemon m) = []" "d_last_check (demo_daemon m) = 0" "d_mtime (demo_daemon m) = None"
  by (simp_all add: demo_daemon_def start_def demo_policy Let_def kern_backend_def policy_attribution_def
      policy_mode_def default_policy_def) (simp_all add: demo_env_def)

text \<open>A SYN to port 443 of 8.8.8.8.\<close>

definition demo_syn_packet :: bytes where
  "demo_syn_packet = enc_v4 (replicate 8 0) 6 [0, 0] (V4 10 0 0 1) (V4 8 8 8 8) []
     (l4_bytes 5000 443 [0, 0, 0, 1, 0, 0, 0, 0, 0x50, 0x02, 0, 0, 0, 0, 0, 0])"

definition syn_flow :: flow where
  "syn_flow = \<lparr>f_proto = 6, f_src = V4 10 0 0 1, f_dst = V4 8 8 8 8, f_sport = 5000, f_dport = 443, f_syn_only = True\<rparr>"

lemma demo_attempt: "attempt demo_syn_packet zeroed_sockaddr = Some syn_flow"
proof -
  have "parse demo_syn_packet = Ret (Some syn_flow)"
    unfolding demo_syn_packet_def by (subst parse_enc_v4) (simp_all add: syn_flow_def opens_conn_def)
  then show ?thesis by (simp add: attempt_def zeroed_sockaddr_def) (simp add: syn_flow_def)
qed

lemma demo_verdict: "verdict_on demo_env syn_flow (demo_daemon m) = Ask"
proof -
  have "\<exists>d1. attribute_flow demo_env syn_flow (demo_daemon m) = (None, d1)"
    by (simp add: attribute_flow_def demo_fields Let_def resolve_def resolver_new_def tables_get_empty rescan_def
        snapshot_def demo_env_def)
  then obtain d1 where a: "attribute_flow demo_env syn_flow (demo_daemon m) = (None, d1)" by blast
  have "decide default_policy None a h pt = Ask" for a h pt
    by (simp add: decide_eq deny_overrides_def rules_of_def default_policy_def default_or_ask_def forbids_def permits_def)
  then show ?thesis
    unfolding verdict_on_def new_verdict_def a by (simp add: demo_fields Let_def on_some_def)
qed

section \<open>Packets\<close>

text \<open>C2: visibility never drops: in that mode the daemon sends every packet it receives back unchanged, exactly
  once, answers none with a reset and raises no prompt.\<close>

theorem visibility_never_drops:
  assumes "reachable d" "d_mode d = Visibility"
  shows "\<exists>d'. packet env pkt src d = Ret d' \<and> sent d' = sent d @ [Reinject pkt src] \<and> asked d' = asked d
    \<and> d_mode d' = Visibility"
proof -
  have ok: "decided_ok d" using loop.inv_reachable [OF assms(1)] by (simp add: daemon_ok_def)
  have "\<not> enforcing (d_mode d)" using assms(2) by simp
  then show ?thesis
    using packet_spec [OF ok, of env pkt src] assms(2)
    by (fastforce simp: sent_for_def control_def split: option.splits)
qed

theorem visibility_never_drops_witness:
  "\<exists>d'. packet demo_env demo_syn_packet zeroed_sockaddr (demo_daemon Visibility) = Ret d'
     \<and> sent d' = [Reinject demo_syn_packet zeroed_sockaddr]"
  using visibility_never_drops [OF demo_reachable demo_fields(1), of demo_env demo_syn_packet zeroed_sockaddr]
  by (auto simp: sent_def demo_fields)

text \<open>C1: enforcement follows the verdict: an outgoing attempt is sent on exactly when its verdict allows it; a
  denied one is answered with a reset where there is one and not sent; while the question is open nothing is
  sent, and a prompt is raised exactly when none is open for the same question.\<close>

theorem enforcement_follows_verdict:
  assumes "reachable d" "d_mode d = Enforcement" "attempt pkt src = Some f"
  shows "\<exists>d'. packet env pkt src d = Ret d' \<and>
    (case verdict_on env f d of
       Allow \<Rightarrow> sent d' = sent d @ [Reinject pkt src] \<and> asked d' = asked d
     | Deny \<Rightarrow> sent d' = sent d @ rst_actions pkt \<and> asked d' = asked d
     | Ask \<Rightarrow> sent d' = sent d \<and> (if flow_question env f d \<in> d_asking d then asked d' = asked d
              else \<exists>bin args. asked d' = asked d @ [Prompt bin args]))"
proof -
  have ok: "decided_ok d" using loop.inv_reachable [OF assms(1)] by (simp add: daemon_ok_def)
  obtain d' where p: "packet env pkt src d = Ret d'" and s: "sent d' = sent d @ sent_for env pkt src d"
    and q: "if verdict_on env f d = Ask \<and> enforcing (d_mode d)
        then \<exists>d1. asks_once (flow_question env f d) d d1 \<and> questions d' = questions d1 \<and> asked d' = asked d1
        else questions d' = questions d \<and> asked d' = asked d"
    using packet_spec [OF ok, of env pkt src] assms(3) by auto
  show ?thesis
  proof (cases "verdict_on env f d = Ask")
    case True
    then obtain d1 where "asks_once (flow_question env f d) d d1" "asked d' = asked d1"
      using q assms(2) by auto
    then show ?thesis
      using p s True assms(2,3) by (auto simp: sent_for_def asks_once_def split: if_splits)
  next
    case False
    then show ?thesis
      using p s q assms(2,3) by (cases "verdict_on env f d") (auto simp: sent_for_def)
  qed
qed

theorem enforcement_follows_verdict_witness:
  "\<exists>d' bin args. packet demo_env demo_syn_packet zeroed_sockaddr (demo_daemon Enforcement) = Ret d'
     \<and> sent d' = [] \<and> asked d' = [Prompt bin args]"
  using enforcement_follows_verdict [OF demo_reachable demo_fields(1) demo_attempt, of demo_env]
  by (auto simp: demo_verdict demo_fields sent_def asked_def)

text \<open>No packet and no combination of answers, upcalls and timers makes a round of the loop panic.\<close>

theorem round_never_panics: "one_round r d \<noteq> Panic"
proof -
  have "packet env pkt src d \<noteq> Panic" for env pkt src d using packet_ret [of env pkt src d] by auto
  then show ?thesis by (simp add: one_round_def Let_def split: option.split)
qed

section \<open>Questions\<close>

text \<open>C4: in every reachable state at most one prompt is open per question (binary and destination), and every
  upcall that waits for an answer waits on an open prompt.\<close>

theorem one_prompt_per_question:
  assumes "reachable d"
  shows "distinct (map pending_key (d_prompts d))
    \<and> (\<forall>key ids. hm_get (d_pending d) key = Some ids \<longrightarrow> (\<exists>p \<in> set (d_prompts d). pending_key p = key))"
proof -
  have ok: "questions_ok d" using loop.inv_reachable [OF assms] by (simp add: daemon_ok_def)
  have "key \<in> pending_key ` set (d_prompts d)" if "hm_get (d_pending d) key = Some ids" for key ids
  proof -
    have "key \<in> fst ` set (d_pending d)" using map_of_SomeD [OF that] by force
    then show ?thesis using ok unfolding questions_ok_def by auto
  qed
  then show ?thesis using ok unfolding questions_ok_def by (metis imageE)
qed

theorem one_prompt_per_question_witness:
  "distinct (map pending_key (d_prompts (demo_daemon Enforcement)))"
  using one_prompt_per_question [OF demo_reachable] by blast

text \<open>An answer reaches everything that waits for it: with a live handle, exactly the upcalls waiting on the
  question are resolved, each with the answer, in the order they came, and none is left waiting.\<close>

theorem answer_resolves_waiting:
  assumes "live env d" "hm_get (d_pending d) (pending_key p) = Some ids"
  shows "d_trace (drain_answer env ans p d) = d_trace d @ resolve_calls (allows ans) ids
    \<and> hm_get (d_pending (drain_answer env ans p d)) (pending_key p) = None"
  using drain_answer_trace [OF assms] drain_answer_frame(3) [of env ans p d] by (simp add: questions_def)

definition demo_pending :: pending where
  "demo_pending = \<lparr>pn_host = None, pn_exe = Some ''/bin/a'', pn_dst = V4 10 0 0 7, pn_dport = 443\<rparr>"

theorem answer_resolves_waiting_witness:
  "d_trace (drain_answer demo_env Block demo_pending
      ((demo_daemon Enforcement)\<lparr>d_kern := Some \<lparr>k_fd = 3, dead = False\<rparr>, d_pending := [(pending_key demo_pending, [7, 9])]\<rparr>))
   = resolve_calls False [7, 9]"
proof -
  let ?d = "(demo_daemon Enforcement)\<lparr>d_kern := Some \<lparr>k_fd = 3, dead = False\<rparr>, d_pending := [(pending_key demo_pending, [7, 9])]\<rparr>"
  have "live demo_env ?d" by (simp add: live_def demo_env_def)
  moreover have "hm_get (d_pending ?d) (pending_key demo_pending) = Some [7, 9]" by simp
  ultimately show ?thesis
    using answer_resolves_waiting [of demo_env ?d demo_pending "[7, 9]" Block] by (simp add: demo_fields allows_def)
qed

text \<open>C5: an answer settles its question: where the policy had no verdict, after an answer it decides the very
  connection that was asked about as the user said, and after a timeout it still asks.\<close>

theorem answer_settles_question:
  assumes "decide (d_pol d) (pn_exe p) (pn_dst p) (pn_host p) (pn_dport p) = Ask"
  shows "decide (d_pol (drain_answer env ans p d)) (pn_exe p) (pn_dst p) (pn_host p) (pn_dport p)
    = (case answer_rule ans (pn_exe p) (pn_dst p) (pn_host p) (pn_dport p) of
         None \<Rightarrow> Ask | Some r \<Rightarrow> if reffect r = Forbid then Deny else Allow)"
proof -
  let ?q = "d_pol (drain_answer env ans p d)"
  have f: "\<not> (\<exists>f \<in> forbids (d_pol d). covers f (pn_exe p) (pn_dst p) (pn_host p) (pn_dport p))"
    using assms by (auto simp: decide_eq deny_overrides_def forbids_def split: if_splits)
  show ?thesis
  proof (cases "answer_rule ans (pn_exe p) (pn_dst p) (pn_host p) (pn_dport p)")
    case None
    then show ?thesis using assms drain_answer_rules [of env ans p d] by (simp add: decide_eq)
  next
    case (Some r)
    have "rules_of ?q = insert r (rules_of (d_pol d))" "default_or_ask ?q = default_or_ask (d_pol d)"
      using drain_answer_rules [of env ans p d] Some by simp_all
    from decide_insert [OF this, of "pn_exe p" "pn_dst p" "pn_host p" "pn_dport p"] show ?thesis
      using covers_answer_rule [OF Some] f Some by simp
  qed
qed

theorem answer_settles_question_witness:
  "decide (d_pol (drain_answer demo_env AllowConn demo_pending (demo_daemon Enforcement))) (Some ''/bin/a'') (V4 10 0 0 7) None 443 = Allow"
proof -
  have "decide (d_pol (demo_daemon Enforcement)) (pn_exe demo_pending) (pn_dst demo_pending) (pn_host demo_pending) (pn_dport demo_pending) = Ask"
    by (simp add: demo_fields decide_eq deny_overrides_def rules_of_def default_policy_def default_or_ask_def forbids_def permits_def)
  from answer_settles_question [OF this, of demo_env AllowConn] show ?thesis
    by (simp add: demo_pending_def answer_rule_def)
qed

section \<open>Control\<close>



text \<open>The settled verdicts are bounded and settled: in every reachable state there are at most 16385 of them, and
  none of them is a question.\<close>

theorem settled_verdicts:
  assumes "reachable d"
  shows "hm_len (d_decided d) \<le> 16385 \<and> hm_get (d_decided d) k \<noteq> Some Ask"
  using loop.inv_reachable [OF assms] unfolding daemon_ok_def decided_ok_def by blast

theorem settled_verdicts_witness: "hm_len (d_decided (demo_daemon Visibility)) \<le> 16385"
  using settled_verdicts [OF demo_reachable] by blast

text \<open>A step that adds to the trace without giving the module a verdict; and whether the module's cache was cleared on
  the way, unless there is no live handle to clear it through.\<close>

fun adds_verdict :: "action \<Rightarrow> bool" where
  "adds_verdict (Ioctl c a) \<longleftrightarrow> c = verdict_push_cmd \<or> c = resolve_cmd"
| "adds_verdict _ \<longleftrightarrow> False"

definition extends :: "daemon \<Rightarrow> daemon \<Rightarrow> bool" where
  "extends d d' \<longleftrightarrow> (\<exists>as. d_trace d' = d_trace d @ as \<and> (\<forall>a \<in> set as. \<not> adds_verdict a))"

definition no_live :: "daemon \<Rightarrow> bool" where
  "no_live d \<longleftrightarrow> (\<forall>k. d_kern d = Some k \<longrightarrow> dead k)"

definition flushed :: "daemon \<Rightarrow> daemon \<Rightarrow> bool" where
  "flushed d d' \<longleftrightarrow> (\<exists>as. d_trace d' = d_trace d @ as \<and> (\<forall>a \<in> set as. \<not> adds_verdict a)
     \<and> (Ioctl verdict_flush_cmd NoArg \<in> set as \<or> no_live d'))"

lemma extends_same: "d_trace d' = d_trace d \<Longrightarrow> extends d d'"
  by (simp add: extends_def)

lemma extends_emit:
  assumes "extends d d'" "\<forall>a \<in> set as. \<not> adds_verdict a"
  shows "extends d (emit as d')"
proof -
  obtain bs where "d_trace d' = d_trace d @ bs" "\<forall>a \<in> set bs. \<not> adds_verdict a" using assms(1) by (auto simp: extends_def)
  then show ?thesis using assms(2) by (auto simp: extends_def emit_def intro!: exI [of _ "bs @ as"])
qed

lemma extends_trans:
  assumes "extends d d'" "extends d' d''"
  shows "extends d d''"
proof -
  obtain as bs where "d_trace d' = d_trace d @ as" "d_trace d'' = d_trace d' @ bs"
    "\<forall>a \<in> set as. \<not> adds_verdict a" "\<forall>a \<in> set bs. \<not> adds_verdict a" using assms by (auto simp: extends_def)
  then show ?thesis by (auto simp: extends_def intro!: exI [of _ "as @ bs"])
qed

lemma mild_calls: "(c, a) \<in> set (snd (set_upcall dev b k)) \<Longrightarrow> c = upcall_set_cmd"
  "(c, a) \<in> set (snd (flush_verdicts dev k)) \<Longrightarrow> c = verdict_flush_cmd"
  by (auto simp: set_upcall_def flush_verdicts_def ctl_def split: if_splits option.splits)

lemma extends_with_kern:
  assumes "\<And>k c a. (c, a) \<in> set (snd (f k)) \<Longrightarrow> c \<noteq> verdict_push_cmd \<and> c \<noteq> resolve_cmd"
  shows "extends d (with_kern f d)"
proof (cases "d_kern d")
  case None
  then show ?thesis by (simp add: with_kern_def extends_same)
next
  case (Some k)
  obtain k' calls where f: "f k = (k', calls)" by fastforce
  have "extends d (emit (map (\<lambda>(c, a). Ioctl c a) calls) (d\<lparr>d_kern := Some k'\<rparr>))"
    by (rule extends_emit) (use assms [of _ _ k] f in \<open>auto simp: extends_same\<close>)
  then show ?thesis using Some f by (simp add: with_kern_def)
qed

lemma extends_upcall: "extends d (with_kern (set_upcall dev b) d)"
  by (rule extends_with_kern) (auto dest: mild_calls simp: command_numbers)

lemma extends_flush: "extends d (with_kern (flush_verdicts dev) d)"
  by (rule extends_with_kern) (auto dest: mild_calls simp: command_numbers)

lemma extends_set_kern: "extends d (set_kern k d)"
  by (cases "d_kern d") (simp_all add: set_kern_def extends_same extends_emit)

lemma extends_udp: "extends d d' \<Longrightarrow> extends d (set_udp_divert b d')"
  by (simp add: set_udp_divert_def extends_emit)

lemma extends_upcall_off: "extends d (upcall_off env d)"
  unfolding upcall_off_def
  by (intro extends_udp extends_trans [OF extends_upcall [of d "e_dev env" False] extends_same]) simp

lemma kern_mild: "\<forall>a \<in> set (snd (open_kern env)). \<not> adds_verdict a" "\<forall>a \<in> set (snd (kern_backend env p)). \<not> adds_verdict a"
proof -
  show "\<forall>a \<in> set (snd (open_kern env)). \<not> adds_verdict a"
  proof (cases "kern_open (fst (e_open env)) (snd (e_open env))")
    case (Inr k)
    obtain k' calls where f: "flush_verdicts (e_dev env) k = (k', calls)" by fastforce
    then have cl: "c = verdict_flush_cmd" if "(c, a) \<in> set calls" for c a
      using mild_calls(2) [of c a "e_dev env" k] that by simp
    have "\<not> adds_verdict (Ioctl c a)" if "(c, a) \<in> set calls" for c a by (simp add: cl [OF that] command_numbers)
    then show ?thesis using Inr f by (auto simp: open_kern_def)
  qed (simp add: open_kern_def)
  then show "\<forall>a \<in> set (snd (kern_backend env p)). \<not> adds_verdict a" by (simp add: kern_backend_def)
qed

lemma extends_switch: "extends d (switch_attribution env d)"
proof -
  let ?d = "if d_upcall_on d then upcall_off env d else d"
  obtain k as where k: "kern_backend env (d_pol ?d) = (k, as)" by fastforce
  have "extends d ?d" by (simp add: extends_upcall_off extends_same)
  then have "extends d (emit as ?d)" using extends_emit kern_mild(2) [of env "d_pol ?d"] k by simp
  then have "extends d (set_kern k (emit as ?d))" using extends_set_kern extends_trans by blast
  then show ?thesis using k by (simp add: switch_attribution_def Let_def)
qed

lemma flush_flushes: "flushed d (with_kern (flush_verdicts (e_dev env)) d)"
proof (cases "no_live d")
  case True
  then have "with_kern (flush_verdicts (e_dev env)) d = d"
    by (cases "d_kern d") (simp_all add: with_kern_def no_live_def flush_verdicts_def emit_def)
  then show ?thesis using True by (auto simp: flushed_def)
next
  case False
  then show ?thesis
    by (auto simp: no_live_def flushed_def with_kern_def flush_verdicts_def ctl_def emit_def command_numbers split: option.split)
qed

lemma flushed_before:
  assumes "extends d0 d" "flushed d d'"
  shows "flushed d0 d'"
proof -
  obtain as bs where "d_trace d = d_trace d0 @ as" "d_trace d' = d_trace d @ bs" "\<forall>a \<in> set as. \<not> adds_verdict a"
    "\<forall>a \<in> set bs. \<not> adds_verdict a" "Ioctl verdict_flush_cmd NoArg \<in> set bs \<or> no_live d'"
    using assms by (auto simp: extends_def flushed_def)
  then show ?thesis by (auto simp: flushed_def intro!: exI [of _ "as @ bs"])
qed

lemma flushed_after:
  assumes "flushed d d'" "extends d' d''" "no_live d' \<Longrightarrow> no_live d''"
  shows "flushed d d''"
proof -
  obtain as bs where "d_trace d' = d_trace d @ as" "d_trace d'' = d_trace d' @ bs" "\<forall>a \<in> set as. \<not> adds_verdict a"
    "\<forall>a \<in> set bs. \<not> adds_verdict a" "Ioctl verdict_flush_cmd NoArg \<in> set as \<or> no_live d'"
    using assms(1,2) by (auto simp: extends_def flushed_def)
  then show ?thesis using assms(3) by (auto simp: flushed_def intro!: exI [of _ "as @ bs"])
qed

lemma no_live_upcall: "no_live d \<Longrightarrow> with_kern (set_upcall dev b) d = d"
  by (cases "d_kern d") (simp_all add: no_live_def with_kern_def set_upcall_def emit_def)

lemma reconcile_no_live: "no_live d \<Longrightarrow> no_live (tick_reconcile env d)"
  by (auto simp: tick_reconcile_def upcall_off_def set_udp_divert_def no_live_upcall emit_frame split: sum.split)
    (simp_all add: no_live_def emit_frame)

lemma reconcile_extends: "extends d (tick_reconcile env d)"
proof -
  have "extends d ((with_kern (set_upcall (e_dev env) True) d)\<lparr>d_upcall_on := True\<rparr>)"
    by (rule extends_trans [OF extends_upcall [of d "e_dev env" True] extends_same]) simp
  then have "extends d (set_udp_divert False (emit [SpawnReader fd] ((with_kern (set_upcall (e_dev env) True) d)\<lparr>d_upcall_on := True\<rparr>)))" for fd
    by (intro extends_udp extends_emit) simp_all
  then show ?thesis by (auto simp: tick_reconcile_def extends_upcall_off extends_same split: sum.split)
qed

lemma reload_policy_result:
  "d_pol (reload_policy env d) = fst (policy_load (d_disk d) POLICY_PATH)"
  "d_mode (reload_policy env d) = policy_mode (fst (policy_load (d_disk d) POLICY_PATH)) (d_mode_fallback d)"
  "d_decided (reload_policy env d) = []" "d_mtime (reload_policy env d) = d_mtime d" "flushed d (reload_policy env d)"
proof -
  let ?p = "fst (policy_load (d_disk d) POLICY_PATH)"
  let ?d1 = "d\<lparr>d_pol := ?p, d_mode := policy_mode ?p (d_mode_fallback d)\<rparr>"
  let ?d2 = "if policy_attribution ?p \<noteq> policy_attribution (d_pol d) then switch_attribution env ?d1 else ?d1"
  have e: "reload_policy env d = with_kern (flush_verdicts (e_dev env)) (?d2\<lparr>d_decided := []\<rparr>)"
    by (simp add: reload_policy_def Let_def)
  have off: "d_pol (upcall_off env x) = d_pol x" "d_mode (upcall_off env x) = d_mode x" "d_mtime (upcall_off env x) = d_mtime x" for x
    by (auto simp: upcall_off_def set_udp_divert_def emit_def with_kern_def split: option.split prod.split)
  have "d_pol (switch_attribution env x) = d_pol x \<and> d_mode (switch_attribution env x) = d_mode x
      \<and> d_mtime (switch_attribution env x) = d_mtime x" for x
    by (auto simp: switch_attribution_def Let_def off set_kern_def emit_def split: option.split prod.split)
  then have d2: "d_pol ?d2 = ?p" "d_mode ?d2 = policy_mode ?p (d_mode_fallback d)" "d_mtime ?d2 = d_mtime d"
    by simp_all
  have w: "d_mode (with_kern f x) = d_mode x" "d_decided (with_kern f x) = d_decided x" "d_mtime (with_kern f x) = d_mtime x" for f x
    by (auto simp: with_kern_def emit_def split: option.split prod.split)
  show "d_pol (reload_policy env d) = ?p" "d_mode (reload_policy env d) = policy_mode ?p (d_mode_fallback d)"
    "d_decided (reload_policy env d) = []" "d_mtime (reload_policy env d) = d_mtime d"
    using d2 by (simp_all add: e with_kern_frame w)
  have "extends d ?d1" "extends ?d1 ?d2" "extends ?d2 (?d2\<lparr>d_decided := []\<rparr>)"
    by (simp_all add: extends_switch extends_same)
  then show "flushed d (reload_policy env d)" unfolding e
    using flushed_before [OF _ flush_flushes] extends_trans by meson
qed

lemma tick_reloads:
  assumes "1000 \<le> e_clock env - d_last_check d" "dk = d_disk (tick_seen env d)" "e_mtime env dk \<noteq> d_mtime d"
  shows "d_pol (tick env d) = fst (policy_load dk POLICY_PATH)
    \<and> d_mode (tick env d) = policy_mode (fst (policy_load dk POLICY_PATH)) (d_mode_fallback d)
    \<and> d_decided (tick env d) = [] \<and> d_mtime (tick env d) = e_mtime env dk \<and> flushed d (tick env d)"
proof -
  let ?d1 = "(tick_logged env (tick_seen env d))\<lparr>d_last_check := e_clock env\<rparr>"
  let ?d2 = "tick_kern env ?d1"
  let ?d3 = "?d2\<lparr>d_mtime := e_mtime env dk\<rparr>"
  have t: "tick_kern env x \<in> {x, set_kern None x} \<or> (\<exists>k as. tick_kern env x = emit as (x\<lparr>d_kern := k\<rparr>)
      \<and> (\<forall>a \<in> set as. \<not> adds_verdict a))" for x
  proof -
    obtain k as where k: "open_kern env = (k, as)" by fastforce
    then have "\<forall>a \<in> set as. \<not> adds_verdict a" using kern_mild(1) [of env] by simp
    then have "\<exists>k' as'. emit as (x\<lparr>d_kern := k\<rparr>) = emit as' (x\<lparr>d_kern := k'\<rparr>) \<and> (\<forall>a \<in> set as'. \<not> adds_verdict a)" by blast
    then show ?thesis by (simp add: tick_kern_def k split: option.split)
  qed
  have same: "d_disk (tick_kern env x) = d_disk x" "d_mtime (tick_kern env x) = d_mtime x"
    "d_mode_fallback (tick_kern env x) = d_mode_fallback x" for x
    using t [of x] by (auto simp: set_kern_def emit_def split: option.splits)
  have ext: "extends x (tick_kern env x)" for x
  proof -
    have "extends x (emit as (x\<lparr>d_kern := k\<rparr>))" if "\<forall>a \<in> set as. \<not> adds_verdict a" for as k
      by (rule extends_emit) (simp_all add: extends_same that)
    then show ?thesis using t [of x] extends_set_kern [of x None] by (auto simp: extends_same)
  qed
  have logged: "d_disk (tick_logged env x) = d_disk x" "d_mtime (tick_logged env x) = d_mtime x"
    "d_mode_fallback (tick_logged env x) = d_mode_fallback x" "d_last_check (tick_logged env x) = d_last_check x"
    "d_trace (tick_logged env x) = d_trace x" for x
    by (simp_all add: tick_logged_def)
  have seen: "d_mtime (tick_seen env x) = d_mtime x" "d_mode_fallback (tick_seen env x) = d_mode_fallback x"
    "d_last_check (tick_seen env x) = d_last_check x" "d_trace (tick_seen env x) = d_trace x" for x
    by (simp_all add: tick_seen_def split: prod.split)
  have e: "tick env d = tick_reconcile env (reload_policy env ?d3)"
    using assms by (simp add: tick_def Let_def logged seen tick_reload_def same)
  have d3: "d_disk ?d3 = dk" "d_mode_fallback ?d3 = d_mode_fallback d" "d_mtime ?d3 = e_mtime env dk"
    using assms(2) by (simp_all add: same logged seen)
  have "extends d ?d1" "extends ?d1 ?d2" "extends ?d2 ?d3" by (simp_all add: extends_same ext logged seen)
  then have x: "extends d ?d3" using extends_trans by blast
  note r = reload_policy_result [where env = env and d = ?d3, unfolded d3]
  have rec: "d_pol (tick_reconcile env y) = d_pol y" "d_mode (tick_reconcile env y) = d_mode y"
    "d_mtime (tick_reconcile env y) = d_mtime y" for y
    by (auto simp: tick_reconcile_def upcall_off_def set_udp_divert_def emit_def with_kern_def split: sum.split option.split prod.split)
  have dec: "d_decided (tick_reconcile env y) = d_decided y" for y
    by (auto simp: tick_reconcile_def upcall_off_def set_udp_divert_def emit_def with_kern_def split: sum.split option.split prod.split)
  have "flushed d (tick_reconcile env (reload_policy env ?d3))"
    using flushed_after [OF flushed_before [OF x r(5)] reconcile_extends reconcile_no_live] by blast
  then show ?thesis using r(1,2,3,4) by (simp add: e rec dec)
qed

text \<open>C18: an edit takes effect within a tick: when the modification time has changed, the daemon goes on with the
  policy that is in the file and with its mode, forgets every settled verdict, and has the module forget its own,
  unless it has no live handle on the module.\<close>

theorem reload_adopts_file:
  assumes "1000 \<le> e_clock env - d_last_check d" "dk = d_disk (tick_seen env d)" "e_mtime env dk \<noteq> d_mtime d"
  shows "d_pol (tick env d) = fst (policy_load dk POLICY_PATH)
    \<and> d_mode (tick env d) = policy_mode (fst (policy_load dk POLICY_PATH)) (d_mode_fallback d)
    \<and> d_decided (tick env d) = [] \<and> d_mtime (tick env d) = e_mtime env dk \<and> flushed d (tick env d)"
  by (rule tick_reloads [OF assms])

theorem reload_adopts_file_witness:
  "d_mtime (tick (demo_env\<lparr>e_clock := 2000, e_mtime := (\<lambda>dk. Some 7)\<rparr>) (demo_daemon Visibility)) = Some 7"
  using reload_adopts_file [of "demo_env\<lparr>e_clock := 2000, e_mtime := (\<lambda>dk. Some 7)\<rparr>" "demo_daemon Visibility", OF _ refl]
  by (simp add: demo_fields)

section \<open>Where the code does not do what it means to\<close>

text \<open>An upcall that was delivered before the mode changed is still answered from the policy afterwards: in
  visibility, which must never block, a denial goes into the module's cache.\<close>

lemma upcall_denied_in_visibility:
  assumes "d_mode d = Visibility" "live env d" "ke_path ev \<noteq> []" "expected_id (d_pol d) (ke_path ev) = None"
    "decide (d_pol d) (Some (ke_path ev)) (ke_dst ev) (name_for (d_names d) (ke_dst ev)) (ke_dport ev) = Deny"
  shows "drain_upcall env ev d = emit (resolve_calls False [ke_id ev]) d"
proof -
  have "check_id env (ke_path ev) d = (False, d)" using assms(4) by (simp add: check_id_def)
  then show ?thesis
    using assms kern_resolve_live [OF assms(2)] by (simp add: drain_upcall_eq upcall_verdict_def kern_answer_def)
qed

text \<open>A prompt nobody answers denies in the module, whose cache keeps the denial, though the policy keeps no rule.\<close>

lemma timeout_denies_in_module:
  assumes "live env d" "hm_get (d_pending d) (pending_key p) = Some ids"
  shows "d_trace (drain_answer env Timeout p d) = d_trace d @ resolve_calls False ids
    \<and> rules_of (d_pol (drain_answer env Timeout p d)) = rules_of (d_pol d)"
  using drain_answer_trace [OF assms, of Timeout] drain_answer_rules(1) [of env Timeout p d]
  by (simp add: allows_def answer_rule_def)

text \<open>An edit of the policy file just before the daemon records a learned destination is never read: the daemon
  takes over the modification time that follows its own write.\<close>

lemma learned_write_hides_edit:
  "tick_reload env (learn_packet env exe host f (d\<lparr>d_disk := edited\<rparr>)) = learn_packet env exe host f (d\<lparr>d_disk := edited\<rparr>)"
  "d_pol (learn_packet env exe host f (d\<lparr>d_disk := edited\<rparr>)) = d_pol (learn_packet env exe host f d)"
  by (simp_all add: learn_packet_def Let_def tick_reload_def pol_record_def policy_record_def split: prod.split)

text \<open>A UDP packet the machine sends from port 53 is taken for a DNS answer and sent on whatever the policy
  says.\<close>

lemma outgoing_port_53_passes:
  assumes "parse pkt = Ret (Some f)" "f_proto f = 17" "f_sport f = 53"
  shows "\<exists>n. packet env pkt src d = Ret (emit [Reinject pkt src] (d\<lparr>d_names := n\<rparr>))"
  using assms packet_other [of pkt src env d] by (simp add: attempt_def)

text \<open>A packet the parser refuses, such as one with eight extension headers, is sent on in enforcement too.\<close>

lemma refused_packet_passes:
  "parse pkt = Ret None \<Longrightarrow> packet env pkt src d = Ret (emit [Reinject pkt src] d)"
  by (simp add: packet_def deliver_ret)

end
