(* ===== verification/Cli.thy ===== *)
theory Cli
  imports Policy_File Procinfo Seen Kernattr Fmt "HOL-Library.List_Lexorder" "HOL-Library.Product_Lexorder" "HOL-Library.Char_ord"
begin

text \<open>
  The commands (\<open>main\<close> and the \<open>cmd_*\<close> functions in \<open>src/main.rs\<close>): what each prints to standard output,
  its exit code, and what it does to the disk.

  A command is a function from the arguments, what the system reports, and the disk to an outcome.  Text for
  standard error is left out; the exit code tells an error.
\<close>

section \<open>Outcomes\<close>

record outcome =
  o_lines :: "string list"
  o_exit :: int
  o_disk :: disk

text \<open>What the system reports to a command: the processes and its own process id, the prompt's environment variable,
  the clock.\<close>

record cli_env =
  c_procs :: procstat
  c_me :: int
  c_prompt :: "string option"
  c_now :: u64

definition succeeds :: "string list \<Rightarrow> disk \<Rightarrow> outcome" where
  "succeeds ls d = \<lparr>o_lines = ls, o_exit = 0, o_disk = d\<rparr>"

definition fails :: "int \<Rightarrow> string list \<Rightarrow> disk \<Rightarrow> outcome" where
  "fails code ls d = \<lparr>o_lines = ls, o_exit = code, o_disk = d\<rparr>"

definition wants_json :: "string list \<Rightarrow> bool" where
  "wants_json args \<longleftrightarrow> ''--json'' \<in> set args"

definition quoted :: "string \<Rightarrow> string" where
  "quoted s = [quote_char] @ json_escape s @ [quote_char]"

definition comment_json :: "string option \<Rightarrow> string" where
  "comment_json c = (case c of Some s \<Rightarrow> quoted s | None \<Rightarrow> ''null'')"

definition field :: "string \<Rightarrow> string \<Rightarrow> string" where
  "field name v = [quote_char] @ name @ [quote_char] @ '':'' @ v"

definition comma :: "nat \<Rightarrow> nat \<Rightarrow> string" where
  "comma i n = (if i + 1 = n then [] else '','')"

section \<open>Listing, adding and removing rules\<close>

definition rule_json :: "nat \<Rightarrow> nat \<times> rule \<Rightarrow> string" where
  "rule_json n e = (case e of (i, r) \<Rightarrow>
     ''  {'' @ field ''kind'' (quoted (kind r)) @ '','' @ field ''value'' (quoted (rvalue r)) @ '',''
       @ field ''comment'' (comment_json (comment r)) @ ''}'' @ comma i n)"

definition rule_row :: "rule \<Rightarrow> string" where
  "rule_row r = (case comment r of
      Some c \<Rightarrow> ljust 11 (kind r) @ '' '' @ ljust 44 (rvalue r) @ '' # '' @ c
    | None \<Rightarrow> ljust 11 (kind r) @ '' '' @ rvalue r)"

definition cmd_rules :: "string list \<Rightarrow> disk \<Rightarrow> outcome" where
  "cmd_rules args d = (let rs = rules d POLICY_PATH in
     if wants_json args then succeeds (''['' # map (rule_json (length rs)) (enumerate 0 rs) @ ['']'']) d
     else if rs = [] then succeeds [''no rules in '' @ POLICY_PATH] d
     else succeeds (map rule_row rs) d)"

text \<open>The argument that follows an option: \<open>position\<close> and \<open>get(i + 1)\<close>.\<close>

fun option_value :: "string \<Rightarrow> string list \<Rightarrow> string option" where
  "option_value name [] = None"
| "option_value name (a # as) = (if a = name then (case as of [] \<Rightarrow> None | v # _ \<Rightarrow> Some v) else option_value name as)"

definition add_kind :: "string \<Rightarrow> string \<Rightarrow> bool \<Rightarrow> string option" where
  "add_kind verb what scoped =
     (if verb = ''allow'' \<and> what = ''host'' \<and> \<not> scoped then Some ''allow-host''
      else if verb = ''allow'' \<and> what = ''host'' \<and> scoped then Some ''allow-host-from''
      else if verb = ''allow'' \<and> (what = ''dest'' \<or> what = ''ip'') \<and> scoped then Some ''allow-dest-from''
      else if verb = ''allow'' \<and> what = ''app'' then Some ''allow-app''
      else if verb = ''allow'' \<and> (what = ''dest'' \<or> what = ''ip'') \<and> \<not> scoped then Some ''allow-dest''
      else if verb = ''deny'' \<and> what = ''host'' \<and> \<not> scoped then Some ''deny-host''
      else if verb = ''deny'' \<and> what = ''host'' \<and> scoped then Some ''deny-host-from''
      else if verb = ''deny'' \<and> (what = ''dest'' \<or> what = ''ip'') \<and> scoped then Some ''deny-dest-from''
      else if verb = ''deny'' \<and> what = ''app'' then Some ''deny-app''
      else if verb = ''deny'' \<and> (what = ''dest'' \<or> what = ''ip'') \<and> \<not> scoped then Some ''deny-dest''
      else None)"

definition cmd_add :: "string list \<Rightarrow> string \<Rightarrow> disk \<Rightarrow> outcome" where
  "cmd_add args verb d = (case (get args 2, get args 3) of
      (Some what, Some v) \<Rightarrow>
        (let src = option_value ''--from'' args in
         if ''--from'' \<in> set args \<and> src = None then fails 64 [] d
         else case add_kind verb what (src \<noteq> None) of
           None \<Rightarrow> fails 64 [] d
         | Some k \<Rightarrow>
            (let v = (case src of Some e \<Rightarrow> if ends_with k ''-from'' then v @ '' '' @ e else v | None \<Rightarrow> v);
                 note' = option_value ''--note'' args
             in case add_rule d POLICY_PATH k v note' of
                  (Inr True, d') \<Rightarrow> succeeds [''added: '' @ k @ '' '' @ v] d'
                | (Inr False, d') \<Rightarrow> succeeds [''already present: '' @ k @ '' '' @ v] d'
                | (Inl e, d') \<Rightarrow> fails 1 [] d'))
    | _ \<Rightarrow> fails 64 [] d)"

fun join_words :: "string list \<Rightarrow> string" where
  "join_words [] = []"
| "join_words [w] = w"
| "join_words (w # ws) = w @ '' '' @ join_words ws"

definition plural :: "nat \<Rightarrow> string" where
  "plural n = (if n = 1 then [] else ''s'')"

definition cmd_rm :: "string list \<Rightarrow> disk \<Rightarrow> outcome" where
  "cmd_rm args d = (case (get args 2, get args 3) of
      (Some k, Some v0) \<Rightarrow>
        (if k \<notin> set KINDS then fails 64 [] d
         else let v = (if ends_with k ''-from'' then join_words (drop 3 args) else v0) in
           case remove_rule d POLICY_PATH k v of
             (Inr 0, d') \<Rightarrow> fails 1 [''no such rule: '' @ k @ '' '' @ v] d'
           | (Inr n, d') \<Rightarrow> succeeds [''removed '' @ show_nat n @ '' rule'' @ plural n] d'
           | (Inl e, d') \<Rightarrow> fails 1 [] d')
    | _ \<Rightarrow> fails 64 [] d)"

section \<open>Status and probe\<close>

definition count_kind :: "rule list \<Rightarrow> string \<Rightarrow> nat" where
  "count_kind rs k = length (filter (\<lambda>r. kind r = k) rs)"

fun join_commas :: "string list \<Rightarrow> string" where
  "join_commas [] = []"
| "join_commas [w] = w"
| "join_commas (w # ws) = w @ '','' @ join_commas ws"

definition cmd_status :: "cli_env \<Rightarrow> string list \<Rightarrow> disk \<Rightarrow> outcome" where
  "cmd_status env args d =
     (let pol = fst (policy_load d POLICY_PATH);
          rs = rules d POLICY_PATH;
          running = (if daemon_running (c_procs env) (c_me env) then ''running'' else ''stopped'');
          m = mode_str (policy_mode pol Visibility);
          pb = prompt_bin (c_prompt env) pol PROMPT_BIN
      in if wants_json args then
           succeeds [''{'' @ field ''daemon'' ([quote_char] @ running @ [quote_char]) @ '','' @ field ''mode'' ([quote_char] @ m @ [quote_char])
             @ '','' @ field ''policy'' (quoted POLICY_PATH) @ '','' @ field ''prompt'' (quoted pb)
             @ '','' @ field ''rules'' (''{'' @ join_commas (map (\<lambda>k. field k (show_nat (count_kind rs k))) KINDS) @ ''}'')
             @ '','' @ field ''total'' (show_nat (length rs)) @ ''}''] d
         else succeeds ([''daemon:  '' @ running, ''mode:    '' @ m, ''policy:  '' @ POLICY_PATH, ''prompt:  '' @ pb,
             ''default: '' @ summary pol]
             @ map (\<lambda>k. ''  '' @ ljust 11 k @ '' '' @ show_nat (count_kind rs k)) KINDS
             @ [''  '' @ ljust 11 ''total'' @ '' '' @ show_nat (length rs)]) d)"

definition probe_row :: "probe_entry \<Rightarrow> string" where
  "probe_row e = (let remote = (case pe_peer e of
        Some (ip, port) \<Rightarrow> show_ip ip @ '':'' @ show_nat (unat port)
      | None \<Rightarrow> ''(unconnected) '' @ show_ip (pe_local e) @ '':'' @ show_nat (unat (pe_lport e)))
     in ljust 16 (command (pe_owner e)) @ '' '' @ rjust 7 (show_int (pid (pe_owner e))) @ ''  ''
        @ ljust 40 (opath (pe_owner e)) @ '' '' @ ljust 26 remote @ '' '' @ confidence_str (pe_confidence e))"

definition probe_head :: string where
  "probe_head = ljust 16 ''COMMAND'' @ '' '' @ rjust 7 ''PID'' @ ''  '' @ ljust 40 ''PATH'' @ '' '' @ ljust 26 ''REMOTE'' @ '' '' @ ''HOW''"

definition probe :: "cli_env \<Rightarrow> disk \<Rightarrow> outcome" where
  "probe env d = (let rows = sort_key (\<lambda>e. (command (pe_owner e), unat (pe_lport e))) (entries (snapshot (c_procs env)))
     in succeeds (probe_head # map probe_row rows) d)"

section \<open>Switching mode and attribution\<close>

definition cmd_mode :: "string list \<Rightarrow> disk \<Rightarrow> outcome" where
  "cmd_mode args d = (case get args 2 of
      None \<Rightarrow> succeeds [mode_str (policy_mode (fst (policy_load d POLICY_PATH)) Visibility)] d
    | Some want \<Rightarrow>
       (case parse_mode want of
          None \<Rightarrow> fails 64 [] d
        | Some m \<Rightarrow>
           (case set_mode d POLICY_PATH m of
              (Inr _, d') \<Rightarrow> succeeds [''mode: '' @ mode_str m,
                if enforcing m then ''  unapproved connections are now blocked''
                else ''  decisions are logged; nothing is blocked'',
                ''  the running daemon picks this up within a second''] d'
            | (Inl e, d') \<Rightarrow> fails 1 [] d')))"

definition cmd_attribution :: "string list \<Rightarrow> disk \<Rightarrow> outcome" where
  "cmd_attribution args d = (case get args 2 of
      None \<Rightarrow> succeeds [attribution_str (policy_attribution (fst (policy_load d POLICY_PATH)))] d
    | Some want \<Rightarrow>
       (case parse_attribution want of
          None \<Rightarrow> fails 64 [] d
        | Some a \<Rightarrow>
           (case set_attribution d POLICY_PATH a of
              (Inr _, d') \<Rightarrow> succeeds ((''attribution: '' @ attribution_str a)
                # (case a of
                     KernelModule \<Rightarrow> [''  flows are named by mac_pfsnitch.ko, recorded at socket'',
                       ''  creation; procstat remains the fallback for a miss'']
                   | Procstat \<Rightarrow> [''  flows are named by scanning the process table (userspace)''])
                @ [''  the running daemon picks this up within a second'']) d'
            | (Inl e, d') \<Rightarrow> fails 1 [] d')))"

text \<open>\<open>kernel-reset\<close>: the commands sent to the module, none when the device cannot be opened.\<close>

definition cmd_kernel_reset :: "device \<Rightarrow> int \<Rightarrow> int \<Rightarrow> ioctl_call list" where
  "cmd_kernel_reset dev fd err = (case kern_open fd err of
      Inl e \<Rightarrow> []
    | Inr k \<Rightarrow> (case set_upcall dev False k of (k1, c1) \<Rightarrow>
        (case flush_verdicts dev k1 of (k2, c2) \<Rightarrow> c1 @ c2)))"

section \<open>Forgetting and clearing\<close>

definition cmd_forget :: "string list \<Rightarrow> disk \<Rightarrow> outcome" where
  "cmd_forget args d = (case get args 2 of
      Some exe \<Rightarrow>
       (if exe = [] then fails 64 [] d
        else if exe = ''-'' then fails 64 [] d
        else case remove_app d POLICY_PATH exe of
          (Inr (0, b), d') \<Rightarrow> fails 1 [''no rules for '' @ exe] d'
        | (Inr (n, b), d') \<Rightarrow> succeeds [''removed '' @ show_nat n @ '' rule'' @ plural n @ '' for '' @ exe,
             ''  previous policy saved as '' @ b] d'
        | (Inl e, d') \<Rightarrow> fails 1 [] d')
    | None \<Rightarrow> fails 64 [] d)"

definition cmd_clear :: "string list \<Rightarrow> disk \<Rightarrow> outcome" where
  "cmd_clear args d =
     (let rs = rules d POLICY_PATH; pol = fst (policy_load d POLICY_PATH) in
      if ''--yes'' \<notin> set args then
        fails 1 ([''this removes ALL '' @ show_nat (length rs) @ '' rules from '' @ POLICY_PATH]
          @ (if enforcing (policy_mode pol Visibility) then
               [[], ''  you are in ENFORCEMENT. Clearing includes the infrastructure rules -'',
                ''  your gateway and resolver - so every connection will prompt until you'',
                ''  approve them again, starting with DNS.''] else [])
          @ [[], ''  re-run with --yes to do it (the previous policy is kept as a .bak)'']) d
      else case clear_rules d POLICY_PATH of
        (Inr (0, b), d') \<Rightarrow> succeeds [''no rules to clear''] d'
      | (Inr (n, b), d') \<Rightarrow> succeeds [''cleared '' @ show_nat n @ '' rules'', ''  previous policy saved as '' @ b] d'
      | (Inl e, d') \<Rightarrow> fails 1 [] d')"

section \<open>Rules by application\<close>

record split =
  sp_app :: string
  sp_dest :: string
  sp_effect :: string

definition split_rule :: "string \<Rightarrow> string \<Rightarrow> split" where
  "split_rule k v =
     (let eff = (if starts_with k ''deny'' then ''deny'' else ''allow'') in
      if k = ''allow-app'' \<or> k = ''deny-app'' then
        \<lparr>sp_app = v, sp_dest = ''all destinations'', sp_effect = eff\<rparr>
      else if k \<in> {''allow-host-from'', ''allow-dest-from'', ''deny-host-from'', ''deny-dest-from''} then
        (case splitn2_ws v of (dst, rest) \<Rightarrow>
           \<lparr>sp_app = trim (unwrap_or_empty rest), sp_dest = dst, sp_effect = eff\<rparr>)
      else \<lparr>sp_app = [], sp_dest = v, sp_effect = eff\<rparr>)"

type_synonym groups = "(string, (rule \<times> split) list) hashmap"

definition add_group :: "rule \<Rightarrow> string list \<times> groups \<Rightarrow> string list \<times> groups" where
  "add_group r og = (case og of (order, groups) \<Rightarrow>
     let s = split_rule (kind r) (rvalue r); key = sp_app s in
     (if hm_get groups key = None then order @ [key] else order,
      hm_insert key ((case hm_get groups key of None \<Rightarrow> [] | Some l \<Rightarrow> l) @ [(r, s)]) groups))"

definition group_key :: "string \<Rightarrow> bool \<times> string" where
  "group_key a = (a = [], to_lowercase (after_last_char (CHR ''/'') a))"

definition grouped :: "rule list \<Rightarrow> string list \<times> groups" where
  "grouped rs = (case fold add_group rs ([], []) of (order, groups) \<Rightarrow> (sort_key group_key order, groups))"

definition group_of :: "groups \<Rightarrow> string \<Rightarrow> (rule \<times> split) list" where
  "group_of g a = (case hm_get g a of None \<Rightarrow> [] | Some l \<Rightarrow> l)"

fun latest :: "u64 list \<Rightarrow> u64 option" where
  "latest [] = None"
| "latest (t # ts) = Some (case latest ts of None \<Rightarrow> t | Some m \<Rightarrow> max t m)"

definition rule_seen :: "seen_table \<Rightarrow> string \<Rightarrow> split \<Rightarrow> u64 option" where
  "rule_seen tbl app s =
     (if app = [] then
        (let h = to_lowercase (fst (split_target (sp_dest s))) in latest (map snd (filter (\<lambda>((e, d), t). d = h) tbl)))
      else if sp_dest s = ''all destinations'' then latest (map snd (filter (\<lambda>((e, d), t). e = app) tbl))
      else hm_get tbl (app, to_lowercase (fst (split_target (sp_dest s)))))"

definition app_seen :: "seen_table \<Rightarrow> string \<Rightarrow> (rule \<times> split) list \<Rightarrow> u64 option" where
  "app_seen tbl app rs =
     (if app = [] then latest (List.map_filter (\<lambda>(r, s). rule_seen tbl app s) rs)
      else latest (map snd (filter (\<lambda>((e, d), t). e = app) tbl)))"

definition count_allow :: "(rule \<times> split) list \<Rightarrow> nat" where
  "count_allow rs = length (filter (\<lambda>(r, s). sp_effect s = ''allow'') rs)"

definition app_rows :: "u64 \<Rightarrow> seen_table \<Rightarrow> groups \<Rightarrow> string \<Rightarrow> string list" where
  "app_rows now tbl g app = (let rs = group_of g app; allow = count_allow rs in
     ((if app = [] then ''(any application)'' else app) @ ''  ['' @ show_nat allow @ '' allow, ''
        @ show_nat (length rs - allow) @ '' deny]  last: '' @ ago now (app_seen tbl app rs))
     # map (\<lambda>(r, s). ''    '' @ ljust 5 (sp_effect s) @ '' '' @ ljust 40 (sp_dest s) @ '' ''
          @ ljust 10 (ago now (rule_seen tbl app s)) @ '' '' @ kind r) rs)"

text \<open>Characters: a byte that starts one, with the bytes that continue it.\<close>

fun skip_chars :: "nat \<Rightarrow> string \<Rightarrow> string" where
  "skip_chars 0 s = s"
| "skip_chars (Suc n) [] = []"
| "skip_chars (Suc n) (c # cs) = skip_chars n (dropWhile (\<lambda>x. cont_byte (of_char x)) cs)"

definition ellipsis :: string where
  "ellipsis = [CHR 0xE2, CHR 0x80, CHR 0xA6]"

definition short_dir :: "string \<Rightarrow> nat \<Rightarrow> string" where
  "short_dir dir mx =
     (let n = char_count dir in
      if n \<le> mx then dir
      else let tail = skip_chars (n - (mx - 1)) dir in
        case split_at_char (CHR ''/'') tail of
          Some (a, b) \<Rightarrow> ellipsis @ ''/'' @ b
        | None \<Rightarrow> ellipsis @ tail)"

definition dir_and_name :: "string \<Rightarrow> string \<times> string" where
  "dir_and_name app =
     (if app = [] then ([], ''any application'')
      else case rsplit_at_char (CHR ''/'') app of
        Some (a, b) \<Rightarrow> (a @ ''/'', b)
      | None \<Rightarrow> ([], app))"

definition seen_json :: "u64 option \<Rightarrow> string" where
  "seen_json t = (case t of Some x \<Rightarrow> show_nat (unat x) | None \<Rightarrow> ''null'')"

definition app_rule_json :: "u64 \<Rightarrow> seen_table \<Rightarrow> string \<Rightarrow> nat \<Rightarrow> nat \<times> rule \<times> split \<Rightarrow> string" where
  "app_rule_json now tbl app n e = (case e of (j, r, s) \<Rightarrow>
     (let ls = rule_seen tbl app s in
      ''      {'' @ field ''kind'' (quoted (kind r)) @ '','' @ field ''value'' (quoted (rvalue r)) @ '',''
        @ field ''dest'' (quoted (sp_dest s)) @ '','' @ field ''effect'' ([quote_char] @ sp_effect s @ [quote_char]) @ '',''
        @ field ''last_seen'' (seen_json ls) @ '','' @ field ''last_seen_ago'' (quoted (ago now ls)) @ '',''
        @ field ''comment'' (comment_json (comment r)) @ ''}'' @ comma j n))"

definition app_json :: "u64 \<Rightarrow> seen_table \<Rightarrow> groups \<Rightarrow> nat \<Rightarrow> nat \<times> string \<Rightarrow> string list" where
  "app_json now tbl g n e = (case e of (i, app) \<Rightarrow>
     (let rs = group_of g app; allow = count_allow rs; al = app_seen tbl app rs in
      case dir_and_name app of (dir, name) \<Rightarrow>
       [''  {'', ''    '' @ field ''app'' (quoted app) @ '','', ''    '' @ field ''dir'' (quoted dir) @ '','',
        ''    '' @ field ''dir_short'' (quoted (short_dir dir 15)) @ '','', ''    '' @ field ''name'' (quoted name) @ '','',
        ''    '' @ field ''allow'' (show_nat allow) @ '','' @ field ''deny'' (show_nat (length rs - allow)) @ '',''
          @ field ''total'' (show_nat (length rs)) @ '','',
        ''    '' @ field ''last_seen'' (seen_json al) @ '','' @ field ''last_seen_ago'' (quoted (ago now al)) @ '','',
        ''    '' @ field ''rules'' ''['']
       @ map (app_rule_json now tbl app (length rs)) (enumerate 0 rs)
       @ [''    ]'', ''  }'' @ comma i n]))"

definition cmd_apps :: "cli_env \<Rightarrow> string list \<Rightarrow> disk \<Rightarrow> outcome" where
  "cmd_apps env args d =
     (let tbl = seen_load d in
      case grouped (rules d POLICY_PATH) of (order, groups) \<Rightarrow>
        if \<not> wants_json args then
          succeeds (concat (map (app_rows (c_now env) tbl groups) order)
            @ (if order = [] then [''no rules in '' @ POLICY_PATH] else [])) d
        else succeeds ([''{'' @ field ''apps'' ''['']
            @ concat (map (app_json (c_now env) tbl groups (length order)) (enumerate 0 order)) @ ['']}'']) d)"

section \<open>The command line\<close>

datatype command =
    RunDaemon mode
  | KernelReset
  | Command outcome

text \<open>\<open>main\<close>: the command the first argument names.\<close>

definition main :: "cli_env \<Rightarrow> string list \<Rightarrow> disk \<Rightarrow> command" where
  "main env args d = (let c = (case get args 1 of Some a \<Rightarrow> a | None \<Rightarrow> ''help'') in
     if c = ''probe'' then Command (probe env d)
     else if c = ''visibility'' \<or> c = ''listen'' then RunDaemon Visibility
     else if c = ''enforcement'' \<or> c = ''enforce'' then RunDaemon Enforcement
     else if c = ''rules'' \<or> c = ''list'' then Command (cmd_rules args d)
     else if c = ''allow'' then Command (cmd_add args ''allow'' d)
     else if c = ''deny'' then Command (cmd_add args ''deny'' d)
     else if c = ''rm'' \<or> c = ''remove'' then Command (cmd_rm args d)
     else if c = ''status'' then Command (cmd_status env args d)
     else if c = ''mode'' then Command (cmd_mode args d)
     else if c = ''attribution'' then Command (cmd_attribution args d)
     else if c = ''kernel-reset'' then KernelReset
     else if c = ''apps'' then Command (cmd_apps env args d)
     else if c = ''forget'' then Command (cmd_forget args d)
     else if c = ''clear'' then Command (cmd_clear args d)
     else if c = ''help'' \<or> c = ''-h'' \<or> c = ''--help'' then Command (fails 0 [] d)
     else Command (fails 64 [] d))"

section \<open>The JSON of the rules, read back\<close>

text \<open>A reader of the rows: a JSON string up to its closing quote, and the three fields of a row.\<close>

fun read_string :: "string \<Rightarrow> string \<Rightarrow> (string \<times> string) option" where
  "read_string acc [] = None"
| "read_string acc (c # cs) =
     (if c = quote_char then map_option (\<lambda>t. (t, cs)) (json_unescape acc)
      else if c = backslash then (case cs of [] \<Rightarrow> None | d # ds \<Rightarrow> read_string (acc @ [c, d]) ds)
      else read_string (acc @ [c]) cs)"

definition read_quoted :: "string \<Rightarrow> (string \<times> string) option" where
  "read_quoted s = (case s of [] \<Rightarrow> None | q # r \<Rightarrow> if q = quote_char then read_string [] r else None)"

definition read_comment :: "string \<Rightarrow> (string option \<times> string) option" where
  "read_comment s = (case strip_prefix ''null'' s of
      Some r \<Rightarrow> Some (None, r)
    | None \<Rightarrow> map_option (apfst Some) (read_quoted s))"

definition read_rule :: "string \<Rightarrow> rule option" where
  "read_rule line =
     Option.bind (strip_prefix (''  {'' @ field ''kind'' []) line) (\<lambda>a. Option.bind (read_quoted a) (\<lambda>(k, b).
     Option.bind (strip_prefix ('','' @ field ''value'' []) b) (\<lambda>c. Option.bind (read_quoted c) (\<lambda>(v, e).
     Option.bind (strip_prefix ('','' @ field ''comment'' []) e) (\<lambda>f. map_option (\<lambda>(cm, r).
       \<lparr>kind = k, rvalue = v, comment = cm\<rparr>) (read_comment f))))))"

text \<open>An escaped character is one plain character, or a backslash and a character that is no part of what follows.\<close>

lemma read_string_plain:
  "quote_char \<notin> set s \<Longrightarrow> backslash \<notin> set s \<Longrightarrow> read_string acc (s @ r) = read_string (acc @ s) r"
  by (induction s arbitrary: acc) auto

lemma hex4_plain: "n < 32 \<Longrightarrow> quote_char \<notin> set (hex4 n) \<and> backslash \<notin> set (hex4 n)"
proof -
  assume n: "n < 32"
  have "\<forall>n \<in> set [0..<32]. quote_char \<notin> set (hex4 n) \<and> backslash \<notin> set (hex4 n)" by code_simp
  then show ?thesis using n by simp
qed

lemma read_string_escape_char: "read_string acc (json_escape_char c @ r) = read_string (acc @ json_escape_char c) r"
proof -
  have "read_string acc (backslash # CHR ''u'' # hex4 (of_char c) @ r) = read_string (acc @ backslash # CHR ''u'' # hex4 (of_char c)) r"
    if "(of_char c :: nat) < 0x20"
    using hex4_plain [OF that] read_string_plain [of "hex4 (of_char c)"]
    by (simp add: backslash_def quote_char_def)
  then show ?thesis
    by (auto simp: json_escape_char_def tab_def newline_def backslash_def quote_char_def)
qed

lemma read_string_escape: "read_string acc (json_escape s @ r) = read_string (acc @ json_escape s) r"
  by (induction s arbitrary: acc) (simp_all add: json_escape_def read_string_escape_char)

lemma read_quoted_quoted [simp]: "read_quoted (quoted s @ r) = Some (s, r)"
  by (simp add: read_quoted_def quoted_def read_string_escape json_unescape_escape)

lemma read_comment_json [simp]: "read_comment (comment_json c @ r) = Some (c, r)"
proof (cases c)
  case None
  then show ?thesis using strip_prefix_append [of "''null''" r] by (simp add: read_comment_def comment_json_def)
next
  case (Some s)
  have "strip_prefix ''null'' (quoted s @ r) = None" by (simp add: quoted_def quote_char_def)
  then show ?thesis using Some by (simp add: read_comment_def comment_json_def)
qed

lemma field_split: "field n v = field n [] @ v"
  by (simp add: field_def)

lemma read_rule_json: "read_rule (rule_json n (i, r)) = Some r"
proof -
  have "rule_json n (i, r) = (''  {'' @ field ''kind'' []) @ quoted (kind r) @ ('','' @ field ''value'' []) @ quoted (rvalue r)
      @ ('','' @ field ''comment'' []) @ comment_json (comment r) @ ''}'' @ comma i n"
    by (simp only: rule_json_def prod.case field_split [of _ "quoted _"] field_split [of _ "comment_json _"] append_assoc)
  then show ?thesis
    by (simp only: read_rule_def strip_prefix_append bind.bind_lunit read_quoted_quoted prod.case read_comment_json option.map) simp
qed

lemma rule_json_one_line: "newline \<notin> set (rule_json n (i, r))"
  using json_escape_one_line
  by (auto simp: rule_json_def field_def quoted_def comment_json_def comma_def quote_char_def newline_def split: option.splits if_splits)

end
