(* ===== verification/Cli_Safety.thy ===== *)
theory Cli_Safety
  imports Cli
begin

text \<open>
  What the commands guarantee: the policy file changes only where a command that changes it succeeds, a rule
  that was to be scoped never becomes a global one, forgetting an application removes what \<open>apps\<close> lists for it,
  \<open>apps\<close> lists every rule once, and the JSON that frontends read holds the rules.
\<close>

section \<open>Changing the policy file\<close>

lemma POLICY_PATH_file [simp]: "file_path POLICY_PATH"
  by code_simp

text \<open>An outcome with one of the program's exit codes that has left the policy file alone unless the code is 0.\<close>

definition careful :: "disk \<Rightarrow> outcome \<Rightarrow> bool" where
  "careful d out \<longleftrightarrow> o_exit out \<in> {0, 1, 64} \<and> (o_exit out = 0 \<or> files (o_disk out) POLICY_PATH = files d POLICY_PATH)"

lemma careful_simps [simp]:
  "careful d (succeeds ls d')"
  "careful d (fails c ls d') \<longleftrightarrow> c \<in> {0, 1, 64} \<and> (c = 0 \<or> files d' POLICY_PATH = files d POLICY_PATH)"
  by (simp_all add: careful_def succeeds_def fails_def)

lemma disk_simps [simp]: "o_disk (succeeds ls d') = d'" "o_disk (fails c ls d') = d'"
  "o_exit (succeeds ls d') = 0" "o_exit (fails c ls d') = c" "o_lines (succeeds ls d') = ls"
  by (simp_all add: succeeds_def fails_def)

lemma add_rule_error: "add_rule d path k v note = (Inl e, d') \<Longrightarrow> d' = d"
  by (auto simp: add_rule_def append_line_def Let_def split: sum.splits if_splits prod.splits)

lemma rewrite_nothing:
  "file_path path \<Longrightarrow> remove_rule d path k v = (Inr 0, d') \<Longrightarrow> files d' path = files d path"
  "file_path path \<Longrightarrow> rewrite_with_backup hit d path = (Inr (0, b), d') \<Longrightarrow> files d' path = files d path"
  using remove_rule_run(1) [of path d k v 0 d'] backup_run(1) [of path hit d 0 b d']
  by (auto simp: read_to_string_def split: if_splits option.splits)

lemma careful_add: "careful d (cmd_add args verb d)"
  by (auto simp: cmd_add_def Let_def split: option.split sum.split prod.split bool.split dest: add_rule_error)

lemma careful_rm: "careful d (cmd_rm args d)"
  using remove_rule_run(2) [OF POLICY_PATH_file] rewrite_nothing(1) [OF POLICY_PATH_file]
  by (auto simp: cmd_rm_def Let_def split: option.split sum.split prod.split nat.split)

lemma careful_forget: "careful d (cmd_forget args d)"
  using backup_run(2) [OF POLICY_PATH_file] rewrite_nothing(2) [OF POLICY_PATH_file]
  by (auto simp: cmd_forget_def remove_app_def split: option.split sum.split prod.split nat.split)

lemma careful_clear: "careful d (cmd_clear args d)"
  using backup_run(2) [OF POLICY_PATH_file]
  by (auto simp: cmd_clear_def clear_rules_def Let_def split: option.split sum.split prod.split nat.split)

lemma set_directive_error: "file_path path \<Longrightarrow> set_directive d path k v = (Inl e, d') \<Longrightarrow> files d' path = files d path"
  using write_atomic_cases(3) by (auto simp: set_directive_def Let_def split: prod.splits)

lemma careful_mode: "careful d (cmd_mode args d)" and careful_attribution: "careful d (cmd_attribution args d)"
  using set_directive_error [OF POLICY_PATH_file]
  by (auto simp: cmd_mode_def cmd_attribution_def set_mode_def set_attribution_def split: option.split sum.split prod.split)

lemma listings:
  "o_disk (cmd_rules args d) = d" "o_disk (cmd_status env args d) = d" "o_disk (probe env d) = d" "o_disk (cmd_apps env args d) = d"
  "o_exit (cmd_rules args d) = 0" "o_exit (cmd_status env args d) = 0" "o_exit (probe env d) = 0" "o_exit (cmd_apps env args d) = 0"
  by (simp_all add: cmd_rules_def cmd_status_def probe_def cmd_apps_def Let_def split: prod.split)

lemma careful_listings: "careful d (cmd_rules args d)" "careful d (cmd_status env args d)" "careful d (probe env d)"
  "careful d (cmd_apps env args d)"
  by (simp_all add: careful_def listings)

lemma clear_asks: "''--yes'' \<notin> set args \<Longrightarrow> o_disk (cmd_clear args d) = d"
  by (simp add: cmd_clear_def Let_def)

text \<open>The command lines that are meant to change the policy file.\<close>

definition edits_policy :: "string list \<Rightarrow> bool" where
  "edits_policy args \<longleftrightarrow> (case get args 1 of
      None \<Rightarrow> False
    | Some c \<Rightarrow> c \<in> {''allow'', ''deny'', ''rm'', ''remove'', ''mode'', ''attribution'', ''forget''}
        \<or> c = ''clear'' \<and> ''--yes'' \<in> set args)"

lemma main_careful:
  assumes "main env args d = Command out"
  shows "careful d out" and "\<not> edits_policy args \<Longrightarrow> o_disk out = d"
proof -
  show "careful d out"
    using assms by (auto simp: main_def Let_def careful_add careful_rm careful_forget careful_clear careful_mode
        careful_attribution careful_listings split: if_splits)
  define c where "c = (case get args 1 of Some a \<Rightarrow> a | None \<Rightarrow> ''help'')"
  have e: "edits_policy args \<longleftrightarrow> c = ''allow'' \<or> c = ''deny'' \<or> c = ''rm'' \<or> c = ''remove'' \<or> c = ''mode''
      \<or> c = ''attribution'' \<or> c = ''forget'' \<or> c = ''clear'' \<and> ''--yes'' \<in> set args"
    by (cases "get args 1") (simp_all add: edits_policy_def c_def)
  show "o_disk out = d" if n: "\<not> edits_policy args"
  proof -
    have no: "c \<noteq> ''allow''" "c \<noteq> ''deny''" "\<not> (c = ''rm'' \<or> c = ''remove'')" "c \<noteq> ''mode''" "c \<noteq> ''attribution''"
      "c \<noteq> ''forget''" "c = ''clear'' \<longrightarrow> ''--yes'' \<notin> set args"
      using n unfolding e by argo+
    have m: "Command out = (if c = ''probe'' then Command (probe env d)
        else if c = ''visibility'' \<or> c = ''listen'' then RunDaemon Visibility
        else if c = ''enforcement'' \<or> c = ''enforce'' then RunDaemon Enforcement
        else if c = ''rules'' \<or> c = ''list'' then Command (cmd_rules args d)
        else if c = ''status'' then Command (cmd_status env args d)
        else if c = ''kernel-reset'' then KernelReset
        else if c = ''apps'' then Command (cmd_apps env args d)
        else if c = ''clear'' then Command (cmd_clear args d)
        else if c = ''help'' \<or> c = ''-h'' \<or> c = ''--help'' then Command (fails 0 [] d)
        else Command (fails 64 [] d))"
      using assms unfolding main_def Let_def c_def [symmetric] by (simp only: no if_False refl)
    show ?thesis using m no(7) clear_asks [of args d]
      by (simp only: listings disk_simps command.inject command.distinct split: if_splits) (simp_all only: listings disk_simps simp_thms)
  qed
qed



section \<open>Scoped rules\<close>

lemma set_trim: "set (trim s) \<subseteq> set s"
proof -
  have "set (trim_start s) \<subseteq> set s" for s
  proof (induction s rule: trim_start.induct)
    case (1 s)
    then show ?case by (subst trim_start.simps) (auto dest: in_set_dropD)
  qed
  moreover obtain b where "trim_start s = trim s @ b" using trim_end_prefix [of "trim_start s"] by (auto simp: trim_def)
  then have "set (trim s) \<subseteq> set (trim_start s)" by (metis Un_upper1 set_append)
  ultimately show ?thesis by blast
qed

lemma set_splitn2: "splitn2_ws s = (a, b) \<Longrightarrow> set a \<subseteq> set s \<and> (\<forall>r. b = Some r \<longrightarrow> set r \<subseteq> set s)"
  by (induction s arbitrary: a b rule: splitn2_ws.induct) (auto split: if_splits prod.splits dest: in_set_dropD)

lemma set_split_scoped: "split_scoped v = Some (a, e) \<Longrightarrow> set a \<subseteq> set v \<and> set e \<subseteq> set v"
  using set_splitn2 [of v] set_trim by (fastforce simp: split_scoped_def Let_def split: prod.splits option.splits if_splits)

lemma set_rsplit: "rsplit_at_char c s = Some (a, b) \<Longrightarrow> set a \<subseteq> set s"
  by (auto simp: rsplit_at_char_Some)

lemma set_split_at: "split_at_char c s = Some (a, b) \<Longrightarrow> set a \<subseteq> set s"
  by (auto simp: split_at_char_Some)

lemma set_strip_prefix: "strip_prefix p s = Some r \<Longrightarrow> set r \<subseteq> set s"
  by (induction p s rule: strip_prefix.induct) (auto split: if_splits)

lemma set_split_target: "split_target s = (h, pt) \<Longrightarrow> set h \<subseteq> set s"
proof -
  assume a: "split_target s = (h, pt)"
  show ?thesis
  proof (cases "Option.bind (strip_prefix ''['' (trim s)) (split_at_char (CHR '']''))")
    case (Some x)
    then obtain r where r: "strip_prefix ''['' (trim s) = Some r" "split_at_char (CHR '']'') r = Some x"
      by (auto simp: bind_eq_Some_conv)
    have "fst x = h" using a Some by (simp add: split_target_def Let_def split: prod.splits)
    then show ?thesis using set_strip_prefix [OF r(1)] set_split_at [of _ r h "snd x"] r(2) set_trim [of s] by force
  next
    case None
    have "h = trim s \<or> (\<exists>b. rsplit_at_char (CHR '':'') (trim s) = Some (h, b))"
      using a None by (auto simp only: split_target_def Let_def option.case prod.inject split: option.splits prod.splits if_splits)
    then show ?thesis using set_rsplit set_trim [of s] by fastforce
  qed
qed

lemma line_ok_subset: "line_ok v \<Longrightarrow> set w \<subseteq> set v \<Longrightarrow> line_ok w"
  by (auto simp: line_ok_def)

lemma line_ok_target: "line_ok h \<Longrightarrow> line_ok (join_target (to_lowercase h) pt)" "line_ok (join_target (show_ip a) pt)"
proof -
  have d: "line_ok (show_nat n)" for n by (simp add: plain_line_ok digits_plain)
  have j: "line_ok (join_target x pt)" if "line_ok x" for x
    using that d by (cases pt) (simp_all add: join_target_def newline_def)
  have "line_ok h \<Longrightarrow> line_ok (to_lowercase h)" by (simp add: line_ok_def in_to_lowercase_iff newline_def)
  then show "line_ok h \<Longrightarrow> line_ok (join_target (to_lowercase h) pt)" using j by blast
  show "line_ok (join_target (show_ip a) pt)" by (rule j [OF plain_line_ok]) simp
qed

lemma line_ok_normalise: "line_ok v \<Longrightarrow> line_ok (normalise k v)"
proof -
  assume v: "line_ok v"
  have t: "line_ok x \<Longrightarrow> split_target x = (h, pt) \<Longrightarrow> line_ok h" for x h pt
    using line_ok_subset set_split_target by blast
  have s: "split_scoped v = Some (x, e) \<Longrightarrow> line_ok x \<and> line_ok e" for x e
    using line_ok_subset [OF v] set_split_scoped by blast
  have sp: "CHR '' '' \<noteq> newline" by (simp add: newline_def)
  have a: "line_ok (case split_target v of (h, p) \<Rightarrow> join_target (to_lowercase h) p)"
    using t [OF v] by (auto simp: line_ok_target split: prod.split)
  have b: "line_ok (case split_scoped v of Some (h, e) \<Rightarrow> (case split_target h of (hh, p) \<Rightarrow>
      join_target (to_lowercase hh) p @ '' '' @ e) | None \<Rightarrow> v)"
    using t s by (auto simp: v sp line_ok_target split: option.split prod.split)
  have c: "line_ok (case split_scoped v of Some (a, e) \<Rightarrow> (case split_target a of (aa, p) \<Rightarrow>
      (case parse_ip aa of Some addr \<Rightarrow> join_target (show_ip addr) p @ '' '' @ e | None \<Rightarrow> v)) | None \<Rightarrow> v)"
    using s by (auto simp: v sp line_ok_target split: option.split prod.split)
  have d: "line_ok (case split_target v of (a, p) \<Rightarrow>
      (case parse_ip a of Some addr \<Rightarrow> join_target (show_ip addr) p | None \<Rightarrow> v))"
    by (auto simp: v line_ok_target split: option.split prod.split)
  show ?thesis unfolding normalise_def if_distrib [of line_ok] by (simp only: a b c d v if_cancel)
qed

text \<open>A line that starts with a keyword is a directive of that keyword.\<close>

lemma keyword_line:
  assumes "k \<in> set KINDS"
  shows "\<exists>w. line_edit (k @ CHR '' '' # s) = edit_of k w"
proof -
  have k: "plain k" "k \<noteq> []" "CHR ''#'' \<notin> set k" using KINDS_plain [OF assms] by auto
  have sp: "ws_char (CHR '' '')" by (simp add: str_simps)
  define u where "u = takeWhile (\<lambda>x. x \<noteq> CHR ''#'') s"
  have "takeWhile (\<lambda>x. x \<noteq> CHR ''#'') (k @ CHR '' '' # s) = k @ takeWhile (\<lambda>x. x \<noteq> CHR ''#'') (CHR '' '' # s)"
    by (rule takeWhile_append2) (use k(3) in auto)
  then have u: "before_char (CHR ''#'') (k @ CHR '' '' # s) = k @ CHR '' '' # u"
    by (simp add: before_char_def u_def)
  have "trim (k @ CHR '' '' # u) = k @ trim_end (CHR '' '' # u)"
    using k(1,2) trim_end_plain [OF k(1)] by (cases k) (auto simp: trim_def trim_start_plain plain_def)
  moreover have "trim_end (CHR '' '' # u) = [] \<or> trim_end (CHR '' '' # u) = CHR '' '' # trim_end u" by simp
  ultimately consider "trim (k @ CHR '' '' # u) = k" | "trim (k @ CHR '' '' # u) = k @ CHR '' '' # trim_end u" by auto
  then show ?thesis
  proof cases
    case 1
    then show ?thesis using k by (auto simp: line_edit_def u splitn2_ws_none)
  next
    case 2
    then show ?thesis using k splitn2_ws_plain [OF k(1) sp] by (auto simp: line_edit_def u)
  qed
qed

lemma rule_line_keyword: "\<exists>s. rule_line k norm note = k @ CHR '' '' # s"
  by (cases "note") (simp_all add: rule_line_def)

lemma option_value_arg: "option_value n args = Some v \<Longrightarrow> v \<in> set args"
  by (induction n args rule: option_value.induct) (auto split: if_splits list.splits)

lemma rule_line_ok:
  assumes "k \<in> set KINDS" "line_ok v" "\<forall>n. note = Some n \<longrightarrow> line_ok n"
  shows "line_ok (rule_line k (normalise k v) note)"
  using assms KINDS_plain [OF assms(1)] line_ok_normalise [OF assms(2)]
  by (cases "note") (simp_all add: rule_line_def newline_def tab_def)

text \<open>A rule of a scoped kind is scoped, whatever its text is.\<close>

lemma scoped_kind_scope:
  assumes "k \<in> {''allow-app'', ''deny-app'', ''allow-host-from'', ''deny-host-from'', ''allow-dest-from'', ''deny-dest-from''}"
  shows "k \<in> set KINDS" and "r \<in> edit_rules (edit_of k w) \<Longrightarrow> rscope r \<noteq> AnyApp"
proof -
  show K: "k \<in> set KINDS" using assms unfolding KINDS_iff by (elim insertE) (simp_all only: simp_thms empty_iff)
  assume r: "r \<in> edit_rules (edit_of k w)"
  obtain q where q: "edit_of k w = AddRule q" using kind_edit [OF K, of w] r by auto
  then have "r = q" using edit_of_AddRule(2) [OF q] r by simp
  moreover have "rule_kind q = k" using edit_of_AddRule(1) [OF q] by simp
  ultimately show "rscope r \<noteq> AnyApp"
    using assms by (cases q; cases "reffect q"; cases "rscope q"; cases "rdest q") auto
qed

lemma add_kind_scoped:
  "add_kind verb what True = Some k \<Longrightarrow>
    k \<in> {''allow-app'', ''deny-app'', ''allow-host-from'', ''deny-host-from'', ''allow-dest-from'', ''deny-dest-from''}"
  unfolding add_kind_def by (simp only: simp_thms insert_iff split: if_splits) auto

lemma add_rule_result:
  assumes "add_rule d path k v note = (Inr b, d')" "read_to_string d path = Inr t" "ends_nl t"
    and "line_ok (rule_line k (normalise k v) note)"
  shows "rules_of (fst (policy_load d' path))
    \<subseteq> rules_of (fst (policy_load d path)) \<union> edit_rules (line_edit (rule_line k (normalise k v) note))"
proof (cases "list_ex (same_rule k (normalise k v)) (rules d path)")
  case True
  then show ?thesis using assms(1) by (auto simp: add_rule_def Let_def split: sum.splits)
next
  case False
  let ?l = "rule_line k (normalise k v) note"
  have d': "append_line d path ?l = (Inr (), d')"
    using assms(1) False by (auto simp: add_rule_def Let_def split: sum.splits prod.splits)
  have t: "files d path = Some t" "(ReadOp, path) \<notin> denied d"
    using assms(2) by (auto simp: read_to_string_def split: if_splits option.splits)
  have f: "files d' path = Some (t @ ?l @ [newline])" "denied d' = denied d"
    using d' t by (auto simp: append_line_def split: if_splits)
  show ?thesis
  proof (cases "read_to_string d' path")
    case (Inl e)
    then have "rules_of (fst (policy_load d' path)) = {}" by (simp add: policy_load_def result_ok_def load_def)
    then show ?thesis by simp
  next
    case (Inr t')
    then have "t' = t @ ?l @ [newline]" using f by (auto simp: read_to_string_def split: if_splits)
    then have "fst (policy_load d' path) = apply_edit (line_edit ?l) (fst (policy_load d path))"
      using load_snoc [OF assms(3,4)] by (simp add: policy_load_read [OF Inr] policy_load_read [OF assms(2)] apply_line_edit)
    then show ?thesis by (auto simp: rules_of_edit)
  qed
qed



section \<open>Rules by application\<close>

text \<open>\<open>split_rule\<close> names the application a line is about, as \<open>remove_app\<close> sees it.\<close>

lemma splitn2_prefix: "\<exists>b. s = fst (splitn2_ws s) @ b"
  by (induction s rule: splitn2_ws.induct) (auto split: prod.splits)

lemma splitn2_first:
  assumes "trimmed v"
  shows "trim (fst (splitn2_ws v)) \<noteq> []"
proof -
  obtain c cs where v: "v = c # cs" "trim_start v = v" using assms by (cases v) (auto simp: trimmed_def)
  have w: "ws_len v = 0" using ws_len_trim_start [of v] v by simp
  then obtain a where d: "fst (splitn2_ws v) = c # a" by (cases "splitn2_ws cs") (simp add: v(1))
  obtain b where "v = (c # a) @ b" using splitn2_prefix [of v] d by metis
  then have "ws_len (c # a) = 0" using ws_len_append [of "c # a" b] w by (cases "ws_len (c # a)") auto
  then have "trim_start (c # a) = c # a" by (subst trim_start.simps) simp
  then show ?thesis by (simp add: d trim_def)
qed

lemma split_rule_app:
  assumes "k \<in> set KINDS" "trimmed v" "exe \<noteq> []"
  shows "sp_app (split_rule k v) = exe \<longleftrightarrow> line_app k v = Some exe"
  using assms(1)
proof (rule KINDS_cases)
qed (use splitn2_first [OF assms(2)] assms(3) trim_plain [of "[]"] in \<open>auto simp: split_rule_def line_app_kinds split_scoped_def
    unwrap_or_empty_def Let_def split: prod.splits option.splits\<close>)

lemma parse_line_trimmed: "parse_line raw = Some (k, v, c) \<Longrightarrow> trimmed v"
  by (auto simp: parse_line_def Let_def trimmed_trimI split: prod.splits if_splits)

text \<open>The application \<open>apps\<close> lists a rule under.\<close>

definition rule_app :: "rule \<Rightarrow> string" where
  "rule_app r = sp_app (split_rule (kind r) (rvalue r))"

lemma rules_text_lines: "rules_text t = List.map_filter (\<lambda>l. case parse_line l of
    Some (k, v, c) \<Rightarrow> if k \<in> set KINDS then Some \<lparr>kind = k, rvalue = v, comment = c\<rparr> else None | None \<Rightarrow> None) (lines t)"
proof -
  have "map (\<lambda>(k, v, c). \<lparr>kind = k, rvalue = v, comment = c\<rparr>) (filter (\<lambda>(k, v, c). k \<in> set KINDS) (List.map_filter parse_line ls))
      = List.map_filter (\<lambda>l. case parse_line l of
          Some (k, v, c) \<Rightarrow> if k \<in> set KINDS then Some \<lparr>kind = k, rvalue = v, comment = c\<rparr> else None | None \<Rightarrow> None) ls" for ls
    by (induction ls) (auto simp: List.map_filter_simps split: option.splits)
  then show ?thesis by (simp add: rules_text_def)
qed

lemma rules_text_kept:
  assumes "lines t' = filter (\<lambda>l. \<not> app_hit exe l) (lines t)" "exe \<noteq> []"
  shows "rules_text t' = filter (\<lambda>r. rule_app r \<noteq> exe) (rules_text t)"
proof -
  let ?f = "\<lambda>l. case parse_line l of
    Some (k, v, c) \<Rightarrow> if k \<in> set KINDS then Some \<lparr>kind = k, rvalue = v, comment = c\<rparr> else None | None \<Rightarrow> None"
  have "List.map_filter ?f (filter (\<lambda>l. \<not> app_hit exe l) ls) = filter (\<lambda>r. rule_app r \<noteq> exe) (List.map_filter ?f ls)" for ls
  proof (induction ls)
    case (Cons l ls)
    have "app_hit exe l \<longleftrightarrow> rule_app r = exe" if f: "?f l = Some r" for r
    proof -
      obtain k v c where p: "parse_line l = Some (k, v, c)" "k \<in> set KINDS" "r = \<lparr>kind = k, rvalue = v, comment = c\<rparr>"
        using f by (auto split: option.splits if_splits)
      show ?thesis
        using split_rule_app [OF p(2) parse_line_trimmed [OF p(1)] assms(2)] by (simp add: app_hit_iff rule_app_def p(1,3))
    qed
    then show ?case using Cons.IH by (cases "?f l") (simp_all add: List.map_filter_simps)
  qed (simp add: List.map_filter_simps)
  then show ?thesis by (simp add: rules_text_lines assms(1))
qed

text \<open>Grouping: the order names every application once, and a group has its application's rules in the order of the
  file.\<close>

definition with_split :: "rule \<Rightarrow> rule \<times> split" where
  "with_split r = (r, split_rule (kind r) (rvalue r))"

definition groups_of :: "rule list \<Rightarrow> string list \<times> groups \<Rightarrow> bool" where
  "groups_of rs og \<longleftrightarrow> distinct (fst og) \<and> set (fst og) = rule_app ` set rs
    \<and> (\<forall>a. (hm_get (snd og) a = None) = (a \<notin> rule_app ` set rs))
    \<and> (\<forall>a. group_of (snd og) a = map with_split (filter (\<lambda>r. rule_app r = a) rs))"

lemma groups_of_Nil: "groups_of [] ([], [])"
  by (simp add: groups_of_def group_of_def)

lemma groups_of_snoc:
  assumes "groups_of rs (order, groups)"
  shows "groups_of (rs @ [r]) (add_group r (order, groups))"
proof -
  let ?key = "rule_app r"
  have g: "add_group r (order, groups) = (if hm_get groups ?key = None then order @ [?key] else order,
      hm_insert ?key (group_of groups ?key @ [with_split r]) groups)"
    by (simp add: add_group_def Let_def rule_app_def group_of_def with_split_def)
  have "group_of (hm_insert ?key x groups) a = (if a = ?key then x else group_of groups a)" for x a
    by (simp add: group_of_def)
  then show ?thesis
    using assms unfolding g groups_of_def by (auto simp: insert_absorb)
qed

lemma groups_of_fold: "groups_of rs (fold add_group rs ([], []))"
proof (induction rs rule: rev_induct)
  case (snoc r rs)
  then show ?case using groups_of_snoc [of rs "fst (fold add_group rs ([], []))" "snd (fold add_group rs ([], []))"] by simp
qed (simp add: groups_of_Nil)

lemma grouped_groups: "groups_of rs (grouped rs)" "sorted (map group_key (fst (grouped rs)))"
proof -
  obtain order groups where f: "fold add_group rs ([], []) = (order, groups)" by fastforce
  have g: "grouped rs = (sort_key group_key order, groups)" by (simp add: grouped_def f)
  show "groups_of rs (grouped rs)" using groups_of_fold [of rs] by (simp add: f g groups_of_def)
  show "sorted (map group_key (fst (grouped rs)))" by (simp add: g)
qed

lemma groups_count: "groups_of rs (order, groups) \<Longrightarrow> sum_list (map (\<lambda>a. length (group_of groups a)) order) = length rs"
proof -
  assume a: "groups_of rs (order, groups)"
  then have "sum_list (map (\<lambda>a. length (group_of groups a)) order)
      = (\<Sum>a \<in> rule_app ` set rs. length (filter (\<lambda>r. rule_app r = a) rs))"
    by (simp add: groups_of_def sum_list_distinct_conv_sum_set)
  also have "\<dots> = length rs"
    using sum_count_set [of "map rule_app rs" "rule_app ` set rs"]
    by (simp add: count_list_eq_length_filter filter_map comp_def eq_commute [of "rule_app _"])
  finally show ?thesis .
qed

text \<open>\<open>apps\<close> lists every rule once: each application of the policy file is named once, the applications with
  a path first and in the order of their file names; below it stand exactly its rules, in the order of the
  file; and the lines printed, as text and as JSON, are those of the groups and no other.\<close>

theorem apps_lists_every_rule:
  "case grouped (rules d POLICY_PATH) of (order, groups) \<Rightarrow>
     distinct order \<and> set order = rule_app ` set (rules d POLICY_PATH) \<and> sorted (map group_key order)
     \<and> (\<forall>a. map fst (group_of groups a) = filter (\<lambda>r. rule_app r = a) (rules d POLICY_PATH))
     \<and> length (o_lines (cmd_apps env args d)) =
         (if wants_json args then 2 + 10 * length order + length (rules d POLICY_PATH)
          else if order = [] then 1 else length order + length (rules d POLICY_PATH))"
proof -
  let ?rs = "rules d POLICY_PATH"
  obtain order groups where g: "grouped ?rs = (order, groups)" by fastforce
  have ok: "groups_of ?rs (order, groups)" "sorted (map group_key order)" using grouped_groups [of ?rs] g by simp_all
  have fst: "map fst (group_of groups a) = filter (\<lambda>r. rule_app r = a) ?rs" for a
    using ok(1) by (simp add: groups_of_def with_split_def comp_def)
  have json: "length (app_json now tbl groups n (i, a)) = 10 + length (group_of groups a)" for now tbl n i a
    by (simp add: app_json_def Let_def split: prod.split)
  have "length (concat (map (app_json now tbl groups n) (enumerate i as))) = sum_list (map (\<lambda>a. 10 + length (group_of groups a)) as)"
    for now tbl n i as by (induction as arbitrary: i) (simp_all add: json)
  then have j: "length (concat (map (app_json now tbl groups n) (enumerate i order))) = 10 * length order + length ?rs" for now tbl n i
    by (simp add: sum_list_addf groups_count [OF ok(1)] sum_list_triv)
  have "length (concat (map (app_rows now tbl groups) as)) = sum_list (map (\<lambda>a. 1 + length (group_of groups a)) as)" for now tbl as
    by (induction as) (simp_all add: app_rows_def Let_def)
  then have t: "length (concat (map (app_rows now tbl groups) order)) = length order + length ?rs" for now tbl
    by (simp add: sum_list_Suc groups_count [OF ok(1)])
  have "order = [] \<Longrightarrow> ?rs = []" using ok(1) by (simp add: groups_of_def)
  then show ?thesis
    using ok fst t j by (simp add: g groups_of_def cmd_apps_def Let_def del: length_concat)
qed

text \<open>C23: \<open>forget\<close> removes what \<open>apps\<close> shows: when \<open>pfsnitch forget\<close> succeeds, the rules of the policy file are
  those it had less the ones \<open>apps\<close> lists under the application, in the same order and with the same comments,
  the application is no longer listed, and no identity is pinned for it.\<close>

theorem forget_empties_group:
  assumes "read_to_string d POLICY_PATH = Inr t" and "CHR 0x0D \<notin> set t" and "get args 2 = Some exe"
    and "o_exit (cmd_forget args d) = 0"
  shows "let d' = o_disk (cmd_forget args d) in
    rules d' POLICY_PATH = filter (\<lambda>r. rule_app r \<noteq> exe) (rules d POLICY_PATH)
    \<and> exe \<notin> set (fst (grouped (rules d' POLICY_PATH)))
    \<and> expected_id (fst (policy_load d' POLICY_PATH)) exe = None"
proof -
  obtain n b d' where ne: "exe \<noteq> []" and r: "remove_app d POLICY_PATH exe = (Inr (n, b), d')"
    and d': "o_disk (cmd_forget args d) = d'"
    using assms(3,4) by (auto simp: cmd_forget_def split: if_splits sum.splits prod.splits nat.splits)
  have run: "count_only (remove_app d POLICY_PATH exe) = (Inr n, d')" using r by (simp add: count_only_simps)
  obtain t' where t': "read_to_string d' POLICY_PATH = Inr t'" "lines t' = filter (\<lambda>l. \<not> app_hit exe l) (lines t)"
    using app.run_lines [OF POLICY_PATH_file run assms(1,2)] by blast
  have rs: "rules d' POLICY_PATH = filter (\<lambda>r. rule_app r \<noteq> exe) (rules d POLICY_PATH)"
    using rules_text_kept [OF t'(2) ne] by (simp add: rules_def t'(1) assms(1))
  moreover have "expected_id (fst (policy_load d' POLICY_PATH)) exe = None"
    by (rule app.run_no_id [OF POLICY_PATH_file run assms(1,2) app_miss_edit(2) [OF _ ne]])
  moreover have "exe \<notin> set (fst (grouped (rules d' POLICY_PATH)))"
    using grouped_groups(1) [of "rules d' POLICY_PATH"] by (auto simp: groups_of_def rs)
  ultimately show ?thesis by (simp add: d' Let_def)
qed

theorem forget_empties_group_witness:
  "rules (o_disk (cmd_forget [''pfsnitch'', ''forget'', ''/bin/b''] ((demo_disk [])\<lparr>files := [POLICY_PATH \<mapsto> demo_text]\<rparr>))) POLICY_PATH
     = [\<lparr>kind = ''allow-app'', rvalue = ''/bin/a'', comment = None\<rparr>]"
proof -
  let ?d = "(demo_disk [])\<lparr>files := [POLICY_PATH \<mapsto> demo_text]\<rparr>"
  let ?args = "[''pfsnitch'', ''forget'', ''/bin/b'']"
  have v: "str_valid demo_text" by code_simp
  have r: "read_to_string ?d POLICY_PATH = Inr demo_text" by (simp add: read_to_string_def demo_disk_def v)
  have h: "map (app_hit ''/bin/b'') (lines demo_text) = [False, False, True]" by code_simp
  have "denied ?d = {}" by (simp add: demo_disk_def)
  then obtain n b d' where a: "remove_app ?d POLICY_PATH ''/bin/b'' = (Inr (n, b), d')"
    using rewrite_succeeds [OF _ r] unfolding remove_app_def by blast
  have "n = length (filter (app_hit ''/bin/b'') (lines demo_text))"
    using backup_run(1) [OF POLICY_PATH_file a [unfolded remove_app_def]] r by auto
  then have "n \<noteq> 0" using h by (simp add: demo_lines)
  then have x: "o_exit (cmd_forget ?args ?d) = 0" using a by (cases n) (simp_all add: cmd_forget_def get_def)
  have rs: "rules ?d POLICY_PATH = [\<lparr>kind = ''allow-app'', rvalue = ''/bin/a'', comment = None\<rparr>,
      \<lparr>kind = ''allow-dest-from'', rvalue = ''1.2.3.4:53 /bin/b'', comment = None\<rparr>]"
    unfolding rules_def r by simp code_simp
  have "rule_app \<lparr>kind = ''allow-app'', rvalue = ''/bin/a'', comment = None\<rparr> = ''/bin/a''" by code_simp
  moreover have "rule_app \<lparr>kind = ''allow-dest-from'', rvalue = ''1.2.3.4:53 /bin/b'', comment = None\<rparr> = ''/bin/b''" by code_simp
  ultimately show ?thesis
    using forget_empties_group [OF r demo_no_cr _ x] by (simp add: rs Let_def get_def)
qed

text \<open>A wildcard rule that lets connections through is listed as never used: the table has the host, the lookup uses
  the pattern.\<close>

lemma wildcard_rule_never_seen:
  "let tbl = [((''/bin/a'', ''x.b.c''), 1)]; s = split_rule ''allow-host-from'' ''*.b.c /bin/a''
   in decide (apply_line ''allow-host-from *.b.c /bin/a'' default_policy) (Some ''/bin/a'') (V4 1 2 3 4) (Some ''x.b.c'') 443 = Allow
     \<and> rule_seen tbl (sp_app s) s = None"
  by code_simp

section \<open>The JSON of the rules\<close>

text \<open>A frontend gets exactly the rules: every line that \<open>rules --json\<close> prints between the brackets holds one
  rule, on one line, and reading its fields back gives the rules of the policy file, in order, whatever bytes
  their values and comments have.\<close>

theorem rules_json_roundtrip:
  assumes "wants_json args"
  shows "\<exists>rows. o_lines (cmd_rules args d) = [''[''] @ rows @ ['']'']
    \<and> map read_rule rows = map Some (rules d POLICY_PATH)
    \<and> (\<forall>row \<in> set rows. newline \<notin> set row)
    \<and> o_disk (cmd_rules args d) = d"
proof -
  let ?rs = "rules d POLICY_PATH"
  let ?rows = "map (rule_json (length ?rs)) (enumerate 0 ?rs)"
  have e: "o_lines (cmd_rules args d) = [''[''] @ ?rows @ ['']'']" "o_disk (cmd_rules args d) = d"
    using assms by (simp_all add: cmd_rules_def Let_def succeeds_def)
  have "map read_rule ?rows = map (\<lambda>x. Some (snd x)) (enumerate 0 ?rs)"
    unfolding map_map by (rule map_cong [OF refl]) (auto simp: read_rule_json)
  also have "\<dots> = map Some (map snd (enumerate 0 ?rs))" by (simp only: map_map comp_def)
  also have "map snd (enumerate 0 ?rs) = ?rs" by simp
  finally have r: "map read_rule ?rows = map Some ?rs" .
  have "\<forall>row \<in> set ?rows. newline \<notin> set row" by (auto simp: rule_json_one_line)
  then show ?thesis using e r by blast
qed

theorem rules_json_roundtrip_witness:
  "\<exists>row. o_lines (cmd_rules [''pfsnitch'', ''rules'', ''--json''] ((demo_disk [])\<lparr>files := [POLICY_PATH \<mapsto> ''deny-host a#b'']\<rparr>)) = [''['', row, '']'']
     \<and> read_rule row = Some \<lparr>kind = ''deny-host'', rvalue = ''a'', comment = Some ''b''\<rparr>"
proof -
  let ?d = "(demo_disk [])\<lparr>files := [POLICY_PATH \<mapsto> ''deny-host a#b'']\<rparr>"
  have v: "str_valid ''deny-host a#b''" by code_simp
  have r: "rules ?d POLICY_PATH = [\<lparr>kind = ''deny-host'', rvalue = ''a'', comment = Some ''b''\<rparr>]"
    by (simp add: rules_def read_to_string_def demo_disk_def v) code_simp
  have "wants_json [''pfsnitch'', ''rules'', ''--json'']" by (simp add: wants_json_def)
  from rules_json_roundtrip [OF this, of ?d] show ?thesis unfolding r by (auto simp: Cons_eq_map_conv)
qed

end
