(* ===== verification/Restart.thy ===== *)
theory Restart
  imports Daemon_Safety
begin

text \<open>
  The daemon's policy in memory against the policy file: what recording an answer does to both.  The root
  theory draws the conclusion about a restart.
\<close>

section \<open>The file and the memory\<close>

definition agree :: "policy \<Rightarrow> policy \<Rightarrow> bool" where
  "agree p q \<longleftrightarrow> rules_of p = rules_of q \<and> base_settings p = base_settings q"

lemma agree_refl [simp]: "agree p p"
  by (simp add: agree_def)

lemma agree_trans: "agree p q \<Longrightarrow> agree q r \<Longrightarrow> agree p r"
  by (simp add: agree_def)

lemma agree_decide: "agree p q \<Longrightarrow> decide p exe dst host dport = decide q exe dst host dport"
  by (simp add: agree_def base_settings_def decide_eq default_or_ask_def)

lemma agree_id: "agree p (forget_id q e) = agree p q" "agree p (fst (policy_record_id dk path q e sha)) = agree p q"
  "agree (p\<lparr>app_id := m\<rparr>) q = agree p q"
  by (simp_all add: agree_def rules_of_def base_settings_def forget_id_def policy_record_id_def record_id_def split: prod.split)

text \<open>The file, empty if there is none, can be read and appended to, ends in a newline, and loading it gives the rules
  and the settings of \<open>p\<close>.\<close>

definition file_text :: "disk \<Rightarrow> string" where
  "file_text dk = (case files dk POLICY_PATH of None \<Rightarrow> [] | Some t \<Rightarrow> t)"

definition synced :: "disk \<Rightarrow> policy \<Rightarrow> bool" where
  "synced dk p \<longleftrightarrow> (AppendOp, POLICY_PATH) \<notin> denied dk \<and> (ReadOp, POLICY_PATH) \<notin> denied dk
    \<and> str_valid (file_text dk) \<and> ends_nl (file_text dk) \<and> agree (fst (load (Some (file_text dk)))) p"

lemma synced_load:
  assumes "synced dk p"
  shows "agree (fst (policy_load dk POLICY_PATH)) p" and "synced dk (fst (policy_load dk POLICY_PATH))"
proof -
  have "fst (policy_load dk POLICY_PATH) = fst (load (Some (file_text dk)))"
    using assms by (auto simp: synced_def policy_load_def read_to_string_def result_ok_def file_text_def load_edits load_def
        split: option.splits)
  then show "agree (fst (policy_load dk POLICY_PATH)) p" "synced dk (fst (policy_load dk POLICY_PATH))"
    using assms by (auto simp: synced_def)
qed

lemma synced_agree: "synced dk p \<Longrightarrow> agree p q \<Longrightarrow> synced dk q"
  using agree_trans by (auto simp: synced_def)

lemma synced_append:
  assumes "synced dk p" "line_ok l" "str_valid l" "\<And>q. agree q p \<Longrightarrow> agree (apply_line l q) p'"
  shows "synced (snd (append_line dk POLICY_PATH l)) p'"
proof -
  have s: "(AppendOp, POLICY_PATH) \<notin> denied dk" "(ReadOp, POLICY_PATH) \<notin> denied dk" "str_valid (file_text dk)"
    "ends_nl (file_text dk)" "agree (fst (load (Some (file_text dk)))) p"
    using assms(1) by (auto simp: synced_def)
  have t: "file_text (snd (append_line dk POLICY_PATH l)) = file_text dk @ l @ [newline]"
    "denied (snd (append_line dk POLICY_PATH l)) = denied dk"
    using s(1) by (simp_all add: append_line_def file_text_def)
  show ?thesis
    using s(1,2) str_valid_snoc [OF s(4,3) assms(3)] assms(4) [OF s(5)]
    by (simp add: synced_def t load_snoc [OF s(4) assms(2)]) (simp add: ends_nl_def)
qed

section \<open>The lines that are recorded\<close>

lemma str_valid_ascii: "(of_char c :: nat) < 0x80 \<Longrightarrow> str_valid (a @ c # b) \<longleftrightarrow> str_valid a \<and> str_valid b"
  "(of_char c :: nat) < 0x80 \<Longrightarrow> str_valid (c # b) \<longleftrightarrow> str_valid b"
  using utf8_valid_cut [of "of_char c" "map of_char a" "map of_char b"] utf8_valid_cut [of "of_char c" "[]" "map of_char b"]
  by (simp_all add: str_valid_def utf8_valid.simps [of "[]"])

lemma str_valid_literal: "\<forall>c \<in> set a. (of_char c :: nat) < 0x80 \<Longrightarrow> str_valid (a @ b) \<longleftrightarrow> str_valid b"
  by (induction a) (simp_all add: str_valid_ascii)

lemma record_line_valid:
  assumes "record_ok exe host" "record_answer p ans exe dst host dport orig = (q, Some l)" "\<forall>e. exe = Some e \<longrightarrow> str_valid e"
  shows "str_valid l"
proof -
  have j: "host_ok h \<Longrightarrow> plain (join_target h pt)" for h pt by (simp add: host_ok_def plain_join)
  have p: "plain s \<Longrightarrow> \<forall>c \<in> set s. (of_char c :: nat) < 0x80" for s by (auto simp: plain_def plain_char_def)
  have pj: "plain s \<Longrightarrow> str_valid (s @ b) \<longleftrightarrow> str_valid b" for s b using str_valid_literal [OF p] by blast
  have t: "(of_char tab :: nat) < 0x80" by (simp add: tab_def)
  show ?thesis
    using assms
    by (cases ans; cases exe; cases host; cases "named (the host)"; cases orig)
      (auto simp: record_defs record_ok_def tabs_def on_some_def pj j host_ok_show_ip str_valid_ascii t)
qed

lemma record_same_line: "snd (record_answer p ans exe dst host dport orig) = snd (record_answer q ans exe dst host dport orig)"
  by (cases ans; cases exe; cases "on_some host named") (simp_all add: record_defs)

lemma synced_record:
  assumes "synced dk p" "record_ok exe host" "\<forall>e. exe = Some e \<longrightarrow> str_valid e"
    and "policy_record dk POLICY_PATH p ans exe dst host dport orig = (p', dk')"
  shows "synced dk' p'"
proof -
  obtain l where r: "record_answer p ans exe dst host dport orig = (p', l)" and dk': "dk' = append_opt dk POLICY_PATH l"
    using assms(4) by (auto simp: policy_record_def split: prod.splits)
  have same: "agree (fst (record_answer q ans exe dst host dport orig)) p'" if "agree q p" for q
    using that r record_rules [of q ans exe dst host dport orig] record_rules [of p ans exe dst host dport orig]
      record_settings [of q ans exe dst host dport orig] record_settings [of p ans exe dst host dport orig]
    by (cases "answer_rule ans exe dst host dport") (simp_all add: agree_def base_settings_def settings_def)
  show ?thesis
  proof (cases l)
    case None
    then have "p' = p" using r by (cases ans; cases exe) (auto simp: record_answer_def Let_def apsnd_def map_prod_def split: prod.splits)
    then show ?thesis using assms(1) None by (simp add: dk' append_opt_def)
  next
    case (Some x)
    have "agree (apply_line x q) p'" if "agree q p" for q
    proof -
      have "record_answer q ans exe dst host dport orig = (fst (record_answer q ans exe dst host dport orig), Some x)"
        using record_same_line [of q ans exe dst host dport orig p] r Some by (simp add: prod_eq_iff)
      from record_line_applies [OF assms(2) this] same [OF that] show ?thesis by simp
    qed
    then show ?thesis
      using synced_append [OF assms(1) record_line_ok [OF assms(2)] record_line_valid [OF assms(2) _ assms(3)]] r Some
      by (simp add: dk' append_opt_def)
  qed
qed

lemma synced_record_id:
  assumes "synced dk p" "sha_ok sha" "exe_ok e" "str_valid e" "policy_record_id dk POLICY_PATH p e sha = (p', dk')"
  shows "synced dk' p'"
proof -
  let ?l = "tabs [''app-id'' @ '' '' @ sha, e, ''# identity when approved'']"
  have a: "agree q p \<Longrightarrow> agree q p'" for q using agree_id(2) [of q dk POLICY_PATH p e sha] assms(5) by simp
  have "dk' = dk \<or> dk' = snd (append_line dk POLICY_PATH ?l)"
    using assms(5) by (auto simp: policy_record_id_def record_id_def append_opt_def split: if_splits)
  then show ?thesis
  proof
    assume "dk' = dk"
    then show ?thesis using assms(1) a by (auto simp: synced_def)
  next
    assume dk': "dk' = snd (append_line dk POLICY_PATH ?l)"
    have v: "str_valid ?l"
      using assms(2,4) str_valid_plain [of sha] by (simp add: tabs_def str_valid_ascii tab_def sha_ok_def)
    show ?thesis unfolding dk'
      by (rule synced_append [OF assms(1) id_line_applies(2) [OF assms(2,3)] v])
        (simp only: id_line_applies(1) [OF assms(2,3)] agree_id(3) a)
  qed
qed

section \<open>The daemon\<close>

definition ids_ok :: "identity \<Rightarrow> bool" where
  "ids_ok i \<longleftrightarrow> (\<forall>e \<in> set (id_cache i). sha_ok (snd (snd (snd e))))"

definition in_sync :: "daemon \<Rightarrow> bool" where
  "in_sync d \<longleftrightarrow> synced (d_disk d) (d_pol d) \<and> ids_ok (d_ident d)"

text \<open>A question whose binary and host the file can hold, and hashes that \<open>sha256\<close> prints.\<close>

definition fits :: "env \<Rightarrow> pending \<Rightarrow> bool" where
  "fits env p \<longleftrightarrow> record_ok (pn_exe p) (pn_host p)
    \<and> (\<forall>e. pn_exe p = Some e \<longrightarrow> str_valid e \<and> (\<forall>sha. sha_output (e_sha env e) = Some sha \<longrightarrow> sha_ok sha))"

lemma hash_fits:
  assumes "ids_ok i" "\<forall>sha. sha_output out = Some sha \<longrightarrow> sha_ok sha"
  shows "ids_ok (snd (identity_hash md out path i)) \<and> (\<forall>h. fst (identity_hash md out path i) = Some h \<longrightarrow> sha_ok h)"
proof -
  have "set (hm_insert k v m) \<subseteq> insert (k, v) (set m)" for k and v :: "u64 \<times> u64 \<times> string" and m
    by (induction m) auto
  then have put: "ids_ok (i\<lparr>id_cache := id_put path v (id_cache i)\<rparr>)" if "sha_ok (snd (snd v))" for v
    using assms(1) that by (fastforce simp: ids_ok_def id_put_def)
  have get: "sha_ok h" if "hm_get (id_cache i) path = Some (m, s, h)" for m s h
    using map_of_SomeD [OF that] assms(1) by (fastforce simp: ids_ok_def)
  show ?thesis
    using assms put get by (auto simp: identity_hash_def split: option.split)
qed

lemma in_sync_repin:
  assumes "in_sync d" "\<forall>e. exe = Some e \<longrightarrow> exe_ok e \<and> str_valid e \<and> (\<forall>sha. sha_output (e_sha env e) = Some sha \<longrightarrow> sha_ok sha)"
  shows "in_sync (repin env ans exe d)"
proof (cases "exe = None \<or> \<not> allows ans")
  case True
  then show ?thesis using assms(1) by (auto simp: repin_def split: option.split)
next
  case False
  then obtain e where e: "exe = Some e" "allows ans" by auto
  obtain h i where h: "identity_hash (e_stat env e) (e_sha env e) e (d_ident d) = (h, i)" by fastforce
  let ?d1 = "d\<lparr>d_pol := forget_id (d_pol d) e, d_id_warned := d_id_warned d - {e}, d_ident := i\<rparr>"
  have r: "repin env ans exe d = (case h of None \<Rightarrow> ?d1 | Some sha \<Rightarrow> pol_record_id e sha ?d1)"
    using e h by (simp add: repin_def ident_hash_def)
  have ok: "ids_ok i" "h = Some sha \<Longrightarrow> sha_ok sha" for sha
    using hash_fits [of "d_ident d" "e_sha env e" "e_stat env e" e] assms e h by (auto simp: in_sync_def)
  have s: "synced (d_disk d) (forget_id (d_pol d) e)" using assms(1) by (simp add: in_sync_def synced_def agree_id)
  show ?thesis
  proof (cases h)
    case None
    then show ?thesis using s ok by (simp add: r in_sync_def)
  next
    case (Some sha)
    obtain p' dk' where p': "policy_record_id (d_disk d) POLICY_PATH (forget_id (d_pol d) e) e sha = (p', dk')" by fastforce
    have "synced dk' p'" using synced_record_id [OF s ok(2) [OF Some] _ _ p'] assms(2) e by simp
    then show ?thesis using ok by (simp add: r Some pol_record_id_def p' in_sync_def)
  qed
qed

lemma in_sync_pol_record:
  assumes "in_sync d" "record_ok exe host" "\<forall>e. exe = Some e \<longrightarrow> str_valid e"
  shows "in_sync (pol_record ans exe dst host dport orig d)"
proof -
  obtain p' dk' where r: "policy_record (d_disk d) POLICY_PATH (d_pol d) ans exe dst host dport orig = (p', dk')" by fastforce
  have "synced dk' p'" using synced_record [OF _ assms(2,3) r] assms(1) by (simp add: in_sync_def)
  then show ?thesis using assms(1) by (simp add: pol_record_def r in_sync_def)
qed

lemma in_sync_answer_upcalls: "in_sync (answer_upcalls env ans key d) = in_sync d"
proof -
  have w: "d_ident (with_kern f x) = d_ident x" for f x
    by (auto simp: with_kern_def emit_def split: option.split prod.split)
  have "d_ident (resolve_all env allow ids x) = d_ident x" for allow ids x
    unfolding resolve_all_def by (induction ids arbitrary: x) (simp_all add: w)
  then have "d_ident (answer_upcalls env ans key d) = d_ident d" by (simp add: answer_upcalls_def split: option.split)
  moreover have "d_disk (answer_upcalls env ans key d) = d_disk d" "d_pol (answer_upcalls env ans key d) = d_pol d"
    by (simp_all add: answer_upcalls_frame)
  ultimately show ?thesis by (simp add: in_sync_def)
qed

lemma in_sync_answer:
  assumes "in_sync d" "fits env p"
  shows "in_sync (drain_answer env ans p d)"
proof -
  have f: "record_ok (pn_exe p) (pn_host p)" "\<forall>e. pn_exe p = Some e \<longrightarrow> str_valid e"
    "\<forall>e. pn_exe p = Some e \<longrightarrow> exe_ok e \<and> str_valid e \<and> (\<forall>sha. sha_output (e_sha env e) = Some sha \<longrightarrow> sha_ok sha)"
    using assms(2) by (auto simp: fits_def record_ok_def)
  have "in_sync (d\<lparr>d_prompts := ps, d_asking := as\<rparr>)" for ps as using assms(1) by (simp add: in_sync_def)
  then show ?thesis
    unfolding drain_answer_def Let_def
    by (intro in_sync_pol_record in_sync_repin f) (simp add: in_sync_answer_upcalls)
qed

lemma in_sync_answers:
  "in_sync d \<Longrightarrow> \<forall>(env, ans, p) \<in> set as. fits env p \<Longrightarrow> in_sync (fold (\<lambda>(env, ans, p). drain_answer env ans p) as d)"
  by (induction as arbitrary: d) (auto simp: in_sync_answer)

lemma in_sync_learn:
  assumes "in_sync d" "record_ok exe host" "\<forall>e. exe = Some e \<longrightarrow> str_valid e"
  shows "in_sync (learn_packet env exe host f d)"
  using in_sync_pol_record [OF assms] by (simp add: learn_packet_def Let_def) (simp add: in_sync_def)

text \<open>In visibility a binary that is not the approved one is learned again with every packet, however the policy decides:
  each time the file grows by a line, and the verdict is not settled, so that the next packet adds another.\<close>

lemma changed_binary_grows_file:
  assumes "d_mode d = Visibility" "(AppendOp, POLICY_PATH) \<notin> denied (d_disk d)"
    and "flow_verdict env exe hostname f d = (True, v, d)"
    and "act_on_verdict env v True att hostname f d = (allow, reject, label, d')"
  shows "(\<exists>l. file_text (d_disk d') = file_text (d_disk d) @ l @ [newline]) \<and> settle env v exe f d' = d'"
proof -
  have v: "v = Ask" using assms(3) by (auto simp: flow_verdict_def split: option.splits prod.splits if_splits)
  have d': "d' = learn_packet env (map_option (opath \<circ> a_owner) att) hostname f d"
    using assms(1,4) by (simp add: v act_on_verdict_def)
  obtain l where "snd (record_answer (d_pol d) AllowConn x dst h pt Learned) = Some l"
    if "x = map_option (opath \<circ> a_owner) att" "dst = f_dst f" "h = hostname" "pt = f_dport f" for x dst h pt
    by (auto simp: record_answer_def)
  then obtain q where "record_answer (d_pol d) AllowConn (map_option (opath \<circ> a_owner) att) (f_dst f) hostname (f_dport f) Learned = (q, Some l)"
    by (metis prod.collapse)
  then have "d_disk d' = snd (append_line (d_disk d) POLICY_PATH l)"
    by (simp add: d' learn_packet_def Let_def pol_record_def policy_record_def append_opt_def)
  then show ?thesis using assms(2) by (simp add: append_line_def file_text_def v settle_def)
qed

end
