(* ===== verification/System.thy ===== *)
theory System
  imports Daemon_Safety "HOL-Library.Multiset" "HOL-Library.Sublist"
begin

text \<open>
  The daemon with its threads (\<open>run\<close>, \<open>spawn_prompt\<close> and \<open>on_term\<close> in \<open>src/main.rs\<close>): the main thread with its
  place in the loop, the prompt threads, the threads that read upcalls, the two channels they send to, and the
  signal handler.  The threads take their steps in any order.  The theorems say that the channels lose, double
  and reorder nothing, that what the main thread does in between is a run of the loop of \<open>Daemon\<close>, so that its
  invariants hold whatever the interleaving, and that a signal ends the program.
\<close>

section \<open>The threads\<close>

text \<open>Where the main thread is: at the top of the loop, draining \<open>rx\<close>, draining \<open>urx\<close>, before the periodic
  work, in \<open>recv\<close>, or gone.\<close>

datatype pc = AtTop | AtAnswers | AtUpcalls | AtTick | AtRecv | Stopped

record system =
  s_main :: daemon
  s_pc :: pc
  s_shutdown :: bool
  s_prompting :: "pending list"
  s_answers :: "(answer \<times> pending) list"
  s_readers :: "int list"
  s_upcalls :: "kern_event list"

text \<open>What a step did: the main thread, or one of the others.\<close>

datatype event =
    StartRound
  | Stop
  | TakeAnswer answer pending
  | NoAnswer
  | TakeUpcall kern_event
  | NoUpcall
  | Ticked
  | Received "errno + bytes \<times> sockaddr_in"
  | PromptEnds answer pending
  | UpcallRead int kern_event
  | ReaderEnds int
  | Signalled
  | FilesChange

fun by_main :: "event \<Rightarrow> bool" where
  "by_main (PromptEnds ans p) = False"
| "by_main (UpcallRead fd ev) = False"
| "by_main (ReaderEnds fd) = False"
| "by_main Signalled = False"
| "by_main FilesChange = False"
| "by_main _ = True"

definition s_start :: "env \<Rightarrow> mode \<Rightarrow> string option \<Rightarrow> disk \<Rightarrow> system" where
  "s_start env fallback prompt_env dk =
     \<lparr>s_main = start env fallback prompt_env dk, s_pc = AtTop, s_shutdown = False, s_prompting = [], s_answers = [],
      s_readers = [], s_upcalls = []\<rparr>"

section \<open>The main thread\<close>

text \<open>The threads a handler of the main thread has started.\<close>

definition new_prompts :: "daemon \<Rightarrow> daemon \<Rightarrow> pending list" where
  "new_prompts d d' = drop (length (d_prompts d)) (d_prompts d')"

fun reader_of :: "action \<Rightarrow> int list" where
  "reader_of (SpawnReader fd) = [fd]"
| "reader_of _ = []"

definition new_readers :: "daemon \<Rightarrow> daemon \<Rightarrow> int list" where
  "new_readers d d' = concat (map reader_of (drop (length (d_trace d)) (d_trace d')))"

definition advance :: "daemon \<Rightarrow> pc \<Rightarrow> system \<Rightarrow> system" where
  "advance d' l s = s\<lparr>s_main := d', s_pc := l, s_prompting := s_prompting s @ new_prompts (s_main s) d',
     s_readers := s_readers s @ new_readers (s_main s) d'\<rparr>"

text \<open>What \<open>recv\<close> gave: the packet in the buffer with its address, or the error number; every error, a timeout
  or a signal among them, only starts the next round.\<close>

definition received :: "env \<Rightarrow> errno + bytes \<times> sockaddr_in \<Rightarrow> daemon \<Rightarrow> daemon eval" where
  "received env r d = (case r of Inl err \<Rightarrow> Ret d | Inr (pkt, src) \<Rightarrow> packet env pkt src d)"

definition main_step :: "env \<Rightarrow> errno + bytes \<times> sockaddr_in \<Rightarrow> system \<Rightarrow> (event \<times> system) option" where
  "main_step env r s = (case s_pc s of
     AtTop \<Rightarrow> if s_shutdown s then Some (Stop, s\<lparr>s_main := shutdown env (s_main s), s_pc := Stopped\<rparr>)
             else Some (StartRound, s\<lparr>s_pc := AtAnswers\<rparr>)
   | AtAnswers \<Rightarrow> (case s_answers s of
       [] \<Rightarrow> Some (NoAnswer, s\<lparr>s_pc := AtUpcalls\<rparr>)
     | (ans, p) # rest \<Rightarrow> Some (TakeAnswer ans p,
         (advance (drain_answer env ans p (s_main s)) AtAnswers s)\<lparr>s_answers := rest\<rparr>))
   | AtUpcalls \<Rightarrow> (case s_upcalls s of
       [] \<Rightarrow> Some (NoUpcall, s\<lparr>s_pc := AtTick\<rparr>)
     | ev # rest \<Rightarrow> Some (TakeUpcall ev,
         (advance (drain_upcall env ev (s_main s)) AtUpcalls s)\<lparr>s_upcalls := rest\<rparr>))
   | AtTick \<Rightarrow> Some (Ticked, advance (tick env (s_main s)) AtRecv s)
   | AtRecv \<Rightarrow> (case received env r (s_main s) of
       Panic \<Rightarrow> None
     | Ret d' \<Rightarrow> Some (Received r, advance d' AtTop s))
   | Stopped \<Rightarrow> None)"

section \<open>The other threads\<close>

text \<open>A prompt that has ended sends its answer with its question.\<close>

definition prompt_ends :: "bytes option \<Rightarrow> pending \<Rightarrow> system \<Rightarrow> system" where
  "prompt_ends out p s = s\<lparr>s_prompting := remove1 p (s_prompting s), s_answers := s_answers s @ [(prompt_answer out, p)]\<rparr>"

text \<open>The loop \<open>while let Ok(Some(ev)) = rd.read_event()\<close>: an event is sent on; anything else ends the thread.\<close>

definition reader_step :: "int \<Rightarrow> int \<Rightarrow> int \<Rightarrow> pfsnitch_event \<Rightarrow> system \<Rightarrow> event \<times> system" where
  "reader_step fd n err ev s = (case read_event n err ev of
     Inr (Some e) \<Rightarrow> (UpcallRead fd e, s\<lparr>s_upcalls := s_upcalls s @ [e]\<rparr>)
   | _ \<Rightarrow> (ReaderEnds fd, s\<lparr>s_readers := remove1 fd (s_readers s)\<rparr>))"

definition on_term :: "system \<Rightarrow> system" where
  "on_term s = s\<lparr>s_shutdown := True\<rparr>"

inductive sstep :: "system \<Rightarrow> event \<Rightarrow> system \<Rightarrow> bool" where
  main: "main_step env r s = Some (e, s') \<Longrightarrow> sstep s e s'"
| prompt: "s_pc s \<noteq> Stopped \<Longrightarrow> p \<in> set (s_prompting s) \<Longrightarrow> sstep s (PromptEnds (prompt_answer out) p) (prompt_ends out p s)"
| reader: "s_pc s \<noteq> Stopped \<Longrightarrow> fd \<in> set (s_readers s) \<Longrightarrow> reader_step fd n err ev s = (e, s') \<Longrightarrow> sstep s e s'"
| signal: "s_pc s \<noteq> Stopped \<Longrightarrow> sstep s Signalled (on_term s)"
| files: "s_pc s \<noteq> Stopped \<Longrightarrow> sstep s FilesChange (s\<lparr>s_main := (s_main s)\<lparr>d_disk := dk\<rparr>\<rparr>)"

inductive_cases sstepE: "sstep s e s'"

inductive run :: "system \<Rightarrow> event list \<Rightarrow> system \<Rightarrow> bool" where
  stay: "run s [] s"
| more: "run s es s' \<Longrightarrow> sstep s' e s'' \<Longrightarrow> run s (es @ [e]) s''"

inductive_cases runE: "run s es s'"

section \<open>What a handler does to the open prompts\<close>

text \<open>A handler raises prompts; each is open until its answer is handled.\<close>

definition raises :: "daemon \<Rightarrow> daemon \<Rightarrow> bool" where
  "raises d d' \<longleftrightarrow> (\<exists>ps as. d_prompts d' = d_prompts d @ ps \<and> asked d' = asked d @ as \<and> length as = length ps)"

lemma raises_none: "d_prompts d' = d_prompts d \<Longrightarrow> asked d' = asked d \<Longrightarrow> raises d d'"
  by (simp add: raises_def)

lemma raises_once: "asks_once key d d' \<Longrightarrow> raises d d'"
  by (auto simp: asks_once_def raises_def split: if_splits)

lemma raises_upcall: "raises d (drain_upcall env ev d)"
proof -
  let ?d1 = "snd (check_id env (ke_path ev) d)"
  have c: "d_prompts (snd (check_id env e d)) = d_prompts d" "asked (snd (check_id env e d)) = asked d" for e
    using check_id_frame(1,2) [of env e d] by (simp_all add: questions_def network_def)
  have k: "d_prompts (kern_answer env i b x) = d_prompts x" "asked (kern_answer env i b x) = asked x" for i b x
    using kern_answer_frame(1,2) [of env i b x] by (simp_all add: questions_def network_def)
  have "raises ?d1 (ask_upcall ch ev h ?d1)" for ch h
    by (rule raises_once [OF ask_upcall_once(1)])
  then show ?thesis
    by (simp add: drain_upcall_eq raises_def k c split: verdict.split)
qed

lemma raises_packet:
  assumes "decided_ok d" "packet env pkt src d = Ret d'"
  shows "raises d d'"
  using packet_asks [OF assms] raises_once [of _ d] by (auto simp: raises_def questions_simps)

lemma raises_tick: "upcall_ok d \<Longrightarrow> raises d (tick env d)"
  using tick_frame(1) by (auto simp: keeps_questions_def intro: raises_none)

lemma shutdown_frame: "d_prompts (shutdown env d) = d_prompts d" "asked (shutdown env d) = asked d"
  "sent (shutdown env d) = sent d"
proof -
  let ?d = "with_kern (flush_verdicts (e_dev env)) (with_kern (set_upcall (e_dev env) False) d)"
  have "questions ?d = questions d" "network ?d = network d" by (simp_all add: with_kern_frame)
  then show "d_prompts (shutdown env d) = d_prompts d" "asked (shutdown env d) = asked d" "sent (shutdown env d) = sent d"
    by (simp_all add: shutdown_def Let_def set_udp_divert_def emit_def questions_def network_def asked_def sent_def)
qed

lemma answer_frame: "d_prompts (drain_answer env ans p d) = remove1 p (d_prompts d)"
  "asked (drain_answer env ans p d) = asked d"
  using drain_answer_frame(2,3) [of env ans p d] by (simp_all add: questions_def network_def)


section \<open>The loop under any interleaving\<close>

text \<open>A daemon the loop can be in, or one that has shut down; and the open prompts are those that run and those
  whose answer is on its way.\<close>

inductive shut_down :: "daemon \<Rightarrow> bool" where
  "reachable d \<Longrightarrow> shut_down (shutdown env d)"

definition in_loop :: "system \<Rightarrow> bool" where
  "in_loop s \<longleftrightarrow> (if s_pc s = Stopped then shut_down (s_main s) else reachable (s_main s))"

definition balanced :: "system \<Rightarrow> bool" where
  "balanced s \<longleftrightarrow> mset (d_prompts (s_main s)) = mset (s_prompting s) + mset (map snd (s_answers s))
     \<and> list_all (\<lambda>(ans, p). \<exists>out. ans = prompt_answer out) (s_answers s)"

lemma s_start_ok: "in_loop (s_start env fb pe dk)" "balanced (s_start env fb pe dk)"
  by (simp_all add: in_loop_def balanced_def s_start_def reachable.start start_fields)

lemma advance_sel:
  "s_main (advance d' l s) = d'" "s_pc (advance d' l s) = l" "s_answers (advance d' l s) = s_answers s"
  "s_upcalls (advance d' l s) = s_upcalls s" "s_shutdown (advance d' l s) = s_shutdown s"
  "s_prompting (advance d' l s) = s_prompting s @ new_prompts (s_main s) d'"
  "s_readers (advance d' l s) = s_readers s @ new_readers (s_main s) d'"
  by (simp_all add: advance_def)

lemma raises_balance:
  assumes "balanced s" "raises (s_main s) d'"
  shows "mset (d_prompts d') = mset (s_prompting s) + mset (new_prompts (s_main s) d') + mset (map snd (s_answers s))"
  using assms by (auto simp: balanced_def raises_def new_prompts_def)

lemma answer_ok:
  assumes "in_loop s" "balanced s" "s_pc s \<noteq> Stopped" "s_answers s = (ans, p) # rest"
  shows "in_loop ((advance (drain_answer env ans p (s_main s)) AtAnswers s)\<lparr>s_answers := rest\<rparr>)"
    "balanced ((advance (drain_answer env ans p (s_main s)) AtAnswers s)\<lparr>s_answers := rest\<rparr>)"
proof -
  let ?d = "s_main s" and ?d' = "drain_answer env ans p (s_main s)"
  have m: "mset (d_prompts ?d) = mset (s_prompting s) + add_mset p (mset (map snd rest))"
    using assms(2,4) by (simp add: balanced_def)
  then have "p \<in># mset (d_prompts ?d)" by simp
  then have p: "p \<in> set (d_prompts ?d)" by simp
  obtain out where "ans = prompt_answer out" using assms(2,4) by (auto simp: balanced_def)
  then show "in_loop ((advance ?d' AtAnswers s)\<lparr>s_answers := rest\<rparr>)"
    using assms(1,3) dstep.answer [OF p, of env out] by (auto simp: in_loop_def advance_sel intro: reachable.step)
  have "new_prompts ?d ?d' = []"
    using p by (simp add: new_prompts_def answer_frame length_remove1)
  moreover have "mset (remove1 p (d_prompts ?d)) = mset (s_prompting s) + mset (map snd rest)" using m by simp
  ultimately show "balanced ((advance ?d' AtAnswers s)\<lparr>s_answers := rest\<rparr>)"
    using assms(2,4) by (simp add: balanced_def advance_sel answer_frame)
qed

lemma main_raises:
  assumes "in_loop s" "main_step env r s = Some (e, s')" "\<And>ans p. e \<noteq> TakeAnswer ans p"
  shows "raises (s_main s) (s_main s')"
proof -
  have self: "raises d d" for d by (simp add: raises_none)
  have r: "s_pc s \<noteq> Stopped \<Longrightarrow> daemon_ok (s_main s)"
    using assms(1) loop.inv_reachable by (simp add: in_loop_def)
  have "raises (s_main s) d'" if "received env r (s_main s) = Ret d'" "daemon_ok (s_main s)" for d'
    using that raises_packet [of "s_main s" env _ _ d'] self
    by (auto simp: received_def daemon_ok_def split: sum.splits)
  then show ?thesis
    using assms(2,3) r
    by (cases "s_pc s")
      (auto simp: main_step_def advance_sel self raises_upcall raises_tick daemon_ok_def raises_none shutdown_frame
        split: if_splits list.splits eval.splits)
qed

lemma main_ok:
  assumes "in_loop s" "balanced s" "main_step env r s = Some (e, s')"
  shows "in_loop s' \<and> balanced s'"
proof (cases "\<exists>ans p. e = TakeAnswer ans p")
  case True
  then show ?thesis
    using assms answer_ok [OF assms(1,2), of _ _ _ env]
    by (cases "s_pc s") (auto simp: main_step_def split: if_splits list.splits eval.splits)
next
  case False
  then have rs: "raises (s_main s) (s_main s')" using main_raises [OF assms(1,3)] by blast
  have d: "reachable d'" if "received env r (s_main s) = Ret d'" "reachable (s_main s)" for d'
    using that by (auto simp: received_def split: sum.splits intro: reachable.step dstep.packet)
  have t: "reachable (tick env (s_main s))" "reachable (drain_upcall env ev (s_main s))" if "reachable (s_main s)" for ev
    using that by (auto intro: reachable.step dstep.tick dstep.upcall)
  show ?thesis
    using assms raises_balance [OF assms(2) rs] False d t
    by (cases "s_pc s")
      (auto simp: main_step_def in_loop_def balanced_def shutdown_frame advance_sel
        intro: shut_down.intros split: if_splits list.splits eval.splits)
qed

lemma sstep_ok: "sstep s e s' \<Longrightarrow> in_loop s \<Longrightarrow> balanced s \<Longrightarrow> in_loop s' \<and> balanced s'"
proof (induction rule: sstep.induct)
  case (main env r s e s')
  then show ?case using main_ok by blast
next
  case (prompt s p out)
  then show ?case by (auto simp: in_loop_def balanced_def prompt_ends_def)
next
  case (reader s fd n err ev e s')
  then show ?case by (auto simp: in_loop_def balanced_def reader_step_def split: sum.splits option.splits)
next
  case (signal s)
  then show ?case by (simp add: in_loop_def balanced_def on_term_def)
next
  case (files s dk)
  then show ?case by (auto simp: in_loop_def balanced_def intro: reachable.step dstep.files)
qed

lemma run_ok: "run s es s' \<Longrightarrow> in_loop s \<Longrightarrow> balanced s \<Longrightarrow> in_loop s' \<and> balanced s'"
  by (induction rule: run.induct) (auto dest: sstep_ok)


section \<open>Histories\<close>

text \<open>What was sent on the two channels and what was taken from them, in order.\<close>

fun answer_sent :: "event \<Rightarrow> (answer \<times> pending) list" where
  "answer_sent (PromptEnds ans p) = [(ans, p)]"
| "answer_sent _ = []"

fun answer_taken :: "event \<Rightarrow> (answer \<times> pending) list" where
  "answer_taken (TakeAnswer ans p) = [(ans, p)]"
| "answer_taken _ = []"

fun upcall_sent :: "event \<Rightarrow> kern_event list" where
  "upcall_sent (UpcallRead fd ev) = [ev]"
| "upcall_sent _ = []"

fun upcall_taken :: "event \<Rightarrow> kern_event list" where
  "upcall_taken (TakeUpcall ev) = [ev]"
| "upcall_taken _ = []"

text \<open>The packets received from the socket.\<close>

fun packet_in :: "event \<Rightarrow> (bytes \<times> sockaddr_in) list" where
  "packet_in (Received (Inr q)) = [q]"
| "packet_in _ = []"

definition history :: "(event \<Rightarrow> 'a list) \<Rightarrow> event list \<Rightarrow> 'a list" where
  "history f es = concat (map f es)"

lemma history_simps [simp]: "history f [] = []" "history f (es @ [e]) = history f es @ f e"
  by (simp_all add: history_def)

lemma main_queues:
  assumes "main_step env r s = Some (e, s')"
  shows "s_answers s = answer_taken e @ s_answers s' \<and> answer_sent e = []
    \<and> s_upcalls s = upcall_taken e @ s_upcalls s' \<and> upcall_sent e = []"
  using assms by (cases "s_pc s") (auto simp: main_step_def advance_sel split: if_splits list.splits eval.splits)

lemma step_queues:
  assumes "sstep s e s'"
  shows "s_answers s @ answer_sent e = answer_taken e @ s_answers s'
    \<and> s_upcalls s @ upcall_sent e = upcall_taken e @ s_upcalls s'"
  using assms
proof (cases rule: sstep.cases)
  case (main env r)
  then show ?thesis using main_queues by simp
next
  case (reader fd n err ev)
  then show ?thesis by (auto simp: reader_step_def split: sum.splits option.splits)
qed (auto simp: prompt_ends_def on_term_def)

lemma main_counts:
  assumes "in_loop s" "balanced s" "main_step env r s = Some (e, s')"
  shows "length (asked (s_main s')) + length (d_prompts (s_main s))
    = length (asked (s_main s)) + length (d_prompts (s_main s')) + length (answer_taken e)"
proof (cases "\<exists>ans p. e = TakeAnswer ans p")
  case True
  then obtain ans p rest where e: "e = TakeAnswer ans p" "s_answers s = (ans, p) # rest"
    "s_main s' = drain_answer env ans p (s_main s)"
    using assms(3) by (cases "s_pc s") (auto simp: main_step_def advance_sel split: if_splits list.splits eval.splits)
  have "p \<in># mset (d_prompts (s_main s))" using assms(2) e(2) by (simp add: balanced_def)
  then have "p \<in> set (d_prompts (s_main s))" by simp
  then have "length (d_prompts (s_main s)) = length (remove1 p (d_prompts (s_main s))) + 1"
    using length_pos_if_in_set [of p] by (simp add: length_remove1)
  then show ?thesis by (simp add: e answer_frame)
next
  case False
  then have "raises (s_main s) (s_main s')" using main_raises [OF assms(1,3)] by blast
  moreover have "answer_taken e = []" using False by (cases e) simp_all
  ultimately show ?thesis by (auto simp: raises_def)
qed

lemma step_counts:
  assumes "sstep s e s'" "in_loop s" "balanced s"
  shows "length (asked (s_main s')) + length (d_prompts (s_main s))
    = length (asked (s_main s)) + length (d_prompts (s_main s')) + length (answer_taken e)"
  using assms(1)
proof (cases rule: sstep.cases)
  case (main env r)
  then show ?thesis using main_counts [OF assms(2,3)] by blast
next
  case (reader fd n err ev)
  then show ?thesis by (auto simp: reader_step_def split: sum.splits option.splits)
qed (auto simp: prompt_ends_def on_term_def asked_def)

lemma queue_trans: "xs @ a = b @ ys \<Longrightarrow> ys @ c = d @ zs \<Longrightarrow> xs @ a @ c = b @ d @ zs"
  by (metis append_assoc)

lemma run_histories:
  assumes "run s es s'" "in_loop s" "balanced s"
  shows "s_answers s @ history answer_sent es = history answer_taken es @ s_answers s'
    \<and> s_upcalls s @ history upcall_sent es = history upcall_taken es @ s_upcalls s'
    \<and> length (asked (s_main s')) + length (d_prompts (s_main s))
      = length (asked (s_main s)) + length (d_prompts (s_main s')) + length (history answer_taken es)"
  using assms
proof (induction rule: run.induct)
  case (stay s)
  then show ?case by simp
next
  case (more s es s' e s'')
  have ok: "in_loop s'" "balanced s'" using run_ok [OF more.hyps(1) more.prems] by simp_all
  have q: "s_answers s' @ answer_sent e = answer_taken e @ s_answers s''"
    "s_upcalls s' @ upcall_sent e = upcall_taken e @ s_upcalls s''"
    using step_queues [OF more.hyps(2)] by simp_all
  have i: "s_answers s @ history answer_sent es = history answer_taken es @ s_answers s'"
    "s_upcalls s @ history upcall_sent es = history upcall_taken es @ s_upcalls s'"
    "length (asked (s_main s')) + length (d_prompts (s_main s))
      = length (asked (s_main s)) + length (d_prompts (s_main s')) + length (history answer_taken es)"
    using more.IH [OF more.prems] by simp_all
  show ?case
    using queue_trans [OF i(1) q(1)] queue_trans [OF i(2) q(2)] step_counts [OF more.hyps(2) ok] i(3) by simp
qed

section \<open>What is sent\<close>

text \<open>What may be sent for a packet: the packet itself, back to where it came from, or the reset that answers it.\<close>

definition sent_back :: "action \<Rightarrow> bytes \<times> sockaddr_in \<Rightarrow> bool" where
  "sent_back a q \<longleftrightarrow> a = Reinject (fst q) (snd q) \<or> [a] = rst_actions (fst q)"

text \<open>Each of what was sent answers a packet of its own, in the order of the packets.\<close>

definition answer_in_order :: "action list \<Rightarrow> (bytes \<times> sockaddr_in) list \<Rightarrow> bool" where
  "answer_in_order as qs \<longleftrightarrow> (\<exists>ps. subseq ps qs \<and> list_all2 sent_back as ps)"

lemma in_order_none [simp]: "answer_in_order [] qs"
  by (auto simp: answer_in_order_def intro: exI [of _ "[]"])

lemma in_order_append: "answer_in_order as qs \<Longrightarrow> answer_in_order bs rs \<Longrightarrow> answer_in_order (as @ bs) (qs @ rs)"
  unfolding answer_in_order_def by (meson list_emb_append_mono list_all2_appendI)

lemma sent_for_packet: "sent_for env pkt src d = [] \<or> (\<exists>a. sent_for env pkt src d = [a] \<and> sent_back a (pkt, src))"
proof -
  have "rst_actions pkt = [] \<or> (\<exists>a. rst_actions pkt = [a] \<and> sent_back a (pkt, src))"
    by (auto simp: rst_actions_def sent_back_def split: eval.split option.split)
  moreover have "sent_back (Reinject pkt src) (pkt, src)" by (simp add: sent_back_def)
  ultimately show ?thesis by (simp add: sent_for_def split: option.split verdict.split)
qed

lemma sent_for_embeds: "answer_in_order (sent_for env pkt src d) [(pkt, src)]"
  using sent_for_packet [of env pkt src d]
  by (auto simp: answer_in_order_def intro: exI [of _ "[(pkt, src)]"])

lemma main_sends:
  assumes "in_loop s" "main_step env r s = Some (e, s')"
  shows "\<exists>as. sent (s_main s') = sent (s_main s) @ as \<and> answer_in_order as (packet_in e)"
proof (cases "s_pc s")
  case AtRecv
  then obtain d' where d': "received env r (s_main s) = Ret d'" "e = Received r" "s_main s' = d'"
    using assms(2) by (auto simp: main_step_def advance_sel split: eval.splits)
  have "decided_ok (s_main s)"
    using AtRecv assms(1) loop.inv_reachable by (auto simp: in_loop_def daemon_ok_def)
  then have "\<exists>d'. packet env pkt src (s_main s) = Ret d' \<and> sent d' = sent (s_main s) @ sent_for env pkt src (s_main s)"
    for pkt src
    using packet_spec by blast
  then show ?thesis
    using d' sent_for_embeds by (cases r) (auto simp: received_def split: prod.splits, metis eval.inject)
next
  case AtTick
  then have "upcall_ok (s_main s)" using assms(1) loop.inv_reachable by (auto simp: in_loop_def daemon_ok_def)
  from tick_frame(1) [OF this] show ?thesis
    using AtTick assms(2) by (auto simp: main_step_def advance_sel keeps_questions_def)
next
  case AtTop
  have "sent (shutdown env (s_main s)) = sent (s_main s)" for env
    using shutdown_frame(3) .
  then show ?thesis using AtTop assms(2) by (auto simp: main_step_def split: if_splits)
next
  case AtAnswers
  then show ?thesis using assms(2)
    by (auto simp: main_step_def advance_sel network_parts(1) [OF drain_answer_frame(2)] split: list.splits)
next
  case AtUpcalls
  then show ?thesis using assms(2)
    by (auto simp: main_step_def advance_sel drain_upcall_frame(2) split: list.splits)
next
  case Stopped
  then show ?thesis using assms(2) by (simp add: main_step_def)
qed

lemma step_sends:
  assumes "sstep s e s'" "in_loop s"
  shows "\<exists>as. sent (s_main s') = sent (s_main s) @ as \<and> answer_in_order as (packet_in e)"
  using assms(1)
proof (cases rule: sstep.cases)
  case (main env r)
  then show ?thesis using main_sends [OF assms(2)] by blast
next
  case (reader fd n err ev)
  then show ?thesis by (auto simp: reader_step_def split: sum.splits option.splits)
qed (auto simp: prompt_ends_def on_term_def sent_def)

lemma run_sends:
  "run s es s' \<Longrightarrow> in_loop s \<Longrightarrow> balanced s
    \<Longrightarrow> \<exists>as. sent (s_main s') = sent (s_main s) @ as \<and> answer_in_order as (history packet_in es)"
proof (induction rule: run.induct)
  case (stay s)
  then show ?case by simp
next
  case (more s es s' e s'')
  then have "in_loop s'" using run_ok by blast
  then show ?case
    using more.IH [OF more.prems] step_sends [OF more.hyps(2)] in_order_append by fastforce
qed

section \<open>Stopping\<close>

text \<open>How many steps the main thread still needs once it has been signalled, and how many to get to \<open>recv\<close>,
  if nothing more arrives.\<close>

fun stop_bound :: "pc \<Rightarrow> nat \<Rightarrow> nat \<Rightarrow> nat" where
  "stop_bound AtTop a u = 1"
| "stop_bound AtAnswers a u = 5 + a + u"
| "stop_bound AtUpcalls a u = 4 + u"
| "stop_bound AtTick a u = 3"
| "stop_bound AtRecv a u = 2"
| "stop_bound Stopped a u = 0"

definition steps_to_stop :: "system \<Rightarrow> nat" where
  "steps_to_stop s = stop_bound (s_pc s) (length (s_answers s)) (length (s_upcalls s))"

definition arrivals :: "event list \<Rightarrow> nat" where
  "arrivals es = length (history answer_sent es) + length (history upcall_sent es)"

definition main_steps :: "event list \<Rightarrow> nat" where
  "main_steps es = length (filter by_main es)"

lemma main_stops:
  assumes "main_step env r s = Some (e, s')" "s_shutdown s"
  shows "Suc (steps_to_stop s') \<le> steps_to_stop s \<and> s_shutdown s' \<and> by_main e"
  using assms
  by (cases "s_pc s") (auto simp: main_step_def steps_to_stop_def advance_sel split: if_splits list.splits eval.splits)

lemma step_stops:
  assumes "sstep s e s'" "s_shutdown s"
  shows "main_steps [e] + steps_to_stop s' \<le> steps_to_stop s + arrivals [e] \<and> s_shutdown s'"
  using assms(1)
proof (cases rule: sstep.cases)
  case (main env r)
  then show ?thesis using main_stops [OF main assms(2)] by (simp add: main_steps_def)
next
  case (prompt p out)
  then show ?thesis using assms(2)
    by (cases "s_pc s") (auto simp: prompt_ends_def main_steps_def arrivals_def history_def steps_to_stop_def)
next
  case (reader fd n err ev)
  then show ?thesis using assms(2)
    by (cases "s_pc s") (auto simp: reader_step_def main_steps_def arrivals_def history_def steps_to_stop_def
        split: sum.splits option.splits)
next
  case signal
  then show ?thesis using assms(2) by (simp add: on_term_def main_steps_def steps_to_stop_def)
next
  case (files dk)
  then show ?thesis using assms(2) by (simp add: main_steps_def steps_to_stop_def)
qed

lemma run_stops:
  "run s es s' \<Longrightarrow> s_shutdown s \<Longrightarrow> main_steps es + steps_to_stop s' \<le> steps_to_stop s + arrivals es \<and> s_shutdown s'"
proof (induction rule: run.induct)
  case (stay s)
  then show ?case by (simp add: main_steps_def arrivals_def)
next
  case (more s es s' e s'')
  then show ?case using step_stops [OF more.hyps(2)] by (auto simp: main_steps_def arrivals_def history_def)
qed

lemma main_progress: "s_pc s \<noteq> Stopped \<Longrightarrow> \<exists>e s'. main_step env r s = Some (e, s')"
proof -
  have "\<exists>d'. received env r d = Ret d'" for d using packet_ret by (auto simp: received_def split: sum.splits)
  then show "s_pc s \<noteq> Stopped \<Longrightarrow> \<exists>e s'. main_step env r s = Some (e, s')"
    by (cases "s_pc s") (auto simp: main_step_def split: list.splits eval.splits, metis eval.distinct(1))
qed

lemma shut_down_effect:
  assumes "shut_down d"
  shows "udp_diverted d \<and> last (d_trace d) = Exit 0"
proof -
  obtain d0 env where d: "reachable d0" "d = shutdown env d0" using assms by (auto simp: shut_down.simps)
  have ok: "upcall_ok d0" using loop.inv_reachable [OF d(1)] by (simp add: daemon_ok_def)
  let ?d = "with_kern (flush_verdicts (e_dev env)) (with_kern (set_upcall (e_dev env) False) d0)"
  have "control ?d = control d0" by (simp add: with_kern_frame)
  then have "d_upcall_on ?d = d_upcall_on d0" "udp_diverted ?d = udp_diverted d0" by (simp_all add: control_def)
  then show ?thesis using ok unfolding d(2)
    by (auto simp: shutdown_def Let_def set_udp_divert_def emit_def udp_diverted_def upcall_ok_def udp_ok_def)
qed


lemma s_start_empty:
  "s_answers (s_start env fb pe dk) = []" "s_upcalls (s_start env fb pe dk) = []"
  "d_prompts (s_main (s_start env fb pe dk)) = []" "asked (s_main (s_start env fb pe dk)) = []"
  "sent (s_main (s_start env fb pe dk)) = []"
proof -
  obtain k as where k: "kern_backend env (fst (policy_load dk POLICY_PATH)) = (k, as)" by fastforce
  show "s_answers (s_start env fb pe dk) = []" "s_upcalls (s_start env fb pe dk) = []"
    "d_prompts (s_main (s_start env fb pe dk)) = []" "asked (s_main (s_start env fb pe dk)) = []"
    "sent (s_main (s_start env fb pe dk)) = []"
    using kern_backend_quiet [of env "fst (policy_load dk POLICY_PATH)"] unfolding k
    by (simp_all add: s_start_def start_fields) (simp_all add: start_def Let_def asked_def sent_def quiet_def k)
qed

section \<open>What the threads guarantee\<close>

text \<open>C11: whatever the order in which the threads take their steps, the main thread's state is one that the loop
  alone can reach, so every invariant of the loop holds, or the state after a shutdown; and no two prompts that
  run or whose answers are on their way ask the same question.\<close>

theorem interleavings_refine_loop:
  assumes "run (s_start env fallback prompt_env dk) es s"
  shows "(if s_pc s = Stopped then shut_down (s_main s) else reachable (s_main s))
    \<and> distinct (map pending_key (s_prompting s @ map snd (s_answers s)))"
proof -
  have ok: "in_loop s" "balanced s" using run_ok [OF assms s_start_ok] by simp_all
  have "distinct (map pending_key (d_prompts d))" if "reachable d" for d
    using loop.inv_reachable [OF that] by (simp add: daemon_ok_def questions_ok_def)
  then have "distinct (map pending_key (d_prompts (s_main s)))"
    using ok(1) by (auto simp: in_loop_def shut_down.simps shutdown_frame split: if_splits)
  moreover have "mset (map pending_key (s_prompting s @ map snd (s_answers s))) = mset (map pending_key (d_prompts (s_main s)))"
    using ok(2) by (simp add: balanced_def multiset.map_comp)
  ultimately have "distinct (map pending_key (s_prompting s @ map snd (s_answers s)))"
    by (metis mset_eq_imp_distinct_iff)
  then show ?thesis using ok(1) by (simp add: in_loop_def)
qed

theorem interleavings_refine_loop_witness:
  "reachable (s_main (s_start demo_env Enforcement None empty_disk))"
  using interleavings_refine_loop [OF run.stay, of demo_env Enforcement None empty_disk] by (simp add: s_start_def)



text \<open>C10: the daemon sends nothing of its own: whatever the threads do, the packets it has sent since it started are,
  in the order of arrival and at most one for each, packets it received, sent back unchanged, or the reset that
  answers the packet; none is made up, doubled or reordered.\<close>

theorem packets_in_order:
  assumes "run (s_start env fallback prompt_env dk) es s"
  shows "answer_in_order (sent (s_main s)) (history packet_in es)"
  using run_sends [OF assms s_start_ok] by (simp add: s_start_empty)

theorem packets_in_order_witness:
  "\<exists>s. run (s_start demo_env Enforcement None empty_disk)
       [StartRound, NoAnswer, NoUpcall, Ticked, Received (Inr ([1, 2], zeroed_sockaddr))] s
     \<and> sent (s_main s) = [Reinject [1, 2] zeroed_sockaddr]
     \<and> answer_in_order (sent (s_main s)) [([1, 2], zeroed_sockaddr)]"
proof -
  let ?s0 = "s_start demo_env Enforcement None empty_disk" and ?q = "([1, 2], zeroed_sockaddr)"
  let ?d = "s_main ?s0"
  let ?s1 = "?s0\<lparr>s_pc := AtAnswers\<rparr>"
  let ?s2 = "?s1\<lparr>s_pc := AtUpcalls\<rparr>" and ?s3 = "?s1\<lparr>s_pc := AtTick\<rparr>"
  let ?s4 = "advance (tick demo_env ?d) AtRecv ?s3"
  have none: "attempt [1, 2] zeroed_sockaddr = None" by code_simp
  then obtain n where p: "packet demo_env [1, 2] zeroed_sockaddr (tick demo_env ?d)
    = Ret (emit [Reinject [1, 2] zeroed_sockaddr] ((tick demo_env ?d)\<lparr>d_names := n\<rparr>))"
    using packet_other by blast
  let ?d' = "emit [Reinject [1, 2] zeroed_sockaddr] ((tick demo_env ?d)\<lparr>d_names := n\<rparr>)"
  have m: "main_step demo_env (Inr ?q) ?s0 = Some (StartRound, ?s1)" "main_step demo_env (Inr ?q) ?s1 = Some (NoAnswer, ?s2)"
    "main_step demo_env (Inr ?q) ?s2 = Some (NoUpcall, ?s3)"
    "main_step demo_env (Inr ?q) ?s3 = Some (Ticked, ?s4)"
    by (simp_all add: main_step_def) (simp_all add: s_start_def)
  have "main_step demo_env (Inr ?q) ?s4 = Some (Received (Inr ?q), advance ?d' AtTop ?s4)"
    by (simp add: main_step_def advance_sel received_def p)
  with m have "run ?s0 ((((([] @ [StartRound]) @ [NoAnswer]) @ [NoUpcall]) @ [Ticked]) @ [Received (Inr ?q)]) (advance ?d' AtTop ?s4)"
    by (intro run.more) (auto intro: sstep.main run.stay)
  then have r: "run ?s0 [StartRound, NoAnswer, NoUpcall, Ticked, Received (Inr ?q)] (advance ?d' AtTop ?s4)" by simp
  have "upcall_ok ?d" using loop.inv_reachable [OF reachable.start] by (simp add: s_start_def daemon_ok_def)
  then have "sent (tick demo_env ?d) = []"
    using tick_frame(1) s_start_empty(5) by (simp add: keeps_questions_def)
  then have "sent ?d' = [Reinject [1, 2] zeroed_sockaddr]" by (simp add: sent_def emit_def)
  then show ?thesis
    using packets_in_order [OF r] r by (intro exI [of _ "advance ?d' AtTop ?s4"]) (simp add: advance_sel history_def)
qed




section \<open>A reader that ends is not replaced\<close>

text \<open>The thread ends at the first read that gives no event, an interrupted or a malformed one included.  While the
  upcall stays enabled, the periodic work starts no other one: nobody reads the module's questions, and pf's
  divert rule for UDP stays retired.\<close>

text \<open>The periodic work with a live handle and an unchanged policy file.\<close>

definition calm :: "env \<Rightarrow> daemon \<Rightarrow> bool" where
  "calm env d \<longleftrightarrow> d_kern d \<noteq> None \<and> \<not> is_dead (the (d_kern d)) \<and> enforcing (d_mode d)
     \<and> e_mtime env (d_disk (tick_seen env d)) = d_mtime d"

lemma tick_calm:
  assumes "calm env d"
  shows "\<exists>d1. d_trace d1 = d_trace d \<and> control d1 = control d \<and> d_kern d1 = d_kern d \<and> d_mtime d1 = d_mtime d
    \<and> d_prompts d1 = d_prompts d
    \<and> tick env d = (if 1000 \<le> e_clock env - d_last_check d then tick_reconcile env d1 else d1)"
proof -
  let ?d = "tick_logged env (tick_seen env d)" and ?c = "1000 \<le> e_clock env - d_last_check d"
  let ?t = "?d\<lparr>d_last_check := e_clock env\<rparr>"
  have s: "d_kern ?d = d_kern d" "d_mtime ?d = d_mtime d" "d_mode ?d = d_mode d" "d_last_check ?d = d_last_check d"
    "d_disk ?d = d_disk (tick_seen env d)" "d_trace ?d = d_trace d" "d_prompts ?d = d_prompts d" "control ?d = control d"
    by (simp_all add: tick_logged_def tick_seen_def control_def udp_diverted_def split: prod.split)
  have t: "control ?t = control ?d" by (simp add: control_def udp_diverted_def)
  have "tick_kern env ?t = ?t" using s(1) assms by (auto simp: tick_kern_def calm_def)
  moreover have "tick_reload env ?t = ?t" using s(2,5) assms by (simp add: tick_reload_def calm_def)
  ultimately have "tick env d = (if ?c then tick_reconcile env ?t else ?d)" using s(4) by (simp add: tick_def Let_def)
  then show ?thesis using s t by (intro exI [of _ "if ?c then ?t else ?d"]) simp
qed

lemma tick_keeps_reader:
  assumes "calm env d" "d_upcall_on d"
  shows "new_readers d (tick env d) = [] \<and> d_upcall_on (tick env d) \<and> udp_diverted (tick env d) = udp_diverted d"
proof -
  obtain d1 where d1: "d_trace d1 = d_trace d" "control d1 = control d" "d_kern d1 = d_kern d"
    "tick env d = (if 1000 \<le> e_clock env - d_last_check d then tick_reconcile env d1 else d1)"
    using tick_calm [OF assms(1)] by blast
  then have "want_upcall d1 \<and> d_upcall_on d1" using assms by (simp add: want_upcall_def calm_def control_def)
  then have "tick env d = d1" using d1(4) by (simp add: tick_reconcile_def)
  then show ?thesis using d1(1,2) assms(2) by (simp add: new_readers_def control_def)
qed

lemma tick_starts_reader:
  assumes "calm env d" "\<not> d_upcall_on d" "1000 \<le> e_clock env - d_last_check d" "e_reader env = (fd, err)" "0 \<le> fd"
  shows "new_readers d (tick env d) = [fd] \<and> d_upcall_on (tick env d) \<and> \<not> udp_diverted (tick env d)
    \<and> d_prompts (tick env d) = d_prompts d"
proof -
  obtain d1 where d1: "d_trace d1 = d_trace d" "control d1 = control d" "d_kern d1 = d_kern d" "d_prompts d1 = d_prompts d"
    "tick env d = tick_reconcile env d1"
    using tick_calm [OF assms(1)] assms(3) by auto
  then have "want_upcall d1 \<and> \<not> d_upcall_on d1" using assms(1,2) by (simp add: want_upcall_def calm_def control_def)
  then have "tick env d = set_udp_divert False (emit [SpawnReader fd] ((with_kern (set_upcall (e_dev env) True) d1)\<lparr>d_upcall_on := True\<rparr>))"
    using d1(5) assms(4,5) by (simp add: tick_reconcile_def reader_open_def)
  moreover have "concat (map reader_of (map (\<lambda>(c, a). Ioctl c a) cs)) = []" for cs
    by (induction cs) auto
  ultimately show ?thesis using d1(1,4)
    by (auto simp: new_readers_def set_udp_divert_def emit_def with_kern_def udp_diverted_def split: option.split prod.split)
qed

definition kern_disk :: disk where
  "kern_disk = empty_disk\<lparr>files := (\<lambda>p. if p = POLICY_PATH then Some ''attribution kernel'' else None)\<rparr>"

definition kern_start :: system where
  "kern_start = s_start demo_env Enforcement None kern_disk"

lemma kern_policy: "policy_attribution (fst (policy_load kern_disk POLICY_PATH)) = KernelModule"
  "policy_mode (fst (policy_load kern_disk POLICY_PATH)) Enforcement = Enforcement"
  by code_simp+

lemma kern_start_fields:
  "d_kern (s_main kern_start) = Some \<lparr>k_fd = 3, dead = False\<rparr>" "d_mode (s_main kern_start) = Enforcement"
  "d_upcall_on (s_main kern_start) = False" "d_last_check (s_main kern_start) = 0" "d_mtime (s_main kern_start) = None"
  "policy_attribution (d_pol (s_main kern_start)) = KernelModule" "d_prompts (s_main kern_start) = []"
  "s_pc kern_start = AtTop" "s_answers kern_start = []" "s_upcalls kern_start = []" "s_readers kern_start = []"
  "s_shutdown kern_start = False" "s_prompting kern_start = []"
  using kern_policy
  by (simp_all add: kern_start_def s_start_def start_def Let_def kern_backend_def open_kern_def kern_open_def
      demo_env_def flush_verdicts_def ctl_def)

text \<open>A round that starts the reader, whose first \<open>read\<close> is interrupted.\<close>

lemma reader_lost:
  "\<exists>s. run kern_start [StartRound, NoAnswer, NoUpcall, Ticked, ReaderEnds 4] s \<and> s_readers s = []
     \<and> d_upcall_on (s_main s) \<and> \<not> udp_diverted (s_main s)"
proof -
  let ?env = "demo_env\<lparr>e_clock := 1000\<rparr>" and ?d = "s_main kern_start"
  let ?s1 = "kern_start\<lparr>s_pc := AtAnswers\<rparr>"
  let ?s2 = "?s1\<lparr>s_pc := AtUpcalls\<rparr>" and ?s3 = "?s1\<lparr>s_pc := AtTick\<rparr>"
  let ?s4 = "advance (tick ?env ?d) AtRecv ?s3"
  have "calm ?env ?d" by (simp add: calm_def kern_start_fields is_dead_def) (simp add: demo_env_def)
  then have t: "new_readers ?d (tick ?env ?d) = [4]" "d_upcall_on (tick ?env ?d)" "\<not> udp_diverted (tick ?env ?d)"
    using tick_starts_reader [of ?env ?d 4 0] kern_start_fields by (simp_all add: demo_env_def)
  have m: "main_step ?env (Inl 35) kern_start = Some (StartRound, ?s1)" "main_step ?env (Inl 35) ?s1 = Some (NoAnswer, ?s2)"
    "main_step ?env (Inl 35) ?s2 = Some (NoUpcall, ?s3)" "main_step ?env (Inl 35) ?s3 = Some (Ticked, ?s4)"
    by (simp_all add: main_step_def kern_start_fields)
  have r: "reader_step 4 (- 1) 4 ev ?s4 = (ReaderEnds 4, ?s4\<lparr>s_readers := []\<rparr>)" for ev
    by (simp add: reader_step_def read_event_def advance_sel t(1) kern_start_fields)
  have "sstep ?s4 (ReaderEnds 4) (?s4\<lparr>s_readers := []\<rparr>)"
    by (rule sstep.reader [OF _ _ r]) (simp_all add: advance_sel t(1))
  then have "run kern_start ((((([] @ [StartRound]) @ [NoAnswer]) @ [NoUpcall]) @ [Ticked]) @ [ReaderEnds 4]) (?s4\<lparr>s_readers := []\<rparr>)"
    using m by (intro run.more) (auto intro: sstep.main run.stay)
  then show ?thesis using t(2,3) by (intro exI [of _ "?s4\<lparr>s_readers := []\<rparr>"]) (simp add: advance_sel)
qed

end
