(* ===== verification/Procstat_Layout.thy ===== *)
theory Procstat_Layout
  imports Procstat_Sys "HOL-Library.Sublist"
begin

text \<open>
  The layout assertions of \<open>src/procstat_sys.rs\<close>: for each type the size, the alignment and the offsets of the
  fields that the C compiler reported, which the Rust declarations of the same types must give.  \<open>x_claim\<close> is the
  assertion block of the type \<open>x\<close>.
\<close>

type_synonym layout_claim = "nat \<times> nat \<times> (string \<times> nat) list"

text \<open>The type has the claimed size and alignment, and the named fields, in the order of their declaration, lie
  where it is claimed.\<close>

definition upholds :: "ctype \<Rightarrow> layout_claim \<Rightarrow> bool" where
  "upholds t c \<longleftrightarrow> (case c of (n, a, xs) \<Rightarrow> wf_ctype t \<and> size_of t = n \<and> align_of t = a
     \<and> subseq xs (field_offsets t))"

named_theorems upheld \<open>the claims that have been checked\<close>

definition c_cap_rights_claim :: layout_claim where
  "c_cap_rights_claim = (16, 8,
     [(''cr_rights'', 0)])"

lemma c_cap_rights_upholds [upheld]: "upholds c_cap_rights c_cap_rights_claim"
  by (simp add: upholds_def offset_of_def layout c_cap_rights_def c_cap_rights_claim_def)

definition c___sigset_claim :: layout_claim where
  "c___sigset_claim = (16, 4,
     [(''__bits'', 0)])"

lemma c___sigset_upholds [upheld]: "upholds c___sigset c___sigset_claim"
  by (simp add: upholds_def offset_of_def layout c___sigset_def c___sigset_claim_def)

definition c_timeval_claim :: layout_claim where
  "c_timeval_claim = (16, 8,
     [(''tv_sec'', 0), (''tv_usec'', 8)])"

lemma c_timeval_upholds [upheld]: "upholds c_timeval c_timeval_claim"
  by (simp add: upholds_def offset_of_def layout c_timeval_def c_timeval_claim_def)

definition c_sigaltstack_claim :: layout_claim where
  "c_sigaltstack_claim = (24, 8,
     [(''ss_sp'', 0), (''ss_size'', 8), (''ss_flags'', 16)])"

lemma c_sigaltstack_upholds [upheld]: "upholds c_sigaltstack c_sigaltstack_claim"
  by (simp add: upholds_def offset_of_def layout c_sigaltstack_def c_sigaltstack_claim_def)

definition c_sigval_claim :: layout_claim where
  "c_sigval_claim = (8, 8,
     [(''sival_int'', 0), (''sival_ptr'', 0), (''sigval_int'', 0), (''sigval_ptr'', 0)])"

lemma c_sigval_upholds [upheld]: "upholds c_sigval c_sigval_claim"
  by (simp add: upholds_def offset_of_def layout c_sigval_def c_sigval_claim_def)

definition c___siginfo__bindgen_ty_1__bindgen_ty_1_claim :: layout_claim where
  "c___siginfo__bindgen_ty_1__bindgen_ty_1_claim = (4, 4,
     [(''_trapno'', 0)])"

lemma c___siginfo__bindgen_ty_1__bindgen_ty_1_upholds [upheld]: "upholds c___siginfo__bindgen_ty_1__bindgen_ty_1 c___siginfo__bindgen_ty_1__bindgen_ty_1_claim"
  by (simp add: upholds_def offset_of_def layout c___siginfo__bindgen_ty_1__bindgen_ty_1_def c___siginfo__bindgen_ty_1__bindgen_ty_1_claim_def)

definition c___siginfo__bindgen_ty_1__bindgen_ty_2_claim :: layout_claim where
  "c___siginfo__bindgen_ty_1__bindgen_ty_2_claim = (8, 4,
     [(''_timerid'', 0), (''_overrun'', 4)])"

lemma c___siginfo__bindgen_ty_1__bindgen_ty_2_upholds [upheld]: "upholds c___siginfo__bindgen_ty_1__bindgen_ty_2 c___siginfo__bindgen_ty_1__bindgen_ty_2_claim"
  by (simp add: upholds_def offset_of_def layout c___siginfo__bindgen_ty_1__bindgen_ty_2_def c___siginfo__bindgen_ty_1__bindgen_ty_2_claim_def)

definition c___siginfo__bindgen_ty_1__bindgen_ty_3_claim :: layout_claim where
  "c___siginfo__bindgen_ty_1__bindgen_ty_3_claim = (4, 4,
     [(''_mqd'', 0)])"

lemma c___siginfo__bindgen_ty_1__bindgen_ty_3_upholds [upheld]: "upholds c___siginfo__bindgen_ty_1__bindgen_ty_3 c___siginfo__bindgen_ty_1__bindgen_ty_3_claim"
  by (simp add: upholds_def offset_of_def layout c___siginfo__bindgen_ty_1__bindgen_ty_3_def c___siginfo__bindgen_ty_1__bindgen_ty_3_claim_def)

definition c___siginfo__bindgen_ty_1__bindgen_ty_4_claim :: layout_claim where
  "c___siginfo__bindgen_ty_1__bindgen_ty_4_claim = (8, 8,
     [(''_band'', 0)])"

lemma c___siginfo__bindgen_ty_1__bindgen_ty_4_upholds [upheld]: "upholds c___siginfo__bindgen_ty_1__bindgen_ty_4 c___siginfo__bindgen_ty_1__bindgen_ty_4_claim"
  by (simp add: upholds_def offset_of_def layout c___siginfo__bindgen_ty_1__bindgen_ty_4_def c___siginfo__bindgen_ty_1__bindgen_ty_4_claim_def)

definition c___siginfo__bindgen_ty_1__bindgen_ty_5_claim :: layout_claim where
  "c___siginfo__bindgen_ty_1__bindgen_ty_5_claim = (4, 4,
     [(''_syscall'', 0)])"

lemma c___siginfo__bindgen_ty_1__bindgen_ty_5_upholds [upheld]: "upholds c___siginfo__bindgen_ty_1__bindgen_ty_5 c___siginfo__bindgen_ty_1__bindgen_ty_5_claim"
  by (simp add: upholds_def offset_of_def layout c___siginfo__bindgen_ty_1__bindgen_ty_5_def c___siginfo__bindgen_ty_1__bindgen_ty_5_claim_def)

definition c___siginfo__bindgen_ty_1__bindgen_ty_6_claim :: layout_claim where
  "c___siginfo__bindgen_ty_1__bindgen_ty_6_claim = (40, 8,
     [(''__spare1__'', 0), (''__spare2__'', 8)])"

lemma c___siginfo__bindgen_ty_1__bindgen_ty_6_upholds [upheld]: "upholds c___siginfo__bindgen_ty_1__bindgen_ty_6 c___siginfo__bindgen_ty_1__bindgen_ty_6_claim"
  by (simp add: upholds_def offset_of_def layout c___siginfo__bindgen_ty_1__bindgen_ty_6_def c___siginfo__bindgen_ty_1__bindgen_ty_6_claim_def)

definition c___siginfo__bindgen_ty_1_claim :: layout_claim where
  "c___siginfo__bindgen_ty_1_claim = (40, 8,
     [(''_fault'', 0), (''_timer'', 0), (''_mesgq'', 0), (''_poll'', 0), (''_capsicum'', 0), (''__spare__'', 0)])"

lemma c___siginfo__bindgen_ty_1_upholds [upheld]: "upholds c___siginfo__bindgen_ty_1 c___siginfo__bindgen_ty_1_claim"
  by (simp add: upholds_def offset_of_def layout c___siginfo__bindgen_ty_1_def c___siginfo__bindgen_ty_1_claim_def)

definition c___siginfo_claim :: layout_claim where
  "c___siginfo_claim = (80, 8,
     [(''si_signo'', 0), (''si_errno'', 4), (''si_code'', 8), (''si_pid'', 12), (''si_uid'', 16),
      (''si_status'', 20), (''si_addr'', 24), (''si_value'', 32), (''_reason'', 40)])"

lemma c___siginfo_upholds [upheld]: "upholds c___siginfo c___siginfo_claim"
  by (simp add: upholds_def offset_of_def layout c___siginfo_def c___siginfo_claim_def)

definition c_sockaddr_storage_claim :: layout_claim where
  "c_sockaddr_storage_claim = (128, 8,
     [(''ss_len'', 0), (''ss_family'', 1), (''__ss_pad1'', 2), (''__ss_align'', 8), (''__ss_pad2'', 16)])"

lemma c_sockaddr_storage_upholds [upheld]: "upholds c_sockaddr_storage c_sockaddr_storage_claim"
  by (simp add: upholds_def offset_of_def layout c_sockaddr_storage_def c_sockaddr_storage_claim_def)

definition c_fpacc87_claim :: layout_claim where
  "c_fpacc87_claim = (10, 1,
     [(''fp_bytes'', 0)])"

lemma c_fpacc87_upholds [upheld]: "upholds c_fpacc87 c_fpacc87_claim"
  by (simp add: upholds_def offset_of_def layout c_fpacc87_def c_fpacc87_claim_def)

definition c_xmmacc_claim :: layout_claim where
  "c_xmmacc_claim = (16, 1,
     [(''xmm_bytes'', 0)])"

lemma c_xmmacc_upholds [upheld]: "upholds c_xmmacc c_xmmacc_claim"
  by (simp add: upholds_def offset_of_def layout c_xmmacc_def c_xmmacc_claim_def)

definition c_envxmm_claim :: layout_claim where
  "c_envxmm_claim = (32, 8,
     [(''en_cw'', 0), (''en_sw'', 2), (''en_tw'', 4), (''en_zero'', 5), (''en_opcode'', 6), (''en_rip'', 8),
      (''en_rdp'', 16), (''en_mxcsr'', 24), (''en_mxcsr_mask'', 28)])"

lemma c_envxmm_upholds [upheld]: "upholds c_envxmm c_envxmm_claim"
  by (simp add: upholds_def offset_of_def layout c_envxmm_def c_envxmm_claim_def)

definition c_savefpu__bindgen_ty_1_claim :: layout_claim where
  "c_savefpu__bindgen_ty_1_claim = (16, 1,
     [(''fp_acc'', 0), (''fp_pad'', 10)])"

lemma c_savefpu__bindgen_ty_1_upholds [upheld]: "upholds c_savefpu__bindgen_ty_1 c_savefpu__bindgen_ty_1_claim"
  by (simp add: upholds_def offset_of_def layout c_savefpu__bindgen_ty_1_def c_savefpu__bindgen_ty_1_claim_def)

definition c_savefpu_claim :: layout_claim where
  "c_savefpu_claim = (512, 16,
     [(''sv_env'', 0), (''sv_fp'', 32), (''sv_xmm'', 160), (''sv_pad'', 416)])"

lemma c_savefpu_upholds [upheld]: "upholds c_savefpu c_savefpu_claim"
  by (simp add: upholds_def offset_of_def layout c_savefpu_def c_savefpu_claim_def)

definition c_system_segment_descriptor_claim :: layout_claim where
  "c_system_segment_descriptor_claim = (16, 1,
     [])"

lemma c_system_segment_descriptor_upholds [upheld]: "upholds c_system_segment_descriptor c_system_segment_descriptor_claim"
  by (simp add: upholds_def offset_of_def layout c_system_segment_descriptor_def c_system_segment_descriptor_claim_def)

definition c_region_descriptor_claim :: layout_claim where
  "c_region_descriptor_claim = (10, 1,
     [])"

lemma c_region_descriptor_upholds [upheld]: "upholds c_region_descriptor c_region_descriptor_claim"
  by (simp add: upholds_def offset_of_def layout c_region_descriptor_def c_region_descriptor_claim_def)

definition c_pcb_claim :: layout_claim where
  "c_pcb_claim = (320, 8,
     [(''pcb_r15'', 0), (''pcb_r14'', 8), (''pcb_r13'', 16), (''pcb_r12'', 24), (''pcb_rbp'', 32),
      (''pcb_rsp'', 40), (''pcb_rbx'', 48), (''pcb_rip'', 56), (''pcb_fsbase'', 64), (''pcb_gsbase'', 72),
      (''pcb_kgsbase'', 80), (''pcb_cr0'', 88), (''pcb_cr2'', 96), (''pcb_cr3'', 104), (''pcb_cr4'', 112),
      (''pcb_dr0'', 120), (''pcb_dr1'', 128), (''pcb_dr2'', 136), (''pcb_dr3'', 144), (''pcb_dr6'', 152),
      (''pcb_dr7'', 160), (''pcb_gdt'', 168), (''pcb_idt'', 178), (''pcb_ldt'', 188), (''pcb_tr'', 198),
      (''pcb_flags'', 200), (''pcb_initial_fpucw'', 204), (''pcb_onfault'', 208), (''pcb_saved_ucr3'', 216),
      (''pcb_tssp'', 224), (''pcb_efer'', 232), (''pcb_star'', 240), (''pcb_lstar'', 248), (''pcb_cstar'', 256),
      (''pcb_sfmask'', 264), (''pcb_save'', 272), (''pcb_tlsbase'', 280), (''pcb_pad'', 288)])"

lemma c_pcb_upholds [upheld]: "upholds c_pcb c_pcb_claim"
  by (simp add: upholds_def offset_of_def layout c_pcb_def c_pcb_claim_def)

definition c_kevent_claim :: layout_claim where
  "c_kevent_claim = (64, 8,
     [(''ident'', 0), (''filter'', 8), (''flags'', 10), (''fflags'', 12), (''data'', 16), (''udata'', 24),
      (''ext'', 32)])"

lemma c_kevent_upholds [upheld]: "upholds c_kevent c_kevent_claim"
  by (simp add: upholds_def offset_of_def layout c_kevent_def c_kevent_claim_def)

definition c_klist_claim :: layout_claim where
  "c_klist_claim = (8, 8,
     [(''slh_first'', 0)])"

lemma c_klist_upholds [upheld]: "upholds c_klist c_klist_claim"
  by (simp add: upholds_def offset_of_def layout c_klist_def c_klist_claim_def)

definition c_kqlist_claim :: layout_claim where
  "c_kqlist_claim = (16, 8,
     [(''tqh_first'', 0), (''tqh_last'', 8)])"

lemma c_kqlist_upholds [upheld]: "upholds c_kqlist c_kqlist_claim"
  by (simp add: upholds_def offset_of_def layout c_kqlist_def c_kqlist_claim_def)

definition c_knlist_claim :: layout_claim where
  "c_knlist_claim = (48, 8,
     [(''kl_list'', 0), (''kl_lock'', 8), (''kl_unlock'', 16), (''kl_assert_lock'', 24), (''kl_lockarg'', 32),
      (''kl_autodestroy'', 40)])"

lemma c_knlist_upholds [upheld]: "upholds c_knlist c_knlist_claim"
  by (simp add: upholds_def offset_of_def layout c_knlist_def c_knlist_claim_def)

definition c_itimerval_claim :: layout_claim where
  "c_itimerval_claim = (32, 8,
     [(''it_interval'', 0), (''it_value'', 16)])"

lemma c_itimerval_upholds [upheld]: "upholds c_itimerval c_itimerval_claim"
  by (simp add: upholds_def offset_of_def layout c_itimerval_def c_itimerval_claim_def)

definition c_rusage_claim :: layout_claim where
  "c_rusage_claim = (144, 8,
     [(''ru_utime'', 0), (''ru_stime'', 16), (''ru_maxrss'', 32), (''ru_ixrss'', 40), (''ru_idrss'', 48),
      (''ru_isrss'', 56), (''ru_minflt'', 64), (''ru_majflt'', 72), (''ru_nswap'', 80), (''ru_inblock'', 88),
      (''ru_oublock'', 96), (''ru_msgsnd'', 104), (''ru_msgrcv'', 112), (''ru_nsignals'', 120),
      (''ru_nvcsw'', 128), (''ru_nivcsw'', 136)])"

lemma c_rusage_upholds [upheld]: "upholds c_rusage c_rusage_claim"
  by (simp add: upholds_def offset_of_def layout c_rusage_def c_rusage_claim_def)

definition c_rlimit_claim :: layout_claim where
  "c_rlimit_claim = (16, 8,
     [(''rlim_cur'', 0), (''rlim_max'', 8)])"

lemma c_rlimit_upholds [upheld]: "upholds c_rlimit c_rlimit_claim"
  by (simp add: upholds_def offset_of_def layout c_rlimit_def c_rlimit_claim_def)

definition c_lock_object_claim :: layout_claim where
  "c_lock_object_claim = (24, 8,
     [(''lo_name'', 0), (''lo_flags'', 8), (''lo_data'', 12), (''lo_witness'', 16)])"

lemma c_lock_object_upholds [upheld]: "upholds c_lock_object c_lock_object_claim"
  by (simp add: upholds_def offset_of_def layout c_lock_object_def c_lock_object_claim_def)

definition c_mtx_claim :: layout_claim where
  "c_mtx_claim = (32, 8,
     [(''lock_object'', 0), (''mtx_lock'', 24)])"

lemma c_mtx_upholds [upheld]: "upholds c_mtx c_mtx_claim"
  by (simp add: upholds_def offset_of_def layout c_mtx_def c_mtx_claim_def)

definition c_callout__bindgen_ty_1__bindgen_ty_1_claim :: layout_claim where
  "c_callout__bindgen_ty_1__bindgen_ty_1_claim = (16, 8,
     [(''le_next'', 0), (''le_prev'', 8)])"

lemma c_callout__bindgen_ty_1__bindgen_ty_1_upholds [upheld]: "upholds c_callout__bindgen_ty_1__bindgen_ty_1 c_callout__bindgen_ty_1__bindgen_ty_1_claim"
  by (simp add: upholds_def offset_of_def layout c_callout__bindgen_ty_1__bindgen_ty_1_def c_callout__bindgen_ty_1__bindgen_ty_1_claim_def)

definition c_callout__bindgen_ty_1__bindgen_ty_2_claim :: layout_claim where
  "c_callout__bindgen_ty_1__bindgen_ty_2_claim = (8, 8,
     [(''sle_next'', 0)])"

lemma c_callout__bindgen_ty_1__bindgen_ty_2_upholds [upheld]: "upholds c_callout__bindgen_ty_1__bindgen_ty_2 c_callout__bindgen_ty_1__bindgen_ty_2_claim"
  by (simp add: upholds_def offset_of_def layout c_callout__bindgen_ty_1__bindgen_ty_2_def c_callout__bindgen_ty_1__bindgen_ty_2_claim_def)

definition c_callout__bindgen_ty_1__bindgen_ty_3_claim :: layout_claim where
  "c_callout__bindgen_ty_1__bindgen_ty_3_claim = (16, 8,
     [(''tqe_next'', 0), (''tqe_prev'', 8)])"

lemma c_callout__bindgen_ty_1__bindgen_ty_3_upholds [upheld]: "upholds c_callout__bindgen_ty_1__bindgen_ty_3 c_callout__bindgen_ty_1__bindgen_ty_3_claim"
  by (simp add: upholds_def offset_of_def layout c_callout__bindgen_ty_1__bindgen_ty_3_def c_callout__bindgen_ty_1__bindgen_ty_3_claim_def)

definition c_callout__bindgen_ty_1_claim :: layout_claim where
  "c_callout__bindgen_ty_1_claim = (16, 8,
     [(''le'', 0), (''sle'', 0), (''tqe'', 0)])"

lemma c_callout__bindgen_ty_1_upholds [upheld]: "upholds c_callout__bindgen_ty_1 c_callout__bindgen_ty_1_claim"
  by (simp add: upholds_def offset_of_def layout c_callout__bindgen_ty_1_def c_callout__bindgen_ty_1_claim_def)

definition c_callout_claim :: layout_claim where
  "c_callout_claim = (64, 8,
     [(''c_links'', 0), (''c_time'', 16), (''c_precision'', 24), (''c_arg'', 32), (''c_func'', 40),
      (''c_lock'', 48), (''c_flags'', 56), (''c_iflags'', 58), (''c_cpu'', 60)])"

lemma c_callout_upholds [upheld]: "upholds c_callout c_callout_claim"
  by (simp add: upholds_def offset_of_def layout c_callout_def c_callout_claim_def)

definition c_kexterr_claim :: layout_claim where
  "c_kexterr_claim = (40, 8,
     [(''error'', 0), (''msg'', 8), (''p1'', 16), (''p2'', 24), (''cat'', 32), (''src_line'', 36)])"

lemma c_kexterr_upholds [upheld]: "upholds c_kexterr c_kexterr_claim"
  by (simp add: upholds_def offset_of_def layout c_kexterr_def c_kexterr_claim_def)

definition c_cv_claim :: layout_claim where
  "c_cv_claim = (16, 8,
     [(''cv_description'', 0), (''cv_waiters'', 8)])"

lemma c_cv_upholds [upheld]: "upholds c_cv c_cv_claim"
  by (simp add: upholds_def offset_of_def layout c_cv_def c_cv_claim_def)

definition c_priority_claim :: layout_claim where
  "c_priority_claim = (4, 1,
     [(''pri_class'', 0), (''pri_level'', 1), (''pri_native'', 2), (''pri_user'', 3)])"

lemma c_priority_upholds [upheld]: "upholds c_priority c_priority_claim"
  by (simp add: upholds_def offset_of_def layout c_priority_def c_priority_claim_def)

definition c_sx_claim :: layout_claim where
  "c_sx_claim = (32, 8,
     [(''lock_object'', 0), (''sx_lock'', 24)])"

lemma c_sx_upholds [upheld]: "upholds c_sx c_sx_claim"
  by (simp add: upholds_def offset_of_def layout c_sx_def c_sx_claim_def)

definition c_filecaps_claim :: layout_claim where
  "c_filecaps_claim = (32, 8,
     [(''fc_rights'', 0), (''fc_ioctls'', 16), (''fc_nioctls'', 24), (''fc_fcntls'', 28)])"

lemma c_filecaps_upholds [upheld]: "upholds c_filecaps c_filecaps_claim"
  by (simp add: upholds_def offset_of_def layout c_filecaps_def c_filecaps_claim_def)

definition c_filedescent_claim :: layout_claim where
  "c_filedescent_claim = (48, 8,
     [(''fde_file'', 0), (''fde_caps'', 8), (''fde_flags'', 40), (''fde_seqc'', 44)])"

lemma c_filedescent_upholds [upheld]: "upholds c_filedescent c_filedescent_claim"
  by (simp add: upholds_def offset_of_def layout c_filedescent_def c_filedescent_claim_def)

definition c_fdescenttbl_claim :: layout_claim where
  "c_fdescenttbl_claim = (8, 8,
     [(''fdt_nfiles'', 0), (''fdt_ofiles'', 8)])"

lemma c_fdescenttbl_upholds [upheld]: "upholds c_fdescenttbl c_fdescenttbl_claim"
  by (simp add: upholds_def offset_of_def layout c_fdescenttbl_def c_fdescenttbl_claim_def)

definition c_pwd_claim :: layout_claim where
  "c_pwd_claim = (40, 8,
     [(''pwd_refcount'', 0), (''pwd_cdir'', 8), (''pwd_rdir'', 16), (''pwd_jdir'', 24), (''pwd_adir'', 32)])"

lemma c_pwd_upholds [upheld]: "upholds c_pwd c_pwd_claim"
  by (simp add: upholds_def offset_of_def layout c_pwd_def c_pwd_claim_def)

definition c_smrpwd_t_claim :: layout_claim where
  "c_smrpwd_t_claim = (8, 8,
     [(''__ptr'', 0)])"

lemma c_smrpwd_t_upholds [upheld]: "upholds c_smrpwd_t c_smrpwd_t_claim"
  by (simp add: upholds_def offset_of_def layout c_smrpwd_t_def c_smrpwd_t_claim_def)

definition c_pwddesc_claim :: layout_claim where
  "c_pwddesc_claim = (48, 8,
     [(''pd_lock'', 0), (''pd_pwd'', 32), (''pd_refcount'', 40), (''pd_cmask'', 44)])"

lemma c_pwddesc_upholds [upheld]: "upholds c_pwddesc c_pwddesc_claim"
  by (simp add: upholds_def offset_of_def layout c_pwddesc_def c_pwddesc_claim_def)

definition c_filedesc_claim :: layout_claim where
  "c_filedesc_claim = (88, 8,
     [(''fd_files'', 0), (''fd_map'', 8), (''fd_freefile'', 16), (''fd_refcnt'', 20), (''fd_holdcnt'', 24),
      (''fd_sx'', 32), (''fd_kqlist'', 64), (''fd_holdleaderscount'', 80), (''fd_holdleaderswakeup'', 84)])"

lemma c_filedesc_upholds [upheld]: "upholds c_filedesc c_filedesc_claim"
  by (simp add: upholds_def offset_of_def layout c_filedesc_def c_filedesc_claim_def)

definition c_filedesc_to_leader_claim :: layout_claim where
  "c_filedesc_to_leader_claim = (40, 8,
     [(''fdl_refcount'', 0), (''fdl_holdcount'', 4), (''fdl_wakeup'', 8), (''fdl_leader'', 16), (''fdl_prev'', 24),
      (''fdl_next'', 32)])"

lemma c_filedesc_to_leader_upholds [upheld]: "upholds c_filedesc_to_leader c_filedesc_to_leader_claim"
  by (simp add: upholds_def offset_of_def layout c_filedesc_to_leader_def c_filedesc_to_leader_claim_def)

definition c_lpohead_claim :: layout_claim where
  "c_lpohead_claim = (8, 8,
     [(''lh_first'', 0)])"

lemma c_lpohead_upholds [upheld]: "upholds c_lpohead c_lpohead_claim"
  by (simp add: upholds_def offset_of_def layout c_lpohead_def c_lpohead_claim_def)

definition c_osd__bindgen_ty_1_claim :: layout_claim where
  "c_osd__bindgen_ty_1_claim = (16, 8,
     [(''le_next'', 0), (''le_prev'', 8)])"

lemma c_osd__bindgen_ty_1_upholds [upheld]: "upholds c_osd__bindgen_ty_1 c_osd__bindgen_ty_1_claim"
  by (simp add: upholds_def offset_of_def layout c_osd__bindgen_ty_1_def c_osd__bindgen_ty_1_claim_def)

definition c_osd_claim :: layout_claim where
  "c_osd_claim = (32, 8,
     [(''osd_nslots'', 0), (''osd_slots'', 8), (''osd_next'', 16)])"

lemma c_osd_upholds [upheld]: "upholds c_osd c_osd_claim"
  by (simp add: upholds_def offset_of_def layout c_osd_def c_osd_claim_def)

definition c_sigio__bindgen_ty_1_claim :: layout_claim where
  "c_sigio__bindgen_ty_1_claim = (8, 8,
     [(''siu_proc'', 0), (''siu_pgrp'', 0)])"

lemma c_sigio__bindgen_ty_1_upholds [upheld]: "upholds c_sigio__bindgen_ty_1 c_sigio__bindgen_ty_1_claim"
  by (simp add: upholds_def offset_of_def layout c_sigio__bindgen_ty_1_def c_sigio__bindgen_ty_1_claim_def)

definition c_sigio__bindgen_ty_2_claim :: layout_claim where
  "c_sigio__bindgen_ty_2_claim = (8, 8,
     [(''sle_next'', 0)])"

lemma c_sigio__bindgen_ty_2_upholds [upheld]: "upholds c_sigio__bindgen_ty_2 c_sigio__bindgen_ty_2_claim"
  by (simp add: upholds_def offset_of_def layout c_sigio__bindgen_ty_2_def c_sigio__bindgen_ty_2_claim_def)

definition c_sigio_claim :: layout_claim where
  "c_sigio_claim = (40, 8,
     [(''sio_u'', 0), (''sio_pgsigio'', 8), (''sio_myref'', 16), (''sio_ucred'', 24), (''sio_pgid'', 32)])"

lemma c_sigio_upholds [upheld]: "upholds c_sigio c_sigio_claim"
  by (simp add: upholds_def offset_of_def layout c_sigio_def c_sigio_claim_def)

definition c_sigiolst_claim :: layout_claim where
  "c_sigiolst_claim = (8, 8,
     [(''slh_first'', 0)])"

lemma c_sigiolst_upholds [upheld]: "upholds c_sigiolst c_sigiolst_claim"
  by (simp add: upholds_def offset_of_def layout c_sigiolst_def c_sigiolst_claim_def)

definition c_sigacts_claim :: layout_claim where
  "c_sigacts_claim = (3272, 8,
     [(''ps_sigact'', 0), (''ps_catchmask'', 1024), (''ps_sigonstack'', 3072), (''ps_sigintr'', 3088),
      (''ps_sigreset'', 3104), (''ps_signodefer'', 3120), (''ps_siginfo'', 3136), (''ps_sigignore'', 3152),
      (''ps_sigcatch'', 3168), (''ps_freebsd4'', 3184), (''ps_osigset'', 3200), (''ps_usertramp'', 3216),
      (''ps_flag'', 3232), (''ps_refcnt'', 3236), (''ps_mtx'', 3240)])"

lemma c_sigacts_upholds [upheld]: "upholds c_sigacts c_sigacts_claim"
  by (simp add: upholds_def offset_of_def layout c_sigacts_def c_sigacts_claim_def)

definition c_ksiginfo__bindgen_ty_1_claim :: layout_claim where
  "c_ksiginfo__bindgen_ty_1_claim = (16, 8,
     [(''tqe_next'', 0), (''tqe_prev'', 8)])"

lemma c_ksiginfo__bindgen_ty_1_upholds [upheld]: "upholds c_ksiginfo__bindgen_ty_1 c_ksiginfo__bindgen_ty_1_claim"
  by (simp add: upholds_def offset_of_def layout c_ksiginfo__bindgen_ty_1_def c_ksiginfo__bindgen_ty_1_claim_def)

definition c_ksiginfo_claim :: layout_claim where
  "c_ksiginfo_claim = (112, 8,
     [(''ksi_link'', 0), (''ksi_info'', 16), (''ksi_flags'', 96), (''ksi_sigq'', 104)])"

lemma c_ksiginfo_upholds [upheld]: "upholds c_ksiginfo c_ksiginfo_claim"
  by (simp add: upholds_def offset_of_def layout c_ksiginfo_def c_ksiginfo_claim_def)

definition c_sigqueue__bindgen_ty_1_claim :: layout_claim where
  "c_sigqueue__bindgen_ty_1_claim = (16, 8,
     [(''tqh_first'', 0), (''tqh_last'', 8)])"

lemma c_sigqueue__bindgen_ty_1_upholds [upheld]: "upholds c_sigqueue__bindgen_ty_1 c_sigqueue__bindgen_ty_1_claim"
  by (simp add: upholds_def offset_of_def layout c_sigqueue__bindgen_ty_1_def c_sigqueue__bindgen_ty_1_claim_def)

definition c_sigqueue_claim :: layout_claim where
  "c_sigqueue_claim = (80, 8,
     [(''sq_signals'', 0), (''sq_kill'', 16), (''sq_ptrace'', 32), (''sq_list'', 48), (''sq_proc'', 64),
      (''sq_flags'', 72)])"

lemma c_sigqueue_upholds [upheld]: "upholds c_sigqueue c_sigqueue_claim"
  by (simp add: upholds_def offset_of_def layout c_sigqueue_def c_sigqueue_claim_def)

definition c_domainset_ref_claim :: layout_claim where
  "c_domainset_ref_claim = (16, 8,
     [(''dr_policy'', 0), (''dr_iter'', 8)])"

lemma c_domainset_ref_upholds [upheld]: "upholds c_domainset_ref c_domainset_ref_claim"
  by (simp add: upholds_def offset_of_def layout c_domainset_ref_def c_domainset_ref_claim_def)

definition c_proc_ldt_claim :: layout_claim where
  "c_proc_ldt_claim = (16, 8,
     [(''ldt_base'', 0), (''ldt_refcnt'', 8)])"

lemma c_proc_ldt_upholds [upheld]: "upholds c_proc_ldt c_proc_ldt_claim"
  by (simp add: upholds_def offset_of_def layout c_proc_ldt_def c_proc_ldt_claim_def)

definition c_pmap_invl_gen__bindgen_ty_1__bindgen_ty_1_claim :: layout_claim where
  "c_pmap_invl_gen__bindgen_ty_1__bindgen_ty_1_claim = (16, 8,
     [(''le_next'', 0), (''le_prev'', 8)])"

lemma c_pmap_invl_gen__bindgen_ty_1__bindgen_ty_1_upholds [upheld]: "upholds c_pmap_invl_gen__bindgen_ty_1__bindgen_ty_1 c_pmap_invl_gen__bindgen_ty_1__bindgen_ty_1_claim"
  by (simp add: upholds_def offset_of_def layout c_pmap_invl_gen__bindgen_ty_1__bindgen_ty_1_def c_pmap_invl_gen__bindgen_ty_1__bindgen_ty_1_claim_def)

definition c_pmap_invl_gen__bindgen_ty_1__bindgen_ty_2_claim :: layout_claim where
  "c_pmap_invl_gen__bindgen_ty_1__bindgen_ty_2_claim = (16, 8,
     [(''next'', 0), (''saved_pri'', 8)])"

lemma c_pmap_invl_gen__bindgen_ty_1__bindgen_ty_2_upholds [upheld]: "upholds c_pmap_invl_gen__bindgen_ty_1__bindgen_ty_2 c_pmap_invl_gen__bindgen_ty_1__bindgen_ty_2_claim"
  by (simp add: upholds_def offset_of_def layout c_pmap_invl_gen__bindgen_ty_1__bindgen_ty_2_def c_pmap_invl_gen__bindgen_ty_1__bindgen_ty_2_claim_def)

definition c_pmap_invl_gen__bindgen_ty_1_claim :: layout_claim where
  "c_pmap_invl_gen__bindgen_ty_1_claim = (16, 8,
     [(''link'', 0)])"

lemma c_pmap_invl_gen__bindgen_ty_1_upholds [upheld]: "upholds c_pmap_invl_gen__bindgen_ty_1 c_pmap_invl_gen__bindgen_ty_1_claim"
  by (simp add: upholds_def offset_of_def layout c_pmap_invl_gen__bindgen_ty_1_def c_pmap_invl_gen__bindgen_ty_1_claim_def)

definition c_pmap_invl_gen_claim :: layout_claim where
  "c_pmap_invl_gen_claim = (32, 16,
     [(''gen_'', 0)])"

lemma c_pmap_invl_gen_upholds [upheld]: "upholds c_pmap_invl_gen c_pmap_invl_gen_claim"
  by (simp add: upholds_def offset_of_def layout c_pmap_invl_gen_def c_pmap_invl_gen_claim_def)

definition c_mdthread_claim :: layout_claim where
  "c_mdthread_claim = (416, 16,
     [(''md_spinlock_count'', 0), (''md_saved_flags'', 8), (''md_spurflt_addr'', 16), (''md_invl_gen'', 32),
      (''md_efirt_tmp'', 64), (''md_efirt_dis_pf'', 72), (''md_pcb'', 80), (''md_stack_base'', 400),
      (''md_usr_fpu_save'', 408)])"

lemma c_mdthread_upholds [upheld]: "upholds c_mdthread c_mdthread_claim"
  by (simp add: upholds_def offset_of_def layout c_mdthread_def c_mdthread_claim_def)

definition c_mdproc_claim :: layout_claim where
  "c_mdproc_claim = (32, 8,
     [(''md_ldt'', 0), (''md_ldt_sd'', 8), (''md_flags'', 24)])"

lemma c_mdproc_upholds [upheld]: "upholds c_mdproc c_mdproc_claim"
  by (simp add: upholds_def offset_of_def layout c_mdproc_def c_mdproc_claim_def)

definition c_session_claim :: layout_claim where
  "c_session_claim = (120, 8,
     [(''s_count'', 0), (''s_leader'', 8), (''s_ttyvp'', 16), (''s_ttydp'', 24), (''s_ttyp'', 32), (''s_sid'', 40),
      (''s_login'', 44), (''s_mtx'', 88)])"

lemma c_session_upholds [upheld]: "upholds c_session c_session_claim"
  by (simp add: upholds_def offset_of_def layout c_session_def c_session_claim_def)

definition c_pgrp__bindgen_ty_1_claim :: layout_claim where
  "c_pgrp__bindgen_ty_1_claim = (16, 8,
     [(''le_next'', 0), (''le_prev'', 8)])"

lemma c_pgrp__bindgen_ty_1_upholds [upheld]: "upholds c_pgrp__bindgen_ty_1 c_pgrp__bindgen_ty_1_claim"
  by (simp add: upholds_def offset_of_def layout c_pgrp__bindgen_ty_1_def c_pgrp__bindgen_ty_1_claim_def)

definition c_pgrp__bindgen_ty_2_claim :: layout_claim where
  "c_pgrp__bindgen_ty_2_claim = (8, 8,
     [(''lh_first'', 0)])"

lemma c_pgrp__bindgen_ty_2_upholds [upheld]: "upholds c_pgrp__bindgen_ty_2 c_pgrp__bindgen_ty_2_claim"
  by (simp add: upholds_def offset_of_def layout c_pgrp__bindgen_ty_2_def c_pgrp__bindgen_ty_2_claim_def)

definition c_pgrp_claim :: layout_claim where
  "c_pgrp_claim = (120, 8,
     [(''pg_hash'', 0), (''pg_members'', 16), (''pg_session'', 24), (''pg_sigiolst'', 32), (''pg_id'', 40),
      (''pg_mtx'', 48), (''pg_flags'', 80), (''pg_killsx'', 88)])"

lemma c_pgrp_upholds [upheld]: "upholds c_pgrp c_pgrp_claim"
  by (simp add: upholds_def offset_of_def layout c_pgrp_def c_pgrp_claim_def)

definition c_pargs_claim :: layout_claim where
  "c_pargs_claim = (12, 4,
     [(''ar_ref'', 0), (''ar_length'', 4), (''ar_args'', 8)])"

lemma c_pargs_upholds [upheld]: "upholds c_pargs c_pargs_claim"
  by (simp add: upholds_def offset_of_def layout c_pargs_def c_pargs_claim_def)

definition c_syscall_args_claim :: layout_claim where
  "c_syscall_args_claim = (80, 8,
     [(''code'', 0), (''original_code'', 4), (''callp'', 8), (''args'', 16)])"

lemma c_syscall_args_upholds [upheld]: "upholds c_syscall_args c_syscall_args_claim"
  by (simp add: upholds_def offset_of_def layout c_syscall_args_def c_syscall_args_claim_def)

definition c_rusage_ext_claim :: layout_claim where
  "c_rusage_ext_claim = (56, 8,
     [(''rux_runtime'', 0), (''rux_uticks'', 8), (''rux_sticks'', 16), (''rux_iticks'', 24), (''rux_uu'', 32),
      (''rux_su'', 40), (''rux_tu'', 48)])"

lemma c_rusage_ext_upholds [upheld]: "upholds c_rusage_ext c_rusage_ext_claim"
  by (simp add: upholds_def offset_of_def layout c_rusage_ext_def c_rusage_ext_claim_def)

definition c_thread__bindgen_ty_1_claim :: layout_claim where
  "c_thread__bindgen_ty_1_claim = (16, 8,
     [(''tqe_next'', 0), (''tqe_prev'', 8)])"

lemma c_thread__bindgen_ty_1_upholds [upheld]: "upholds c_thread__bindgen_ty_1 c_thread__bindgen_ty_1_claim"
  by (simp add: upholds_def offset_of_def layout c_thread__bindgen_ty_1_def c_thread__bindgen_ty_1_claim_def)

definition c_thread__bindgen_ty_2_claim :: layout_claim where
  "c_thread__bindgen_ty_2_claim = (16, 8,
     [(''tqe_next'', 0), (''tqe_prev'', 8)])"

lemma c_thread__bindgen_ty_2_upholds [upheld]: "upholds c_thread__bindgen_ty_2 c_thread__bindgen_ty_2_claim"
  by (simp add: upholds_def offset_of_def layout c_thread__bindgen_ty_2_def c_thread__bindgen_ty_2_claim_def)

definition c_thread__bindgen_ty_3__bindgen_ty_1_claim :: layout_claim where
  "c_thread__bindgen_ty_3__bindgen_ty_1_claim = (16, 8,
     [(''tqe_next'', 0), (''tqe_prev'', 8)])"

lemma c_thread__bindgen_ty_3__bindgen_ty_1_upholds [upheld]: "upholds c_thread__bindgen_ty_3__bindgen_ty_1 c_thread__bindgen_ty_3__bindgen_ty_1_claim"
  by (simp add: upholds_def offset_of_def layout c_thread__bindgen_ty_3__bindgen_ty_1_def c_thread__bindgen_ty_3__bindgen_ty_1_claim_def)

definition c_thread__bindgen_ty_3_claim :: layout_claim where
  "c_thread__bindgen_ty_3_claim = (16, 8,
     [(''td_slpq'', 0), (''td_zombie'', 0)])"

lemma c_thread__bindgen_ty_3_upholds [upheld]: "upholds c_thread__bindgen_ty_3 c_thread__bindgen_ty_3_claim"
  by (simp add: upholds_def offset_of_def layout c_thread__bindgen_ty_3_def c_thread__bindgen_ty_3_claim_def)

definition c_thread__bindgen_ty_4_claim :: layout_claim where
  "c_thread__bindgen_ty_4_claim = (16, 8,
     [(''tqe_next'', 0), (''tqe_prev'', 8)])"

lemma c_thread__bindgen_ty_4_upholds [upheld]: "upholds c_thread__bindgen_ty_4 c_thread__bindgen_ty_4_claim"
  by (simp add: upholds_def offset_of_def layout c_thread__bindgen_ty_4_def c_thread__bindgen_ty_4_claim_def)

definition c_thread__bindgen_ty_5_claim :: layout_claim where
  "c_thread__bindgen_ty_5_claim = (16, 8,
     [(''le_next'', 0), (''le_prev'', 8)])"

lemma c_thread__bindgen_ty_5_upholds [upheld]: "upholds c_thread__bindgen_ty_5 c_thread__bindgen_ty_5_claim"
  by (simp add: upholds_def offset_of_def layout c_thread__bindgen_ty_5_def c_thread__bindgen_ty_5_claim_def)

definition c_thread__bindgen_ty_6_claim :: layout_claim where
  "c_thread__bindgen_ty_6_claim = (8, 8,
     [(''lh_first'', 0)])"

lemma c_thread__bindgen_ty_6_upholds [upheld]: "upholds c_thread__bindgen_ty_6 c_thread__bindgen_ty_6_claim"
  by (simp add: upholds_def offset_of_def layout c_thread__bindgen_ty_6_def c_thread__bindgen_ty_6_claim_def)

definition c_thread__bindgen_ty_7_claim :: layout_claim where
  "c_thread__bindgen_ty_7_claim = (16, 8,
     [(''tdu_retval'', 0), (''tdu_off'', 0)])"

lemma c_thread__bindgen_ty_7_upholds [upheld]: "upholds c_thread__bindgen_ty_7 c_thread__bindgen_ty_7_claim"
  by (simp add: upholds_def offset_of_def layout c_thread__bindgen_ty_7_def c_thread__bindgen_ty_7_claim_def)

definition c_thread_claim :: layout_claim where
  "c_thread_claim = (1824, 16,
     [(''td_lock'', 0), (''td_proc'', 8), (''td_plist'', 16), (''td_runq'', 32), (''td_lockq'', 64),
      (''td_hash'', 80), (''td_cpuset'', 96), (''td_domain'', 104), (''td_sel'', 120), (''td_sleepqueue'', 128),
      (''td_turnstile'', 136), (''td_pad1'', 144), (''td_umtxq'', 152), (''td_tid'', 160), (''td_sigqueue'', 168),
      (''td_lend_user_pri'', 248), (''td_allocdomain'', 249), (''td_base_ithread_pri'', 250), (''td_kmsan'', 256),
      (''td_flags'', 264), (''td_ast'', 268), (''td_inhibitors'', 272), (''td_pflags'', 276),
      (''td_pflags2'', 280), (''td_dupfd'', 284), (''td_sqqueue'', 288), (''td_wchan'', 296), (''td_wmesg'', 304),
      (''td_owepreempt'', 312), (''td_tsqueue'', 313), (''_td_pad0'', 314), (''td_locks'', 316),
      (''td_rw_rlocks'', 320), (''td_sx_slocks'', 324), (''td_lk_slocks'', 328), (''td_wantedlock'', 336),
      (''td_blocked'', 344), (''td_lockname'', 352), (''td_contested'', 360), (''td_sleeplocks'', 368),
      (''td_intr_nesting_level'', 376), (''td_pinned'', 380), (''td_realucred'', 384), (''td_ucred'', 392),
      (''td_limit'', 400), (''td_slptick'', 408), (''td_blktick'', 412), (''td_swvoltick'', 416),
      (''td_swinvoltick'', 420), (''td_cow'', 424), (''td_ru'', 432), (''td_rux'', 576), (''td_incruntime'', 632),
      (''td_runtime'', 640), (''td_pticks'', 648), (''td_sticks'', 652), (''td_iticks'', 656),
      (''td_uticks'', 660), (''td_intrval'', 664), (''td_oldsigmask'', 668), (''td_generation'', 684),
      (''td_sigstk'', 688), (''td_xsig'', 712), (''td_profil_addr'', 720), (''td_profil_ticks'', 728),
      (''td_name'', 732), (''td_fpop'', 752), (''td_dbgflags'', 760), (''td_si'', 768), (''td_ng_outbound'', 848),
      (''td_osd'', 856), (''td_map_def_user'', 888), (''td_dbg_forked'', 896), (''td_no_sleeping'', 900),
      (''td_vp_reserved'', 904), (''td_su'', 912), (''td_sleeptimo'', 920), (''td_rtcgen'', 928),
      (''td_errno'', 932), (''td_vslock_sz'', 936), (''td_kcov_info'', 944), (''td_ucredref'', 952),
      (''td_kexterr'', 960), (''td_sigmask'', 1000), (''td_rqindex'', 1016), (''td_base_pri'', 1017),
      (''td_priority'', 1018), (''td_pri_class'', 1019), (''td_user_pri'', 1020), (''td_base_user_pri'', 1021),
      (''td_rb_list'', 1024), (''td_rbp_list'', 1032), (''td_rb_inact'', 1040), (''td_sa'', 1048),
      (''td_sigblock_ptr'', 1128), (''td_sigblock_val'', 1136), (''td_exterr_ptr'', 1144), (''td_pcb'', 1152),
      (''td_state'', 1160), (''td_uretoff'', 1168), (''td_cowgen'', 1184), (''td_slpcallout'', 1192),
      (''td_frame'', 1256), (''td_kstack'', 1264), (''td_kstack_pages'', 1272), (''td_kstack_domain'', 1274),
      (''td_critnest'', 1276), (''td_md'', 1280), (''td_ar'', 1696), (''td_lprof'', 1704), (''td_dtrace'', 1720),
      (''td_vnet'', 1728), (''td_vnet_lpush'', 1736), (''td_intr_frame'', 1744), (''td_rfppwait_p'', 1752),
      (''td_ma'', 1760), (''td_ma_cnt'', 1768), (''td_emuldata'', 1776), (''td_lastcpu'', 1784),
      (''td_oncpu'', 1788), (''td_lkpi_task'', 1792), (''td_pmcpend'', 1800), (''td_remotereq'', 1808),
      (''td_ktr_io_lim'', 1816)])"

lemma c_thread_upholds [upheld]: "upholds c_thread c_thread_claim"
  by (simp add: upholds_def offset_of_def layout c_thread_def c_thread_claim_def)

definition c_proc__bindgen_ty_1_claim :: layout_claim where
  "c_proc__bindgen_ty_1_claim = (16, 8,
     [(''le_next'', 0), (''le_prev'', 8)])"

lemma c_proc__bindgen_ty_1_upholds [upheld]: "upholds c_proc__bindgen_ty_1 c_proc__bindgen_ty_1_claim"
  by (simp add: upholds_def offset_of_def layout c_proc__bindgen_ty_1_def c_proc__bindgen_ty_1_claim_def)

definition c_proc__bindgen_ty_2_claim :: layout_claim where
  "c_proc__bindgen_ty_2_claim = (16, 8,
     [(''tqh_first'', 0), (''tqh_last'', 8)])"

lemma c_proc__bindgen_ty_2_upholds [upheld]: "upholds c_proc__bindgen_ty_2 c_proc__bindgen_ty_2_claim"
  by (simp add: upholds_def offset_of_def layout c_proc__bindgen_ty_2_def c_proc__bindgen_ty_2_claim_def)

definition c_proc__bindgen_ty_3_claim :: layout_claim where
  "c_proc__bindgen_ty_3_claim = (16, 8,
     [(''le_next'', 0), (''le_prev'', 8)])"

lemma c_proc__bindgen_ty_3_upholds [upheld]: "upholds c_proc__bindgen_ty_3 c_proc__bindgen_ty_3_claim"
  by (simp add: upholds_def offset_of_def layout c_proc__bindgen_ty_3_def c_proc__bindgen_ty_3_claim_def)

definition c_proc__bindgen_ty_4_claim :: layout_claim where
  "c_proc__bindgen_ty_4_claim = (16, 8,
     [(''le_next'', 0), (''le_prev'', 8)])"

lemma c_proc__bindgen_ty_4_upholds [upheld]: "upholds c_proc__bindgen_ty_4 c_proc__bindgen_ty_4_claim"
  by (simp add: upholds_def offset_of_def layout c_proc__bindgen_ty_4_def c_proc__bindgen_ty_4_claim_def)

definition c_proc__bindgen_ty_5_claim :: layout_claim where
  "c_proc__bindgen_ty_5_claim = (16, 8,
     [(''le_next'', 0), (''le_prev'', 8)])"

lemma c_proc__bindgen_ty_5_upholds [upheld]: "upholds c_proc__bindgen_ty_5 c_proc__bindgen_ty_5_claim"
  by (simp add: upholds_def offset_of_def layout c_proc__bindgen_ty_5_def c_proc__bindgen_ty_5_claim_def)

definition c_proc__bindgen_ty_6_claim :: layout_claim where
  "c_proc__bindgen_ty_6_claim = (8, 8,
     [(''lh_first'', 0)])"

lemma c_proc__bindgen_ty_6_upholds [upheld]: "upholds c_proc__bindgen_ty_6 c_proc__bindgen_ty_6_claim"
  by (simp add: upholds_def offset_of_def layout c_proc__bindgen_ty_6_def c_proc__bindgen_ty_6_claim_def)

definition c_proc__bindgen_ty_7_claim :: layout_claim where
  "c_proc__bindgen_ty_7_claim = (8, 8,
     [(''lh_first'', 0)])"

lemma c_proc__bindgen_ty_7_upholds [upheld]: "upholds c_proc__bindgen_ty_7 c_proc__bindgen_ty_7_claim"
  by (simp add: upholds_def offset_of_def layout c_proc__bindgen_ty_7_def c_proc__bindgen_ty_7_claim_def)

definition c_proc__bindgen_ty_8_claim :: layout_claim where
  "c_proc__bindgen_ty_8_claim = (16, 8,
     [(''le_next'', 0), (''le_prev'', 8)])"

lemma c_proc__bindgen_ty_8_upholds [upheld]: "upholds c_proc__bindgen_ty_8 c_proc__bindgen_ty_8_claim"
  by (simp add: upholds_def offset_of_def layout c_proc__bindgen_ty_8_def c_proc__bindgen_ty_8_claim_def)

definition c_proc__bindgen_ty_9_claim :: layout_claim where
  "c_proc__bindgen_ty_9_claim = (16, 8,
     [(''stqh_first'', 0), (''stqh_last'', 8)])"

lemma c_proc__bindgen_ty_9_upholds [upheld]: "upholds c_proc__bindgen_ty_9 c_proc__bindgen_ty_9_claim"
  by (simp add: upholds_def offset_of_def layout c_proc__bindgen_ty_9_def c_proc__bindgen_ty_9_claim_def)

definition c_proc__bindgen_ty_10_claim :: layout_claim where
  "c_proc__bindgen_ty_10_claim = (8, 8,
     [(''lh_first'', 0)])"

lemma c_proc__bindgen_ty_10_upholds [upheld]: "upholds c_proc__bindgen_ty_10 c_proc__bindgen_ty_10_claim"
  by (simp add: upholds_def offset_of_def layout c_proc__bindgen_ty_10_def c_proc__bindgen_ty_10_claim_def)

definition c_proc__bindgen_ty_11_claim :: layout_claim where
  "c_proc__bindgen_ty_11_claim = (16, 8,
     [(''le_next'', 0), (''le_prev'', 8)])"

lemma c_proc__bindgen_ty_11_upholds [upheld]: "upholds c_proc__bindgen_ty_11 c_proc__bindgen_ty_11_claim"
  by (simp add: upholds_def offset_of_def layout c_proc__bindgen_ty_11_def c_proc__bindgen_ty_11_claim_def)

definition c_proc__bindgen_ty_12_claim :: layout_claim where
  "c_proc__bindgen_ty_12_claim = (8, 8,
     [(''lh_first'', 0)])"

lemma c_proc__bindgen_ty_12_upholds [upheld]: "upholds c_proc__bindgen_ty_12 c_proc__bindgen_ty_12_claim"
  by (simp add: upholds_def offset_of_def layout c_proc__bindgen_ty_12_def c_proc__bindgen_ty_12_claim_def)

definition c_proc__bindgen_ty_13_claim :: layout_claim where
  "c_proc__bindgen_ty_13_claim = (16, 8,
     [(''tqh_first'', 0), (''tqh_last'', 8)])"

lemma c_proc__bindgen_ty_13_upholds [upheld]: "upholds c_proc__bindgen_ty_13 c_proc__bindgen_ty_13_claim"
  by (simp add: upholds_def offset_of_def layout c_proc__bindgen_ty_13_def c_proc__bindgen_ty_13_claim_def)

definition c_proc__bindgen_ty_14_claim :: layout_claim where
  "c_proc__bindgen_ty_14_claim = (16, 8,
     [(''le_next'', 0), (''le_prev'', 8)])"

lemma c_proc__bindgen_ty_14_upholds [upheld]: "upholds c_proc__bindgen_ty_14 c_proc__bindgen_ty_14_claim"
  by (simp add: upholds_def offset_of_def layout c_proc__bindgen_ty_14_def c_proc__bindgen_ty_14_claim_def)

definition c_proc_struct_claim :: layout_claim where
  "c_proc_struct_claim = (1376, 8,
     [(''p_list'', 0), (''p_threads'', 16), (''p_slock'', 32), (''p_ucred'', 64), (''p_fd'', 72),
      (''p_fdtol'', 80), (''p_pd'', 88), (''p_stats'', 96), (''p_limit'', 104), (''p_limco'', 112),
      (''p_sigacts'', 176), (''p_flag'', 184), (''p_flag2'', 188), (''p_state'', 192), (''p_pid'', 196),
      (''p_hash'', 200), (''p_pglist'', 216), (''p_pptr'', 232), (''p_sibling'', 240), (''p_children'', 256),
      (''p_reaper'', 264), (''p_reaplist'', 272), (''p_reapsibling'', 280), (''p_mtx'', 296), (''p_statmtx'', 328),
      (''p_itimmtx'', 360), (''p_profmtx'', 392), (''p_ksi'', 424), (''p_sigqueue'', 432), (''p_oppid'', 512),
      (''p_vmspace'', 520), (''p_swtick'', 528), (''p_cowgen'', 532), (''p_realtimer'', 536), (''p_ru'', 568),
      (''p_rux'', 712), (''p_crux'', 768), (''p_profthreads'', 824), (''p_exitthreads'', 828),
      (''p_traceflag'', 832), (''p_ktrioparms'', 840), (''p_textvp'', 848), (''p_textdvp'', 856),
      (''p_binname'', 864), (''p_lock'', 872), (''p_sigiolst'', 880), (''p_sigparent'', 888), (''p_sig'', 892),
      (''p_ptevents'', 896), (''p_aioinfo'', 904), (''p_singlethread'', 912), (''p_suspcount'', 920),
      (''p_xthread'', 928), (''p_boundary_count'', 936), (''p_pendingcnt'', 940), (''p_itimers'', 944),
      (''p_procdesc'', 952), (''p_treeflag'', 960), (''p_pendingexits'', 964), (''p_filemon'', 968),
      (''p_pdeathsig'', 976), (''p_magic'', 980), (''p_osrel'', 984), (''p_fctl0'', 988), (''p_comm'', 992),
      (''p_sysent'', 1016), (''p_args'', 1024), (''p_cpulimit'', 1032), (''p_nice'', 1040), (''p_fibnum'', 1044),
      (''p_reapsubtree'', 1048), (''p_elf_flags'', 1056), (''p_elf_brandinfo'', 1064),
      (''p_umtx_min_timeout'', 1072), (''p_xexit'', 1080), (''p_xsig'', 1084), (''p_pgrp'', 1088),
      (''p_klist'', 1096), (''p_numthreads'', 1104), (''p_md'', 1112), (''p_itcallout'', 1144),
      (''p_acflag'', 1208), (''p_peers'', 1216), (''p_leader'', 1224), (''p_emuldata'', 1232), (''p_label'', 1240),
      (''p_ktr'', 1248), (''p_mqnotifier'', 1264), (''p_dtrace'', 1272), (''p_pwait'', 1280), (''p_racct'', 1296),
      (''p_throttled'', 1304), (''p_orphan'', 1312), (''p_orphans'', 1328), (''p_kqtim_stop'', 1336),
      (''p_jaillist'', 1352), (''p_execblock'', 1368)])"

lemma c_proc_struct_upholds [upheld]: "upholds c_proc_struct c_proc_struct_claim"
  by (simp add: upholds_def offset_of_def layout c_proc_struct_def c_proc_struct_claim_def)

definition c_pmap_statistics_claim :: layout_claim where
  "c_pmap_statistics_claim = (16, 8,
     [(''resident_count'', 0), (''wired_count'', 8)])"

lemma c_pmap_statistics_upholds [upheld]: "upholds c_pmap_statistics c_pmap_statistics_claim"
  by (simp add: upholds_def offset_of_def layout c_pmap_statistics_def c_pmap_statistics_claim_def)

definition c__cpuset_claim :: layout_claim where
  "c__cpuset_claim = (128, 8,
     [(''__bits'', 0)])"

lemma c__cpuset_upholds [upheld]: "upholds c__cpuset c__cpuset_claim"
  by (simp add: upholds_def offset_of_def layout c__cpuset_def c__cpuset_claim_def)

definition c_pctrie_claim :: layout_claim where
  "c_pctrie_claim = (8, 8,
     [(''pt_root'', 0)])"

lemma c_pctrie_upholds [upheld]: "upholds c_pctrie c_pctrie_claim"
  by (simp add: upholds_def offset_of_def layout c_pctrie_def c_pctrie_claim_def)

definition c_pmap_pcid_claim :: layout_claim where
  "c_pmap_pcid_claim = (8, 4,
     [(''pm_pcid'', 0), (''pm_gen'', 4)])"

lemma c_pmap_pcid_upholds [upheld]: "upholds c_pmap_pcid c_pmap_pcid_claim"
  by (simp add: upholds_def offset_of_def layout c_pmap_pcid_def c_pmap_pcid_claim_def)

definition c_pv_entry__bindgen_ty_1_claim :: layout_claim where
  "c_pv_entry__bindgen_ty_1_claim = (16, 8,
     [(''tqe_next'', 0), (''tqe_prev'', 8)])"

lemma c_pv_entry__bindgen_ty_1_upholds [upheld]: "upholds c_pv_entry__bindgen_ty_1 c_pv_entry__bindgen_ty_1_claim"
  by (simp add: upholds_def offset_of_def layout c_pv_entry__bindgen_ty_1_def c_pv_entry__bindgen_ty_1_claim_def)

definition c_pv_entry_claim :: layout_claim where
  "c_pv_entry_claim = (24, 8,
     [(''pv_va'', 0), (''pv_next'', 8)])"

lemma c_pv_entry_upholds [upheld]: "upholds c_pv_entry c_pv_entry_claim"
  by (simp add: upholds_def offset_of_def layout c_pv_entry_def c_pv_entry_claim_def)

definition c_pv_chunk__bindgen_ty_1_claim :: layout_claim where
  "c_pv_chunk__bindgen_ty_1_claim = (16, 8,
     [(''tqe_next'', 0), (''tqe_prev'', 8)])"

lemma c_pv_chunk__bindgen_ty_1_upholds [upheld]: "upholds c_pv_chunk__bindgen_ty_1 c_pv_chunk__bindgen_ty_1_claim"
  by (simp add: upholds_def offset_of_def layout c_pv_chunk__bindgen_ty_1_def c_pv_chunk__bindgen_ty_1_claim_def)

definition c_pv_chunk__bindgen_ty_2_claim :: layout_claim where
  "c_pv_chunk__bindgen_ty_2_claim = (16, 8,
     [(''tqe_next'', 0), (''tqe_prev'', 8)])"

lemma c_pv_chunk__bindgen_ty_2_upholds [upheld]: "upholds c_pv_chunk__bindgen_ty_2 c_pv_chunk__bindgen_ty_2_claim"
  by (simp add: upholds_def offset_of_def layout c_pv_chunk__bindgen_ty_2_def c_pv_chunk__bindgen_ty_2_claim_def)

definition c_pv_chunk_claim :: layout_claim where
  "c_pv_chunk_claim = (4096, 8,
     [(''pc_pmap'', 0), (''pc_list'', 8), (''pc_map'', 24), (''pc_lru'', 48), (''pc_pventry'', 64),
      (''pc_pad'', 4096)])"

lemma c_pv_chunk_upholds [upheld]: "upholds c_pv_chunk c_pv_chunk_claim"
  by (simp add: upholds_def offset_of_def layout c_pv_chunk_def c_pv_chunk_claim_def)

definition c_rangeset_claim :: layout_claim where
  "c_rangeset_claim = (40, 8,
     [(''rs_trie'', 0), (''rs_dup_data'', 8), (''rs_free_data'', 16), (''rs_data_ctx'', 24),
      (''rs_alloc_flags'', 32)])"

lemma c_rangeset_upholds [upheld]: "upholds c_rangeset c_rangeset_claim"
  by (simp add: upholds_def offset_of_def layout c_rangeset_def c_rangeset_claim_def)

definition c_vm_radix_claim :: layout_claim where
  "c_vm_radix_claim = (8, 8,
     [(''rt_trie'', 0)])"

lemma c_vm_radix_upholds [upheld]: "upholds c_vm_radix c_vm_radix_claim"
  by (simp add: upholds_def offset_of_def layout c_vm_radix_def c_vm_radix_claim_def)

definition c_pmap__bindgen_ty_1_claim :: layout_claim where
  "c_pmap__bindgen_ty_1_claim = (16, 8,
     [(''tqh_first'', 0), (''tqh_last'', 8)])"

lemma c_pmap__bindgen_ty_1_upholds [upheld]: "upholds c_pmap__bindgen_ty_1 c_pmap__bindgen_ty_1_claim"
  by (simp add: upholds_def offset_of_def layout c_pmap__bindgen_ty_1_def c_pmap__bindgen_ty_1_claim_def)

definition c_pmap_claim :: layout_claim where
  "c_pmap_claim = (312, 8,
     [(''pm_mtx'', 0), (''pm_pmltop'', 32), (''pm_pmltopu'', 40), (''pm_cr3'', 48), (''pm_ucr3'', 56),
      (''pm_pvchunk'', 64), (''pm_active'', 80), (''pm_type'', 208), (''pm_stats'', 216), (''pm_root'', 232),
      (''pm_eptgen'', 240), (''pm_eptsmr'', 248), (''pm_flags'', 256), (''pm_pcidp'', 264), (''pm_pkru'', 272)])"

lemma c_pmap_upholds [upheld]: "upholds c_pmap c_pmap_claim"
  by (simp add: upholds_def offset_of_def layout c_pmap_def c_pmap_claim_def)

definition c_vm_map_object_claim :: layout_claim where
  "c_vm_map_object_claim = (8, 8,
     [(''vm_object'', 0), (''sub_map'', 0)])"

lemma c_vm_map_object_upholds [upheld]: "upholds c_vm_map_object c_vm_map_object_claim"
  by (simp add: upholds_def offset_of_def layout c_vm_map_object_def c_vm_map_object_claim_def)

definition c_vm_map_entry_claim :: layout_claim where
  "c_vm_map_entry_claim = (96, 8,
     [(''left'', 0), (''right'', 8), (''start'', 16), (''end'', 24), (''next_read'', 32), (''max_free'', 40),
      (''object'', 48), (''offset'', 56), (''eflags'', 64), (''protection'', 68), (''max_protection'', 69),
      (''inheritance'', 70), (''read_ahead'', 71), (''wired_count'', 72), (''cred'', 80), (''wiring_thread'', 88)])"

lemma c_vm_map_entry_upholds [upheld]: "upholds c_vm_map_entry c_vm_map_entry_claim"
  by (simp add: upholds_def offset_of_def layout c_vm_map_entry_def c_vm_map_entry_claim_def)

definition c_vm_map__bindgen_ty_1_claim :: layout_claim where
  "c_vm_map__bindgen_ty_1_claim = (32, 8,
     [(''lock'', 0), (''system_mtx'', 0)])"

lemma c_vm_map__bindgen_ty_1_upholds [upheld]: "upholds c_vm_map__bindgen_ty_1 c_vm_map__bindgen_ty_1_claim"
  by (simp add: upholds_def offset_of_def layout c_vm_map__bindgen_ty_1_def c_vm_map__bindgen_ty_1_claim_def)

definition c_vm_map_claim :: layout_claim where
  "c_vm_map_claim = (184, 8,
     [(''header'', 0), (''nentries'', 128), (''size'', 136), (''timestamp'', 144), (''flags'', 148),
      (''root'', 152), (''pmap'', 160), (''anon_loc'', 168), (''busy'', 176)])"

lemma c_vm_map_upholds [upheld]: "upholds c_vm_map c_vm_map_claim"
  by (simp add: upholds_def offset_of_def layout c_vm_map_def c_vm_map_claim_def)

definition c_vmspace_claim :: layout_claim where
  "c_vmspace_claim = (584, 8,
     [(''vm_map'', 0), (''vm_shm'', 184), (''vm_swrss'', 192), (''vm_tsize'', 200), (''vm_dsize'', 208),
      (''vm_ssize'', 216), (''vm_taddr'', 224), (''vm_daddr'', 232), (''vm_maxsaddr'', 240),
      (''vm_stacktop'', 248), (''vm_shp_base'', 256), (''vm_refcnt'', 264), (''vm_pmap'', 272)])"

lemma c_vmspace_upholds [upheld]: "upholds c_vmspace c_vmspace_claim"
  by (simp add: upholds_def offset_of_def layout c_vmspace_def c_vmspace_claim_def)

definition c_pstats_uprof_claim :: layout_claim where
  "c_pstats_uprof_claim = (32, 8,
     [(''pr_base'', 0), (''pr_size'', 8), (''pr_off'', 16), (''pr_scale'', 24)])"

lemma c_pstats_uprof_upholds [upheld]: "upholds c_pstats_uprof c_pstats_uprof_claim"
  by (simp add: upholds_def offset_of_def layout c_pstats_uprof_def c_pstats_uprof_claim_def)

definition c_pstats_claim :: layout_claim where
  "c_pstats_claim = (288, 8,
     [(''p_cru'', 0), (''p_timer'', 144), (''p_prof'', 240), (''p_start'', 272)])"

lemma c_pstats_upholds [upheld]: "upholds c_pstats c_pstats_claim"
  by (simp add: upholds_def offset_of_def layout c_pstats_def c_pstats_claim_def)

definition c_kinfo_proc_claim :: layout_claim where
  "c_kinfo_proc_claim = (1088, 8,
     [(''ki_structsize'', 0), (''ki_layout'', 4), (''ki_args'', 8), (''ki_paddr'', 16), (''ki_addr'', 24),
      (''ki_tracep'', 32), (''ki_textvp'', 40), (''ki_fd'', 48), (''ki_vmspace'', 56), (''ki_wchan'', 64),
      (''ki_pid'', 72), (''ki_ppid'', 76), (''ki_pgid'', 80), (''ki_tpgid'', 84), (''ki_sid'', 88),
      (''ki_tsid'', 92), (''ki_jobc'', 96), (''ki_spare_short1'', 98), (''ki_tdev_freebsd11'', 100),
      (''ki_siglist'', 104), (''ki_sigmask'', 120), (''ki_sigignore'', 136), (''ki_sigcatch'', 152),
      (''ki_uid'', 168), (''ki_ruid'', 172), (''ki_svuid'', 176), (''ki_rgid'', 180), (''ki_svgid'', 184),
      (''ki_ngroups'', 188), (''ki_spare_short2'', 190), (''ki_groups'', 192), (''ki_size'', 256),
      (''ki_rssize'', 264), (''ki_swrss'', 272), (''ki_tsize'', 280), (''ki_dsize'', 288), (''ki_ssize'', 296),
      (''ki_xstat'', 304), (''ki_acflag'', 306), (''ki_pctcpu'', 308), (''ki_estcpu'', 312), (''ki_slptime'', 316),
      (''ki_swtime'', 320), (''ki_cow'', 324), (''ki_runtime'', 328), (''ki_start'', 336), (''ki_childtime'', 352),
      (''ki_flag'', 368), (''ki_kiflag'', 376), (''ki_traceflag'', 384), (''ki_stat'', 388), (''ki_nice'', 389),
      (''ki_lock'', 390), (''ki_rqindex'', 391), (''ki_oncpu_old'', 392), (''ki_lastcpu_old'', 393),
      (''ki_tdname'', 394), (''ki_wmesg'', 411), (''ki_login'', 420), (''ki_lockname'', 438), (''ki_comm'', 447),
      (''ki_emul'', 467), (''ki_loginclass'', 484), (''ki_moretdname'', 502), (''ki_sparestrings'', 506),
      (''ki_spareints'', 544), (''ki_reaper'', 552), (''ki_reapsubtree'', 556), (''ki_tdev'', 560),
      (''ki_oncpu'', 568), (''ki_lastcpu'', 572), (''ki_tracer'', 576), (''ki_flag2'', 580), (''ki_fibnum'', 584),
      (''ki_cr_flags'', 588), (''ki_jid'', 592), (''ki_numthreads'', 596), (''ki_tid'', 600), (''ki_pri'', 604),
      (''ki_rusage'', 608), (''ki_rusage_ch'', 752), (''ki_pcb'', 896), (''ki_kstack'', 904), (''ki_udata'', 912),
      (''ki_tdaddr'', 920), (''ki_pd'', 928), (''ki_uerrmsg'', 936), (''ki_spareptrs'', 944),
      (''ki_sparelongs'', 976), (''ki_sflag'', 1072), (''ki_tdflags'', 1080)])"

lemma c_kinfo_proc_upholds [upheld]: "upholds c_kinfo_proc c_kinfo_proc_claim"
  by (simp add: upholds_def offset_of_def layout c_kinfo_proc_def c_kinfo_proc_claim_def)

definition c_user_claim :: layout_claim where
  "c_user_claim = (1376, 8,
     [(''u_stats'', 0), (''u_kproc'', 288)])"

lemma c_user_upholds [upheld]: "upholds c_user c_user_claim"
  by (simp add: upholds_def offset_of_def layout c_user_def c_user_claim_def)

definition c_kinfo_vmentry__bindgen_ty_1_claim :: layout_claim where
  "c_kinfo_vmentry__bindgen_ty_1_claim = (8, 8,
     [(''_kve_vn_fsid'', 0), (''_kve_obj'', 0)])"

lemma c_kinfo_vmentry__bindgen_ty_1_upholds [upheld]: "upholds c_kinfo_vmentry__bindgen_ty_1 c_kinfo_vmentry__bindgen_ty_1_claim"
  by (simp add: upholds_def offset_of_def layout c_kinfo_vmentry__bindgen_ty_1_def c_kinfo_vmentry__bindgen_ty_1_claim_def)

definition c_kinfo_vmentry_claim :: layout_claim where
  "c_kinfo_vmentry_claim = (1160, 8,
     [(''kve_structsize'', 0), (''kve_type'', 4), (''kve_start'', 8), (''kve_end'', 16), (''kve_offset'', 24),
      (''kve_vn_fileid'', 32), (''kve_vn_fsid_freebsd11'', 40), (''kve_flags'', 44), (''kve_resident'', 48),
      (''kve_private_resident'', 52), (''kve_protection'', 56), (''kve_ref_count'', 60),
      (''kve_shadow_count'', 64), (''kve_vn_type'', 68), (''kve_vn_size'', 72), (''kve_vn_rdev_freebsd11'', 80),
      (''kve_vn_mode'', 84), (''kve_status'', 86), (''kve_type_spec'', 88), (''kve_vn_rdev'', 96),
      (''_kve_ispare'', 104), (''kve_path'', 136)])"

lemma c_kinfo_vmentry_upholds [upheld]: "upholds c_kinfo_vmentry c_kinfo_vmentry_claim"
  by (simp add: upholds_def offset_of_def layout c_kinfo_vmentry_def c_kinfo_vmentry_claim_def)

definition c_kinfo_kstack_claim :: layout_claim where
  "c_kinfo_kstack_claim = (1096, 4,
     [(''kkst_tid'', 0), (''kkst_state'', 4), (''kkst_trace'', 8), (''_kkst_ispare'', 1032)])"

lemma c_kinfo_kstack_upholds [upheld]: "upholds c_kinfo_kstack c_kinfo_kstack_claim"
  by (simp add: upholds_def offset_of_def layout c_kinfo_kstack_def c_kinfo_kstack_claim_def)

definition c_kinfo_knote__bindgen_ty_1__bindgen_ty_1_claim :: layout_claim where
  "c_kinfo_knote__bindgen_ty_1__bindgen_ty_1_claim = (1048, 8,
     [(''knt_vnode_type'', 0), (''knt_vnode_fsid'', 8), (''knt_vnode_fileid'', 16), (''knt_vnode_fullpath'', 24)])"

lemma c_kinfo_knote__bindgen_ty_1__bindgen_ty_1_upholds [upheld]: "upholds c_kinfo_knote__bindgen_ty_1__bindgen_ty_1 c_kinfo_knote__bindgen_ty_1__bindgen_ty_1_claim"
  by (simp add: upholds_def offset_of_def layout c_kinfo_knote__bindgen_ty_1__bindgen_ty_1_def c_kinfo_knote__bindgen_ty_1__bindgen_ty_1_claim_def)

definition c_kinfo_knote__bindgen_ty_1__bindgen_ty_2_claim :: layout_claim where
  "c_kinfo_knote__bindgen_ty_1__bindgen_ty_2_claim = (8, 8,
     [(''knt_pipe_ino'', 0)])"

lemma c_kinfo_knote__bindgen_ty_1__bindgen_ty_2_upholds [upheld]: "upholds c_kinfo_knote__bindgen_ty_1__bindgen_ty_2 c_kinfo_knote__bindgen_ty_1__bindgen_ty_2_claim"
  by (simp add: upholds_def offset_of_def layout c_kinfo_knote__bindgen_ty_1__bindgen_ty_2_def c_kinfo_knote__bindgen_ty_1__bindgen_ty_2_claim_def)

definition c_kinfo_knote__bindgen_ty_1_claim :: layout_claim where
  "c_kinfo_knote__bindgen_ty_1_claim = (1048, 8,
     [(''knt_vnode'', 0), (''knt_pipe'', 0)])"

lemma c_kinfo_knote__bindgen_ty_1_upholds [upheld]: "upholds c_kinfo_knote__bindgen_ty_1 c_kinfo_knote__bindgen_ty_1_claim"
  by (simp add: upholds_def offset_of_def layout c_kinfo_knote__bindgen_ty_1_def c_kinfo_knote__bindgen_ty_1_claim_def)

definition c_kinfo_knote_claim :: layout_claim where
  "c_kinfo_knote_claim = (1160, 8,
     [(''knt_kq_fd'', 0), (''knt_event'', 8), (''knt_status'', 72), (''knt_extdata'', 76), (''knt_spare0'', 80)])"

lemma c_kinfo_knote_upholds [upheld]: "upholds c_kinfo_knote c_kinfo_knote_claim"
  by (simp add: upholds_def offset_of_def layout c_kinfo_knote_def c_kinfo_knote_claim_def)

definition c_Elf64_Auxinfo__bindgen_ty_1_claim :: layout_claim where
  "c_Elf64_Auxinfo__bindgen_ty_1_claim = (8, 8,
     [(''a_val'', 0), (''a_ptr'', 0), (''a_fcn'', 0)])"

lemma c_Elf64_Auxinfo__bindgen_ty_1_upholds [upheld]: "upholds c_Elf64_Auxinfo__bindgen_ty_1 c_Elf64_Auxinfo__bindgen_ty_1_claim"
  by (simp add: upholds_def offset_of_def layout c_Elf64_Auxinfo__bindgen_ty_1_def c_Elf64_Auxinfo__bindgen_ty_1_claim_def)

definition c_Elf64_Auxinfo_claim :: layout_claim where
  "c_Elf64_Auxinfo_claim = (16, 8,
     [(''a_type'', 0), (''a_un'', 8)])"

lemma c_Elf64_Auxinfo_upholds [upheld]: "upholds c_Elf64_Auxinfo c_Elf64_Auxinfo_claim"
  by (simp add: upholds_def offset_of_def layout c_Elf64_Auxinfo_def c_Elf64_Auxinfo_claim_def)

definition c_filestat__bindgen_ty_1_claim :: layout_claim where
  "c_filestat__bindgen_ty_1_claim = (8, 8,
     [(''stqe_next'', 0)])"

lemma c_filestat__bindgen_ty_1_upholds [upheld]: "upholds c_filestat__bindgen_ty_1 c_filestat__bindgen_ty_1_claim"
  by (simp add: upholds_def offset_of_def layout c_filestat__bindgen_ty_1_def c_filestat__bindgen_ty_1_claim_def)

definition c_filestat_claim :: layout_claim where
  "c_filestat_claim = (72, 8,
     [(''fs_type'', 0), (''fs_flags'', 4), (''fs_fflags'', 8), (''fs_uflags'', 12), (''fs_fd'', 16),
      (''fs_ref_count'', 20), (''fs_offset'', 24), (''fs_typedep'', 32), (''fs_path'', 40), (''next'', 48),
      (''fs_cap_rights'', 56)])"

lemma c_filestat_upholds [upheld]: "upholds c_filestat c_filestat_claim"
  by (simp add: upholds_def offset_of_def layout c_filestat_def c_filestat_claim_def)

definition c_vnstat_claim :: layout_claim where
  "c_vnstat_claim = (304, 8,
     [(''vn_fileid'', 0), (''vn_size'', 8), (''vn_dev'', 16), (''vn_fsid'', 24), (''vn_mntdir'', 32),
      (''vn_type'', 40), (''vn_mode'', 44), (''vn_devname'', 46)])"

lemma c_vnstat_upholds [upheld]: "upholds c_vnstat c_vnstat_claim"
  by (simp add: upholds_def offset_of_def layout c_vnstat_def c_vnstat_claim_def)

definition c_ptsstat_claim :: layout_claim where
  "c_ptsstat_claim = (264, 8,
     [(''dev'', 0), (''devname'', 8)])"

lemma c_ptsstat_upholds [upheld]: "upholds c_ptsstat c_ptsstat_claim"
  by (simp add: upholds_def offset_of_def layout c_ptsstat_def c_ptsstat_claim_def)

definition c_pipestat_claim :: layout_claim where
  "c_pipestat_claim = (24, 8,
     [(''buffer_cnt'', 0), (''addr'', 8), (''peer'', 16)])"

lemma c_pipestat_upholds [upheld]: "upholds c_pipestat c_pipestat_claim"
  by (simp add: upholds_def offset_of_def layout c_pipestat_def c_pipestat_claim_def)

definition c_semstat_claim :: layout_claim where
  "c_semstat_claim = (8, 4,
     [(''value'', 0), (''mode'', 4)])"

lemma c_semstat_upholds [upheld]: "upholds c_semstat c_semstat_claim"
  by (simp add: upholds_def offset_of_def layout c_semstat_def c_semstat_claim_def)

definition c_shmstat_claim :: layout_claim where
  "c_shmstat_claim = (16, 8,
     [(''size'', 0), (''mode'', 8)])"

lemma c_shmstat_upholds [upheld]: "upholds c_shmstat c_shmstat_claim"
  by (simp add: upholds_def offset_of_def layout c_shmstat_def c_shmstat_claim_def)

definition c_sockstat_claim :: layout_claim where
  "c_sockstat_claim = (344, 8,
     [(''so_addr'', 0), (''so_pcb'', 8), (''unp_conn'', 16), (''dom_family'', 24), (''proto'', 28),
      (''so_rcv_sb_state'', 32), (''so_snd_sb_state'', 36), (''sa_local'', 40), (''sa_peer'', 168),
      (''type_'', 296), (''dname'', 300), (''sendq'', 332), (''recvq'', 336)])"

lemma c_sockstat_upholds [upheld]: "upholds c_sockstat c_sockstat_claim"
  by (simp add: upholds_def offset_of_def layout c_sockstat_def c_sockstat_claim_def)

definition c_filestat_list_claim :: layout_claim where
  "c_filestat_list_claim = (16, 8,
     [(''stqh_first'', 0), (''stqh_last'', 8)])"

lemma c_filestat_list_upholds [upheld]: "upholds c_filestat_list c_filestat_list_claim"
  by (simp add: upholds_def offset_of_def layout c_filestat_list_def c_filestat_list_claim_def)

definition c_advlock__bindgen_ty_1_claim :: layout_claim where
  "c_advlock__bindgen_ty_1_claim = (8, 8,
     [(''stqe_next'', 0)])"

lemma c_advlock__bindgen_ty_1_upholds [upheld]: "upholds c_advlock__bindgen_ty_1 c_advlock__bindgen_ty_1_claim"
  by (simp add: upholds_def offset_of_def layout c_advlock__bindgen_ty_1_def c_advlock__bindgen_ty_1_claim_def)

definition c_advlock_claim :: layout_claim where
  "c_advlock_claim = (72, 8,
     [(''rw'', 0), (''type_'', 4), (''pid'', 8), (''sysid'', 12), (''file_fsid'', 16), (''file_rdev'', 24),
      (''file_fileid'', 32), (''start'', 40), (''len'', 48), (''path'', 56), (''next'', 64)])"

lemma c_advlock_upholds [upheld]: "upholds c_advlock c_advlock_claim"
  by (simp add: upholds_def offset_of_def layout c_advlock_def c_advlock_claim_def)

definition c_advlock_list_claim :: layout_claim where
  "c_advlock_list_claim = (16, 8,
     [(''stqh_first'', 0), (''stqh_last'', 8)])"

lemma c_advlock_list_upholds [upheld]: "upholds c_advlock_list c_advlock_list_claim"
  by (simp add: upholds_def offset_of_def layout c_advlock_list_def c_advlock_list_claim_def)

section \<open>All claims\<close>

definition claims :: "(ctype \<times> layout_claim) list" where
  "claims = [
      (c_cap_rights, c_cap_rights_claim),
      (c___sigset, c___sigset_claim),
      (c_timeval, c_timeval_claim),
      (c_sigaltstack, c_sigaltstack_claim),
      (c_sigval, c_sigval_claim),
      (c___siginfo__bindgen_ty_1__bindgen_ty_1, c___siginfo__bindgen_ty_1__bindgen_ty_1_claim),
      (c___siginfo__bindgen_ty_1__bindgen_ty_2, c___siginfo__bindgen_ty_1__bindgen_ty_2_claim),
      (c___siginfo__bindgen_ty_1__bindgen_ty_3, c___siginfo__bindgen_ty_1__bindgen_ty_3_claim),
      (c___siginfo__bindgen_ty_1__bindgen_ty_4, c___siginfo__bindgen_ty_1__bindgen_ty_4_claim),
      (c___siginfo__bindgen_ty_1__bindgen_ty_5, c___siginfo__bindgen_ty_1__bindgen_ty_5_claim),
      (c___siginfo__bindgen_ty_1__bindgen_ty_6, c___siginfo__bindgen_ty_1__bindgen_ty_6_claim),
      (c___siginfo__bindgen_ty_1, c___siginfo__bindgen_ty_1_claim),
      (c___siginfo, c___siginfo_claim),
      (c_sockaddr_storage, c_sockaddr_storage_claim),
      (c_fpacc87, c_fpacc87_claim),
      (c_xmmacc, c_xmmacc_claim),
      (c_envxmm, c_envxmm_claim),
      (c_savefpu__bindgen_ty_1, c_savefpu__bindgen_ty_1_claim),
      (c_savefpu, c_savefpu_claim),
      (c_system_segment_descriptor, c_system_segment_descriptor_claim),
      (c_region_descriptor, c_region_descriptor_claim),
      (c_pcb, c_pcb_claim),
      (c_kevent, c_kevent_claim),
      (c_klist, c_klist_claim),
      (c_kqlist, c_kqlist_claim),
      (c_knlist, c_knlist_claim),
      (c_itimerval, c_itimerval_claim),
      (c_rusage, c_rusage_claim),
      (c_rlimit, c_rlimit_claim),
      (c_lock_object, c_lock_object_claim),
      (c_mtx, c_mtx_claim),
      (c_callout__bindgen_ty_1__bindgen_ty_1, c_callout__bindgen_ty_1__bindgen_ty_1_claim),
      (c_callout__bindgen_ty_1__bindgen_ty_2, c_callout__bindgen_ty_1__bindgen_ty_2_claim),
      (c_callout__bindgen_ty_1__bindgen_ty_3, c_callout__bindgen_ty_1__bindgen_ty_3_claim),
      (c_callout__bindgen_ty_1, c_callout__bindgen_ty_1_claim),
      (c_callout, c_callout_claim),
      (c_kexterr, c_kexterr_claim),
      (c_cv, c_cv_claim),
      (c_priority, c_priority_claim),
      (c_sx, c_sx_claim),
      (c_filecaps, c_filecaps_claim),
      (c_filedescent, c_filedescent_claim),
      (c_fdescenttbl, c_fdescenttbl_claim),
      (c_pwd, c_pwd_claim),
      (c_smrpwd_t, c_smrpwd_t_claim),
      (c_pwddesc, c_pwddesc_claim),
      (c_filedesc, c_filedesc_claim),
      (c_filedesc_to_leader, c_filedesc_to_leader_claim),
      (c_lpohead, c_lpohead_claim),
      (c_osd__bindgen_ty_1, c_osd__bindgen_ty_1_claim),
      (c_osd, c_osd_claim),
      (c_sigio__bindgen_ty_1, c_sigio__bindgen_ty_1_claim),
      (c_sigio__bindgen_ty_2, c_sigio__bindgen_ty_2_claim),
      (c_sigio, c_sigio_claim),
      (c_sigiolst, c_sigiolst_claim),
      (c_sigacts, c_sigacts_claim),
      (c_ksiginfo__bindgen_ty_1, c_ksiginfo__bindgen_ty_1_claim),
      (c_ksiginfo, c_ksiginfo_claim),
      (c_sigqueue__bindgen_ty_1, c_sigqueue__bindgen_ty_1_claim),
      (c_sigqueue, c_sigqueue_claim),
      (c_domainset_ref, c_domainset_ref_claim),
      (c_proc_ldt, c_proc_ldt_claim),
      (c_pmap_invl_gen__bindgen_ty_1__bindgen_ty_1, c_pmap_invl_gen__bindgen_ty_1__bindgen_ty_1_claim),
      (c_pmap_invl_gen__bindgen_ty_1__bindgen_ty_2, c_pmap_invl_gen__bindgen_ty_1__bindgen_ty_2_claim),
      (c_pmap_invl_gen__bindgen_ty_1, c_pmap_invl_gen__bindgen_ty_1_claim),
      (c_pmap_invl_gen, c_pmap_invl_gen_claim),
      (c_mdthread, c_mdthread_claim),
      (c_mdproc, c_mdproc_claim),
      (c_session, c_session_claim),
      (c_pgrp__bindgen_ty_1, c_pgrp__bindgen_ty_1_claim),
      (c_pgrp__bindgen_ty_2, c_pgrp__bindgen_ty_2_claim),
      (c_pgrp, c_pgrp_claim),
      (c_pargs, c_pargs_claim),
      (c_syscall_args, c_syscall_args_claim),
      (c_rusage_ext, c_rusage_ext_claim),
      (c_thread__bindgen_ty_1, c_thread__bindgen_ty_1_claim),
      (c_thread__bindgen_ty_2, c_thread__bindgen_ty_2_claim),
      (c_thread__bindgen_ty_3__bindgen_ty_1, c_thread__bindgen_ty_3__bindgen_ty_1_claim),
      (c_thread__bindgen_ty_3, c_thread__bindgen_ty_3_claim),
      (c_thread__bindgen_ty_4, c_thread__bindgen_ty_4_claim),
      (c_thread__bindgen_ty_5, c_thread__bindgen_ty_5_claim),
      (c_thread__bindgen_ty_6, c_thread__bindgen_ty_6_claim),
      (c_thread__bindgen_ty_7, c_thread__bindgen_ty_7_claim),
      (c_thread, c_thread_claim),
      (c_proc__bindgen_ty_1, c_proc__bindgen_ty_1_claim),
      (c_proc__bindgen_ty_2, c_proc__bindgen_ty_2_claim),
      (c_proc__bindgen_ty_3, c_proc__bindgen_ty_3_claim),
      (c_proc__bindgen_ty_4, c_proc__bindgen_ty_4_claim),
      (c_proc__bindgen_ty_5, c_proc__bindgen_ty_5_claim),
      (c_proc__bindgen_ty_6, c_proc__bindgen_ty_6_claim),
      (c_proc__bindgen_ty_7, c_proc__bindgen_ty_7_claim),
      (c_proc__bindgen_ty_8, c_proc__bindgen_ty_8_claim),
      (c_proc__bindgen_ty_9, c_proc__bindgen_ty_9_claim),
      (c_proc__bindgen_ty_10, c_proc__bindgen_ty_10_claim),
      (c_proc__bindgen_ty_11, c_proc__bindgen_ty_11_claim),
      (c_proc__bindgen_ty_12, c_proc__bindgen_ty_12_claim),
      (c_proc__bindgen_ty_13, c_proc__bindgen_ty_13_claim),
      (c_proc__bindgen_ty_14, c_proc__bindgen_ty_14_claim),
      (c_proc_struct, c_proc_struct_claim),
      (c_pmap_statistics, c_pmap_statistics_claim),
      (c__cpuset, c__cpuset_claim),
      (c_pctrie, c_pctrie_claim),
      (c_pmap_pcid, c_pmap_pcid_claim),
      (c_pv_entry__bindgen_ty_1, c_pv_entry__bindgen_ty_1_claim),
      (c_pv_entry, c_pv_entry_claim),
      (c_pv_chunk__bindgen_ty_1, c_pv_chunk__bindgen_ty_1_claim),
      (c_pv_chunk__bindgen_ty_2, c_pv_chunk__bindgen_ty_2_claim),
      (c_pv_chunk, c_pv_chunk_claim),
      (c_rangeset, c_rangeset_claim),
      (c_vm_radix, c_vm_radix_claim),
      (c_pmap__bindgen_ty_1, c_pmap__bindgen_ty_1_claim),
      (c_pmap, c_pmap_claim),
      (c_vm_map_object, c_vm_map_object_claim),
      (c_vm_map_entry, c_vm_map_entry_claim),
      (c_vm_map__bindgen_ty_1, c_vm_map__bindgen_ty_1_claim),
      (c_vm_map, c_vm_map_claim),
      (c_vmspace, c_vmspace_claim),
      (c_pstats_uprof, c_pstats_uprof_claim),
      (c_pstats, c_pstats_claim),
      (c_kinfo_proc, c_kinfo_proc_claim),
      (c_user, c_user_claim),
      (c_kinfo_vmentry__bindgen_ty_1, c_kinfo_vmentry__bindgen_ty_1_claim),
      (c_kinfo_vmentry, c_kinfo_vmentry_claim),
      (c_kinfo_kstack, c_kinfo_kstack_claim),
      (c_kinfo_knote__bindgen_ty_1__bindgen_ty_1, c_kinfo_knote__bindgen_ty_1__bindgen_ty_1_claim),
      (c_kinfo_knote__bindgen_ty_1__bindgen_ty_2, c_kinfo_knote__bindgen_ty_1__bindgen_ty_2_claim),
      (c_kinfo_knote__bindgen_ty_1, c_kinfo_knote__bindgen_ty_1_claim),
      (c_kinfo_knote, c_kinfo_knote_claim),
      (c_Elf64_Auxinfo__bindgen_ty_1, c_Elf64_Auxinfo__bindgen_ty_1_claim),
      (c_Elf64_Auxinfo, c_Elf64_Auxinfo_claim),
      (c_filestat__bindgen_ty_1, c_filestat__bindgen_ty_1_claim),
      (c_filestat, c_filestat_claim),
      (c_vnstat, c_vnstat_claim),
      (c_ptsstat, c_ptsstat_claim),
      (c_pipestat, c_pipestat_claim),
      (c_semstat, c_semstat_claim),
      (c_shmstat, c_shmstat_claim),
      (c_sockstat, c_sockstat_claim),
      (c_filestat_list, c_filestat_list_claim),
      (c_advlock__bindgen_ty_1, c_advlock__bindgen_ty_1_claim),
      (c_advlock, c_advlock_claim),
      (c_advlock_list, c_advlock_list_claim)]"


end
