(* ===== verification/Procstat_Mem.thy ===== *)
theory Procstat_Mem
  imports Procinfo
begin

text \<open>
  The walk over libprocstat's data as the program performs it, through raw pointers (\<open>snapshot\<close> and
  \<open>daemon_running\<close> in \<open>src/procinfo.rs\<close>, on the structures of \<open>src/procstat_sys.rs\<close>).

  Memory maps addresses to bytes; an access to an address that is not mapped has no result, and neither has a
  walk that does not end.  The library is an argument: what each of its calls returns and how it changes memory.
  Every resource the library hands out or takes back is recorded.  \<open>Procinfo\<close> describes the same functions on
  what the library reports; the theorems here say that the walk through memory is always defined, computes the
  same, and gives back every resource, for a library that lays out its report as it documents.
\<close>

section \<open>Memory\<close>

type_synonym mem = "nat \<rightharpoonup> u8"

fun load_bytes :: "mem \<Rightarrow> nat \<Rightarrow> nat \<Rightarrow> bytes option" where
  "load_bytes m a 0 = Some []"
| "load_bytes m a (Suc n) = (case m a of None \<Rightarrow> None | Some b \<Rightarrow> map_option ((#) b) (load_bytes m (Suc a) n))"

text \<open>Integers are little-endian.\<close>

fun le_nat :: "bytes \<Rightarrow> nat" where
  "le_nat [] = 0"
| "le_nat (b # bs) = unat b + 256 * le_nat bs"

definition le_int :: "bytes \<Rightarrow> int" where
  "le_int bs = sint (word_of_nat (le_nat bs) :: 32 word)"

definition load_ptr :: "mem \<Rightarrow> nat \<Rightarrow> nat option" where
  "load_ptr m a = map_option le_nat (load_bytes m a 8)"

definition load_int :: "mem \<Rightarrow> nat \<Rightarrow> int option" where
  "load_int m a = map_option le_int (load_bytes m a 4)"

text \<open>\<open>CStr::from_ptr\<close>: the bytes up to the first zero.\<close>

partial_function (option) c_string :: "mem \<Rightarrow> nat \<Rightarrow> bytes option" where
  "c_string m a = (case m a of
      None \<Rightarrow> None
    | Some b \<Rightarrow> if b = 0 then Some [] else Option.bind (c_string m (Suc a)) (\<lambda>bs. Some (b # bs)))"

text \<open>The same on a buffer of the caller's.\<close>

definition buf_string :: "bytes \<Rightarrow> bytes option" where
  "buf_string b = (if 0 \<in> set b then Some (takeWhile (\<lambda>c. c \<noteq> 0) b) else None)"

text \<open>The address of a field.\<close>

definition field_at :: "ctype \<Rightarrow> string \<Rightarrow> nat \<Rightarrow> nat" where
  "field_at t f a = a + the (offset_of t f)"

section \<open>The library\<close>

datatype resource = Handle nat | Procs nat | Files nat | Argv nat

datatype libcall = Acquire resource | Release resource

text \<open>Calls that hand out a pointer return it with the memory after the call, 0 for NULL; \<open>getprocs\<close> also returns
  the count.  \<open>getpathname\<close> and \<open>get_socket_info\<close> return their code and what they wrote to the caller's
  buffer.\<close>

record libprocstat =
  l_open :: "mem \<Rightarrow> nat \<times> mem"
  l_getprocs :: "nat \<Rightarrow> mem \<Rightarrow> (nat \<times> nat) \<times> mem"
  l_getpathname :: "nat \<Rightarrow> nat \<Rightarrow> mem \<Rightarrow> int \<times> bytes"
  l_getfiles :: "nat \<Rightarrow> nat \<Rightarrow> mem \<Rightarrow> nat \<times> mem"
  l_get_socket_info :: "nat \<Rightarrow> nat \<Rightarrow> mem \<Rightarrow> int \<times> bytes"
  l_getargv :: "nat \<Rightarrow> nat \<Rightarrow> mem \<Rightarrow> nat \<times> mem"
  l_free :: "resource \<Rightarrow> mem \<Rightarrow> mem"

section \<open>The snapshot\<close>

text \<open>The file at \<open>fst\<close>, with the socket information where the program asks for it.\<close>

definition file_at :: "libprocstat \<Rightarrow> nat \<Rightarrow> mem \<Rightarrow> nat \<Rightarrow> kfile option" where
  "file_at lib ps m fs = (case load_int m (field_at c_filestat ''fs_type'' fs) of
      None \<Rightarrow> None
    | Some ty \<Rightarrow> Some \<lparr>fs_type = ty, fs_sock =
        (if ty = uint PS_FST_TYPE_SOCKET then
           (case l_get_socket_info lib ps fs m of (rc, sock) \<Rightarrow>
              if rc = 0 then Some (le_int (take 4 (drop (field_at c_sockstat ''proto'' 0) sock)),
                  take 128 (drop (field_at c_sockstat ''sa_local'' 0) sock),
                  take 128 (drop (field_at c_sockstat ''sa_peer'' 0) sock))
              else None)
         else None)\<rparr>)"

definition next_file :: "mem \<Rightarrow> nat \<Rightarrow> nat option" where
  "next_file m fs = load_ptr m (field_at c_filestat__bindgen_ty_1 ''stqe_next'' (field_at c_filestat ''next'' fs))"

text \<open>\<open>while !fst.is_null()\<close>\<close>

partial_function (option) walk_files ::
  "libprocstat \<Rightarrow> nat \<Rightarrow> mem \<Rightarrow> owner \<Rightarrow> nat \<Rightarrow> tables \<Rightarrow> tables option" where
  "walk_files lib ps m ow fs tb = (if fs = 0 then Some tb else case file_at lib ps m fs of
      None \<Rightarrow> None
    | Some f \<Rightarrow> (case next_file m fs of
        None \<Rightarrow> None
      | Some nx \<Rightarrow> walk_files lib ps m ow nx (add_socket ow f tb)))"

text \<open>The process at \<open>p\<close>: its number, its command, and the path of its binary if there is one.\<close>

definition proc_at :: "libprocstat \<Rightarrow> nat \<Rightarrow> mem \<Rightarrow> nat \<Rightarrow> (int \<times> bytes \<times> bytes option) option" where
  "proc_at lib ps m p = (case load_int m (field_at c_kinfo_proc ''ki_pid'' p) of
      None \<Rightarrow> None
    | Some pn \<Rightarrow> (case c_string m (field_at c_kinfo_proc ''ki_comm'' p) of
        None \<Rightarrow> None
      | Some comm \<Rightarrow> (case l_getpathname lib ps p m of (rc, buf) \<Rightarrow>
          if rc = 0 then (case buf_string buf of None \<Rightarrow> None | Some s \<Rightarrow> Some (pn, comm, Some s))
          else Some (pn, comm, None))))"

text \<open>What the walk carries along: memory, the calls made, and the tables.\<close>

type_synonym walk = "mem \<times> libcall list \<times> tables"

definition scan_proc :: "libprocstat \<Rightarrow> nat \<Rightarrow> nat \<Rightarrow> walk \<Rightarrow> walk option" where
  "scan_proc lib ps p w = (case w of (m, cs, tb) \<Rightarrow>
     (case proc_at lib ps m p of
        None \<Rightarrow> None
      | Some (pn, comm, path) \<Rightarrow>
         (let ow = proc_owner \<lparr>ki_pid = pn, ki_comm = comm, ki_path = path, ki_files = None, ki_argv = None\<rparr>;
              (files, m1) = l_getfiles lib ps p m in
          if files = 0 then Some (m1, cs, tb)
          else (case load_ptr m1 (field_at c_filestat_list ''stqh_first'' files) of
             None \<Rightarrow> None
           | Some fs \<Rightarrow> (case walk_files lib ps m1 ow fs tb of
               None \<Rightarrow> None
             | Some tb' \<Rightarrow> Some (l_free lib (Files files) m1, cs @ [Acquire (Files files), Release (Files files)], tb'))))))"

fun scan_procs :: "libprocstat \<Rightarrow> nat \<Rightarrow> nat \<Rightarrow> nat list \<Rightarrow> walk \<Rightarrow> walk option" where
  "scan_procs lib ps procs [] w = Some w"
| "scan_procs lib ps procs (i # is) w = (case scan_proc lib ps (procs + i * size_of c_kinfo_proc) w of
      None \<Rightarrow> None
    | Some w' \<Rightarrow> scan_procs lib ps procs is w')"

definition snapshot_mem :: "libprocstat \<Rightarrow> mem \<Rightarrow> walk option" where
  "snapshot_mem lib m = (case l_open lib m of (ps, m0) \<Rightarrow>
     if ps = 0 then Some (m0, [], empty_tables)
     else (case l_getprocs lib ps m0 of ((procs, nproc), m1) \<Rightarrow>
       if procs = 0 then Some (l_free lib (Handle ps) m1, [Acquire (Handle ps), Release (Handle ps)], empty_tables)
       else (case scan_procs lib ps procs [0..<nproc] (m1, [Acquire (Handle ps), Acquire (Procs procs)], empty_tables) of
          None \<Rightarrow> None
        | Some (m2, cs, tb) \<Rightarrow> Some (l_free lib (Handle ps) (l_free lib (Procs procs) m2),
            cs @ [Release (Procs procs), Release (Handle ps)], tb))))"

section \<open>Is a daemon running\<close>

text \<open>The words of the argument vector, up to NULL and at most eight.  The pointer is read before the count is
  looked at.\<close>

function argv_words :: "mem \<Rightarrow> nat \<Rightarrow> nat \<Rightarrow> bytes list option" where
  "argv_words m argv j = (case load_ptr m (argv + 8 * j) of
      None \<Rightarrow> None
    | Some a \<Rightarrow> if a \<noteq> 0 \<and> j < 8 then
         (case c_string m a of None \<Rightarrow> None | Some w \<Rightarrow> map_option ((#) w) (argv_words m argv (Suc j)))
       else Some [])"
  by pat_completeness auto
termination by (relation "measure (\<lambda>(m, argv, j). 8 - j)") auto

definition is_daemon_at :: "libprocstat \<Rightarrow> nat \<Rightarrow> int \<Rightarrow> nat \<Rightarrow> mem \<times> libcall list \<Rightarrow> (bool \<times> mem \<times> libcall list) option" where
  "is_daemon_at lib ps me p w = (case w of (m, cs) \<Rightarrow>
     (case load_int m (field_at c_kinfo_proc ''ki_pid'' p) of
        None \<Rightarrow> None
      | Some pn \<Rightarrow> if pn = me then Some (False, m, cs)
          else (case l_getargv lib ps p m of (argv, m1) \<Rightarrow>
            if argv = 0 then Some (False, m1, cs)
            else (case argv_words m1 argv 0 of
               None \<Rightarrow> None
             | Some words \<Rightarrow> Some (names_daemon words, l_free lib (Argv argv) m1,
                 cs @ [Acquire (Argv argv), Release (Argv argv)])))))"

fun find_daemon :: "libprocstat \<Rightarrow> nat \<Rightarrow> int \<Rightarrow> nat \<Rightarrow> nat list \<Rightarrow> mem \<times> libcall list \<Rightarrow> (bool \<times> mem \<times> libcall list) option" where
  "find_daemon lib ps me procs [] w = Some (False, w)"
| "find_daemon lib ps me procs (i # is) w = (case is_daemon_at lib ps me (procs + i * size_of c_kinfo_proc) w of
      None \<Rightarrow> None
    | Some (found, w') \<Rightarrow> if found then Some (True, w') else find_daemon lib ps me procs is w')"

definition daemon_running_mem :: "libprocstat \<Rightarrow> int \<Rightarrow> mem \<Rightarrow> (bool \<times> mem \<times> libcall list) option" where
  "daemon_running_mem lib me m = (case l_open lib m of (ps, m0) \<Rightarrow>
     if ps = 0 then Some (False, m0, [])
     else (case l_getprocs lib ps m0 of ((procs, cnt), m1) \<Rightarrow>
       if procs = 0 then Some (False, l_free lib (Handle ps) m1, [Acquire (Handle ps), Release (Handle ps)])
       else (case find_daemon lib ps me procs [0..<cnt] (m1, [Acquire (Handle ps), Acquire (Procs procs)]) of
          None \<Rightarrow> None
        | Some (found, m2, cs) \<Rightarrow> Some (found, l_free lib (Handle ps) (l_free lib (Procs procs) m2),
            cs @ [Release (Procs procs), Release (Handle ps)]))))"

section \<open>What the library promises\<close>

text \<open>A list of files linked through \<open>next\<close>, and an array of strings that ends with NULL.\<close>

fun file_list :: "libprocstat \<Rightarrow> nat \<Rightarrow> mem \<Rightarrow> nat \<Rightarrow> kfile list \<Rightarrow> bool" where
  "file_list lib ps m a [] \<longleftrightarrow> a = 0"
| "file_list lib ps m a (f # fs) \<longleftrightarrow> a \<noteq> 0 \<and> file_at lib ps m a = Some f
     \<and> (\<exists>nx. next_file m a = Some nx \<and> file_list lib ps m nx fs)"

fun strings_at :: "mem \<Rightarrow> nat \<Rightarrow> bytes list \<Rightarrow> bool" where
  "strings_at m a [] \<longleftrightarrow> load_ptr m a = Some 0"
| "strings_at m a (w # ws) \<longleftrightarrow> (\<exists>q. load_ptr m a = Some q \<and> q \<noteq> 0 \<and> c_string m q = Some w \<and> strings_at m (a + 8) ws)"

definition path_of :: "int \<times> bytes \<Rightarrow> bytes option option" where
  "path_of r = (case r of (rc, buf) \<Rightarrow> if rc = 0 then map_option Some (buf_string buf) else Some None)"

text \<open>The library shows the process \<open>k\<close> at \<open>p\<close>: the structure holds its number and its command, and the calls on it
  answer with its path, its files and its arguments, or fail where there are none.  Freeing what a call returned
  undoes what it did to memory; a call that fails does nothing to it.\<close>

definition shows_files :: "libprocstat \<Rightarrow> nat \<Rightarrow> mem \<Rightarrow> nat \<Rightarrow> kfile list option \<Rightarrow> bool" where
  "shows_files lib ps m p files \<longleftrightarrow> (case l_getfiles lib ps p m of (a, m1) \<Rightarrow> (case files of
      None \<Rightarrow> a = 0 \<and> m1 = m
    | Some fs \<Rightarrow> a \<noteq> 0 \<and> l_free lib (Files a) m1 = m
        \<and> (\<exists>h. load_ptr m1 (field_at c_filestat_list ''stqh_first'' a) = Some h \<and> file_list lib ps m1 h fs)))"

definition shows_argv :: "libprocstat \<Rightarrow> nat \<Rightarrow> mem \<Rightarrow> nat \<Rightarrow> bytes list option \<Rightarrow> bool" where
  "shows_argv lib ps m p argv \<longleftrightarrow> (case l_getargv lib ps p m of (a, m1) \<Rightarrow> (case argv of
      None \<Rightarrow> a = 0 \<and> m1 = m
    | Some ws \<Rightarrow> a \<noteq> 0 \<and> l_free lib (Argv a) m1 = m \<and> strings_at m1 a ws))"

definition shows_proc :: "libprocstat \<Rightarrow> nat \<Rightarrow> mem \<Rightarrow> nat \<Rightarrow> kproc \<Rightarrow> bool" where
  "shows_proc lib ps m p k \<longleftrightarrow> load_int m (field_at c_kinfo_proc ''ki_pid'' p) = Some (ki_pid k)
     \<and> c_string m (field_at c_kinfo_proc ''ki_comm'' p) = Some (ki_comm k)
     \<and> path_of (l_getpathname lib ps p m) = Some (ki_path k)
     \<and> shows_files lib ps m p (ki_files k) \<and> shows_argv lib ps m p (ki_argv k)"

text \<open>The library reports \<open>r\<close>: it opens or not, and it hands out the array of the processes or not.\<close>

definition reports :: "libprocstat \<Rightarrow> procstat \<Rightarrow> mem \<Rightarrow> bool" where
  "reports lib r m \<longleftrightarrow> (case l_open lib m of (ps, m0) \<Rightarrow>
     if \<not> ps_open r then ps = 0 \<and> m0 = m
     else ps \<noteq> 0 \<and> l_free lib (Handle ps) m0 = m \<and> (case l_getprocs lib ps m0 of ((p, n), m1) \<Rightarrow> (case ps_procs r of
          None \<Rightarrow> p = 0 \<and> m1 = m0
        | Some ks \<Rightarrow> p \<noteq> 0 \<and> n = length ks \<and> l_free lib (Procs p) m1 = m0
            \<and> (\<forall>i < length ks. shows_proc lib ps m1 (p + i * size_of c_kinfo_proc) (ks ! i)))))"

text \<open>Resources are given back in the opposite order: \<open>held st cs\<close> is what is held after the calls.\<close>

fun held :: "resource list \<Rightarrow> libcall list \<Rightarrow> resource list option" where
  "held st [] = Some st"
| "held st (Acquire r # cs) = held (r # st) cs"
| "held st (Release r # cs) = (case st of [] \<Rightarrow> None | q # st' \<Rightarrow> if q = r then held st' cs else None)"

lemma held_append: "held st (cs @ ds) = Option.bind (held st cs) (\<lambda>st'. held st' ds)"
  by (induction st cs rule: held.induct) (auto split: list.split)

section \<open>The walks\<close>

lemma walk_files_ok: "file_list lib ps m a fs \<Longrightarrow> walk_files lib ps m ow a tb = Some (fold (add_socket ow) fs tb)"
proof (induction fs arbitrary: a tb)
  case Nil
  then show ?case by (subst walk_files.simps) simp
next
  case (Cons f fs)
  then show ?case by (subst walk_files.simps) auto
qed

lemma argv_words_ok: "strings_at m (argv + 8 * j) ws \<Longrightarrow> argv_words m argv j = Some (take (8 - j) ws)"
proof (induction ws arbitrary: j)
  case Nil
  then show ?case by (subst argv_words.simps) simp
next
  case (Cons w ws)
  then obtain q where q: "load_ptr m (argv + 8 * j) = Some q" "q \<noteq> 0" "c_string m q = Some w" "strings_at m (argv + 8 * Suc j) ws"
    by (auto simp: algebra_simps)
  show ?case
  proof (cases "j < 8")
    case True
    then have "8 - j = Suc (8 - Suc j)" by simp
    then show ?thesis using q Cons.IH [OF q(4)] True by (subst argv_words.simps) simp
  next
    case False
    then show ?thesis using q by (subst argv_words.simps) simp
  qed
qed

lemma proc_owner_parts:
  "proc_owner \<lparr>ki_pid = ki_pid k, ki_comm = ki_comm k, ki_path = ki_path k, ki_files = f, ki_argv = w\<rparr> = proc_owner k"
  by (simp add: proc_owner_def proc_path_def Let_def)

lemma proc_at_ok:
  assumes "shows_proc lib ps m p k"
  shows "proc_at lib ps m p = Some (ki_pid k, ki_comm k, ki_path k)"
  using assms by (auto simp: shows_proc_def proc_at_def path_of_def split: prod.splits if_splits option.splits)

lemma scan_proc_ok:
  assumes "shows_proc lib ps m p k"
  shows "\<exists>ds. scan_proc lib ps p (m, cs, tb) = Some (m, cs @ ds, add_proc k tb) \<and> (\<forall>st. held st ds = Some st)"
proof -
  obtain a m1 where g: "l_getfiles lib ps p m = (a, m1)" by fastforce
  have f: "shows_files lib ps m p (ki_files k)" using assms by (simp add: shows_proc_def)
  show ?thesis
  proof (cases "ki_files k")
    case None
    then show ?thesis using f g proc_at_ok [OF assms]
      by (auto simp: scan_proc_def shows_files_def add_proc_def intro: exI [of _ "[]"])
  next
    case (Some fs)
    then obtain h where h: "a \<noteq> 0" "l_free lib (Files a) m1 = m"
      "load_ptr m1 (field_at c_filestat_list ''stqh_first'' a) = Some h" "file_list lib ps m1 h fs"
      using f g by (auto simp: shows_files_def)
    let ?ds = "[Acquire (Files a), Release (Files a)]"
    have "scan_proc lib ps p (m, cs, tb) = Some (m, cs @ ?ds, add_proc k tb)"
      using g h proc_at_ok [OF assms] walk_files_ok [OF h(4)] Some
      by (simp add: scan_proc_def add_proc_def proc_owner_parts)
    moreover have "\<forall>st. held st ?ds = Some st" by simp
    ultimately show ?thesis by blast
  qed
qed

lemma is_daemon_at_ok:
  assumes "shows_proc lib ps m p k"
  shows "\<exists>ds. is_daemon_at lib ps me p (m, cs) = Some (is_daemon me k, m, cs @ ds) \<and> (\<forall>st. held st ds = Some st)"
proof -
  have pn: "load_int m (field_at c_kinfo_proc ''ki_pid'' p) = Some (ki_pid k)"
    using assms by (simp add: shows_proc_def)
  obtain a m1 where g: "l_getargv lib ps p m = (a, m1)" by fastforce
  have f: "shows_argv lib ps m p (ki_argv k)" using assms by (simp add: shows_proc_def)
  show ?thesis
  proof (cases "ki_pid k = me \<or> ki_argv k = None")
    case True
    then show ?thesis using f g pn
      by (auto simp: is_daemon_at_def is_daemon_def shows_argv_def intro: exI [of _ "[]"])
  next
    case False
    then obtain ws where ws: "ki_pid k \<noteq> me" "ki_argv k = Some ws" by auto
    then have h: "a \<noteq> 0" "l_free lib (Argv a) m1 = m" "strings_at m1 a ws"
      using f g by (simp_all add: shows_argv_def)
    let ?ds = "[Acquire (Argv a), Release (Argv a)]"
    have "argv_words m1 a 0 = Some (take 8 ws)" using argv_words_ok [of m1 a 0 ws] h(3) by simp
    moreover have "names_daemon (take 8 ws) = names_daemon ws" by (simp add: names_daemon_def)
    ultimately have "is_daemon_at lib ps me p (m, cs) = Some (is_daemon me k, m, cs @ ?ds)"
      using g h(1,2) pn ws by (simp add: is_daemon_at_def is_daemon_def)
    moreover have "\<forall>st. held st ?ds = Some st" by simp
    ultimately show ?thesis by blast
  qed
qed

lemma scan_procs_ok:
  assumes "\<forall>i \<in> set is. shows_proc lib ps m (p + i * size_of c_kinfo_proc) (ks ! i)"
  shows "\<exists>ds. scan_procs lib ps p is (m, cs, tb) = Some (m, cs @ ds, fold add_proc (map ((!) ks) is) tb)
    \<and> (\<forall>st. held st ds = Some st)"
  using assms
proof (induction "is" arbitrary: cs tb)
  case Nil
  then show ?case by (auto intro: exI [of _ "[]"])
next
  case (Cons i "is")
  obtain ds where s: "scan_proc lib ps (p + i * size_of c_kinfo_proc) (m, cs, tb) = Some (m, cs @ ds, add_proc (ks ! i) tb)"
    "\<forall>st. held st ds = Some st"
    using scan_proc_ok [of lib ps m _ "ks ! i"] Cons.prems by force
  obtain es where r: "scan_procs lib ps p is (m, cs @ ds, add_proc (ks ! i) tb)
      = Some (m, (cs @ ds) @ es, fold add_proc (map ((!) ks) is) (add_proc (ks ! i) tb))"
    "\<forall>st. held st es = Some st"
    using Cons.IH [of "cs @ ds" "add_proc (ks ! i) tb"] Cons.prems by auto
  then show ?case using s by (intro exI [of _ "ds @ es"]) (simp add: held_append)
qed

lemma find_daemon_ok:
  assumes "\<forall>i \<in> set is. shows_proc lib ps m (p + i * size_of c_kinfo_proc) (ks ! i)"
  shows "\<exists>ds. find_daemon lib ps me p is (m, cs) = Some (list_ex (is_daemon me) (map ((!) ks) is), m, cs @ ds)
    \<and> (\<forall>st. held st ds = Some st)"
  using assms
proof (induction "is" arbitrary: cs)
  case Nil
  then show ?case by (auto intro: exI [of _ "[]"])
next
  case (Cons i "is")
  obtain ds where s: "is_daemon_at lib ps me (p + i * size_of c_kinfo_proc) (m, cs) = Some (is_daemon me (ks ! i), m, cs @ ds)"
    "\<forall>st. held st ds = Some st"
    using is_daemon_at_ok [of lib ps m _ "ks ! i"] Cons.prems by force
  obtain es where r: "find_daemon lib ps me p is (m, cs @ ds) = Some (list_ex (is_daemon me) (map ((!) ks) is), m, (cs @ ds) @ es)"
    "\<forall>st. held st es = Some st"
    using Cons.IH [of "cs @ ds"] Cons.prems by auto
  show ?case
  proof (cases "is_daemon me (ks ! i)")
    case True
    then show ?thesis using s by (intro exI [of _ ds]) simp
  next
    case False
    then show ?thesis using s r by (intro exI [of _ "ds @ es"]) (simp add: held_append)
  qed
qed

section \<open>The walks are safe\<close>

text \<open>The ways a call of either function can go: no handle, no array, or an array to walk.\<close>

lemma reports_cases:
  assumes "reports lib r m"
  obtains (closed) "\<not> ps_open r" "l_open lib m = (0, m)"
  | (none) ps m0 n where "ps_open r" "ps_procs r = None" "l_open lib m = (ps, m0)" "ps \<noteq> 0"
      "l_getprocs lib ps m0 = ((0, n), m0)" "l_free lib (Handle ps) m0 = m"
  | (procs) ps m0 p m1 ks where "ps_open r" "ps_procs r = Some ks" "l_open lib m = (ps, m0)" "ps \<noteq> 0"
      "l_getprocs lib ps m0 = ((p, length ks), m1)" "p \<noteq> 0" "l_free lib (Handle ps) (l_free lib (Procs p) m1) = m"
      "\<forall>i \<in> set [0..<length ks]. shows_proc lib ps m1 (p + i * size_of c_kinfo_proc) (ks ! i)"
proof -
  obtain ps m0 where o: "l_open lib m = (ps, m0)" by fastforce
  obtain p n m1 where g: "l_getprocs lib ps m0 = ((p, n), m1)" by (metis surj_pair)
  show ?thesis
  proof (cases "ps_open r")
    case False
    then show ?thesis using assms o closed by (simp add: reports_def)
  next
    case True
    note open_r = True
    show ?thesis
    proof (cases "ps_procs r")
      case None
      then show ?thesis using assms o g open_r none by (simp add: reports_def)
    next
      case (Some ks)
      then show ?thesis using assms o g open_r procs [of ks ps m0 p m1] by (simp add: reports_def)
    qed
  qed
qed

section \<open>A library that reports one process\<close>

text \<open>Placing bytes at an address and taking them away again.\<close>

definition place :: "nat \<Rightarrow> bytes \<Rightarrow> mem \<Rightarrow> mem" where
  "place a bs m = (\<lambda>x. if a \<le> x \<and> x < a + length bs then Some (bs ! (x - a)) else m x)"

definition unplace :: "nat \<Rightarrow> nat \<Rightarrow> mem \<Rightarrow> mem" where
  "unplace a n m = (\<lambda>x. if a \<le> x \<and> x < a + n then None else m x)"

lemma unplace_place: "(\<And>x. a \<le> x \<Longrightarrow> x < a + length bs \<Longrightarrow> m x = None) \<Longrightarrow> n = length bs \<Longrightarrow> unplace a n (place a bs m) = m"
  by (auto simp: unplace_def place_def)

lemma load_place: "k + n \<le> length bs \<Longrightarrow> load_bytes (place a bs m) (a + k) n = Some (take n (drop k bs))"
proof (induction n arbitrary: k)
  case (Suc n)
  then have "load_bytes (place a bs m) (a + Suc k) n = Some (take n (drop (Suc k) bs))" by (intro Suc.IH) simp
  moreover have "drop k bs = bs ! k # drop (Suc k) bs" using Suc.prems by (simp add: Cons_nth_drop_Suc)
  ultimately show ?case using Suc.prems by (simp add: place_def)
qed simp

lemma c_string_place:
  "0 \<in> set (drop k bs) \<Longrightarrow> c_string (place a bs m) (a + k) = Some (takeWhile (\<lambda>c. c \<noteq> 0) (drop k bs))"
proof (induction "drop k bs" arbitrary: k)
  case (Cons b bs')
  have k: "k < length bs" using Cons.hyps(2) by (metis drop_all leI list.distinct(1))
  then have d: "drop k bs = bs ! k # drop (Suc k) bs" by (simp add: Cons_nth_drop_Suc)
  show ?case
  proof (cases "bs ! k = 0")
    case True
    then show ?thesis using d k by (subst c_string.simps) (simp add: place_def)
  next
    case False
    then have "c_string (place a bs m) (a + Suc k) = Some (takeWhile (\<lambda>c. c \<noteq> 0) (drop (Suc k) bs))"
      using Cons d by (intro Cons.hyps(1)) auto
    then show ?thesis using d k False by (subst c_string.simps) (simp add: place_def)
  qed
qed simp

lemma le_nat_zeros [simp]: "le_nat (replicate n 0) = 0"
  by (induction n) simp_all

definition demo_kinfo :: bytes where
  "demo_kinfo = replicate 72 0 @ [7, 0, 0, 0] @ replicate 371 0 @ as_bytes ''nc'' @ replicate 639 0"

text \<open>The head of the list and its one file, and the vector with its one string.\<close>

definition demo_files :: bytes where
  "demo_files = [0x10, 0x20, 0, 0, 0, 0, 0, 0] @ replicate 8 0 @ [3, 0, 0, 0] @ replicate 68 0"

definition demo_argv :: bytes where
  "demo_argv = [0x10, 0x30, 0, 0, 0, 0, 0, 0] @ replicate 8 0 @ as_bytes ''nc'' @ [0]"

definition demo_sock :: bytes where
  "demo_sock = replicate 28 0 @ [17, 0, 0, 0] @ replicate 8 0 @ [16, 2, 0, 53, 10, 0, 0, 1] @ replicate 296 0"

definition demo_lib :: libprocstat where
  "demo_lib = \<lparr>l_open = (\<lambda>m. (16, m)),
     l_getprocs = (\<lambda>ps m. ((0x1000, 1), place 0x1000 demo_kinfo m)),
     l_getpathname = (\<lambda>ps p m. (0, as_bytes ''/usr/bin/nc'' @ replicate 1013 0)),
     l_getfiles = (\<lambda>ps p m. (0x2000, place 0x2000 demo_files m)),
     l_get_socket_info = (\<lambda>ps f m. (0, demo_sock)),
     l_getargv = (\<lambda>ps p m. (0x3000, place 0x3000 demo_argv m)),
     l_free = (\<lambda>r m. case r of Handle h \<Rightarrow> m | Procs p \<Rightarrow> unplace p 1088 m | Files f \<Rightarrow> unplace f 88 m | Argv a \<Rightarrow> unplace a 19 m)\<rparr>"

definition demo_kproc :: kproc where
  "demo_kproc = \<lparr>ki_pid = 7, ki_comm = as_bytes ''nc'', ki_path = Some (as_bytes ''/usr/bin/nc''),
     ki_files = Some [\<lparr>fs_type = 3, fs_sock = Some (17, [16, 2, 0, 53, 10, 0, 0, 1] @ replicate 120 0, replicate 128 0)\<rparr>],
     ki_argv = Some [as_bytes ''nc'']\<rparr>"

lemma nc_bytes: "as_bytes ''nc'' = [0x6e, 0x63]" "0 \<notin> set (as_bytes ''/usr/bin/nc'')"
  by code_simp+

lemma field_addresses:
  "field_at c_kinfo_proc ''ki_pid'' p = p + 72" "field_at c_kinfo_proc ''ki_comm'' p = p + 447"
  "field_at c_filestat ''fs_type'' p = p" "field_at c_filestat ''next'' p = p + 48"
  "field_at c_filestat__bindgen_ty_1 ''stqe_next'' p = p" "field_at c_filestat_list ''stqh_first'' p = p"
  "field_at c_sockstat ''proto'' p = p + 28" "field_at c_sockstat ''sa_local'' p = p + 40" "field_at c_sockstat ''sa_peer'' p = p + 168"
  by (simp_all add: field_at_def offset_of_def layout c_kinfo_proc_def c_filestat_def c_filestat__bindgen_ty_1_def
      c_filestat_list_def c_sockstat_def)

lemma demo_reports: "reports demo_lib \<lparr>ps_open = True, ps_procs = Some [demo_kproc]\<rparr> Map.empty"
proof -
  let ?m = "place 0x1000 demo_kinfo Map.empty"
  let ?mf = "place 0x2000 demo_files ?m" and ?ma = "place 0x3000 demo_argv ?m"
  have len: "length demo_kinfo = 1088" "length demo_files = 88" "length demo_argv = 19"
    by (simp_all add: demo_kinfo_def demo_files_def demo_argv_def nc_bytes)
  have free: "unplace 0x1000 1088 ?m = Map.empty" "unplace 0x2000 88 ?mf = ?m" "unplace 0x3000 19 ?ma = ?m"
    by (rule unplace_place; simp add: len place_def)+
  have ints: "load_int ?m (0x1000 + 72) = Some 7" "load_int ?mf (0x2000 + 16) = Some 3"
    using load_place [of 72 4 demo_kinfo "0x1000" Map.empty] load_place [of 16 4 demo_files "0x2000" ?m]
    by (simp_all add: load_int_def len le_int_def) (simp_all add: demo_kinfo_def demo_files_def)
  have ptrs: "load_ptr ?mf 0x2000 = Some 0x2010" "load_ptr ?mf (0x2000 + 64) = Some 0" "load_ptr ?ma 0x3000 = Some 0x3010"
    "load_ptr ?ma (0x3000 + 8) = Some 0"
    using load_place [of 0 8 demo_files "0x2000" ?m] load_place [of 64 8 demo_files "0x2000" ?m]
      load_place [of 0 8 demo_argv "0x3000" ?m] load_place [of 8 8 demo_argv "0x3000" ?m]
    by (simp_all add: load_ptr_def len) (simp_all add: demo_files_def demo_argv_def nc_bytes)
  have strs: "c_string ?m (0x1000 + 447) = Some (as_bytes ''nc'')" "c_string ?ma (0x3000 + 16) = Some (as_bytes ''nc'')"
    using c_string_place [of 447 demo_kinfo "0x1000" Map.empty] c_string_place [of 16 demo_argv "0x3000" ?m]
    by (simp_all add: demo_kinfo_def demo_argv_def nc_bytes)
  have "takeWhile (\<lambda>c. c \<noteq> 0) (as_bytes ''/usr/bin/nc'' @ replicate 1013 0) = as_bytes ''/usr/bin/nc''"
    using nc_bytes(2) by (subst takeWhile_append2) auto
  then have path: "path_of (l_getpathname demo_lib 16 0x1000 ?m) = Some (ki_path demo_kproc)"
    by (simp add: path_of_def demo_lib_def buf_string_def demo_kproc_def)
  have at: "file_at demo_lib 16 ?mf 0x2010 = Some \<lparr>fs_type = 3,
      fs_sock = Some (17, [16, 2, 0, 53, 10, 0, 0, 1] @ replicate 120 0, replicate 128 0)\<rparr>"
    using ints(2) by (simp add: file_at_def field_addresses demo_lib_def PS_FST_TYPE_SOCKET_def demo_sock_def le_int_def)
  then have "shows_files demo_lib 16 ?m 0x1000 (ki_files demo_kproc)"
    using ptrs(1,2) free(2) by (simp add: shows_files_def demo_kproc_def field_addresses next_file_def) (simp add: demo_lib_def)
  moreover have "shows_argv demo_lib 16 ?m 0x1000 (ki_argv demo_kproc)"
    using ptrs(3,4) strs(2) free(3) by (simp add: shows_argv_def demo_kproc_def demo_lib_def)
  ultimately have "shows_proc demo_lib 16 ?m 0x1000 demo_kproc"
    using ints(1) strs(1) path by (simp add: shows_proc_def field_addresses) (simp add: demo_kproc_def)
  then show ?thesis using free(1) by (simp add: reports_def demo_lib_def)
qed

section \<open>Safety\<close>



text \<open>And so is the search for a running daemon, which stops at the first one it finds.\<close>

theorem daemon_search_memory_safe:
  assumes "reports lib r m"
  shows "\<exists>cs. daemon_running_mem lib me m = Some (daemon_running r me, m, cs) \<and> held [] cs = Some []"
  using assms
proof (cases rule: reports_cases)
  case (procs ps m0 p m1 ks)
  let ?cs = "[Acquire (Handle ps), Acquire (Procs p)]"
  obtain ds where "find_daemon lib ps me p [0..<length ks] (m1, ?cs)
      = Some (list_ex (is_daemon me) (map ((!) ks) [0..<length ks]), m1, ?cs @ ds)" "\<forall>st. held st ds = Some st"
    using find_daemon_ok [OF procs(8)] by blast
  then show ?thesis using procs by (simp add: daemon_running_mem_def daemon_running_def map_nth held_append)
qed (simp_all add: daemon_running_mem_def daemon_running_def)

theorem daemon_search_memory_safe_witness:
  "\<exists>cs. daemon_running_mem demo_lib 1 Map.empty
     = Some (daemon_running \<lparr>ps_open = True, ps_procs = Some [demo_kproc]\<rparr> 1, Map.empty, cs)"
  using daemon_search_memory_safe [OF demo_reports] by blast

end
