(* ===== verification/Bitfield.thy ===== *)
theory Bitfield
  imports Procstat_Mem
begin

unbundle bit_operations_syntax

text \<open>
  Bit fields (\<open>__BindgenBitfieldUnit\<close> in \<open>src/procstat_sys.rs\<close>) and the two descriptors that consist of them.
  \<open>big\<close> is whether the machine is big-endian.  The debug assertions are not there in a release build: an index
  beyond the storage panics, and a shift uses the low six bits of its amount.  The variants on a raw pointer work
  on memory and have no result on an address that is not mapped.  At the end, the arrays without a length
  (\<open>__IncompleteArrayField\<close>).
\<close>

section \<open>One bit\<close>

definition bit_index :: "bool \<Rightarrow> nat \<Rightarrow> nat" where
  "bit_index big i = (if big then 7 - i mod 8 else i mod 8)"

definition extract_bit :: "bool \<Rightarrow> u8 \<Rightarrow> nat \<Rightarrow> bool" where
  "extract_bit big byte i = (let mask = push_bit (bit_index big i) 1 in byte AND mask = mask)"

definition change_bit :: "bool \<Rightarrow> u8 \<Rightarrow> nat \<Rightarrow> bool \<Rightarrow> u8" where
  "change_bit big byte i v = (let mask = push_bit (bit_index big i) 1 in if v then byte OR mask else byte AND NOT mask)"

definition bf_get_bit :: "bool \<Rightarrow> bytes \<Rightarrow> nat \<Rightarrow> bool eval" where
  "bf_get_bit big st i = bindE (idx st (i div 8)) (\<lambda>byte. Ret (extract_bit big byte i))"

definition bf_set_bit :: "bool \<Rightarrow> bytes \<Rightarrow> nat \<Rightarrow> bool \<Rightarrow> bytes eval" where
  "bf_set_bit big st i v = bindE (idx st (i div 8)) (\<lambda>byte. Ret (st[i div 8 := change_bit big byte i v]))"

section \<open>A field\<close>

fun foldE :: "('a \<Rightarrow> 'b \<Rightarrow> 'b eval) \<Rightarrow> 'a list \<Rightarrow> 'b \<Rightarrow> 'b eval" where
  "foldE f [] b = Ret b"
| "foldE f (a # as) b = bindE (f a b) (foldE f as)"

text \<open>\<open>1 << n\<close> on a \<open>u64\<close>.\<close>

definition shl1 :: "nat \<Rightarrow> u64" where
  "shl1 n = push_bit (n mod 64) 1"

definition place_of :: "bool \<Rightarrow> nat \<Rightarrow> nat \<Rightarrow> nat" where
  "place_of big w i = (if big then w - 1 - i else i)"

definition bf_get :: "bool \<Rightarrow> bytes \<Rightarrow> nat \<Rightarrow> nat \<Rightarrow> u64 eval" where
  "bf_get big st off w =
     foldE (\<lambda>i val. bindE (bf_get_bit big st (i + off)) (\<lambda>b. Ret (if b then val OR shl1 (place_of big w i) else val))) [0..<w] 0"

definition bf_set :: "bool \<Rightarrow> bytes \<Rightarrow> nat \<Rightarrow> nat \<Rightarrow> u64 \<Rightarrow> bytes eval" where
  "bf_set big st off w val =
     foldE (\<lambda>i st. let mask = shl1 i in bf_set_bit big st (place_of big w i + off) (val AND mask = mask)) [0..<w] st"

section \<open>Bits of a storage\<close>

definition sbit :: "bool \<Rightarrow> bytes \<Rightarrow> nat \<Rightarrow> bool" where
  "sbit big st i = bit (st ! (i div 8)) (bit_index big i)"

lemma bit_index_lt [simp]: "bit_index big i < 8"
  by (auto simp: bit_index_def)

lemma bit_index_inj: "i div 8 = j div 8 \<Longrightarrow> bit_index big i = bit_index big j \<Longrightarrow> i = j"
proof -
  assume a: "i div 8 = j div 8" "bit_index big i = bit_index big j"
  have "i mod 8 < 8" "j mod 8 < 8" by simp_all
  then have "i mod 8 = j mod 8" using a(2) by (auto simp: bit_index_def split: if_splits)
  then show ?thesis using a(1) by (metis div_mult_mod_eq)
qed

lemma mask_test: "n < LENGTH('a::len) \<Longrightarrow> (w AND push_bit n 1 = push_bit n 1) = bit w n" for w :: "'a::len word"
proof
  assume n: "n < LENGTH('a)"
  {
    assume "w AND push_bit n 1 = push_bit n 1"
    then have "bit (w AND push_bit n 1) n" using n by (simp add: bit_simps)
    then show "bit w n" by (simp add: bit_simps)
  }
  assume "bit w n"
  then show "w AND push_bit n 1 = push_bit n 1"
    by (intro bit_word_eqI) (auto simp: bit_simps)
qed

lemma extract_bit_eq: "extract_bit big byte i = bit byte (bit_index big i)"
  using mask_test [of "bit_index big i" byte] by (simp add: extract_bit_def)

lemma bit_change_bit: "n < 8 \<Longrightarrow> bit (change_bit big byte i v) n = (if n = bit_index big i then v else bit byte n)"
  by (auto simp: change_bit_def Let_def bit_simps)

lemma bf_get_bit_ok: "i < 8 * length st \<Longrightarrow> bf_get_bit big st i = Ret (sbit big st i)"
  by (simp add: bf_get_bit_def idx_def extract_bit_eq sbit_def)

lemma bf_set_bit_ok:
  assumes "i < 8 * length st"
  shows "\<exists>st'. bf_set_bit big st i v = Ret st' \<and> length st' = length st
    \<and> (\<forall>j < 8 * length st. sbit big st' j = (if j = i then v else sbit big st j))"
proof -
  have i: "i div 8 < length st" using assms by simp
  let ?st = "st[i div 8 := change_bit big (st ! (i div 8)) i v]"
  have "sbit big ?st j = (if j = i then v else sbit big st j)" if "j < 8 * length st" for j
  proof (cases "j div 8 = i div 8")
    case True
    then show ?thesis using i bit_index_inj [of j i big] by (auto simp: sbit_def bit_change_bit)
  next
    case False
    then show ?thesis by (auto simp: sbit_def)
  qed
  then show ?thesis using i by (simp add: bf_set_bit_def idx_def)
qed

lemma shl1_test: "i < 64 \<Longrightarrow> (val AND shl1 i = shl1 i) = bit val i"
  using mask_test [of i val] by (simp add: shl1_def)

lemma set_loop:
  assumes "\<forall>i \<in> set is. f i < 8 * length st" "inj_on f (set is)" "distinct is" "\<forall>i \<in> set is. i < 64"
  shows "\<exists>st'. foldE (\<lambda>i st. let mask = shl1 i in bf_set_bit big st (f i) (val AND mask = mask)) is st = Ret st'
    \<and> length st' = length st
    \<and> (\<forall>j < 8 * length st. sbit big st' j = (if j \<in> f ` set is then bit val (the_inv_into (set is) f j) else sbit big st j))"
  using assms
proof (induction "is" arbitrary: st)
  case (Cons i "is")
  obtain st1 where s1: "bf_set_bit big st (f i) (bit val i) = Ret st1" "length st1 = length st"
    "\<And>j. j < 8 * length st \<Longrightarrow> sbit big st1 j = (if j = f i then bit val i else sbit big st j)"
    using bf_set_bit_ok [of "f i" st big "bit val i"] Cons.prems(1) by auto
  have inj: "inj_on f (set is)" using Cons.prems(2) by simp
  obtain st2 where s2: "foldE (\<lambda>i st. let mask = shl1 i in bf_set_bit big st (f i) (val AND mask = mask)) is st1 = Ret st2"
    "length st2 = length st"
    "\<And>j. j < 8 * length st \<Longrightarrow> sbit big st2 j = (if j \<in> f ` set is then bit val (the_inv_into (set is) f j) else sbit big st1 j)"
    using Cons.IH [of st1] Cons.prems inj s1(2) by auto
  have t: "(val AND shl1 i = shl1 i) = bit val i" using shl1_test Cons.prems(4) by simp
  have "sbit big st2 j = (if j \<in> f ` set (i # is) then bit val (the_inv_into (set (i # is)) f j) else sbit big st j)"
    if j: "j < 8 * length st" for j
  proof (cases "j \<in> f ` set is")
    case True
    then obtain k where k: "k \<in> set is" "j = f k" by blast
    have "the_inv_into (set is) f j = k" "the_inv_into (set (i # is)) f j = k"
      using the_inv_into_f_f [OF inj, of k] the_inv_into_f_f [OF Cons.prems(2), of k] k by auto
    then show ?thesis using s2(3) [OF j] True by simp
  next
    case False
    then show ?thesis
      using s2(3) [OF j] s1(3) [OF j] the_inv_into_f_f [OF Cons.prems(2), of i] by auto
  qed
  then show ?case using s1(1) s2(1,2) t by simp
qed simp

lemma get_loop:
  assumes "\<forall>i \<in> set is. i + off < 8 * length st" "\<forall>i \<in> set is. f i < 64"
  shows "\<exists>v. foldE (\<lambda>i val. bindE (bf_get_bit big st (i + off)) (\<lambda>b. Ret (if b then val OR shl1 (f i) else val))) is acc = Ret v
    \<and> (\<forall>k < 64. bit v k = (bit acc k \<or> (\<exists>i \<in> set is. f i = k \<and> sbit big st (i + off))))"
  using assms
proof (induction "is" arbitrary: acc)
  case (Cons i "is")
  let ?acc = "if sbit big st (i + off) then acc OR shl1 (f i) else acc"
  have "bit ?acc k = (bit acc k \<or> f i = k \<and> sbit big st (i + off))" if "k < 64" for k
    using that Cons.prems(2) by (auto simp: shl1_def bit_simps)
  moreover have "bf_get_bit big st (i + off) = Ret (sbit big st (i + off))" using bf_get_bit_ok Cons.prems(1) by simp
  ultimately show ?case using Cons.IH [of ?acc] Cons.prems by auto
qed simp

text \<open>Which bit of the value is the \<open>k\<close>-th of the field in storage, and back.\<close>

lemma place_of_place_of: "i < w \<Longrightarrow> place_of big w (place_of big w i) = i" "i < w \<Longrightarrow> place_of big w i < w"
  by (auto simp: place_of_def)

lemma bf_get_ok:
  assumes "w \<le> 64" "off + w \<le> 8 * length st"
  shows "\<exists>v. bf_get big st off w = Ret v \<and> (\<forall>k < 64. bit v k = (k < w \<and> sbit big st (place_of big w k + off)))"
proof -
  have "\<forall>i \<in> set [0..<w]. i + off < 8 * length st" "\<forall>i \<in> set [0..<w]. place_of big w i < 64"
    using assms by (auto simp: place_of_def)
  from get_loop [OF this, of big 0] obtain v where v: "bf_get big st off w = Ret v"
    "\<And>k. k < 64 \<Longrightarrow> bit v k = (\<exists>i \<in> set [0..<w]. place_of big w i = k \<and> sbit big st (i + off))"
    by (auto simp: bf_get_def)
  have "(\<exists>i \<in> set [0..<w]. place_of big w i = k \<and> sbit big st (i + off)) = (k < w \<and> sbit big st (place_of big w k + off))" for k
    using place_of_place_of [of _ w big] by (metis atLeastLessThan_iff le0 set_upt)
  then show ?thesis using v by (intro exI [of _ v]) simp
qed

lemma bf_set_ok:
  assumes "w \<le> 64" "off + w \<le> 8 * length st"
  shows "\<exists>st'. bf_set big st off w val = Ret st' \<and> length st' = length st
    \<and> (\<forall>j < 8 * length st. sbit big st' j = (if off \<le> j \<and> j < off + w then bit val (place_of big w (j - off)) else sbit big st j))"
proof -
  let ?f = "\<lambda>i. place_of big w i + off"
  have inj: "inj_on ?f {0..<w}"
  proof (rule inj_onI)
    fix i j assume "i \<in> {0..<w}" "j \<in> {0..<w}" "?f i = ?f j"
    then have "place_of big w (place_of big w i) = place_of big w (place_of big w j)" "i < w" "j < w" by simp_all
    then show "i = j" by (simp only: place_of_place_of(1))
  qed
  have r: "\<forall>i \<in> set [0..<w]. ?f i < 8 * length st" "\<forall>i \<in> set [0..<w]. i < 64"
    using assms by (auto simp: place_of_def)
  have im: "j \<in> ?f ` {0..<w} \<longleftrightarrow> off \<le> j \<and> j < off + w" for j
  proof
    assume "j \<in> ?f ` {0..<w}"
    then show "off \<le> j \<and> j < off + w" using place_of_place_of(2) by fastforce
  next
    assume "off \<le> j \<and> j < off + w"
    then have "j = ?f (place_of big w (j - off))" "place_of big w (j - off) \<in> {0..<w}"
      using place_of_place_of [of "j - off" w big] by auto
    then show "j \<in> ?f ` {0..<w}" by blast
  qed
  have inv: "the_inv_into {0..<w} ?f j = place_of big w (j - off)" if "off \<le> j \<and> j < off + w" for j
    using that place_of_place_of [of "j - off" w big] by (intro the_inv_into_f_eq [OF inj]) auto
  from set_loop [of "[0..<w]" ?f st big val] r inj obtain st' where st': "bf_set big st off w val = Ret st'" "length st' = length st"
    "\<And>j. j < 8 * length st \<Longrightarrow> sbit big st' j = (if j \<in> ?f ` {0..<w} then bit val (the_inv_into {0..<w} ?f j) else sbit big st j)"
    unfolding bf_set_def by auto
  then show ?thesis using inv im by (auto split: if_splits)
qed

section \<open>Setting and getting\<close>

definition disjoint_fields :: "nat \<times> nat \<Rightarrow> nat \<times> nat \<Rightarrow> bool" where
  "disjoint_fields f g \<longleftrightarrow> fst f + snd f \<le> fst g \<or> fst g + snd g \<le> fst f"

lemma bf_get_cong:
  assumes "w \<le> 64" "off + w \<le> 8 * length st" "length st' = length st"
    "\<And>j. off \<le> j \<Longrightarrow> j < off + w \<Longrightarrow> sbit big st' j = sbit big st j"
  shows "bf_get big st' off w = bf_get big st off w"
proof -
  obtain v where v: "bf_get big st off w = Ret v" "\<And>k. k < 64 \<Longrightarrow> bit v k = (k < w \<and> sbit big st (place_of big w k + off))"
    using bf_get_ok [OF assms(1,2)] by blast
  obtain v' where v': "bf_get big st' off w = Ret v'" "\<And>k. k < 64 \<Longrightarrow> bit v' k = (k < w \<and> sbit big st' (place_of big w k + off))"
    using bf_get_ok [of w off st'] assms(1-3) by auto
  have "v' = v" using v(2) v'(2) assms(4) place_of_place_of(2) [of _ w big] by (intro bit_word_eqI) auto
  then show ?thesis using v(1) v'(1) by simp
qed

lemma bf_get_set:
  assumes "w \<le> 64" "off + w \<le> 8 * length st"
  obtains st' where "bf_set big st off w v = Ret st'" "length st' = length st" "bf_get big st' off w = Ret (take_bit w v)"
    "\<And>x n. n \<le> 64 \<Longrightarrow> x + n \<le> 8 * length st \<Longrightarrow> disjoint_fields (off, w) (x, n) \<Longrightarrow> bf_get big st' x n = bf_get big st x n"
proof -
  obtain st' where s: "bf_set big st off w v = Ret st'" "length st' = length st"
    "\<And>j. j < 8 * length st \<Longrightarrow> sbit big st' j = (if off \<le> j \<and> j < off + w then bit v (place_of big w (j - off)) else sbit big st j)"
    using bf_set_ok [OF assms] by blast
  obtain u where u: "bf_get big st' off w = Ret u" "\<And>k. k < 64 \<Longrightarrow> bit u k = (k < w \<and> sbit big st' (place_of big w k + off))"
    using bf_get_ok [of w off st'] assms s(2) by auto
  have "bit u k = bit (take_bit w v) k" if "k < 64" for k
    using u(2) [OF that] s(3) [of "place_of big w k + off"] place_of_place_of [of k w big] assms(2)
    by (auto simp: bit_take_bit_iff)
  then have "u = take_bit w v" by (intro bit_word_eqI) simp
  moreover have "bf_get big st' x n = bf_get big st x n" if "n \<le> 64" "x + n \<le> 8 * length st" "disjoint_fields (off, w) (x, n)" for x n
    using that s(2,3) by (intro bf_get_cong) (auto simp: disjoint_fields_def)
  ultimately show thesis using that s(1,2) u(1) by blast
qed

text \<open>Bit fields of any width up to 64 at any offset, in either byte order: a field that fits in the storage can be
  set without a panic and reads back as the low bits of what was written; the length and every field apart from it
  stay as they were.\<close>

theorem bitfield_roundtrip:
  assumes "w \<le> 64" "off + w \<le> 8 * length st"
  shows "\<exists>st'. bf_set big st off w v = Ret st' \<and> length st' = length st \<and> bf_get big st' off w = Ret (take_bit w v)
    \<and> (\<forall>x n. n \<le> 64 \<and> x + n \<le> 8 * length st \<and> disjoint_fields (off, w) (x, n) \<longrightarrow> bf_get big st' x n = bf_get big st x n)"
  using bf_get_set [OF assms, of big v] by metis

theorem bitfield_roundtrip_witness:
  "\<exists>st'. bf_set True [0, 0, 0] 5 9 0x1FF = Ret st' \<and> bf_get True st' 5 9 = Ret 0x1FF"
  using bitfield_roundtrip [of 9 5 "[0, 0, 0]" True "0x1FF"] by (auto simp: take_bit_eq_mod)

section \<open>The same through a raw pointer\<close>

definition raw_get_bit :: "bool \<Rightarrow> mem \<Rightarrow> nat \<Rightarrow> nat \<Rightarrow> bool option" where
  "raw_get_bit big m this i = map_option (\<lambda>byte. extract_bit big byte i) (m (this + i div 8))"

definition raw_set_bit :: "bool \<Rightarrow> mem \<Rightarrow> nat \<Rightarrow> nat \<Rightarrow> bool \<Rightarrow> mem option" where
  "raw_set_bit big m this i v = map_option (\<lambda>byte. m(this + i div 8 \<mapsto> change_bit big byte i v)) (m (this + i div 8))"

fun foldO :: "('a \<Rightarrow> 'b \<Rightarrow> 'b option) \<Rightarrow> 'a list \<Rightarrow> 'b \<Rightarrow> 'b option" where
  "foldO f [] b = Some b"
| "foldO f (a # as) b = Option.bind (f a b) (foldO f as)"

definition raw_get :: "bool \<Rightarrow> mem \<Rightarrow> nat \<Rightarrow> nat \<Rightarrow> nat \<Rightarrow> u64 option" where
  "raw_get big m this off w =
     foldO (\<lambda>i val. map_option (\<lambda>b. if b then val OR shl1 (place_of big w i) else val) (raw_get_bit big m this (i + off))) [0..<w] 0"

definition raw_set :: "bool \<Rightarrow> mem \<Rightarrow> nat \<Rightarrow> nat \<Rightarrow> nat \<Rightarrow> u64 \<Rightarrow> mem option" where
  "raw_set big m this off w val =
     foldO (\<lambda>i m. let mask = shl1 i in raw_set_bit big m this (place_of big w i + off) (val AND mask = mask)) [0..<w] m"

text \<open>Memory that holds a storage.\<close>

definition holds :: "mem \<Rightarrow> nat \<Rightarrow> bytes \<Rightarrow> bool" where
  "holds m a st \<longleftrightarrow> (\<forall>i < length st. m (a + i) = Some (st ! i))"

fun to_option :: "'a eval \<Rightarrow> 'a option" where
  "to_option Panic = None"
| "to_option (Ret a) = Some a"

lemma foldO_foldE:
  "(\<And>i b. i \<in> set is \<Longrightarrow> f i b = to_option (g i b)) \<Longrightarrow> foldO f is b = to_option (foldE g is b)"
proof (induction "is" arbitrary: b)
  case (Cons i "is")
  then show ?case by (cases "g i b") simp_all
qed simp

lemma raw_get_bit_eq: "holds m a st \<Longrightarrow> i < 8 * length st \<Longrightarrow> raw_get_bit big m a i = to_option (bf_get_bit big st i)"
  by (simp add: raw_get_bit_def bf_get_bit_def holds_def idx_def)

lemma raw_set_bit_eq:
  assumes "holds m a st" "bf_set_bit big st i v = Ret st'"
  shows "\<exists>m'. raw_set_bit big m a i v = Some m' \<and> holds m' a st' \<and> length st' = length st
    \<and> (\<forall>x. x < a \<or> a + length st \<le> x \<longrightarrow> m' x = m x)"
proof -
  have i: "i div 8 < length st" "st' = st[i div 8 := change_bit big (st ! (i div 8)) i v]"
    using assms(2) by (auto simp: bf_set_bit_def idx_def split: if_splits)
  then show ?thesis using assms(1)
    by (auto simp: raw_set_bit_def holds_def nth_list_update)
qed

lemma raw_set_loop:
  "holds m a st \<Longrightarrow> foldE (\<lambda>i st. bf_set_bit big st (f i) (v i)) is st = Ret st'
    \<Longrightarrow> \<exists>m'. foldO (\<lambda>i m. raw_set_bit big m a (f i) (v i)) is m = Some m' \<and> holds m' a st'
      \<and> (\<forall>x. x < a \<or> a + length st \<le> x \<longrightarrow> m' x = m x)"
proof (induction "is" arbitrary: m st)
  case (Cons i "is")
  then obtain st1 where st1: "bf_set_bit big st (f i) (v i) = Ret st1"
    "foldE (\<lambda>i st. bf_set_bit big st (f i) (v i)) is st1 = Ret st'"
    by (cases "bf_set_bit big st (f i) (v i)") auto
  obtain m1 where m1: "raw_set_bit big m a (f i) (v i) = Some m1" "holds m1 a st1" "length st1 = length st"
    "\<forall>x. x < a \<or> a + length st \<le> x \<longrightarrow> m1 x = m x"
    using raw_set_bit_eq [OF Cons.prems(1) st1(1)] by blast
  then show ?case using Cons.IH [OF m1(2) st1(2)] by auto
qed simp

text \<open>The accessors through a raw pointer agree with those on the storage: on memory that holds the storage they
  touch nothing else, read the same value and leave the storage that \<open>set\<close> returns.\<close>

theorem raw_bitfield_agrees:
  assumes "holds m this st" "w \<le> 64" "off + w \<le> 8 * length st"
  shows "raw_get big m this off w = to_option (bf_get big st off w)
    \<and> (\<exists>m' st'. bf_set big st off w v = Ret st' \<and> raw_set big m this off w v = Some m' \<and> holds m' this st'
        \<and> (\<forall>x. x \<notin> {this..<this + length st} \<longrightarrow> m' x = m x))"
proof -
  have "raw_get_bit big m this (i + off) = to_option (bf_get_bit big st (i + off))" if "i \<in> set [0..<w]" for i
    using raw_get_bit_eq [OF assms(1)] assms(3) that by simp
  then have "map_option h (raw_get_bit big m this (i + off)) = to_option (bindE (bf_get_bit big st (i + off)) (\<lambda>b. Ret (h b)))"
    if "i \<in> set [0..<w]" for i and h :: "bool \<Rightarrow> u64"
    using that by (cases "bf_get_bit big st (i + off)") simp_all
  then have "raw_get big m this off w = to_option (bf_get big st off w)"
    unfolding raw_get_def bf_get_def by (intro foldO_foldE) blast
  moreover obtain st' where st': "bf_set big st off w v = Ret st'" using bf_set_ok [OF assms(2,3)] by blast
  moreover obtain m' where "raw_set big m this off w v = Some m'" "holds m' this st'"
    "\<forall>x. x < this \<or> this + length st \<le> x \<longrightarrow> m' x = m x"
    using raw_set_loop [OF assms(1), of big "\<lambda>i. place_of big w i + off" "\<lambda>i. v AND shl1 i = shl1 i" "[0..<w]" st'] st'
    unfolding bf_set_def raw_set_def Let_def by blast
  ultimately show ?thesis by (metis atLeastLessThan_iff not_le)
qed

theorem raw_bitfield_agrees_witness:
  "raw_get False [8 \<mapsto> 0x5A, 9 \<mapsto> 0x01] 8 4 5 = to_option (bf_get False [0x5A, 0x01] 4 5)"
proof -
  have "holds [8 \<mapsto> 0x5A, 9 \<mapsto> 0x01] 8 [0x5A, 0x01]" by (simp add: holds_def less_Suc_eq)
  from raw_bitfield_agrees [OF this, of 5 4 False 0] show ?thesis by simp
qed

section \<open>The descriptors\<close>

text \<open>\<open>new_bitfield_1\<close> sets one field after the other, from a zeroed storage.\<close>

definition set_all :: "bool \<Rightarrow> (nat \<times> nat) list \<Rightarrow> u64 list \<Rightarrow> bytes \<Rightarrow> bytes eval" where
  "set_all big fs vals st = foldE (\<lambda>((off, w), v) st. bf_set big st off w v) (zip fs vals) st"

text \<open>The accessors of \<open>system_segment_descriptor\<close> and of \<open>region_descriptor\<close>: a descriptor is its storage.\<close>

definition sd_lolimit :: "bool \<Rightarrow> bytes \<Rightarrow> u64 eval" where
  "sd_lolimit big d = bf_get big d 0 16"

definition set_sd_lolimit :: "bool \<Rightarrow> u64 \<Rightarrow> bytes \<Rightarrow> bytes eval" where
  "set_sd_lolimit big val d = bf_set big d 0 16 val"

definition sd_lolimit_raw :: "bool \<Rightarrow> mem \<Rightarrow> nat \<Rightarrow> u64 option" where
  "sd_lolimit_raw big m this = raw_get big m (field_at c_system_segment_descriptor ''_bitfield_1'' this) 0 16"

definition set_sd_lolimit_raw :: "bool \<Rightarrow> u64 \<Rightarrow> mem \<Rightarrow> nat \<Rightarrow> mem option" where
  "set_sd_lolimit_raw big val m this = raw_set big m (field_at c_system_segment_descriptor ''_bitfield_1'' this) 0 16 val"

definition sd_lobase :: "bool \<Rightarrow> bytes \<Rightarrow> u64 eval" where
  "sd_lobase big d = bf_get big d 16 24"

definition set_sd_lobase :: "bool \<Rightarrow> u64 \<Rightarrow> bytes \<Rightarrow> bytes eval" where
  "set_sd_lobase big val d = bf_set big d 16 24 val"

definition sd_lobase_raw :: "bool \<Rightarrow> mem \<Rightarrow> nat \<Rightarrow> u64 option" where
  "sd_lobase_raw big m this = raw_get big m (field_at c_system_segment_descriptor ''_bitfield_1'' this) 16 24"

definition set_sd_lobase_raw :: "bool \<Rightarrow> u64 \<Rightarrow> mem \<Rightarrow> nat \<Rightarrow> mem option" where
  "set_sd_lobase_raw big val m this = raw_set big m (field_at c_system_segment_descriptor ''_bitfield_1'' this) 16 24 val"

definition sd_type :: "bool \<Rightarrow> bytes \<Rightarrow> u64 eval" where
  "sd_type big d = bf_get big d 40 5"

definition set_sd_type :: "bool \<Rightarrow> u64 \<Rightarrow> bytes \<Rightarrow> bytes eval" where
  "set_sd_type big val d = bf_set big d 40 5 val"

definition sd_type_raw :: "bool \<Rightarrow> mem \<Rightarrow> nat \<Rightarrow> u64 option" where
  "sd_type_raw big m this = raw_get big m (field_at c_system_segment_descriptor ''_bitfield_1'' this) 40 5"

definition set_sd_type_raw :: "bool \<Rightarrow> u64 \<Rightarrow> mem \<Rightarrow> nat \<Rightarrow> mem option" where
  "set_sd_type_raw big val m this = raw_set big m (field_at c_system_segment_descriptor ''_bitfield_1'' this) 40 5 val"

definition sd_dpl :: "bool \<Rightarrow> bytes \<Rightarrow> u64 eval" where
  "sd_dpl big d = bf_get big d 45 2"

definition set_sd_dpl :: "bool \<Rightarrow> u64 \<Rightarrow> bytes \<Rightarrow> bytes eval" where
  "set_sd_dpl big val d = bf_set big d 45 2 val"

definition sd_dpl_raw :: "bool \<Rightarrow> mem \<Rightarrow> nat \<Rightarrow> u64 option" where
  "sd_dpl_raw big m this = raw_get big m (field_at c_system_segment_descriptor ''_bitfield_1'' this) 45 2"

definition set_sd_dpl_raw :: "bool \<Rightarrow> u64 \<Rightarrow> mem \<Rightarrow> nat \<Rightarrow> mem option" where
  "set_sd_dpl_raw big val m this = raw_set big m (field_at c_system_segment_descriptor ''_bitfield_1'' this) 45 2 val"

definition sd_p :: "bool \<Rightarrow> bytes \<Rightarrow> u64 eval" where
  "sd_p big d = bf_get big d 47 1"

definition set_sd_p :: "bool \<Rightarrow> u64 \<Rightarrow> bytes \<Rightarrow> bytes eval" where
  "set_sd_p big val d = bf_set big d 47 1 val"

definition sd_p_raw :: "bool \<Rightarrow> mem \<Rightarrow> nat \<Rightarrow> u64 option" where
  "sd_p_raw big m this = raw_get big m (field_at c_system_segment_descriptor ''_bitfield_1'' this) 47 1"

definition set_sd_p_raw :: "bool \<Rightarrow> u64 \<Rightarrow> mem \<Rightarrow> nat \<Rightarrow> mem option" where
  "set_sd_p_raw big val m this = raw_set big m (field_at c_system_segment_descriptor ''_bitfield_1'' this) 47 1 val"

definition sd_hilimit :: "bool \<Rightarrow> bytes \<Rightarrow> u64 eval" where
  "sd_hilimit big d = bf_get big d 48 4"

definition set_sd_hilimit :: "bool \<Rightarrow> u64 \<Rightarrow> bytes \<Rightarrow> bytes eval" where
  "set_sd_hilimit big val d = bf_set big d 48 4 val"

definition sd_hilimit_raw :: "bool \<Rightarrow> mem \<Rightarrow> nat \<Rightarrow> u64 option" where
  "sd_hilimit_raw big m this = raw_get big m (field_at c_system_segment_descriptor ''_bitfield_1'' this) 48 4"

definition set_sd_hilimit_raw :: "bool \<Rightarrow> u64 \<Rightarrow> mem \<Rightarrow> nat \<Rightarrow> mem option" where
  "set_sd_hilimit_raw big val m this = raw_set big m (field_at c_system_segment_descriptor ''_bitfield_1'' this) 48 4 val"

definition sd_xx0 :: "bool \<Rightarrow> bytes \<Rightarrow> u64 eval" where
  "sd_xx0 big d = bf_get big d 52 3"

definition set_sd_xx0 :: "bool \<Rightarrow> u64 \<Rightarrow> bytes \<Rightarrow> bytes eval" where
  "set_sd_xx0 big val d = bf_set big d 52 3 val"

definition sd_xx0_raw :: "bool \<Rightarrow> mem \<Rightarrow> nat \<Rightarrow> u64 option" where
  "sd_xx0_raw big m this = raw_get big m (field_at c_system_segment_descriptor ''_bitfield_1'' this) 52 3"

definition set_sd_xx0_raw :: "bool \<Rightarrow> u64 \<Rightarrow> mem \<Rightarrow> nat \<Rightarrow> mem option" where
  "set_sd_xx0_raw big val m this = raw_set big m (field_at c_system_segment_descriptor ''_bitfield_1'' this) 52 3 val"

definition sd_gran :: "bool \<Rightarrow> bytes \<Rightarrow> u64 eval" where
  "sd_gran big d = bf_get big d 55 1"

definition set_sd_gran :: "bool \<Rightarrow> u64 \<Rightarrow> bytes \<Rightarrow> bytes eval" where
  "set_sd_gran big val d = bf_set big d 55 1 val"

definition sd_gran_raw :: "bool \<Rightarrow> mem \<Rightarrow> nat \<Rightarrow> u64 option" where
  "sd_gran_raw big m this = raw_get big m (field_at c_system_segment_descriptor ''_bitfield_1'' this) 55 1"

definition set_sd_gran_raw :: "bool \<Rightarrow> u64 \<Rightarrow> mem \<Rightarrow> nat \<Rightarrow> mem option" where
  "set_sd_gran_raw big val m this = raw_set big m (field_at c_system_segment_descriptor ''_bitfield_1'' this) 55 1 val"

definition sd_hibase :: "bool \<Rightarrow> bytes \<Rightarrow> u64 eval" where
  "sd_hibase big d = bf_get big d 56 40"

definition set_sd_hibase :: "bool \<Rightarrow> u64 \<Rightarrow> bytes \<Rightarrow> bytes eval" where
  "set_sd_hibase big val d = bf_set big d 56 40 val"

definition sd_hibase_raw :: "bool \<Rightarrow> mem \<Rightarrow> nat \<Rightarrow> u64 option" where
  "sd_hibase_raw big m this = raw_get big m (field_at c_system_segment_descriptor ''_bitfield_1'' this) 56 40"

definition set_sd_hibase_raw :: "bool \<Rightarrow> u64 \<Rightarrow> mem \<Rightarrow> nat \<Rightarrow> mem option" where
  "set_sd_hibase_raw big val m this = raw_set big m (field_at c_system_segment_descriptor ''_bitfield_1'' this) 56 40 val"

definition sd_xx1 :: "bool \<Rightarrow> bytes \<Rightarrow> u64 eval" where
  "sd_xx1 big d = bf_get big d 96 8"

definition set_sd_xx1 :: "bool \<Rightarrow> u64 \<Rightarrow> bytes \<Rightarrow> bytes eval" where
  "set_sd_xx1 big val d = bf_set big d 96 8 val"

definition sd_xx1_raw :: "bool \<Rightarrow> mem \<Rightarrow> nat \<Rightarrow> u64 option" where
  "sd_xx1_raw big m this = raw_get big m (field_at c_system_segment_descriptor ''_bitfield_1'' this) 96 8"

definition set_sd_xx1_raw :: "bool \<Rightarrow> u64 \<Rightarrow> mem \<Rightarrow> nat \<Rightarrow> mem option" where
  "set_sd_xx1_raw big val m this = raw_set big m (field_at c_system_segment_descriptor ''_bitfield_1'' this) 96 8 val"

definition sd_mbz :: "bool \<Rightarrow> bytes \<Rightarrow> u64 eval" where
  "sd_mbz big d = bf_get big d 104 5"

definition set_sd_mbz :: "bool \<Rightarrow> u64 \<Rightarrow> bytes \<Rightarrow> bytes eval" where
  "set_sd_mbz big val d = bf_set big d 104 5 val"

definition sd_mbz_raw :: "bool \<Rightarrow> mem \<Rightarrow> nat \<Rightarrow> u64 option" where
  "sd_mbz_raw big m this = raw_get big m (field_at c_system_segment_descriptor ''_bitfield_1'' this) 104 5"

definition set_sd_mbz_raw :: "bool \<Rightarrow> u64 \<Rightarrow> mem \<Rightarrow> nat \<Rightarrow> mem option" where
  "set_sd_mbz_raw big val m this = raw_set big m (field_at c_system_segment_descriptor ''_bitfield_1'' this) 104 5 val"

definition sd_xx2 :: "bool \<Rightarrow> bytes \<Rightarrow> u64 eval" where
  "sd_xx2 big d = bf_get big d 109 19"

definition set_sd_xx2 :: "bool \<Rightarrow> u64 \<Rightarrow> bytes \<Rightarrow> bytes eval" where
  "set_sd_xx2 big val d = bf_set big d 109 19 val"

definition sd_xx2_raw :: "bool \<Rightarrow> mem \<Rightarrow> nat \<Rightarrow> u64 option" where
  "sd_xx2_raw big m this = raw_get big m (field_at c_system_segment_descriptor ''_bitfield_1'' this) 109 19"

definition set_sd_xx2_raw :: "bool \<Rightarrow> u64 \<Rightarrow> mem \<Rightarrow> nat \<Rightarrow> mem option" where
  "set_sd_xx2_raw big val m this = raw_set big m (field_at c_system_segment_descriptor ''_bitfield_1'' this) 109 19 val"

definition sd_fields :: "(nat \<times> nat) list" where
  "sd_fields = [(0, 16), (16, 24), (40, 5), (45, 2), (47, 1), (48, 4), (52, 3), (55, 1), (56, 40), (96, 8), (104, 5), (109, 19)]"

definition sd_new_bitfield_1 :: "bool \<Rightarrow> u64 list \<Rightarrow> bytes eval" where
  "sd_new_bitfield_1 big vals = set_all big sd_fields vals (replicate 16 0)"

definition sd_getters :: "(bool \<Rightarrow> bytes \<Rightarrow> u64 eval) list" where
  "sd_getters = [sd_lolimit, sd_lobase, sd_type, sd_dpl, sd_p, sd_hilimit, sd_xx0, sd_gran, sd_hibase, sd_xx1, sd_mbz, sd_xx2]"

lemmas sd_getter_defs = sd_lolimit_def sd_lobase_def sd_type_def sd_dpl_def sd_p_def sd_hilimit_def sd_xx0_def sd_gran_def sd_hibase_def sd_xx1_def sd_mbz_def sd_xx2_def

definition rd_limit :: "bool \<Rightarrow> bytes \<Rightarrow> u64 eval" where
  "rd_limit big d = bf_get big d 0 16"

definition set_rd_limit :: "bool \<Rightarrow> u64 \<Rightarrow> bytes \<Rightarrow> bytes eval" where
  "set_rd_limit big val d = bf_set big d 0 16 val"

definition rd_limit_raw :: "bool \<Rightarrow> mem \<Rightarrow> nat \<Rightarrow> u64 option" where
  "rd_limit_raw big m this = raw_get big m (field_at c_region_descriptor ''_bitfield_1'' this) 0 16"

definition set_rd_limit_raw :: "bool \<Rightarrow> u64 \<Rightarrow> mem \<Rightarrow> nat \<Rightarrow> mem option" where
  "set_rd_limit_raw big val m this = raw_set big m (field_at c_region_descriptor ''_bitfield_1'' this) 0 16 val"

definition rd_base :: "bool \<Rightarrow> bytes \<Rightarrow> u64 eval" where
  "rd_base big d = bf_get big d 16 64"

definition set_rd_base :: "bool \<Rightarrow> u64 \<Rightarrow> bytes \<Rightarrow> bytes eval" where
  "set_rd_base big val d = bf_set big d 16 64 val"

definition rd_base_raw :: "bool \<Rightarrow> mem \<Rightarrow> nat \<Rightarrow> u64 option" where
  "rd_base_raw big m this = raw_get big m (field_at c_region_descriptor ''_bitfield_1'' this) 16 64"

definition set_rd_base_raw :: "bool \<Rightarrow> u64 \<Rightarrow> mem \<Rightarrow> nat \<Rightarrow> mem option" where
  "set_rd_base_raw big val m this = raw_set big m (field_at c_region_descriptor ''_bitfield_1'' this) 16 64 val"

definition rd_fields :: "(nat \<times> nat) list" where
  "rd_fields = [(0, 16), (16, 64)]"

definition rd_new_bitfield_1 :: "bool \<Rightarrow> u64 list \<Rightarrow> bytes eval" where
  "rd_new_bitfield_1 big vals = set_all big rd_fields vals (replicate 10 0)"

definition rd_getters :: "(bool \<Rightarrow> bytes \<Rightarrow> u64 eval) list" where
  "rd_getters = [rd_limit, rd_base]"

lemmas rd_getter_defs = rd_limit_def rd_base_def

lemma set_all_ok:
  assumes "length vals = length fs" "sorted_wrt disjoint_fields fs" "\<forall>(off, w) \<in> set fs. w \<le> 64 \<and> off + w \<le> 8 * length st"
  shows "\<exists>st'. set_all big fs vals st = Ret st' \<and> length st' = length st
    \<and> map (\<lambda>(off, w). bf_get big st' off w) fs = map2 (\<lambda>(off, w) v. Ret (take_bit w v)) fs vals
    \<and> (\<forall>x n. n \<le> 64 \<longrightarrow> x + n \<le> 8 * length st \<longrightarrow> (\<forall>f \<in> set fs. disjoint_fields f (x, n)) \<longrightarrow> bf_get big st' x n = bf_get big st x n)"
  using assms
proof (induction fs arbitrary: vals st)
  case Nil
  then show ?case by (simp add: set_all_def)
next
  case (Cons f fs)
  obtain off w where f: "f = (off, w)" by fastforce
  obtain v vs where vals: "vals = v # vs" "length vs = length fs" using Cons.prems(1) by (cases vals) auto
  have "w \<le> 64" "off + w \<le> 8 * length st" using Cons.prems(3) f by auto
  then obtain st1 where st1: "bf_set big st off w v = Ret st1" "length st1 = length st" "bf_get big st1 off w = Ret (take_bit w v)"
    "\<And>x n. n \<le> 64 \<Longrightarrow> x + n \<le> 8 * length st \<Longrightarrow> disjoint_fields (off, w) (x, n) \<Longrightarrow> bf_get big st1 x n = bf_get big st x n"
    using bf_get_set [of w off st big v] by metis
  obtain st2 where st2: "set_all big fs vs st1 = Ret st2" "length st2 = length st"
    "map (\<lambda>(off, w). bf_get big st2 off w) fs = map2 (\<lambda>(off, w) v. Ret (take_bit w v)) fs vs"
    "\<And>x n. n \<le> 64 \<Longrightarrow> x + n \<le> 8 * length st \<Longrightarrow> (\<forall>f \<in> set fs. disjoint_fields f (x, n)) \<Longrightarrow> bf_get big st2 x n = bf_get big st1 x n"
    using Cons.IH [of vs st1] Cons.prems(2,3) vals(2) st1(2) by auto
  have "\<forall>g \<in> set fs. disjoint_fields g (off, w)"
    using Cons.prems(2) f by (auto simp: disjoint_fields_def)
  then have "bf_get big st2 off w = Ret (take_bit w v)"
    using st2(4) [of w off] st1(3) \<open>w \<le> 64\<close> \<open>off + w \<le> 8 * length st\<close> by simp
  then show ?case
    using st1 st2 f vals(1) by (intro exI [of _ st2]) (simp add: set_all_def)
qed

text \<open>A descriptor built from its fields has them: the fields cover the storage without overlap, and after
  \<open>new_bitfield_1\<close> every accessor returns the low bits of its argument.\<close>

theorem descriptor_fields:
  assumes "length vals = 12" "length vals' = 2"
  shows "(\<exists>d. sd_new_bitfield_1 big vals = Ret d
      \<and> map (\<lambda>g. g big d) sd_getters = map2 (\<lambda>(off, w) v. Ret (take_bit w v)) sd_fields vals)
    \<and> (\<exists>d. rd_new_bitfield_1 big vals' = Ret d
      \<and> map (\<lambda>g. g big d) rd_getters = map2 (\<lambda>(off, w) v. Ret (take_bit w v)) rd_fields vals')
    \<and> sum_list (map snd sd_fields) = 8 * size_of c_system_segment_descriptor
    \<and> sum_list (map snd rd_fields) = 8 * size_of c_region_descriptor"
proof -
  have f: "sorted_wrt disjoint_fields sd_fields" "\<forall>(off, w) \<in> set sd_fields. w \<le> 64 \<and> off + w \<le> 8 * length (replicate 16 (0 :: u8))"
    "sorted_wrt disjoint_fields rd_fields" "\<forall>(off, w) \<in> set rd_fields. w \<le> 64 \<and> off + w \<le> 8 * length (replicate 10 (0 :: u8))"
    by (simp_all add: sd_fields_def rd_fields_def disjoint_fields_def)
  have l: "length vals = length sd_fields" "length vals' = length rd_fields"
    using assms by (simp_all add: sd_fields_def rd_fields_def)
  have g: "map (\<lambda>g. g big d) sd_getters = map (\<lambda>(off, w). bf_get big d off w) sd_fields"
    "map (\<lambda>g. g big d) rd_getters = map (\<lambda>(off, w). bf_get big d off w) rd_fields" for d
    by (simp_all add: sd_getters_def sd_fields_def sd_getter_defs rd_getters_def rd_fields_def rd_getter_defs)
  show ?thesis
    using set_all_ok [OF l(1) f(1,2), of big] set_all_ok [OF l(2) f(3,4), of big]
    by (auto simp: g sd_new_bitfield_1_def rd_new_bitfield_1_def) (simp_all add: sd_fields_def rd_fields_def layout)
qed

theorem descriptor_fields_witness:
  "\<exists>d. rd_new_bitfield_1 False [0xFFFF, 0x123456789] = Ret d \<and> rd_base False d = Ret 0x123456789"
  using descriptor_fields [of "replicate 12 0" "[0xFFFF, 0x123456789]" False]
  by (auto simp: rd_getters_def rd_fields_def take_bit_eq_mod)

section \<open>Incomplete arrays\<close>

definition incomplete_as_ptr :: "nat \<Rightarrow> nat" where
  "incomplete_as_ptr this = this"

fun slice_at :: "ctype \<Rightarrow> mem \<Rightarrow> nat \<Rightarrow> nat \<Rightarrow> bytes list option" where
  "slice_at t m a 0 = Some []"
| "slice_at t m a (Suc n) = (case load_bytes m a (size_of t) of
      None \<Rightarrow> None
    | Some e \<Rightarrow> map_option ((#) e) (slice_at t m (a + size_of t) n))"

definition incomplete_as_slice :: "ctype \<Rightarrow> mem \<Rightarrow> nat \<Rightarrow> nat \<Rightarrow> bytes list option" where
  "incomplete_as_slice t m this len = slice_at t m (incomplete_as_ptr this) len"

definition incomplete_debug :: string where
  "incomplete_debug = ''__IncompleteArrayField''"

lemma load_bytes_append: "load_bytes m a (j + k) =
    Option.bind (load_bytes m a j) (\<lambda>xs. map_option ((@) xs) (load_bytes m (a + j) k))"
  by (induction m a j rule: load_bytes.induct) (auto split: option.split simp: option.map_comp comp_def map_option_case bind_eq_Some_conv)

lemma load_bytes_len: "load_bytes m a k = Some xs \<Longrightarrow> length xs = k"
  by (induction m a k arbitrary: xs rule: load_bytes.induct) (auto split: option.splits)

text \<open>The slice is the memory behind the field, cut into elements, and is there exactly when that memory is mapped.\<close>

lemma slice_at_bytes: "map_option concat (slice_at t m a n) = load_bytes m a (n * size_of t)
    \<and> (\<forall>es. slice_at t m a n = Some es \<longrightarrow> length es = n \<and> (\<forall>e \<in> set es. length e = size_of t))"
proof (induction n arbitrary: a)
  case 0
  then show ?case by simp
next
  case (Suc n)
  have "load_bytes m a (Suc n * size_of t) = Option.bind (load_bytes m a (size_of t))
      (\<lambda>xs. map_option ((@) xs) (map_option concat (slice_at t m (a + size_of t) n)))"
    using Suc.IH [of "a + size_of t"] by (simp add: load_bytes_append)
  then show ?case
    using Suc.IH [of "a + size_of t"] load_bytes_len [of m a "size_of t"]
    by (cases "load_bytes m a (size_of t)"; cases "slice_at t m (a + size_of t) n") auto
qed

text \<open>It begins where the structure it is the last field of ends: the field takes no room.\<close>

lemma incomplete_size:
  "size_of (c_IncompleteArrayField t) = 0 \<and> align_of (c_IncompleteArrayField t) = max 1 (align_of t)"
proof -
  have "round_up 0 a = 0" for a by (cases a) (simp_all add: round_up_def)
  then show ?thesis by (simp add: c_IncompleteArrayField_def)
qed

end
