(* ===== verification/Source_Tests.thy ===== *)
theory Source_Tests
  imports Daemon
begin

text \<open>
  The unit tests of the repository, one definition per test, with the model's functions in the place of the code's:
  what a test asserts is what its definition says.  They hold of the model.
\<close>

unbundle bit_operations_syntax

section \<open>Helpers of the tests\<close>

definition addr :: "string \<Rightarrow> ip_addr" where
  "addr s = the (parse_ip s)"

text \<open>\<open>load_from\<close>: the policy in a new file.\<close>

definition load_from :: "string \<Rightarrow> string \<Rightarrow> policy \<times> string \<times> disk" where
  "load_from name body =
     (let p = ''/tmp/pfsnitch-test-'' @ name @ ''.conf'';
          dk = snd (fs_write \<lparr>files = Map.empty, denied = {}\<rparr> p body)
      in (fst (policy_load dk p), p, dk))"

definition APP :: string where "APP = ''/usr/local/bin/someapp''"
definition OTHER :: string where "OTHER = ''/usr/local/bin/otherapp''"

definition file_contains :: "disk \<Rightarrow> string \<Rightarrow> string \<Rightarrow> bool" where
  "file_contains dk path pat = (case read_to_string dk path of Inl e \<Rightarrow> False | Inr t \<Rightarrow> text_contains t pat)"

text \<open>Headers: IPv6 with a payload, IPv4 from 10.0.0.2 with a TCP header, and the TCP header.\<close>

definition t_v6 :: "u8 \<Rightarrow> bytes \<Rightarrow> bytes" where
  "t_v6 nh rest = [0x60, 0, 0, 0] @ to_be16 (word_of_nat (length rest)) @ [nh, 64]
     @ [0x20, 0x01, 0x0d, 0xb8, 0, 0, 0, 0, 0, 0, 0, 0, 0, 0, 0, 1]
     @ [0x20, 0x01, 0x48, 0x60, 0, 0, 0, 0, 0, 0, 0, 0, 0, 0, 0x88, 0x88] @ rest"

definition t_tcp :: "u16 \<Rightarrow> u16 \<Rightarrow> u8 \<Rightarrow> bytes" where
  "t_tcp sport dport flags = to_be16 sport @ to_be16 dport @ replicate 8 0 @ [0x50, flags] @ replicate 6 0"

definition t_v4 :: "bytes \<Rightarrow> bytes \<Rightarrow> bytes" where
  "t_v4 dst rest = [0x45, 0, 0, 40, 0, 0, 0, 0, 64, 6, 0, 0] @ [10, 0, 0, 2] @ dst @ rest"

definition flow_holds :: "bytes \<Rightarrow> (flow \<Rightarrow> bool) \<Rightarrow> bool" where
  "flow_holds pkt P = (case parse pkt of Ret (Some f) \<Rightarrow> P f | _ \<Rightarrow> False)"

definition rst_holds :: "bytes \<Rightarrow> (bytes \<Rightarrow> bool) \<Rightarrow> bool" where
  "rst_holds pkt P = (case tcp_rst pkt of Ret (Some r) \<Rightarrow> P r | _ \<Rightarrow> False)"

definition sums_to_zero :: "bytes list \<Rightarrow> bool" where
  "sums_to_zero parts \<longleftrightarrow> csum parts = 0"

definition own :: "int \<Rightarrow> string \<Rightarrow> owner" where
  "own pn name = \<lparr>pid = pn, command = name, opath = ''/usr/sbin/'' @ name\<rparr>"

definition t_tuple :: "u8 \<Rightarrow> ip_addr \<Rightarrow> u16 \<Rightarrow> ip_addr \<Rightarrow> u16 \<Rightarrow> tuple" where
  "t_tuple pr src sp dst dp = \<lparr>t_proto = pr, t_src = src, t_sport = sp, t_dst = dst, t_dport = dp\<rparr>"

definition insert_exact :: "tuple \<Rightarrow> owner \<Rightarrow> tables \<Rightarrow> tables" where
  "insert_exact t ow tb = tb\<lparr>exact := hm_insert t ow (exact tb)\<rparr>"

definition insert_unconnected :: "u8 \<Rightarrow> ip_addr \<Rightarrow> u16 \<Rightarrow> owner \<Rightarrow> tables \<Rightarrow> tables" where
  "insert_unconnected proto locl pt ow tb =
     (if is_unspecified locl then add_port (proto, pt) ow tb
      else add_port (proto, pt) ow (add_local (proto, locl, pt) ow tb))"

definition found :: "tables \<Rightarrow> tuple \<Rightarrow> bool \<Rightarrow> (attributed \<Rightarrow> bool) \<Rightarrow> bool" where
  "found tb t outbound P = (case tables_get tb t outbound of None \<Rightarrow> False | Some a \<Rightarrow> P a)"

section \<open>The tests\<close>

definition t_deny_dest_is_a_listed_kind :: bool where
  "t_deny_dest_is_a_listed_kind \<longleftrightarrow> (''deny-dest'' \<in> set KINDS)"

definition t_deny_dest_blocks_every_application :: bool where
  "t_deny_dest_blocks_every_application \<longleftrightarrow> (case load_from ''deny-dest'' (unlines
       [''default allow'', ''deny-dest 203.0.113.9'']) of (pol, path, dk) \<Rightarrow>
     decide pol (Some APP) (addr ''203.0.113.9'') None 443 = Deny
     \<and> decide pol (Some OTHER) (addr ''203.0.113.9'') None 443 = Deny
     \<and> decide pol None (addr ''203.0.113.9'') None 443 = Deny
     \<and> decide pol (Some APP) (addr ''198.51.100.7'') None 443 = Allow)"

definition t_deny_dest_outranks_a_per_app_allow :: bool where
  "t_deny_dest_outranks_a_per_app_allow \<longleftrightarrow> (case load_from ''deny-dest-prec'' (unlines
       [''default ask'', ''allow-app /usr/local/bin/someapp'', ''deny-dest 203.0.113.9'']) of (pol, path, dk)
       \<Rightarrow>
     decide pol (Some APP) (addr ''203.0.113.9'') None 443 = Deny)"

definition t_deny_dest_honours_its_port_scope :: bool where
  "t_deny_dest_honours_its_port_scope \<longleftrightarrow> (case load_from ''deny-dest-port'' (unlines
       [''default allow'', ''deny-dest 203.0.113.9:443'']) of (pol, path, dk) \<Rightarrow>
     decide pol (Some APP) (addr ''203.0.113.9'') None 443 = Deny
     \<and> decide pol (Some APP) (addr ''203.0.113.9'') None 80 = Allow)"

definition t_blocking_an_unattributed_connection_actually_writes_a_rule :: bool where
  "t_blocking_an_unattributed_connection_actually_writes_a_rule \<longleftrightarrow> (case load_from
       ''unattr-block'' (unlines [''default ask'']) of (pol0, path, dk0) \<Rightarrow>
     (case policy_record dk0 path pol0 Block None (addr ''203.0.113.9'') None 443 Approved of (pol1, dk1)
       \<Rightarrow>
       decide pol1 None (addr ''203.0.113.9'') None 443 = Deny
       \<and> decide pol1 (Some APP) (addr ''203.0.113.9'') None 443 = Deny
       \<and> file_contains dk1 path ''deny-dest 203.0.113.9:443''))"

definition t_blocking_an_unattributed_connection_prefers_the_hostname :: bool where
  "t_blocking_an_unattributed_connection_prefers_the_hostname \<longleftrightarrow> (case load_from
       ''unattr-block-host'' (unlines [''default ask'']) of (pol0, path, dk0) \<Rightarrow>
     (case policy_record dk0 path pol0 Block None (addr ''203.0.113.9'') (Some ''metrics.example.com'') 443
       Approved of (pol1, dk1) \<Rightarrow>
       decide pol1 None (addr ''198.51.100.7'') (Some ''metrics.example.com'') 443 = Deny
       \<and> file_contains dk1 path ''deny-host metrics.example.com:443''))"

definition t_an_app_wide_answer_without_a_binary_writes_nothing :: bool where
  "t_an_app_wide_answer_without_a_binary_writes_nothing \<longleftrightarrow> (case load_from ''unattr-appwide''
       (unlines [''default ask'']) of (pol0, path, dk0) \<Rightarrow>
     (case policy_record dk0 path pol0 AllowApp None (addr ''203.0.113.9'') None 443 Approved of (pol1, dk1)
       \<Rightarrow>
     (case policy_record dk1 path pol1 BlockApp None (addr ''203.0.113.9'') None 443 Approved of (pol2, dk2)
       \<Rightarrow>
       decide pol2 None (addr ''203.0.113.9'') None 443 = Ask
       \<and> read_to_string dk2 path = Inr (unlines [''default ask'']))))"

definition t_blocking_one_destination_leaves_the_app_otherwise_working :: bool where
  "t_blocking_one_destination_leaves_the_app_otherwise_working \<longleftrightarrow> (case load_from ''scoped''
       (unlines [''default allow'', ''deny-host-from metrics.example.com /usr/local/bin/someapp'']) of (pol, path,
       dk) \<Rightarrow>
     decide pol (Some APP) (addr ''203.0.113.9'') (Some ''metrics.example.com'') 443 = Deny
     \<and> decide pol (Some APP) (addr ''203.0.113.9'') (Some ''api.example.com'') 443 = Allow
     \<and> decide pol (Some OTHER) (addr ''203.0.113.9'') (Some ''metrics.example.com'') 443 = Allow)"

definition t_a_scoped_deny_outranks_a_broader_allow :: bool where
  "t_a_scoped_deny_outranks_a_broader_allow \<longleftrightarrow> (case load_from ''precedence'' (unlines
       [''default ask'', ''allow-host metrics.example.com'',
       ''deny-host-from metrics.example.com /usr/local/bin/someapp'']) of (pol, path, dk) \<Rightarrow>
     decide pol (Some APP) (addr ''203.0.113.9'') (Some ''metrics.example.com'') 443 = Deny
     \<and> decide pol (Some OTHER) (addr ''203.0.113.9'') (Some ''metrics.example.com'') 443 = Allow)"

definition t_scoped_deny_also_outranks_allow_app_for_that_destination :: bool where
  "t_scoped_deny_also_outranks_allow_app_for_that_destination \<longleftrightarrow> (case load_from ''vsallowapp''
       (unlines [''default ask'', ''allow-app /usr/local/bin/someapp'',
       ''deny-host-from metrics.example.com /usr/local/bin/someapp'']) of (pol, path, dk) \<Rightarrow>
     decide pol (Some APP) (addr ''203.0.113.9'') (Some ''metrics.example.com'') 443 = Deny
     \<and> decide pol (Some APP) (addr ''203.0.113.9'') (Some ''cdn.example.com'') 443 = Allow)"

definition t_scoped_deny_by_bare_address_when_no_hostname_was_seen :: bool where
  "t_scoped_deny_by_bare_address_when_no_hostname_was_seen \<longleftrightarrow> (case load_from ''byaddr''
       (unlines [''default allow'', ''deny-dest-from 203.0.113.9 /usr/local/bin/someapp'']) of (pol, path, dk)
       \<Rightarrow>
     decide pol (Some APP) (addr ''203.0.113.9'') None 443 = Deny
     \<and> decide pol (Some APP) (addr ''203.0.113.10'') None 443 = Allow
     \<and> decide pol (Some OTHER) (addr ''203.0.113.9'') None 443 = Allow)"

definition t_wildcards_work_in_scoped_rules_too :: bool where
  "t_wildcards_work_in_scoped_rules_too \<longleftrightarrow> (case load_from ''wildcard'' (unlines
       [''default allow'', ''deny-host-from *.telemetry.example.com /usr/local/bin/someapp'']) of (pol, path, dk)
       \<Rightarrow>
     decide pol (Some APP) (addr ''203.0.113.9'') (Some ''eu.telemetry.example.com'') 443 = Deny
     \<and> decide pol (Some APP) (addr ''203.0.113.9'') (Some ''telemetry.example.com'') 443 = Deny
     \<and> decide pol (Some APP) (addr ''203.0.113.9'') (Some ''example.com'') 443 = Allow)"

definition t_an_executable_path_containing_spaces_still_parses :: bool where
  "t_an_executable_path_containing_spaces_still_parses \<longleftrightarrow> (case load_from ''spacey'' (unlines
       [''default allow'', ''deny-host-from metrics.example.com /opt/My App/bin/app'']) of (pol, path, dk)
       \<Rightarrow>
     decide pol (Some ''/opt/My App/bin/app'') (addr ''203.0.113.9'') (Some ''metrics.example.com'') 443 = Deny)"

definition t_a_port_scoped_rule_does_not_open_other_ports :: bool where
  "t_a_port_scoped_rule_does_not_open_other_ports \<longleftrightarrow> (case load_from ''portscope'' (unlines
       [''default ask'', ''allow-host-from example.com:443 /usr/local/bin/someapp'']) of (pol, path, dk) \<Rightarrow>
     decide pol (Some APP) (addr ''203.0.113.9'') (Some ''example.com'') 443 = Allow
     \<and> decide pol (Some APP) (addr ''203.0.113.9'') (Some ''example.com'') 22 = Ask
     \<and> decide pol (Some APP) (addr ''203.0.113.9'') (Some ''example.com'') 80 = Ask)"

definition t_a_rule_without_a_port_still_means_any_port :: bool where
  "t_a_rule_without_a_port_still_means_any_port \<longleftrightarrow> (case load_from ''portless'' (unlines
       [''default ask'', ''allow-host-from example.com /usr/local/bin/someapp'']) of (pol, path, dk) \<Rightarrow>
     list_all (\<lambda>p. decide pol (Some APP) (addr ''203.0.113.9'') (Some ''example.com'') p = Allow) [22, 80,
       443, 8080])"

definition t_a_port_scoped_deny_only_blocks_that_port :: bool where
  "t_a_port_scoped_deny_only_blocks_that_port \<longleftrightarrow> (case load_from ''denyport'' (unlines
       [''default allow'', ''deny-host-from example.com:443 /usr/local/bin/someapp'']) of (pol, path, dk)
       \<Rightarrow>
     decide pol (Some APP) (addr ''203.0.113.9'') (Some ''example.com'') 443 = Deny
     \<and> decide pol (Some APP) (addr ''203.0.113.9'') (Some ''example.com'') 80 = Allow)"

definition t_ipv6_literal_with_a_port_is_parsed_and_matched :: bool where
  "t_ipv6_literal_with_a_port_is_parsed_and_matched \<longleftrightarrow> (case load_from ''v6port'' (unlines
       [''default ask'', ''allow-dest-from [2606:4700:4700::1111]:853 /usr/local/bin/someapp'']) of (pol, path, dk)
       \<Rightarrow>
     decide pol (Some APP) (addr ''2606:4700:4700::1111'') None 853 = Allow
     \<and> decide pol (Some APP) (addr ''2606:4700:4700::1111'') None 443 = Ask)"

definition t_approving_a_host_for_one_app_does_not_open_it_for_others :: bool where
  "t_approving_a_host_for_one_app_does_not_open_it_for_others \<longleftrightarrow> (case load_from ''scopedallow''
       (unlines [''default ask'', ''allow-host-from api.example.com /usr/local/bin/someapp'']) of (pol, path, dk)
       \<Rightarrow>
     decide pol (Some APP) (addr ''203.0.113.9'') (Some ''api.example.com'') 443 = Allow
     \<and> decide pol (Some OTHER) (addr ''203.0.113.9'') (Some ''api.example.com'') 443 = Ask)"

definition t_a_scoped_deny_still_beats_a_scoped_allow_for_another_app :: bool where
  "t_a_scoped_deny_still_beats_a_scoped_allow_for_another_app \<longleftrightarrow> (case load_from ''mixedscope''
       (unlines [''default ask'', ''allow-host-from api.example.com /usr/local/bin/someapp'',
       ''deny-host-from api.example.com /usr/local/bin/otherapp'']) of (pol, path, dk) \<Rightarrow>
     decide pol (Some APP) (addr ''203.0.113.9'') (Some ''api.example.com'') 443 = Allow
     \<and> decide pol (Some OTHER) (addr ''203.0.113.9'') (Some ''api.example.com'') 443 = Deny)"

definition t_a_scoped_deny_beats_a_scoped_allow_for_the_same_app :: bool where
  "t_a_scoped_deny_beats_a_scoped_allow_for_the_same_app \<longleftrightarrow> (case load_from ''contradiction''
       (unlines [''default ask'', ''allow-host-from api.example.com /usr/local/bin/someapp'',
       ''deny-host-from api.example.com /usr/local/bin/someapp'']) of (pol, path, dk) \<Rightarrow>
     decide pol (Some APP) (addr ''203.0.113.9'') (Some ''api.example.com'') 443 = Deny)"

definition t_a_global_allow_host_still_covers_every_binary :: bool where
  "t_a_global_allow_host_still_covers_every_binary \<longleftrightarrow> (case load_from ''globalallow'' (unlines
       [''default ask'', ''allow-host dns.example.com'']) of (pol, path, dk) \<Rightarrow>
     decide pol (Some APP) (addr ''203.0.113.9'') (Some ''dns.example.com'') 443 = Allow
     \<and> decide pol (Some OTHER) (addr ''203.0.113.9'') (Some ''dns.example.com'') 443 = Allow
     \<and> decide pol None (addr ''203.0.113.9'') (Some ''dns.example.com'') 443 = Allow)"

definition t_a_scoped_allow_cannot_match_an_unattributed_connection :: bool where
  "t_a_scoped_allow_cannot_match_an_unattributed_connection \<longleftrightarrow> (case load_from ''unattributed''
       (unlines [''default ask'', ''allow-host-from api.example.com /usr/local/bin/someapp'']) of (pol, path, dk)
       \<Rightarrow>
     decide pol None (addr ''203.0.113.9'') (Some ''api.example.com'') 443 = Ask)"

definition t_plain_hostname_means_any_port :: bool where
  "t_plain_hostname_means_any_port \<longleftrightarrow> (split_target ''example.com'' = (''example.com'', None))"

definition t_hostname_with_port :: bool where
  "t_hostname_with_port \<longleftrightarrow> (split_target ''example.com:443'' = (''example.com'', Some 443))"

definition t_bare_ipv6_is_not_mistaken_for_a_port :: bool where
  "t_bare_ipv6_is_not_mistaken_for_a_port \<longleftrightarrow> (split_target ''2606:4700:4700::1111'' =
       (''2606:4700:4700::1111'', None))"

definition t_bracketed_ipv6_with_port :: bool where
  "t_bracketed_ipv6_with_port \<longleftrightarrow> (split_target ''[2606:4700:4700::1111]:853'' =
       (''2606:4700:4700::1111'', Some 853))"

definition t_bracketed_ipv6_without_port :: bool where
  "t_bracketed_ipv6_without_port \<longleftrightarrow> (split_target ''[2606:4700:4700::1111]'' =
       (''2606:4700:4700::1111'', None))"

definition t_ipv4_with_and_without_port :: bool where
  "t_ipv4_with_and_without_port \<longleftrightarrow> (split_target ''1.1.1.1'' = (''1.1.1.1'', None)
     \<and> split_target ''1.1.1.1:53'' = (''1.1.1.1'', Some 53))"

definition t_a_port_that_is_not_a_number_stays_part_of_the_name :: bool where
  "t_a_port_that_is_not_a_number_stays_part_of_the_name \<longleftrightarrow> (split_target ''example.com:https'' =
       (''example.com:https'', None))"

definition t_round_trips :: bool where
  "t_round_trips \<longleftrightarrow> list_all (\<lambda>s. case split_target s of (h, p) \<Rightarrow>
       join_target h p = s)
     [''example.com'', ''example.com:443'', ''1.1.1.1:53'', ''[2606:4700::1111]:853'']"

definition t_v6_syn_is_parsed_and_recognised_as_a_connection_attempt :: bool where
  "t_v6_syn_is_parsed_and_recognised_as_a_connection_attempt \<longleftrightarrow> flow_holds (t_v6 6 (t_tcp 41000
       443 0x02)) (\<lambda>f. f_proto f = 6 \<and> f_dport f = 443 \<and> f_sport f = 41000
     \<and> f_dst f = addr ''2001:4860::8888'' \<and> f_syn_only f)"

definition t_v6_synack_is_not_a_connection_attempt :: bool where
  "t_v6_synack_is_not_a_connection_attempt \<longleftrightarrow> flow_holds (t_v6 6 (t_tcp 443 41000 0x12))
       (\<lambda>f. \<not> f_syn_only f)"

definition t_v6_extension_headers_are_walked_to_reach_the_real_protocol :: bool where
  "t_v6_extension_headers_are_walked_to_reach_the_real_protocol \<longleftrightarrow> flow_holds (t_v6 0 ([6, 0, 0,
       0, 0, 0, 0, 0] @ t_tcp 41000 443 0x02))
     (\<lambda>f. f_proto f = 6 \<and> f_dport f = 443 \<and> f_syn_only f)"

definition t_v6_non_first_fragment_is_refused_rather_than_misparsed :: bool where
  "t_v6_non_first_fragment_is_refused_rather_than_misparsed \<longleftrightarrow> (parse (t_v6 44 ([6, 0, 0x00,
       0x08, 0, 0, 0, 1] @ t_tcp 41000 443 0x02)) = Ret None)"

definition t_v6_udp_payload_offset_lands_after_the_udp_header :: bool where
  "t_v6_udp_payload_offset_lands_after_the_udp_header \<longleftrightarrow> (let pkt = t_v6 17 ([0x00, 0x35, 0x00,
       0x35, 0, 8, 0, 0] @ as_bytes ''DNSBODY'') in
     payload_offset pkt = Ret (Some 48) \<and> drop 48 pkt = as_bytes ''DNSBODY'')"

definition t_v4_still_parses_unchanged :: bool where
  "t_v4_still_parses_unchanged \<longleftrightarrow> flow_holds (t_v4 [8, 8, 8, 8] (t_tcp 41000 443 0x02))
       (\<lambda>f. f_dst f = addr ''8.8.8.8'' \<and> f_dport f = 443 \<and> f_syn_only f)"

definition t_v4_rst_has_valid_ip_and_tcp_checksums :: bool where
  "t_v4_rst_has_valid_ip_and_tcp_checksums \<longleftrightarrow> rst_holds (t_v4 [93, 184, 216, 34] (t_tcp 41000
       443 0x02)) (\<lambda>r. length r = 40 \<and> sums_to_zero [take 20 r]
     \<and> sums_to_zero [[93, 184, 216, 34, 10, 0, 0, 2, 0, 6, 0, 20], drop 20 r])"

definition t_v4_rst_is_addressed_back_to_the_sender :: bool where
  "t_v4_rst_is_addressed_back_to_the_sender \<longleftrightarrow> rst_holds (t_v4 [93, 184, 216, 34] (t_tcp 41000
       443 0x02)) (\<lambda>r. take 4 (drop 12 r) = [93, 184, 216, 34]
     \<and> take 4 (drop 16 r) = [10, 0, 0, 2] \<and> from_be16 (r ! 20) (r ! 21) = 443 \<and> from_be16 (r ! 22)
       (r ! 23) = 41000
     \<and> and (r ! 33) 0x04 = 0x04 \<and> from_be32 (r ! 28) (r ! 29) (r ! 30) (r ! 31) = 1)"

definition t_v6_rst_has_a_valid_tcp_checksum :: bool where
  "t_v6_rst_has_a_valid_tcp_checksum \<longleftrightarrow> rst_holds (t_v6 6 (t_tcp 41000 443 0x02)) (\<lambda>r.
       length r = 60
     \<and> sums_to_zero [take 16 (drop 8 r) @ take 16 (drop 24 r) @ to_be32 20 @ [0, 0, 0, 6], drop 40 r]
     \<and> and (r ! (40 + 13)) 0x04 = 0x04)"

definition t_an_rst_is_never_answered_with_another_rst :: bool where
  "t_an_rst_is_never_answered_with_another_rst \<longleftrightarrow> (tcp_rst (t_v4 [93, 184, 216, 34] (t_tcp 41000
       443 0x04)) = Ret None)"

definition t_udp_gets_no_reset :: bool where
  "t_udp_gets_no_reset \<longleftrightarrow> (tcp_rst (t_v6 17 ([0x00, 0x35, 0x00, 0x35, 0, 8, 0, 0] @ as_bytes
       ''x'')) = Ret None)"

definition t_truncated_and_garbage_packets_are_rejected_not_panicked_on :: bool where
  "t_truncated_and_garbage_packets_are_rejected_not_panicked_on \<longleftrightarrow> list_all (\<lambda>pkt. parse
       pkt = Ret None)
     [[], [0x60], replicate 39 0x60, replicate 60 0x00, t_v6 0 []]"

definition t_abi_layout_matches_the_c_header :: bool where
  "t_abi_layout_matches_the_c_header \<longleftrightarrow> (size_of PfsnitchAttr = 1108 \<and> attr_query_cmd =
       0xC4544601)"

definition t_verdict_abi_layout_matches_the_c_header :: bool where
  "t_verdict_abi_layout_matches_the_c_header \<longleftrightarrow> (size_of PfsnitchVerdict = 1052 \<and>
       verdict_push_cmd = 0x841C4602 \<and> verdict_flush_cmd = 0x20004603)"

definition t_upcall_abi_layout_matches_the_c_header :: bool where
  "t_upcall_abi_layout_matches_the_c_header \<longleftrightarrow> (size_of PfsnitchEvent = 1064 \<and> size_of
       PfsnitchResolve = 16
     \<and> resolve_cmd = 0x80104604 \<and> upcall_set_cmd = 0x80044605)"

definition t_one_name_on_many_addresses_is_one_question :: bool where
  "t_one_name_on_many_addresses_is_one_question \<longleftrightarrow> (ask_key (Some ''example.org'') (V4 104 20 26
       136) = ask_key (Some ''example.org'') (V4 172 66 157 237))"

definition t_different_names_stay_separate :: bool where
  "t_different_names_stay_separate \<longleftrightarrow> (ask_key (Some ''example.org'') (V4 1 2 3 4) \<noteq>
       ask_key (Some ''example.com'') (V4 1 2 3 4))"

definition t_without_a_name_the_address_is_the_key :: bool where
  "t_without_a_name_the_address_is_the_key \<longleftrightarrow> (ask_key None (V4 1 2 3 4) = ''1.2.3.4'' \<and>
       ask_key None (V4 1 2 3 4) \<noteq> ask_key None (V4 1 2 3 5))"

definition t_placeholder_hostnames_are_not_names :: bool where
  "t_placeholder_hostnames_are_not_names \<longleftrightarrow> (ask_key (Some ''-'') (V4 1 2 3 4) = ''1.2.3.4''
       \<and> ask_key (Some []) (V4 1 2 3 4) = ''1.2.3.4''
     \<and> ask_key (Some ''-'') (V4 1 2 3 4) \<noteq> ask_key (Some ''-'') (V4 5 6 7 8))"

definition t_names_are_matched_case_insensitively :: bool where
  "t_names_are_matched_case_insensitively \<longleftrightarrow> (ask_key (Some ''Example.ORG'') (V4 1 2 3 4) =
       ask_key (Some ''example.org'') (V4 9 9 9 9))"

definition t_address_family_does_not_split_a_name :: bool where
  "t_address_family_does_not_split_a_name \<longleftrightarrow> (ask_key (Some ''example.org'') (addr
       ''2606:2800:220:1::248'') = ask_key (Some ''example.org'') (V4 1 2 3 4))"

definition t_exact_tuple_wins :: bool where
  "t_exact_tuple_wins \<longleftrightarrow> found (insert_exact (t_tuple 6 (V4 10 0 0 2) 54614 (V4 1 1 1 1) 443)
       (own 100 ''firefox'') (empty_tables)) (t_tuple 6 (V4 10 0 0 2) 54614 (V4 1 1 1 1) 443) True (\<lambda>a.
       a_confidence a = Exact \<and> pid (a_owner a) = 100)"

definition t_unconnected_socket_matches_on_local_address :: bool where
  "t_unconnected_socket_matches_on_local_address \<longleftrightarrow> found (insert_unconnected 17 (V4 10 0 0 2)
       123 (own 200 ''ntpd'') (empty_tables)) (t_tuple 17 (V4 10 0 0 2) 123 (V4 198 71 50 75) 123) True
     (\<lambda>a. command (a_owner a) = ''ntpd'' \<and> a_confidence a = Local)"

definition t_wildcard_bind_falls_back_to_port :: bool where
  "t_wildcard_bind_falls_back_to_port \<longleftrightarrow> found (insert_unconnected 17 (V4 0 0 0 0) 123 (own 200
       ''ntpd'') (empty_tables)) (t_tuple 17 (V4 10 0 0 2) 123 (V4 198 71 50 75) 123) True
     (\<lambda>a. command (a_owner a) = ''ntpd'' \<and> a_confidence a = Port)"

definition t_same_pid_many_sockets_is_not_contested :: bool where
  "t_same_pid_many_sockets_is_not_contested \<longleftrightarrow> found (insert_unconnected 17 (V4 10 0 0 2) 123
       (own 200 ''ntpd'') (
       insert_unconnected 17 (V4 127 0 0 1) 123 (own 200 ''ntpd'') (
       insert_unconnected 17 (V4 0 0 0 0) 123 (own 200 ''ntpd'') (empty_tables))))
     (t_tuple 17 (V4 10 0 0 2) 123 (V4 1 2 3 4) 123) True (\<lambda>a. command (a_owner a) = ''ntpd'')"

definition t_contested_port_is_refused :: bool where
  "t_contested_port_is_refused \<longleftrightarrow> (tables_get (insert_unconnected 17 (V4 0 0 0 0) 5353 (own 301
       ''mdnsd'') (
       insert_unconnected 17 (V4 0 0 0 0) 5353 (own 300 ''avahi'') (empty_tables))) (t_tuple 17 (V4 10 0 0 2) 5353
       (V4 224 0 0 251) 5353) True = None)"

definition t_contested_local_address_is_refused :: bool where
  "t_contested_local_address_is_refused \<longleftrightarrow> (tables_get (insert_unconnected 17 (V4 10 0 0 2) 9999
       (own 401 ''two'') (
       insert_unconnected 17 (V4 10 0 0 2) 9999 (own 400 ''one'') (empty_tables))) (t_tuple 17 (V4 10 0 0 2) 9999
       (V4 8 8 8 8) 53) True = None)"

definition t_inbound_packet_never_uses_weak_tiers :: bool where
  "t_inbound_packet_never_uses_weak_tiers \<longleftrightarrow> (let t = insert_unconnected 17 (V4 0 0 0 0) 53 (own
       500 ''unbound'') (empty_tables); reply = (t_tuple 17 (V4 8 8 8 8) 53 (V4 10 0 0 2) 54321) in
     tables_get t reply False = None \<and> tables_get t reply True \<noteq> None)"

definition t_exact_match_still_works_inbound :: bool where
  "t_exact_match_still_works_inbound \<longleftrightarrow> found (insert_exact (t_tuple 6 (V4 1 1 1 1) 443 (V4 10 0
       0 2) 54614) (own 100 ''firefox'') (empty_tables)) (t_tuple 6 (V4 1 1 1 1) 443 (V4 10 0 0 2) 54614) False
       (\<lambda>a. a_confidence a = Exact)"

definition t_stronger_tier_wins :: bool where
  "t_stronger_tier_wins \<longleftrightarrow> found (insert_unconnected 17 (V4 10 0 0 2) 123 (own 200 ''ntpd'') (
       insert_exact (t_tuple 17 (V4 10 0 0 2) 123 (V4 198 71 50 75) 123) (own 100 ''the-real-sender'')
       (empty_tables)))
     (t_tuple 17 (V4 10 0 0 2) 123 (V4 198 71 50 75) 123) True (\<lambda>a. command (a_owner a) =
       ''the-real-sender'' \<and> a_confidence a = Exact)"

definition t_protocol_is_part_of_the_key :: bool where
  "t_protocol_is_part_of_the_key \<longleftrightarrow> (tables_get (insert_unconnected 17 (V4 10 0 0 2) 123 (own
       200 ''ntpd'') (empty_tables)) (t_tuple 6 (V4 10 0 0 2) 123 (V4 1 2 3 4) 80) True = None)"

definition t_confidence_strings_are_stable :: bool where
  "t_confidence_strings_are_stable \<longleftrightarrow> (map confidence_str [Kernel, Exact, Local, Port] =
       [''kernel'', ''exact'', ''local'', ''port''])"

definition t_entries_skips_contested_keys :: bool where
  "t_entries_skips_contested_keys \<longleftrightarrow> (entries (insert_unconnected 17 (V4 0 0 0 0) 5353 (own 301
       ''mdnsd'') (
       insert_unconnected 17 (V4 0 0 0 0) 5353 (own 300 ''avahi'') (empty_tables))) = [])"

definition t_entries_does_not_double_count_one_socket :: bool where
  "t_entries_does_not_double_count_one_socket \<longleftrightarrow> (map pe_confidence (entries (insert_unconnected
       17 (V4 10 0 0 2) 123 (own 200 ''ntpd'') (empty_tables))) = [Local])"

text \<open>The reset that answers the SYN of the tests, from the shape every reset has.\<close>

lemma syn_v6:
  "l3 (t_v6 6 (t_tcp 41000 443 0x02)) = Ret (Some \<lparr>l3_proto = 6, l3_src = V6 0x2001 0xdb8 0 0 0 0 0 1,
     l3_dst = V6 0x2001 0x4860 0 0 0 0 0 0x8888, l4 = 40\<rparr>)"
  "length (t_v6 6 (t_tcp 41000 443 0x02)) = 60"
  by code_simp+

lemma syn_v4:
  "l3 (t_v4 [93, 184, 216, 34] (t_tcp 41000 443 0x02)) = Ret (Some \<lparr>l3_proto = 6, l3_src = V4 10 0 0 2,
     l3_dst = V4 93 184 216 34, l4 = 20\<rparr>)"
  "length (t_v4 [93, 184, 216, 34] (t_tcp 41000 443 0x02)) = 40"
  by code_simp+

lemma syn_bytes: "t_tcp 41000 443 0x02 = [0xA0, 0x28, 0x01, 0xBB, 0, 0, 0, 0, 0, 0, 0, 0, 0x50, 0x02, 0, 0, 0, 0, 0, 0]"
  by code_simp

lemma rst_v4_test:
  "\<exists>hc ck. tcp_rst (t_v4 [93, 184, 216, 34] (t_tcp 41000 443 0x02))
       = Ret (Some (ip4_head (V4 93 184 216 34) (V4 10 0 0 2) hc @ tcp_body 41000 443 1 ck))
     \<and> csum [ip4_head (V4 93 184 216 34) (V4 10 0 0 2) hc] = 0
     \<and> csum [[93, 184, 216, 34, 10, 0, 0, 2, 0, 6, 0, 20], tcp_body 41000 443 1 ck] = 0"
proof -
  have "tcp_rst (t_v4 [93, 184, 216, 34] (t_tcp 41000 443 0x02))
      = Ret (Some (rst_v4 (V4 10 0 0 2) (V4 93 184 216 34) (rst_tcp 41000 443 1)))"
    by (simp add: tcp_rst_eq [OF syn_v4(1)] syn_v4(2) rst_of_def Let_def)
      (simp add: t_v4_def syn_bytes from_be16_def from_be32_def)
  then show ?thesis
    using rst_v4_shape [of "V4 10 0 0 2" "V4 93 184 216 34" 41000 443 1] by (auto simp: pseudo_header_def)
qed

lemma rst_v6_test:
  "\<exists>ck. tcp_rst (t_v6 6 (t_tcp 41000 443 0x02))
       = Ret (Some (ip6_head (V6 0x2001 0x4860 0 0 0 0 0 0x8888) (V6 0x2001 0xdb8 0 0 0 0 0 1) @ tcp_body 41000 443 1 ck))
     \<and> csum [octets (V6 0x2001 0x4860 0 0 0 0 0 0x8888) @ octets (V6 0x2001 0xdb8 0 0 0 0 0 1) @ to_be32 20 @ [0, 0, 0, 6],
          tcp_body 41000 443 1 ck] = 0"
proof -
  have "tcp_rst (t_v6 6 (t_tcp 41000 443 0x02))
      = Ret (Some (rst_v6 (V6 0x2001 0xdb8 0 0 0 0 0 1) (V6 0x2001 0x4860 0 0 0 0 0 0x8888) (rst_tcp 41000 443 1)))"
    by (simp add: tcp_rst_eq [OF syn_v6(1)] syn_v6(2) rst_of_def Let_def)
      (simp add: t_v6_def to_be16_def syn_bytes from_be16_def from_be32_def)
  then show ?thesis
    using rst_v6_shape [of "V6 0x2001 0xdb8 0 0 0 0 0 1" "V6 0x2001 0x4860 0 0 0 0 0 0x8888" 41000 443 1]
    by (auto simp: pseudo_header_def)
qed

named_theorems passed \<open>the tests that hold\<close>

lemma deny_dest_is_a_listed_kind [passed]: t_deny_dest_is_a_listed_kind
  by code_simp

lemma deny_dest_blocks_every_application [passed]: t_deny_dest_blocks_every_application
  by code_simp

lemma deny_dest_outranks_a_per_app_allow [passed]: t_deny_dest_outranks_a_per_app_allow
  by code_simp

lemma deny_dest_honours_its_port_scope [passed]: t_deny_dest_honours_its_port_scope
  by code_simp

lemma blocking_an_unattributed_connection_actually_writes_a_rule [passed]: t_blocking_an_unattributed_connection_actually_writes_a_rule
  by code_simp

lemma blocking_an_unattributed_connection_prefers_the_hostname [passed]: t_blocking_an_unattributed_connection_prefers_the_hostname
  by code_simp

lemma an_app_wide_answer_without_a_binary_writes_nothing [passed]: t_an_app_wide_answer_without_a_binary_writes_nothing
  by code_simp

lemma blocking_one_destination_leaves_the_app_otherwise_working [passed]: t_blocking_one_destination_leaves_the_app_otherwise_working
  by code_simp

lemma a_scoped_deny_outranks_a_broader_allow [passed]: t_a_scoped_deny_outranks_a_broader_allow
  by code_simp

lemma scoped_deny_also_outranks_allow_app_for_that_destination [passed]: t_scoped_deny_also_outranks_allow_app_for_that_destination
  by code_simp

lemma scoped_deny_by_bare_address_when_no_hostname_was_seen [passed]: t_scoped_deny_by_bare_address_when_no_hostname_was_seen
  by code_simp

lemma wildcards_work_in_scoped_rules_too [passed]: t_wildcards_work_in_scoped_rules_too
  by code_simp

lemma an_executable_path_containing_spaces_still_parses [passed]: t_an_executable_path_containing_spaces_still_parses
  by code_simp

lemma a_port_scoped_rule_does_not_open_other_ports [passed]: t_a_port_scoped_rule_does_not_open_other_ports
  by code_simp

lemma a_rule_without_a_port_still_means_any_port [passed]: t_a_rule_without_a_port_still_means_any_port
  by code_simp

lemma a_port_scoped_deny_only_blocks_that_port [passed]: t_a_port_scoped_deny_only_blocks_that_port
  by code_simp

lemma ipv6_literal_with_a_port_is_parsed_and_matched [passed]: t_ipv6_literal_with_a_port_is_parsed_and_matched
  by code_simp

lemma approving_a_host_for_one_app_does_not_open_it_for_others [passed]: t_approving_a_host_for_one_app_does_not_open_it_for_others
  by code_simp

lemma a_scoped_deny_still_beats_a_scoped_allow_for_another_app [passed]: t_a_scoped_deny_still_beats_a_scoped_allow_for_another_app
  by code_simp

lemma a_scoped_deny_beats_a_scoped_allow_for_the_same_app [passed]: t_a_scoped_deny_beats_a_scoped_allow_for_the_same_app
  by code_simp

lemma a_global_allow_host_still_covers_every_binary [passed]: t_a_global_allow_host_still_covers_every_binary
  by code_simp

lemma a_scoped_allow_cannot_match_an_unattributed_connection [passed]: t_a_scoped_allow_cannot_match_an_unattributed_connection
  by code_simp

lemma plain_hostname_means_any_port [passed]: t_plain_hostname_means_any_port
  by code_simp

lemma hostname_with_port [passed]: t_hostname_with_port
  by code_simp

lemma bare_ipv6_is_not_mistaken_for_a_port [passed]: t_bare_ipv6_is_not_mistaken_for_a_port
  by code_simp

lemma bracketed_ipv6_with_port [passed]: t_bracketed_ipv6_with_port
  by code_simp

lemma bracketed_ipv6_without_port [passed]: t_bracketed_ipv6_without_port
  by code_simp

lemma ipv4_with_and_without_port [passed]: t_ipv4_with_and_without_port
  by code_simp

lemma a_port_that_is_not_a_number_stays_part_of_the_name [passed]: t_a_port_that_is_not_a_number_stays_part_of_the_name
  by code_simp

lemma round_trips [passed]: t_round_trips
  by code_simp

lemma v6_syn_is_parsed_and_recognised_as_a_connection_attempt [passed]: t_v6_syn_is_parsed_and_recognised_as_a_connection_attempt
  by code_simp

lemma v6_synack_is_not_a_connection_attempt [passed]: t_v6_synack_is_not_a_connection_attempt
  by code_simp

lemma v6_extension_headers_are_walked_to_reach_the_real_protocol [passed]: t_v6_extension_headers_are_walked_to_reach_the_real_protocol
  by code_simp

lemma v6_non_first_fragment_is_refused_rather_than_misparsed [passed]: t_v6_non_first_fragment_is_refused_rather_than_misparsed
  by code_simp

lemma v6_udp_payload_offset_lands_after_the_udp_header [passed]: t_v6_udp_payload_offset_lands_after_the_udp_header
  by code_simp

lemma v4_still_parses_unchanged [passed]: t_v4_still_parses_unchanged
  by code_simp

lemma v4_rst_has_valid_ip_and_tcp_checksums [passed]: t_v4_rst_has_valid_ip_and_tcp_checksums
  using rst_v4_test
  by (auto simp: t_v4_rst_has_valid_ip_and_tcp_checksums_def rst_holds_def sums_to_zero_def ip4_head_def tcp_body_def)

lemma v4_rst_is_addressed_back_to_the_sender [passed]: t_v4_rst_is_addressed_back_to_the_sender
  using rst_v4_test
  by (auto simp: t_v4_rst_is_addressed_back_to_the_sender_def rst_holds_def ip4_head_def tcp_body_def
      to_be16_def to_be32_def from_be16_def from_be32_def)

lemma v6_rst_has_a_valid_tcp_checksum [passed]: t_v6_rst_has_a_valid_tcp_checksum
  using rst_v6_test
  by (auto simp: t_v6_rst_has_a_valid_tcp_checksum_def rst_holds_def sums_to_zero_def ip6_head_def tcp_body_def
      length_octets to_be16_def to_be32_def)

lemma an_rst_is_never_answered_with_another_rst [passed]: t_an_rst_is_never_answered_with_another_rst
  by code_simp

lemma udp_gets_no_reset [passed]: t_udp_gets_no_reset
  by code_simp

lemma truncated_and_garbage_packets_are_rejected_not_panicked_on [passed]: t_truncated_and_garbage_packets_are_rejected_not_panicked_on
  by code_simp

lemma abi_layout_matches_the_c_header [passed]: t_abi_layout_matches_the_c_header
  by code_simp

lemma verdict_abi_layout_matches_the_c_header [passed]: t_verdict_abi_layout_matches_the_c_header
  by code_simp

lemma upcall_abi_layout_matches_the_c_header [passed]: t_upcall_abi_layout_matches_the_c_header
  by code_simp

lemma one_name_on_many_addresses_is_one_question [passed]: t_one_name_on_many_addresses_is_one_question
  by code_simp

lemma different_names_stay_separate [passed]: t_different_names_stay_separate
  by code_simp

lemma without_a_name_the_address_is_the_key [passed]: t_without_a_name_the_address_is_the_key
  by code_simp

lemma placeholder_hostnames_are_not_names [passed]: t_placeholder_hostnames_are_not_names
  by code_simp

lemma names_are_matched_case_insensitively [passed]: t_names_are_matched_case_insensitively
  by code_simp

lemma address_family_does_not_split_a_name [passed]: t_address_family_does_not_split_a_name
  by code_simp

lemma exact_tuple_wins [passed]: t_exact_tuple_wins
  by code_simp

lemma unconnected_socket_matches_on_local_address [passed]: t_unconnected_socket_matches_on_local_address
  by code_simp

lemma wildcard_bind_falls_back_to_port [passed]: t_wildcard_bind_falls_back_to_port
  by code_simp

lemma same_pid_many_sockets_is_not_contested [passed]: t_same_pid_many_sockets_is_not_contested
  by code_simp

lemma contested_port_is_refused [passed]: t_contested_port_is_refused
  by code_simp

lemma contested_local_address_is_refused [passed]: t_contested_local_address_is_refused
  by code_simp

lemma inbound_packet_never_uses_weak_tiers [passed]: t_inbound_packet_never_uses_weak_tiers
  by code_simp

lemma exact_match_still_works_inbound [passed]: t_exact_match_still_works_inbound
  by code_simp

lemma stronger_tier_wins [passed]: t_stronger_tier_wins
  by code_simp

lemma protocol_is_part_of_the_key [passed]: t_protocol_is_part_of_the_key
  by code_simp

lemma confidence_strings_are_stable [passed]: t_confidence_strings_are_stable
  by code_simp

lemma entries_skips_contested_keys [passed]: t_entries_skips_contested_keys
  by code_simp

lemma entries_does_not_double_count_one_socket [passed]: t_entries_does_not_double_count_one_socket
  by code_simp


end
