(* ===== verification/Kmod.thy ===== *)
theory Kmod
  imports Kernattr
begin

unbundle bit_operations_syntax

text \<open>
  The kernel module (\<open>src/kmod/mac_pfsnitch.c\<close>), the other side of \<open>src/kernattr.rs\<close>: the labels that name a socket's
  creator, the cache of verdicts, the queue of requests, the hook that runs on \<open>connect\<close> and \<open>sendto\<close>, and the device.

  A function holds its lock from its first read of the shared state to its last write, so it is one step here.  The
  kernel is an argument: the uptime, whether an allocation that may not sleep succeeds, the lookup of a socket by its
  addresses, and the bytes that happen to be in a buffer nobody has written.  A string is its bytes with the zero that
  ends it; a port is the 16-bit word whose bytes lie in network order in memory.
\<close>

section \<open>Strings\<close>

definition c_str :: "bytes \<Rightarrow> bytes" where
  "c_str b = takeWhile (\<lambda>c. c \<noteq> 0) b"

definition strnlen :: "bytes \<Rightarrow> nat \<Rightarrow> nat" where
  "strnlen b n = length (c_str (take n b))"

definition strlcpy :: "bytes \<Rightarrow> bytes \<Rightarrow> bytes" where
  "strlcpy dst src = (let s = take (length dst - 1) (c_str src) in s @ 0 # drop (Suc (length s)) dst)"

section \<open>State\<close>

record pfsn_info =
  i_pid :: int
  i_uid :: u32
  i_comm :: bytes
  i_path :: bytes

record pfsn_verdict =
  pv_af :: u8
  pv_proto :: u8
  pv_verdict :: u8
  pv_fport :: u16
  pv_faddr :: bytes
  pv_path :: bytes

record pfsn_req =
  rq_id :: u64
  rq_af :: u8
  rq_proto :: u8
  rq_nonblock :: u8
  rq_delivered :: bool
  rq_fport :: u16
  rq_faddr :: bytes
  rq_pid :: int
  rq_uid :: u32
  rq_born :: nat
  rq_path :: bytes

text \<open>The slot of a socket's label, and the sockets whose label holds an allocated identity; the table of verdicts with
  its counter; the queue with its counter.\<close>

record kmod =
  slots :: "nat \<Rightarrow> pfsn_info option"
  infos :: "nat list"
  vtab :: "nat \<Rightarrow> pfsn_verdict list"
  vcount :: nat
  reqs :: "pfsn_req list"
  nreq :: nat
  next_id :: u64
  unloading :: bool
  upcall_on :: bool
  failmode :: int

definition PFSN_VHASH :: nat where "PFSN_VHASH = 1024"
definition PFSN_VMAX :: nat where "PFSN_VMAX = 8192"
definition PFSN_REQ_MAX :: nat where "PFSN_REQ_MAX = 2048"
definition PFSN_REQ_GCAGE :: nat where "PFSN_REQ_GCAGE = 150"
definition PFSNITCH_FAIL_OPEN :: int where "PFSNITCH_FAIL_OPEN = 0"
definition PFSNITCH_FAIL_CLOSED :: int where "PFSNITCH_FAIL_CLOSED = 1"

definition EPERM :: int where "EPERM = 1"
definition EINVAL :: int where "EINVAL = 22"
definition EAGAIN :: int where "EAGAIN = 35"

definition pfsn_init :: kmod where
  "pfsn_init = \<lparr>slots = Map.empty, infos = [], vtab = (\<lambda>b. []), vcount = 0, reqs = [], nreq = 0, next_id = 1,
     unloading = False, upcall_on = False, failmode = PFSNITCH_FAIL_OPEN\<rparr>"

section \<open>The cache of verdicts\<close>

definition alen :: "u8 \<Rightarrow> nat" where
  "alen af = (if af = 4 then 4 else 16)"

text \<open>FNV-1a over the protocol, the port's bytes and the address.\<close>

definition fnv :: "u32 \<Rightarrow> u32 \<Rightarrow> u32" where
  "fnv x h = (h XOR x) * 16777619"

definition pfsn_vhash :: "u8 \<Rightarrow> u8 \<Rightarrow> bytes \<Rightarrow> u16 \<Rightarrow> nat" where
  "pfsn_vhash af proto faddr fport =
     (let h = fold fnv ([ucast proto, ucast (fport AND 0xff), ucast (drop_bit 8 fport)] @ map ucast (take (alen af) faddr)) 2166136261
      in unat (h AND (word_of_nat PFSN_VHASH - 1)))"

definition v_flow :: "u8 \<Rightarrow> u8 \<Rightarrow> bytes \<Rightarrow> u16 \<Rightarrow> pfsn_verdict \<Rightarrow> bool" where
  "v_flow af proto faddr fport v \<longleftrightarrow> pv_af v = af \<and> pv_proto v = proto \<and> pv_fport v = fport
     \<and> take (alen af) (pv_faddr v) = take (alen af) faddr"

text \<open>0 is a miss.\<close>

definition pfsn_verdict_lookup :: "kmod \<Rightarrow> u8 \<Rightarrow> u8 \<Rightarrow> bytes \<Rightarrow> u16 \<Rightarrow> bytes \<Rightarrow> u8" where
  "pfsn_verdict_lookup m af proto faddr fport path =
     (case find (\<lambda>v. v_flow af proto faddr fport v \<and> c_str (pv_path v) = c_str path) (vtab m (pfsn_vhash af proto faddr fport)) of
        Some v \<Rightarrow> pv_verdict v
      | None \<Rightarrow> 0)"

fun update_first :: "('a \<Rightarrow> bool) \<Rightarrow> ('a \<Rightarrow> 'a) \<Rightarrow> 'a list \<Rightarrow> 'a list" where
  "update_first P f [] = []"
| "update_first P f (x # xs) = (if P x then f x # xs else x # update_first P f xs)"

text \<open>\<open>path\<close> is the \<open>plen\<close> bytes passed; \<open>ok\<close> is whether \<open>malloc\<close> with \<open>M_NOWAIT\<close> succeeds.\<close>

definition pfsn_cache_insert :: "bool \<Rightarrow> u8 \<Rightarrow> u8 \<Rightarrow> bytes \<Rightarrow> u16 \<Rightarrow> u8 \<Rightarrow> bytes \<Rightarrow> kmod \<Rightarrow> kmod" where
  "pfsn_cache_insert ok af proto faddr fport verdict path m =
     (if path = [] \<or> 1024 < length path then m
      else let b = pfsn_vhash af proto faddr fport; hit = (\<lambda>v. v_flow af proto faddr fport v \<and> pv_path v = path) in
        if list_ex hit (vtab m b) then
          m\<lparr>vtab := (vtab m)(b := update_first hit (\<lambda>v. v\<lparr>pv_verdict := verdict\<rparr>) (vtab m b))\<rparr>
        else if PFSN_VMAX \<le> vcount m then m
        else if \<not> ok then m
        else m\<lparr>vtab := (vtab m)(b := \<lparr>pv_af = af, pv_proto = proto, pv_verdict = verdict, pv_fport = fport,
                 pv_faddr = take 16 faddr, pv_path = path\<rparr> # vtab m b), vcount := vcount m + 1\<rparr>)"

definition pfsn_verdict_push :: "bool \<Rightarrow> pfsnitch_verdict \<Rightarrow> kmod \<Rightarrow> kmod" where
  "pfsn_verdict_push ok pv m =
     (let plen = strnlen (v_path pv) 1024 in
      if plen = 0 \<or> 1024 \<le> plen then m
      else pfsn_cache_insert ok (v_af pv) (v_proto pv) (v_faddr pv) (v_fport pv) (v_verdict pv) (take (plen + 1) (v_path pv)) m)"

definition pfsn_verdict_flush :: "kmod \<Rightarrow> kmod" where
  "pfsn_verdict_flush m = m\<lparr>vtab := (\<lambda>b. if b < PFSN_VHASH then [] else vtab m b), vcount := 0\<rparr>"

section \<open>Requests\<close>

definition pfsn_failverdict :: "kmod \<Rightarrow> int" where
  "pfsn_failverdict m = (if failmode m = PFSNITCH_FAIL_CLOSED then EPERM else 0)"

definition pfsn_req_gc :: "nat \<Rightarrow> kmod \<Rightarrow> kmod" where
  "pfsn_req_gc now m = (let keep = filter (\<lambda>r. \<not> PFSN_REQ_GCAGE < now - rq_born r) (reqs m) in
     m\<lparr>reqs := keep, nreq := nreq m - (length (reqs m) - length keep)\<rparr>)"

definition r_question :: "u8 \<Rightarrow> u8 \<Rightarrow> bytes \<Rightarrow> u16 \<Rightarrow> bytes \<Rightarrow> pfsn_req \<Rightarrow> bool" where
  "r_question af proto faddr fport path r \<longleftrightarrow> rq_af r = af \<and> rq_proto r = proto \<and> rq_fport r = fport
     \<and> take (alen af) (rq_faddr r) = take (alen af) faddr \<and> rq_path r = path"

definition new_req :: "nat \<Rightarrow> u8 \<Rightarrow> u8 \<Rightarrow> bytes \<Rightarrow> u16 \<Rightarrow> pfsn_info \<Rightarrow> bool \<Rightarrow> bytes \<Rightarrow> kmod \<Rightarrow> pfsn_req" where
  "new_req now af proto faddr fport info nonblock path m = \<lparr>rq_id = next_id m, rq_af = af, rq_proto = proto,
     rq_nonblock = (if nonblock then 1 else 0), rq_delivered = False, rq_fport = fport, rq_faddr = take 16 faddr,
     rq_pid = i_pid info, rq_uid = i_uid info, rq_born = now, rq_path = path\<rparr>"

definition pfsn_upcall :: "nat \<Rightarrow> bool \<Rightarrow> u8 \<Rightarrow> u8 \<Rightarrow> bytes \<Rightarrow> u16 \<Rightarrow> pfsn_info \<Rightarrow> bool \<Rightarrow> kmod \<Rightarrow> int \<times> kmod" where
  "pfsn_upcall now ok af proto faddr fport info nonblock m =
     (let plen = strnlen (i_path info) 1024 in
      if plen = 0 \<or> 1024 \<le> plen then (0, m)
      else let path = take (plen + 1) (i_path info) in
        if unloading m then (pfsn_failverdict m, m)
        else if list_ex (r_question af proto faddr fport path) (reqs m) then (EAGAIN, m)
        else if PFSN_REQ_MAX \<le> nreq m then (pfsn_failverdict m, m)
        else let m = pfsn_req_gc now m in
          if \<not> ok then (pfsn_failverdict m, m)
          else (EAGAIN, m\<lparr>reqs := reqs m @ [new_req now af proto faddr fport info nonblock path m],
                  nreq := nreq m + 1, next_id := next_id m + 1\<rparr>))"

definition pfsn_resolve :: "bool \<Rightarrow> u64 \<Rightarrow> u8 \<Rightarrow> kmod \<Rightarrow> kmod" where
  "pfsn_resolve ok i verdict m = (case find (\<lambda>r. rq_id r = i) (reqs m) of
      None \<Rightarrow> m
    | Some r \<Rightarrow> (pfsn_cache_insert ok (rq_af r) (rq_proto r) (rq_faddr r) (rq_fport r) verdict (rq_path r) m)
        \<lparr>reqs := remove1 r (reqs m), nreq := nreq m - 1\<rparr>)"

text \<open>\<open>pfsn_read\<close>: what one pass of its loop does, and what it does when the copy to the reader fails.\<close>

datatype read_result = ReadErr int | ReadEof | ReadEvent pfsnitch_event | ReadSleeps

definition req_event :: "pfsn_req \<Rightarrow> pfsnitch_event" where
  "req_event r = \<lparr>ev_id = rq_id r, ev_af = rq_af r, ev_proto = rq_proto r, ev_fport = rq_fport r, ev_faddr = rq_faddr r,
     ev_nonblock = rq_nonblock r, ev_pid = rq_pid r, ev_uid = rq_uid r, ev_path = strlcpy (replicate 1024 0) (rq_path r)\<rparr>"

definition read_next :: "nat \<Rightarrow> kmod \<Rightarrow> read_result \<times> kmod" where
  "read_next resid m =
     (if resid < size_of pfsnitch_event_h then (ReadErr EINVAL, m)
      else if unloading m \<or> \<not> upcall_on m then (ReadEof, m)
      else case find (\<lambda>r. \<not> rq_delivered r) (reqs m) of
        None \<Rightarrow> (ReadSleeps, m)
      | Some r \<Rightarrow> (ReadEvent (req_event r),
          m\<lparr>reqs := update_first (\<lambda>r. \<not> rq_delivered r) (\<lambda>r. r\<lparr>rq_delivered := True\<rparr>) (reqs m)\<rparr>))"

definition read_fault :: "u64 \<Rightarrow> kmod \<Rightarrow> kmod" where
  "read_fault i m = m\<lparr>reqs := update_first (\<lambda>r. rq_id r = i) (\<lambda>r. r\<lparr>rq_delivered := False\<rparr>) (reqs m)\<rparr>"

definition pfsn_read :: "nat \<Rightarrow> int \<Rightarrow> kmod \<Rightarrow> read_result \<times> kmod" where
  "pfsn_read resid fault m = (case read_next resid m of
      (ReadEvent ev, m1) \<Rightarrow> if fault = 0 then (ReadEvent ev, m1) else (ReadErr fault, read_fault (ev_id ev) m1)
    | r \<Rightarrow> r)"

definition pfsn_dev_close :: "kmod \<Rightarrow> kmod" where
  "pfsn_dev_close m = m\<lparr>upcall_on := False\<rparr>"

section \<open>Labels\<close>

definition pfsn_socket_init_label :: "nat \<Rightarrow> kmod \<Rightarrow> kmod" where
  "pfsn_socket_init_label so m = m\<lparr>slots := (slots m)(so := None)\<rparr>"

definition pfsn_socket_destroy_label :: "nat \<Rightarrow> kmod \<Rightarrow> kmod" where
  "pfsn_socket_destroy_label so m = (case slots m so of
      None \<Rightarrow> m
    | Some info \<Rightarrow> m\<lparr>slots := (slots m)(so := None), infos := remove1 so (infos m)\<rparr>)"

text \<open>\<open>path\<close> is what \<open>vn_fullpath\<close> gave, if anything; \<open>comm\<close> the process's name.\<close>

definition pfsn_socket_create :: "nat \<Rightarrow> bool \<Rightarrow> int \<Rightarrow> u32 \<Rightarrow> bytes \<Rightarrow> bytes option \<Rightarrow> kmod \<Rightarrow> kmod" where
  "pfsn_socket_create so labelled pd uid comm path m =
     (if \<not> labelled then m
      else let info = \<lparr>i_pid = pd, i_uid = uid, i_comm = strlcpy (replicate 20 0) comm,
             i_path = (case path of Some p \<Rightarrow> c_str p @ [0] | None \<Rightarrow> [0])\<rparr>
        in m\<lparr>slots := (slots m)(so := Some info), infos := infos m @ [so]\<rparr>)"

section \<open>The hook\<close>

datatype so_type = SockStream | SockDgram | SockOther

text \<open>The address given: none, or the family with the port and the octets.\<close>

datatype sock_addr = NoAddr | Inet u16 bytes | Inet6 u16 bytes | OtherFamily

definition is_loopback :: "u8 \<Rightarrow> bytes \<Rightarrow> bool" where
  "is_loopback af faddr \<longleftrightarrow>
     (if af = 4 then faddr ! 0 = 127
      else take 16 faddr = replicate 15 0 @ [1] \<or> faddr ! 10 = 0xff \<and> faddr ! 11 = 0xff \<and> faddr ! 12 = 127)"

text \<open>The protocol, the family, the address in its buffer of 16 bytes and the port; \<open>junk\<close> is what the buffer holds
  where nothing is copied.\<close>

definition connect_flow :: "bytes \<Rightarrow> so_type \<Rightarrow> sock_addr \<Rightarrow> (u8 \<times> u8 \<times> bytes \<times> u16) option" where
  "connect_flow junk ty sa =
     (case (case ty of SockStream \<Rightarrow> Some 6 | SockDgram \<Rightarrow> Some 17 | SockOther \<Rightarrow> None) of
        None \<Rightarrow> None
      | Some proto \<Rightarrow> (case sa of
          Inet port a \<Rightarrow> Some (4, proto, take 4 a @ drop 4 junk, port)
        | Inet6 port a \<Rightarrow> Some (6, proto, take 16 a, port)
        | _ \<Rightarrow> None))"

definition pfsn_socket_check_connect ::
  "nat \<Rightarrow> bool \<Rightarrow> bytes \<Rightarrow> so_type \<Rightarrow> bool \<Rightarrow> pfsn_info option option \<Rightarrow> sock_addr \<Rightarrow> kmod \<Rightarrow> int \<times> kmod" where
  "pfsn_socket_check_connect now ok junk ty nbio label sa m =
     (case label of None \<Rightarrow> (0, m) | Some slot \<Rightarrow>
       (case connect_flow junk ty sa of None \<Rightarrow> (0, m) | Some (af, proto, faddr, fport) \<Rightarrow>
         if is_loopback af faddr then (0, m)
         else case slot of None \<Rightarrow> (0, m) | Some info \<Rightarrow>
           if i_path info ! 0 = 0 then (0, m)
           else let verdict = pfsn_verdict_lookup m af proto faddr fport (i_path info) in
             if verdict = PFSNITCH_V_DENY then (EPERM, m)
             else if verdict = PFSNITCH_V_ALLOW then (0, m)
             else if upcall_on m \<and> proto = 17 \<and> ntohs_mem fport \<noteq> 53
             then pfsn_upcall now ok af proto faddr fport info nbio m
             else (0, m)))"

section \<open>The device\<close>

text \<open>The stack's lookup: the table (TCP or not), the family, the foreign and the local end, and whether a wildcard may
  match; a match holds a socket, or none any more.\<close>

type_synonym pcblookup = "bool \<Rightarrow> u8 \<Rightarrow> bytes \<Rightarrow> u16 \<Rightarrow> bytes \<Rightarrow> u16 \<Rightarrow> bool \<Rightarrow> nat option option"

definition PFSNITCH_MATCH_EXACT :: u8 where "PFSNITCH_MATCH_EXACT = 1"
definition PFSNITCH_MATCH_WILDCARD :: u8 where "PFSNITCH_MATCH_WILDCARD = 2"

definition pfsn_lookup :: "pcblookup \<Rightarrow> kmod \<Rightarrow> pfsnitch_attr \<Rightarrow> pfsnitch_attr" where
  "pfsn_lookup pcb m q0 =
     (let q = q0\<lparr>q_found := PFSNITCH_MISS, q_pid := 0, q_uid := 0, q_comm := (q_comm q0)[0 := 0], q_path := (q_path q0)[0 := 0]\<rparr>;
          n = alen (q_af q);
          look = pcb (q_proto q = 6) (q_af q) (take n (q_faddr q)) (q_fport q) (take n (q_laddr q)) (q_lport q);
          (inp, found) = (case look False of
             Some so \<Rightarrow> (Some so, PFSNITCH_MATCH_EXACT)
           | None \<Rightarrow> if q_proto q = 17 then (case look True of
                 Some so \<Rightarrow> (Some so, PFSNITCH_MATCH_WILDCARD) | None \<Rightarrow> (None, PFSNITCH_MISS))
               else (None, PFSNITCH_MISS))
      in case inp of
           None \<Rightarrow> q\<lparr>q_found := found\<rparr>
         | Some so \<Rightarrow> (case Option.bind so (slots m) of
             Some info \<Rightarrow> q\<lparr>q_found := found, q_pid := i_pid info, q_uid := i_uid info,
                 q_comm := strlcpy (q_comm q) (i_comm info), q_path := strlcpy (q_path q) (i_path info)\<rparr>
           | None \<Rightarrow> q\<lparr>q_found := PFSNITCH_MISS\<rparr>))"

text \<open>The command fixes the structure that is passed.\<close>

definition pfsn_ioctl :: "pcblookup \<Rightarrow> bool \<Rightarrow> u64 \<Rightarrow> ioctl_arg \<Rightarrow> kmod \<Rightarrow> int \<times> ioctl_arg \<times> kmod" where
  "pfsn_ioctl pcb ok cmd arg m =
     (if cmd = verdict_push_cmd then (case arg of VerdictArg pv \<Rightarrow>
          if v_version pv \<noteq> PFSNITCH_ATTR_VERSION then (EINVAL, arg, m)
          else if v_af pv \<noteq> 4 \<and> v_af pv \<noteq> 6 then (EINVAL, arg, m)
          else if v_proto pv \<noteq> 6 \<and> v_proto pv \<noteq> 17 then (EINVAL, arg, m)
          else if v_verdict pv \<noteq> PFSNITCH_V_ALLOW \<and> v_verdict pv \<noteq> PFSNITCH_V_DENY then (EINVAL, arg, m)
          else (0, arg, pfsn_verdict_push ok pv m)
        | _ \<Rightarrow> (EINVAL, arg, m))
      else if cmd = verdict_flush_cmd then (0, arg, pfsn_verdict_flush m)
      else if cmd = resolve_cmd then (case arg of ResolveArg pr \<Rightarrow>
          if r_version pr \<noteq> PFSNITCH_ATTR_VERSION then (EINVAL, arg, m)
          else if r_verdict pr \<noteq> PFSNITCH_V_ALLOW \<and> r_verdict pr \<noteq> PFSNITCH_V_DENY then (EINVAL, arg, m)
          else (0, arg, pfsn_resolve ok (r_id pr) (r_verdict pr) m)
        | _ \<Rightarrow> (EINVAL, arg, m))
      else if cmd = upcall_set_cmd then (case arg of IntArg on \<Rightarrow> (0, arg, m\<lparr>upcall_on := (on \<noteq> 0)\<rparr>) | _ \<Rightarrow> (EINVAL, arg, m))
      else if cmd \<noteq> attr_query_cmd then (ENOTTY, arg, m)
      else (case arg of AttrArg q \<Rightarrow>
          if q_version q \<noteq> PFSNITCH_ATTR_VERSION then (EINVAL, arg, m)
          else if q_af q \<noteq> 4 \<and> q_af q \<noteq> 6 then (EINVAL, arg, m)
          else if q_proto q \<noteq> 6 \<and> q_proto q \<noteq> 17 then (EINVAL, arg, m)
          else (0, AttrArg (pfsn_lookup pcb m q), m)
        | _ \<Rightarrow> (EINVAL, arg, m)))"

text \<open>Unloading: the reader is released, the queue, the identities and the cache are freed; slots keep what nobody
  reads any more.\<close>

definition pfsn_destroy :: "kmod \<Rightarrow> kmod" where
  "pfsn_destroy m = pfsn_verdict_flush (m\<lparr>unloading := True, reqs := [], nreq := 0, infos := []\<rparr>)"

end
