(* ===== verification/Kmod_Safety.thy ===== *)
theory Kmod_Safety
  imports Kmod
begin

unbundle bit_operations_syntax

text \<open>
  What the kernel module guarantees, and the daemon's commands against it.  The cache is a map from a binary and its
  destination to a verdict (\<open>cached\<close>), the queue a set of questions (\<open>r_key\<close>); \<open>kmod_ok\<close> is the invariant every
  operation keeps, \<open>kreach\<close> the states the module can be in.  At the end, where it does not do what it means to.
\<close>

section \<open>Strings\<close>

definition path_ok :: "bytes \<Rightarrow> bool" where
  "path_ok p \<longleftrightarrow> (\<exists>s. s \<noteq> [] \<and> 0 \<notin> set s \<and> length s < 1024 \<and> p = s @ [0])"

lemma c_str_end [simp]: "0 \<notin> set s \<Longrightarrow> c_str (s @ [0]) = s"
  unfolding c_str_def by (induction s) auto

lemma c_str_free [simp]: "0 \<notin> set s \<Longrightarrow> c_str s = s"
  unfolding c_str_def by (induction s) auto

lemma zero_c_str [simp]: "0 \<notin> set (c_str b)"
  unfolding c_str_def by (auto dest: set_takeWhileD)

lemma path_ok_len: "path_ok p \<Longrightarrow> p \<noteq> [] \<and> length p \<le> 1024"
  by (auto simp: path_ok_def)

lemma path_ok_eq: "path_ok p \<Longrightarrow> path_ok q \<Longrightarrow> p = q \<longleftrightarrow> c_str p = c_str q"
  by (auto simp: path_ok_def)

lemma c_str_split [simp]: "0 \<notin> set s \<Longrightarrow> c_str (s @ 0 # r) = s"
  unfolding c_str_def by (induction s) auto

lemma strnlen_path:
  assumes "strnlen p 1024 \<noteq> 0" "strnlen p 1024 < 1024" "1024 \<le> length p \<or> 0 \<in> set p"
  shows "path_ok (take (Suc (strnlen p 1024)) p) \<and> c_str (take (Suc (strnlen p 1024)) p) = c_str p"
proof (cases "0 \<in> set p")
  case True
  then obtain s r where p: "p = s @ 0 # r" "0 \<notin> set s" by (meson split_list_first)
  have "0 \<notin> set (take 1024 s)" using p(2) by (meson in_set_takeD)
  then have n: "strnlen p 1024 = min 1024 (length s)"
    unfolding strnlen_def p(1) using p(2)
    by (cases "length s < 1024") (auto simp: take_Cons' min_def)
  then have "length s < 1024" using assms(2) by simp
  then show ?thesis using n p assms(1) by (auto simp: path_ok_def)
next
  case False
  then have "0 \<notin> set (take 1024 p)" by (meson in_set_takeD)
  then have "strnlen p 1024 = min 1024 (length p)" by (simp add: strnlen_def min.commute)
  then show ?thesis using False assms(2,3) by simp
qed

section \<open>The cache as a map\<close>

type_synonym vkey = "u8 \<times> u8 \<times> bytes \<times> u16 \<times> bytes"

definition flow_of_key :: "u8 \<Rightarrow> u8 \<Rightarrow> bytes \<Rightarrow> u16 \<Rightarrow> bytes \<Rightarrow> vkey" where
  "flow_of_key af proto faddr fport path = (af, proto, take (alen af) faddr, fport, c_str path)"

definition v_key :: "pfsn_verdict \<Rightarrow> vkey" where
  "v_key v = flow_of_key (pv_af v) (pv_proto v) (pv_faddr v) (pv_fport v) (pv_path v)"

fun bucket_of :: "vkey \<Rightarrow> nat" where
  "bucket_of (af, proto, faddr, fport, path) = pfsn_vhash af proto faddr fport"

definition cached :: "kmod \<Rightarrow> vkey \<Rightarrow> u8 option" where
  "cached m k = map_option pv_verdict (find (\<lambda>v. v_key v = k) (vtab m (bucket_of k)))"

definition vcache_ok :: "kmod \<Rightarrow> bool" where
  "vcache_ok m \<longleftrightarrow> (\<forall>b. distinct (map v_key (vtab m b))
       \<and> (\<forall>v \<in> set (vtab m b). bucket_of (v_key v) = b \<and> path_ok (pv_path v) \<and> pv_verdict v \<in> {PFSNITCH_V_ALLOW, PFSNITCH_V_DENY}))
     \<and> vcount m = (\<Sum>b<PFSN_VHASH. length (vtab m b)) \<and> vcount m \<le> PFSN_VMAX"

lemma bucket_flow [simp]: "bucket_of (flow_of_key af proto faddr fport path) = pfsn_vhash af proto faddr fport"
  by (simp add: flow_of_key_def pfsn_vhash_def)

lemma bucket_less: "pfsn_vhash af proto faddr fport < PFSN_VHASH"
proof -
  have "unat (h AND (1023 :: u32)) \<le> unat (1023 :: u32)" for h
    by (rule word_le_nat_alt [THEN iffD1]) (rule word_and_le1)
  then have "unat (h AND (1023 :: u32)) \<le> 1023" for h by simp
  then show ?thesis by (simp add: pfsn_vhash_def PFSN_VHASH_def Let_def less_Suc_eq_le [of _ 1023, simplified])
qed

lemma v_flow_key: "v_flow af proto faddr fport v \<and> c_str (pv_path v) = c_str path
    \<longleftrightarrow> v_key v = flow_of_key af proto faddr fport path"
  by (auto simp: v_flow_def v_key_def flow_of_key_def)

lemma lookup_cached:
  "pfsn_verdict_lookup m af proto faddr fport path
     = (case cached m (flow_of_key af proto faddr fport path) of Some x \<Rightarrow> x | None \<Rightarrow> 0)"
  by (simp add: pfsn_verdict_lookup_def cached_def v_flow_key split: option.split)

lemma cached_None: "cached m k = None \<longleftrightarrow> (\<forall>x \<in> set (vtab m (bucket_of k)). v_key x \<noteq> k)"
  by (auto simp: cached_def find_None_iff)

lemma dom_cached: "k \<in> dom (cached m) \<longleftrightarrow> (\<exists>x \<in> set (vtab m (bucket_of k)). v_key x = k)"
  using cached_None [of m k] by auto

lemma cached_verdict: "vcache_ok m \<Longrightarrow> cached m k = Some x \<Longrightarrow> x \<in> {PFSNITCH_V_ALLOW, PFSNITCH_V_DENY}"
  by (auto simp: cached_def vcache_ok_def find_Some_iff) (metis nth_mem)+

lemma update_cong: "(\<And>x. x \<in> set xs \<Longrightarrow> P x = Q x) \<Longrightarrow> update_first P f xs = update_first Q f xs"
  by (induction xs) auto

lemma find_update_key:
  "(\<And>x. g (f x) = g x) \<Longrightarrow> map_option h (find (\<lambda>x. g x = k) (update_first (\<lambda>x. g x = k') f xs))
     = (if k = k' then map_option (h \<circ> f) (find (\<lambda>x. g x = k) xs) else map_option h (find (\<lambda>x. g x = k) xs))"
  by (induction xs) auto

lemma map_update: "(\<And>x. g (f x) = g x) \<Longrightarrow> map g (update_first P f xs) = map g xs"
  by (induction xs) auto

lemma length_update [simp]: "length (update_first P f xs) = length xs"
  by (induction xs) auto

lemma set_update: "v \<in> set (update_first P f xs) \<Longrightarrow> v \<in> set xs \<or> (\<exists>x \<in> set xs. P x \<and> v = f x)"
  by (induction xs) (auto split: if_splits)

lemma set_verdict_key [simp]: "v_key (v\<lparr>pv_verdict := x\<rparr>) = v_key v"
  by (simp add: v_key_def)

text \<open>A hit is updated; a miss takes a place if there is room.\<close>

lemma insert_hit:
  assumes "vcache_ok m" "path_ok path" "x \<in> set (vtab m b)"
  shows "v_flow af proto faddr fport x \<and> pv_path x = path \<longleftrightarrow> v_key x = flow_of_key af proto faddr fport path"
proof -
  have "path_ok (pv_path x)" using assms(1,3) by (auto simp: vcache_ok_def)
  then show ?thesis using path_ok_eq assms(2) v_flow_key by blast
qed

definition verdict_at :: "u8 \<Rightarrow> u8 \<Rightarrow> bytes \<Rightarrow> u16 \<Rightarrow> u8 \<Rightarrow> bytes \<Rightarrow> pfsn_verdict" where
  "verdict_at af proto faddr fport v path = \<lparr>pv_af = af, pv_proto = proto, pv_verdict = v, pv_fport = fport,
     pv_faddr = take 16 faddr, pv_path = path\<rparr>"

lemma verdict_at_key [simp]: "v_key (verdict_at af proto faddr fport v path) = flow_of_key af proto faddr fport path"
  by (simp add: v_key_def verdict_at_def flow_of_key_def alen_def min_def)

lemma verdict_at_sel [simp]: "pv_path (verdict_at af proto faddr fport v path) = path"
  "pv_verdict (verdict_at af proto faddr fport v path) = v"
  by (simp_all add: verdict_at_def)

lemma insert_eq:
  assumes "vcache_ok m" "path_ok path"
  shows "pfsn_cache_insert ok af proto faddr fport v path m =
    (let k = flow_of_key af proto faddr fport path; b = bucket_of k in
     if k \<in> dom (cached m) then m\<lparr>vtab := (vtab m)(b := update_first (\<lambda>x. v_key x = k) (\<lambda>x. x\<lparr>pv_verdict := v\<rparr>) (vtab m b))\<rparr>
     else if vcount m < PFSN_VMAX \<and> ok then
       m\<lparr>vtab := (vtab m)(b := verdict_at af proto faddr fport v path # vtab m b), vcount := vcount m + 1\<rparr>
     else m)"
proof -
  let ?k = "flow_of_key af proto faddr fport path"
  note hit = insert_hit [OF assms, of _ "bucket_of ?k" af proto faddr fport]
  have "list_ex (\<lambda>x. v_flow af proto faddr fport x \<and> pv_path x = path) (vtab m (bucket_of ?k)) \<longleftrightarrow> ?k \<in> dom (cached m)"
    using hit by (auto simp: dom_cached list_ex_iff simp del: bucket_flow)
  moreover have "update_first (\<lambda>x. v_flow af proto faddr fport x \<and> pv_path x = path) f (vtab m (bucket_of ?k))
      = update_first (\<lambda>x. v_key x = ?k) f (vtab m (bucket_of ?k))" for f
    by (rule update_cong) (rule hit)
  ultimately show ?thesis
    using path_ok_len [OF assms(2)] by (simp add: pfsn_cache_insert_def Let_def verdict_at_def not_le)
qed

lemma cached_upd: "cached (m\<lparr>vtab := (vtab m)(b := xs)\<rparr>) k
    = (if bucket_of k = b then map_option pv_verdict (find (\<lambda>v. v_key v = k) xs) else cached m k)"
  "cached (m\<lparr>vtab := (vtab m)(b := xs), vcount := c\<rparr>) k
    = (if bucket_of k = b then map_option pv_verdict (find (\<lambda>v. v_key v = k) xs) else cached m k)"
  by (simp_all add: cached_def)

lemma insert_cached:
  assumes "vcache_ok m" "path_ok path"
  shows "cached (pfsn_cache_insert ok af proto faddr fport v path m) =
     (if flow_of_key af proto faddr fport path \<in> dom (cached m) \<or> vcount m < PFSN_VMAX \<and> ok
      then (cached m)(flow_of_key af proto faddr fport path \<mapsto> v) else cached m)"
proof -
  let ?k = "flow_of_key af proto faddr fport path"
  let ?up = "update_first (\<lambda>x. v_key x = ?k) (\<lambda>x. x\<lparr>pv_verdict := v\<rparr>) (vtab m (bucket_of ?k))"
  note u = find_update_key [of v_key "\<lambda>x. x\<lparr>pv_verdict := v\<rparr>" pv_verdict _ ?k "vtab m (bucket_of ?k)", OF set_verdict_key]
  show ?thesis
  proof (rule ext)
    fix k
    have "\<exists>x. find (\<lambda>x. v_key x = ?k) (vtab m (bucket_of ?k)) = Some x" if "?k \<in> dom (cached m)"
      using that by (auto simp: cached_def)
    then show "cached (pfsn_cache_insert ok af proto faddr fport v path m) k =
      (if ?k \<in> dom (cached m) \<or> vcount m < PFSN_VMAX \<and> ok then (cached m)(?k \<mapsto> v) else cached m) k"
      unfolding insert_eq [OF assms] Let_def
      by (cases "k = ?k"; cases "bucket_of k = bucket_of ?k")
        (auto simp: cached_upd u simp del: bucket_flow bucket_of.simps, simp_all add: cached_def del: bucket_flow bucket_of.simps)
  qed
qed

lemma sum_upd: "b < PFSN_VHASH \<Longrightarrow> length xs = Suc (length (f b)) \<Longrightarrow>
    (\<Sum>i<PFSN_VHASH. length ((f(b := xs)) i)) = Suc (\<Sum>i<PFSN_VHASH. length (f i))"
  by (simp add: sum.remove [of "{..<PFSN_VHASH}" b])

lemma insert_ok:
  assumes "vcache_ok m" "path_ok path" "v \<in> {PFSNITCH_V_ALLOW, PFSNITCH_V_DENY}"
  shows "vcache_ok (pfsn_cache_insert ok af proto faddr fport v path m)"
proof -
  let ?k = "flow_of_key af proto faddr fport path"
  let ?up = "update_first (\<lambda>x. v_key x = ?k) (\<lambda>x. x\<lparr>pv_verdict := v\<rparr>) (vtab m (bucket_of ?k))"
  have "map v_key ?up = map v_key (vtab m (bucket_of ?k))" by (rule map_update) simp
  then have d: "distinct (map v_key ?up)" using assms(1) by (simp add: vcache_ok_def)
  have a: "bucket_of (v_key x) = bucket_of ?k \<and> path_ok (pv_path x) \<and> pv_verdict x \<in> {PFSNITCH_V_ALLOW, PFSNITCH_V_DENY}"
    if "x \<in> set ?up" for x
    using set_update [OF that] assms(1,3) by (auto simp: vcache_ok_def simp del: bucket_flow)
  have "length (((vtab m)(bucket_of ?k := ?up)) i) = length (vtab m i)" for i by simp
  then have up: "vcache_ok (m\<lparr>vtab := (vtab m)(bucket_of ?k := ?up)\<rparr>)"
    using assms(1) d a unfolding vcache_ok_def by (simp del: bucket_flow fun_upd_apply) (simp del: bucket_flow)
  let ?v = "verdict_at af proto faddr fport v path"
  have new: "vcache_ok (m\<lparr>vtab := (vtab m)(bucket_of ?k := ?v # vtab m (bucket_of ?k)), vcount := vcount m + 1\<rparr>)"
    if "?k \<notin> dom (cached m)" "vcount m < PFSN_VMAX"
  proof -
    have "(\<Sum>i<PFSN_VHASH. length (((vtab m)(bucket_of ?k := ?v # vtab m (bucket_of ?k))) i)) = vcount m + 1"
      using sum_upd [of "bucket_of ?k" "?v # vtab m (bucket_of ?k)" "vtab m"] bucket_less assms(1)
      by (simp add: vcache_ok_def)
    moreover have "?k \<notin> v_key ` set (vtab m (bucket_of ?k))" using that(1) by (auto simp: dom_cached simp del: bucket_flow)
    moreover have "distinct (map v_key (((vtab m)(bucket_of ?k := ?v # vtab m (bucket_of ?k))) b))" for b
      using calculation(2) assms(1) by (simp add: vcache_ok_def del: bucket_flow)
    moreover have "bucket_of (v_key x) = b \<and> path_ok (pv_path x) \<and> pv_verdict x \<in> {PFSNITCH_V_ALLOW, PFSNITCH_V_DENY}"
      if "x \<in> set (((vtab m)(bucket_of ?k := ?v # vtab m (bucket_of ?k))) b)" for x b
      using that assms by (auto simp: vcache_ok_def simp del: bucket_flow split: if_splits)
    ultimately show ?thesis
      using that(2) unfolding vcache_ok_def by (simp del: bucket_flow fun_upd_apply)
  qed
  show ?thesis using up new assms(1) unfolding insert_eq [OF assms(1,2)] Let_def by simp
qed

lemma cache_bucket: "vcache_ok m \<Longrightarrow> PFSN_VHASH \<le> b \<Longrightarrow> vtab m b = []"
proof -
  assume c: "vcache_ok m" "PFSN_VHASH \<le> b"
  have "False" if "v \<in> set (vtab m b)" for v
  proof -
    have "bucket_of (v_key v) = b" using c(1) that by (auto simp: vcache_ok_def)
    then show False using bucket_less c(2) by (cases "v_key v") (metis bucket_of.simps not_less)
  qed
  then show "vtab m b = []" by (cases "vtab m b") auto
qed

lemma flush_empty: "vcache_ok m \<Longrightarrow> vtab (pfsn_verdict_flush m) = (\<lambda>b. [])"
  by (rule ext) (simp add: pfsn_verdict_flush_def cache_bucket)

lemma flush_ok: "vcache_ok m \<Longrightarrow> vcache_ok (pfsn_verdict_flush m)"
  using flush_empty [of m] by (simp add: vcache_ok_def) (simp add: pfsn_verdict_flush_def)

lemma flush_cached: "cached (pfsn_verdict_flush m) = Map.empty"
  using bucket_less by (auto simp: cached_def pfsn_verdict_flush_def fun_eq_iff)


section \<open>The queue\<close>

definition r_key :: "pfsn_req \<Rightarrow> vkey" where
  "r_key r = flow_of_key (rq_af r) (rq_proto r) (rq_faddr r) (rq_fport r) (rq_path r)"

text \<open>\<open>n\<close> bounds the requests ever made, so that no id has come round again.\<close>

definition queue_ok :: "nat \<Rightarrow> kmod \<Rightarrow> bool" where
  "queue_ok n m \<longleftrightarrow> nreq m = length (reqs m) \<and> nreq m \<le> PFSN_REQ_MAX \<and> distinct (map rq_id (reqs m))
     \<and> distinct (map r_key (reqs m)) \<and> 0 < unat (next_id m) \<and> unat (next_id m) \<le> Suc n
     \<and> (\<forall>r \<in> set (reqs m). unat (rq_id r) < unat (next_id m) \<and> path_ok (rq_path r) \<and> length (rq_faddr r) = 16
          \<and> rq_af r \<in> {4, 6} \<and> rq_proto r = 17)"

definition labels_ok :: "kmod \<Rightarrow> bool" where
  "labels_ok m \<longleftrightarrow> (\<forall>so info. slots m so = Some info \<longrightarrow> (\<exists>s. 0 \<notin> set s \<and> i_path info = s @ [0]))"

definition kmod_ok :: "nat \<Rightarrow> kmod \<Rightarrow> bool" where
  "kmod_ok n m \<longleftrightarrow> vcache_ok m \<and> queue_ok n m \<and> labels_ok m"

lemma question_key: "path_ok path \<Longrightarrow> path_ok (rq_path r) \<Longrightarrow>
    r_question af proto faddr fport path r \<longleftrightarrow> r_key r = flow_of_key af proto faddr fport path"
  using path_ok_eq [of "rq_path r" path] by (auto simp: r_question_def r_key_def flow_of_key_def)

lemma delivered_keys: "(\<And>r. rq_id (f r) = rq_id r \<and> r_key (f r) = r_key r \<and> rq_path (f r) = rq_path r \<and> rq_faddr (f r) = rq_faddr r
      \<and> rq_af (f r) = rq_af r \<and> rq_proto (f r) = rq_proto r) \<Longrightarrow>
    queue_ok n m \<Longrightarrow> queue_ok n (m\<lparr>reqs := update_first P f (reqs m)\<rparr>)"
  using map_update [of rq_id f P "reqs m"] map_update [of r_key f P "reqs m"]
  by (auto simp: queue_ok_def dest!: set_update)

lemma queue_sub:
  assumes "queue_ok n m" "reqs m' = filter P (reqs m)" "nreq m' = length (reqs m')" "next_id m' = next_id m"
  shows "queue_ok n m'"
  using assms unfolding queue_ok_def
  by (auto simp: distinct_map_filter intro: order_trans [OF length_filter_le])

lemma gc_ok:
  assumes "queue_ok n m"
  shows "queue_ok n (pfsn_req_gc now m)"
proof (rule queue_sub [OF assms])
  have "nreq m = length (reqs m)" using assms by (simp add: queue_ok_def)
  then show "nreq (pfsn_req_gc now m) = length (reqs (pfsn_req_gc now m))"
    by (simp add: pfsn_req_gc_def Let_def diff_diff_cancel)
qed (simp_all add: pfsn_req_gc_def Let_def)

lemma enqueue_ok:
  assumes "queue_ok n m" "nreq m < PFSN_REQ_MAX" "Suc n < 2 ^ 64 - 1" "rq_id r = next_id m"
    "\<forall>q \<in> set (reqs m). r_key q \<noteq> r_key r" "path_ok (rq_path r)" "length (rq_faddr r) = 16" "rq_af r \<in> {4, 6}" "rq_proto r = 17"
  shows "queue_ok (Suc n) (m\<lparr>reqs := reqs m @ [r], nreq := nreq m + 1, next_id := next_id m + 1\<rparr>)"
proof -
  have "unat (next_id m) < 2 ^ 64 - 1" using assms(1,3) by (simp add: queue_ok_def)
  then have u: "unat (next_id m + 1) = Suc (unat (next_id m))"
    by (subst unat_add_lem [THEN iffD1]) simp_all
  have i: "rq_id q \<noteq> rq_id r \<and> unat (rq_id q) < unat (next_id m)" if "q \<in> set (reqs m)" for q
    using that assms(1,4) by (auto simp: queue_ok_def)
  then have d: "rq_id r \<notin> rq_id ` set (reqs m)" "r_key r \<notin> r_key ` set (reqs m)" using assms(5) by fastforce+
  then show ?thesis
    using assms(1,2,6-9) u unfolding queue_ok_def by (auto simp: assms(4) less_Suc_eq)
qed

lemma gc_sel [simp]: "slots (pfsn_req_gc now m) = slots m" "vtab (pfsn_req_gc now m) = vtab m" "vcount (pfsn_req_gc now m) = vcount m"
  "next_id (pfsn_req_gc now m) = next_id m" "set (reqs (pfsn_req_gc now m)) \<subseteq> set (reqs m)"
  by (auto simp: pfsn_req_gc_def Let_def)

lemma gc_nreq: "nreq (pfsn_req_gc now m) \<le> nreq m"
  by (simp add: pfsn_req_gc_def Let_def del: diff_diff_right) 

lemma insert_sel [simp]: "reqs (pfsn_cache_insert ok af proto faddr fport v path m) = reqs m"
  "nreq (pfsn_cache_insert ok af proto faddr fport v path m) = nreq m"
  "next_id (pfsn_cache_insert ok af proto faddr fport v path m) = next_id m"
  "slots (pfsn_cache_insert ok af proto faddr fport v path m) = slots m"
  "upcall_on (pfsn_cache_insert ok af proto faddr fport v path m) = upcall_on m"
  by (simp_all add: pfsn_cache_insert_def Let_def)

lemma same_cache: "vtab m' = vtab m \<Longrightarrow> vcount m' = vcount m \<Longrightarrow> vcache_ok m \<Longrightarrow> vcache_ok m'"
  by (simp add: vcache_ok_def)

lemma same_cached: "vtab m' = vtab m \<Longrightarrow> cached m' = cached m"
  by (simp add: cached_def fun_eq_iff)

text \<open>What the hook does when it asks.\<close>

lemma upcall_path:
  assumes "0 \<notin> set s" "s \<noteq> []" "length s < 1024"
  shows "strnlen (s @ [0]) 1024 = length s" "path_ok (s @ [0])"
  using assms by (auto simp: strnlen_def path_ok_def take_Cons')

lemma upcall_eq:
  assumes "0 \<notin> set s" "s \<noteq> []" "length s < 1024" "i_path info = s @ [0]"
  shows "pfsn_upcall now ok af proto faddr fport info nb m =
    (if unloading m then (pfsn_failverdict m, m)
     else if list_ex (r_question af proto faddr fport (s @ [0])) (reqs m) then (EAGAIN, m)
     else if PFSN_REQ_MAX \<le> nreq m then (pfsn_failverdict m, m)
     else let g = pfsn_req_gc now m in
       if \<not> ok then (pfsn_failverdict g, g)
       else (EAGAIN, g\<lparr>reqs := reqs g @ [new_req now af proto faddr fport info nb (s @ [0]) g],
               nreq := nreq g + 1, next_id := next_id g + 1\<rparr>))"
  using upcall_path(1) [OF assms(1-3)] assms by (simp add: pfsn_upcall_def Let_def)

lemma new_req_sel [simp]: "rq_id (new_req now af proto faddr fport info nb path m) = next_id m"
  "rq_path (new_req now af proto faddr fport info nb path m) = path"
  "rq_af (new_req now af proto faddr fport info nb path m) = af"
  "rq_proto (new_req now af proto faddr fport info nb path m) = proto"
  "rq_faddr (new_req now af proto faddr fport info nb path m) = take 16 faddr"
  "r_key (new_req now af proto faddr fport info nb path m) = flow_of_key af proto faddr fport path"
  by (simp_all add: new_req_def r_key_def flow_of_key_def alen_def min_def)

lemma upcall_silent:
  assumes "0 \<notin> set s" "\<not> (s \<noteq> [] \<and> length s < 1024)" "i_path info = s @ [0]"
  shows "pfsn_upcall now ok af proto faddr fport info nb m = (0, m)"
proof -
  have "strnlen (s @ [0]) 1024 = 0 \<or> 1024 \<le> strnlen (s @ [0]) 1024"
  proof (cases "s = []")
    case True
    then show ?thesis by (simp add: strnlen_def c_str_def)
  next
    case False
    moreover from this have "c_str (take 1024 s) = take 1024 s" using assms(1) by (meson c_str_free in_set_takeD)
    ultimately show ?thesis using assms(2) by (simp add: strnlen_def)
  qed
  then show ?thesis using assms(3) by (auto simp: pfsn_upcall_def Let_def)
qed

lemma question_asked:
  assumes "queue_ok n m" "path_ok path"
  shows "list_ex (r_question af proto faddr fport path) (reqs m)
    \<longleftrightarrow> flow_of_key af proto faddr fport path \<in> r_key ` set (reqs m)"
  using question_key [OF assms(2)] assms(1) by (auto simp: list_ex_iff queue_ok_def image_iff) metis+

lemma upcall_ok:
  assumes "queue_ok n m" "Suc n < 2 ^ 64 - 1" "0 \<notin> set s" "i_path info = s @ [0]" "af \<in> {4, 6}" "16 \<le> length faddr"
    "pfsn_upcall now ok af 17 faddr fport info nb m = (r, m')"
  shows "queue_ok (Suc n) m'"
proof -
  have weak: "queue_ok (Suc n) m" if "queue_ok n m" for m using that by (simp add: queue_ok_def)
  show ?thesis
  proof (cases "s \<noteq> [] \<and> length s < 1024")
    case True
    let ?g = "pfsn_req_gc now m" and ?path = "s @ [0]"
    let ?r = "new_req now af 17 faddr fport info nb ?path ?g"
    have g: "queue_ok n ?g" using gc_ok [OF assms(1)] .
    have p: "path_ok ?path" using upcall_path(2) assms(3) True by blast
    have "queue_ok (Suc n) (?g\<lparr>reqs := reqs ?g @ [?r], nreq := nreq ?g + 1, next_id := next_id ?g + 1\<rparr>)"
      if "\<not> list_ex (r_question af 17 faddr fport ?path) (reqs m)" "\<not> PFSN_REQ_MAX \<le> nreq m"
    proof (rule enqueue_ok [OF g])
      show "nreq ?g < PFSN_REQ_MAX" using that(2) gc_nreq [of now m] by simp
      have "r_key ?r \<notin> r_key ` set (reqs m)" using that(1) question_asked [OF assms(1) p] by simp
      then show "\<forall>q \<in> set (reqs ?g). r_key q \<noteq> r_key ?r" using gc_sel(5) [of now m] by (metis imageI subsetD)
      show "Suc n < 2 ^ 64 - 1" by (rule assms(2))
      show "rq_id ?r = next_id ?g" "path_ok (rq_path ?r)" "rq_af ?r \<in> {4, 6}" "rq_proto ?r = 17" using p assms(5) by simp_all
      show "length (rq_faddr ?r) = 16" using assms(6) by simp
    qed
    moreover have "m' = m \<or> m' = ?g \<or> \<not> list_ex (r_question af 17 faddr fport ?path) (reqs m) \<and> \<not> PFSN_REQ_MAX \<le> nreq m
        \<and> m' = ?g\<lparr>reqs := reqs ?g @ [?r], nreq := nreq ?g + 1, next_id := next_id ?g + 1\<rparr>"
      using assms(7) upcall_eq [OF assms(3) conjunct1 [OF True] conjunct2 [OF True] assms(4), of now ok af 17 faddr fport nb m]
      unfolding Let_def by (metis (no_types, lifting) prod.inject)
    ultimately show ?thesis using weak [OF assms(1)] weak [OF g] by blast
  next
    case False
    then show ?thesis using weak [OF assms(1)] upcall_silent [OF assms(3) False assms(4)] assms(7) by simp
  qed
qed

lemma upcall_frame:
  assumes "pfsn_upcall now ok af proto faddr fport info nb m = (r, m')"
  shows "vtab m' = vtab m \<and> vcount m' = vcount m \<and> slots m' = slots m \<and> r \<in> {0, EPERM, EAGAIN}"
  using assms by (auto simp: pfsn_upcall_def Let_def pfsn_failverdict_def split: if_splits)


section \<open>Every operation keeps the module in order\<close>

lemma kmod_okI: "vcache_ok m \<Longrightarrow> queue_ok n m \<Longrightarrow> labels_ok m \<Longrightarrow> kmod_ok n m"
  by (simp add: kmod_ok_def)

lemma same_labels: "slots m' = slots m \<Longrightarrow> labels_ok m \<Longrightarrow> labels_ok m'"
  by (simp add: labels_ok_def)

lemma same_queue: "reqs m' = reqs m \<Longrightarrow> nreq m' = nreq m \<Longrightarrow> next_id m' = next_id m \<Longrightarrow> queue_ok n m \<Longrightarrow> queue_ok n m'"
  by (simp add: queue_ok_def)

lemma kmod_ok_Suc: "kmod_ok n m \<Longrightarrow> kmod_ok (Suc n) m"
  by (simp add: kmod_ok_def queue_ok_def)

fun sa_ok :: "sock_addr \<Rightarrow> bool" where
  "sa_ok (Inet port a) \<longleftrightarrow> length a = 4"
| "sa_ok (Inet6 port a) \<longleftrightarrow> length a = 16"
| "sa_ok sa \<longleftrightarrow> True"

lemma connect_flow_ok:
  "connect_flow junk ty sa = Some (af, proto, faddr, fport) \<Longrightarrow> length junk = 16 \<Longrightarrow> sa_ok sa
    \<Longrightarrow> af \<in> {4, 6} \<and> proto \<in> {6, 17} \<and> length faddr = 16"
  by (cases sa; cases ty) (auto simp: connect_flow_def)

lemma connect_ok:
  assumes "kmod_ok n m" "Suc n < 2 ^ 64 - 1" "length junk = 16" "sa_ok sa" "label = None \<or> label = Some (slots m so)"
    "pfsn_socket_check_connect now ok junk ty nbio label sa m = (r, m')"
  shows "kmod_ok (Suc n) m'"
proof (cases "m' = m")
  case True
  then show ?thesis using kmod_ok_Suc assms(1) by simp
next
  case False
  then obtain info af faddr fport where l: "slots m so = Some info" and c: "connect_flow junk ty sa = Some (af, 17, faddr, fport)"
    and u: "pfsn_upcall now ok af 17 faddr fport info nbio m = (r, m')"
    using assms(5,6) by (auto simp: pfsn_socket_check_connect_def Let_def split: option.splits if_splits prod.splits) metis
  obtain s where s: "0 \<notin> set s" "i_path info = s @ [0]" using l assms(1) by (auto simp: kmod_ok_def labels_ok_def)
  have f: "af \<in> {4, 6}" "length faddr = 16" using connect_flow_ok [OF c assms(3,4)] by simp_all
  have q: "queue_ok (Suc n) m'"
    using upcall_ok [OF _ assms(2) s f(1) _ u] assms(1) f(2) by (simp add: kmod_ok_def)
  show ?thesis
    using upcall_frame [OF u] q assms(1) same_cache [of m' m] same_labels [of m' m] by (simp add: kmod_ok_def)
qed

lemma resolve_ok:
  assumes "kmod_ok n m" "v \<in> {PFSNITCH_V_ALLOW, PFSNITCH_V_DENY}"
  shows "kmod_ok n (pfsn_resolve ok i v m)"
proof (cases "find (\<lambda>r. rq_id r = i) (reqs m)")
  case None
  then show ?thesis using assms(1) by (simp add: pfsn_resolve_def)
next
  case (Some r)
  then have r: "r \<in> set (reqs m)" by (auto simp: find_Some_iff)
  let ?m = "pfsn_cache_insert ok (rq_af r) (rq_proto r) (rq_faddr r) (rq_fport r) v (rq_path r) m"
  let ?m' = "?m\<lparr>reqs := remove1 r (reqs m), nreq := nreq m - 1\<rparr>"
  have p: "path_ok (rq_path r)" and q: "queue_ok n m" and c: "vcache_ok m" and l: "labels_ok m"
    using assms(1) r by (auto simp: kmod_ok_def queue_ok_def)
  have "distinct (reqs m)" using q by (auto simp: queue_ok_def distinct_map)
  then have "remove1 r (reqs m) = filter (\<lambda>x. x \<noteq> r) (reqs m)"
    by (simp add: distinct_remove1_removeAll removeAll_filter_not_eq eq_commute)
  moreover have "nreq m - 1 = length (remove1 r (reqs m))" using q r by (simp add: queue_ok_def length_remove1)
  ultimately have "queue_ok n ?m'" using queue_sub [OF q, of ?m' "\<lambda>x. x \<noteq> r"] by simp
  moreover have "vcache_ok ?m'" using insert_ok [OF c p assms(2)] same_cache [of ?m' ?m] by simp
  moreover have "labels_ok ?m'" using l same_labels [of ?m' m] by simp
  ultimately show ?thesis using Some by (simp add: pfsn_resolve_def kmod_ok_def)
qed

fun arg_ok :: "ioctl_arg \<Rightarrow> bool" where
  "arg_ok (VerdictArg pv) \<longleftrightarrow> length (v_path pv) = 1024 \<and> length (v_faddr pv) = 16"
| "arg_ok arg \<longleftrightarrow> True"

lemma push_ok:
  assumes "kmod_ok n m" "length (v_path pv) = 1024" "v_verdict pv \<in> {PFSNITCH_V_ALLOW, PFSNITCH_V_DENY}"
  shows "kmod_ok n (pfsn_verdict_push ok pv m)"
proof -
  let ?path = "take (Suc (strnlen (v_path pv) 1024)) (v_path pv)"
  let ?m = "pfsn_cache_insert ok (v_af pv) (v_proto pv) (v_faddr pv) (v_fport pv) (v_verdict pv) ?path m"
  have "kmod_ok n ?m" if "strnlen (v_path pv) 1024 \<noteq> 0" "strnlen (v_path pv) 1024 < 1024"
  proof -
    have "path_ok ?path" using strnlen_path [OF that] assms(2) by simp
    then show ?thesis
      using assms(1,3) insert_ok [of m ?path "v_verdict pv"] same_queue [of ?m m n] same_labels [of ?m m] by (simp add: kmod_ok_def)
  qed
  then show ?thesis using assms(1) by (auto simp: pfsn_verdict_push_def Let_def not_le)
qed

lemma flush_keeps: "kmod_ok n m \<Longrightarrow> kmod_ok n (pfsn_verdict_flush m)"
  using flush_ok [of m] same_queue [of "pfsn_verdict_flush m" m n] same_labels [of "pfsn_verdict_flush m" m]
  by (simp add: kmod_ok_def) (simp add: pfsn_verdict_flush_def)

lemma upcall_set_ok: "kmod_ok n m \<Longrightarrow> kmod_ok n (m\<lparr>upcall_on := b\<rparr>)"
  using same_cache [of "m\<lparr>upcall_on := b\<rparr>" m] same_queue [of "m\<lparr>upcall_on := b\<rparr>" m n] same_labels [of "m\<lparr>upcall_on := b\<rparr>" m]
  by (simp add: kmod_ok_def)

lemma ioctl_ok:
  assumes "kmod_ok n m" "arg_ok arg" "pfsn_ioctl pcb ok cmd arg m = (e, arg', m')"
  shows "kmod_ok n m'"
  using assms push_ok [OF assms(1)] resolve_ok [OF assms(1)] flush_keeps [OF assms(1)] upcall_set_ok [OF assms(1)]
  by (cases arg) (auto simp: pfsn_ioctl_def split: if_splits)

lemma read_ok: "kmod_ok n m \<Longrightarrow> kmod_ok n (snd (read_next resid m))"
proof -
  assume k: "kmod_ok n m"
  have "queue_ok n (m\<lparr>reqs := update_first P (\<lambda>r. r\<lparr>rq_delivered := b\<rparr>) (reqs m)\<rparr>)" for P b
    by (rule delivered_keys) (use k in \<open>simp_all add: r_key_def kmod_ok_def\<close>)
  then show ?thesis
    using k same_cache [of "m\<lparr>reqs := xs\<rparr>" m for xs] same_labels [of "m\<lparr>reqs := xs\<rparr>" m for xs]
    by (auto simp: read_next_def kmod_ok_def split: option.split)
qed

lemma fault_ok: "kmod_ok n m \<Longrightarrow> kmod_ok n (read_fault i m)"
proof -
  assume k: "kmod_ok n m"
  have "queue_ok n (m\<lparr>reqs := update_first P (\<lambda>r. r\<lparr>rq_delivered := b\<rparr>) (reqs m)\<rparr>)" for P b
    by (rule delivered_keys) (use k in \<open>simp_all add: r_key_def kmod_ok_def\<close>)
  then show ?thesis
    using k same_cache [of "m\<lparr>reqs := xs\<rparr>" m for xs] same_labels [of "m\<lparr>reqs := xs\<rparr>" m for xs]
    by (auto simp: read_fault_def kmod_ok_def)
qed

lemma slots_ok:
  assumes "kmod_ok n m" "\<And>so info. f so = Some info \<Longrightarrow> \<exists>s. 0 \<notin> set s \<and> i_path info = s @ [0]"
  shows "kmod_ok n (m\<lparr>slots := f, infos := xs\<rparr>)"
  using assms(1) same_cache [of "m\<lparr>slots := f, infos := xs\<rparr>" m] same_queue [of "m\<lparr>slots := f, infos := xs\<rparr>" m n]
    assms(2) by (auto simp: kmod_ok_def) (auto simp: labels_ok_def)

lemma slot_ok: "kmod_ok n m \<Longrightarrow> slots m so = Some info \<Longrightarrow> \<exists>s. 0 \<notin> set s \<and> i_path info = s @ [0]"
  by (auto simp: kmod_ok_def labels_ok_def)

lemma slot_put:
  assumes "kmod_ok n m" "\<And>info. x = Some info \<Longrightarrow> \<exists>s. 0 \<notin> set s \<and> i_path info = s @ [0]"
  shows "kmod_ok n (m\<lparr>slots := (slots m)(so := x), infos := xs\<rparr>)"
  by (rule slots_ok [OF assms(1)]) (metis assms fun_upd_apply slot_ok)

lemma labels_keep:
  assumes "kmod_ok n m"
  shows "kmod_ok n (pfsn_socket_init_label so m)" "kmod_ok n (pfsn_socket_destroy_label so m)"
    "kmod_ok n (pfsn_socket_create so labelled pd uid comm path m)"
proof -
  have e: "m\<lparr>slots := f\<rparr> = m\<lparr>slots := f, infos := infos m\<rparr>" for f by simp
  show "kmod_ok n (pfsn_socket_init_label so m)"
    unfolding pfsn_socket_init_label_def by (subst e) (rule slot_put [OF assms], simp)
  show "kmod_ok n (pfsn_socket_destroy_label so m)"
    using assms slot_put [OF assms, of None] by (simp add: pfsn_socket_destroy_label_def split: option.split)
  have "\<exists>s. 0 \<notin> set s \<and> (case path of Some p \<Rightarrow> c_str p @ [0] | None \<Rightarrow> [0]) = s @ [0]"
    by (cases path) (auto intro: exI [of _ "c_str p" for p] exI [of _ "[]"])
  then show "kmod_ok n (pfsn_socket_create so labelled pd uid comm path m)"
    unfolding pfsn_socket_create_def Let_def using assms by (cases labelled) (auto intro!: slot_put)
qed

lemma destroy_ok:
  assumes "kmod_ok n m"
  shows "kmod_ok n (pfsn_destroy m)"
proof -
  let ?m = "m\<lparr>unloading := True, reqs := [], nreq := 0, infos := []\<rparr>"
  have "queue_ok n ?m" using assms by (simp add: kmod_ok_def queue_ok_def)
  then have "kmod_ok n ?m" using assms same_cache [of ?m m] same_labels [of ?m m] by (simp add: kmod_ok_def)
  then show ?thesis unfolding pfsn_destroy_def by (rule flush_keeps)
qed

lemma init_ok: "kmod_ok 0 pfsn_init"
  by (simp add: kmod_ok_def pfsn_init_def vcache_ok_def queue_ok_def labels_ok_def PFSN_VMAX_def PFSN_REQ_MAX_def)

text \<open>The states the module can be in after at most \<open>n\<close> runs of the hook.\<close>

inductive kreach :: "nat \<Rightarrow> kmod \<Rightarrow> bool" where
  load: "kreach 0 pfsn_init"
| connect: "kreach n m \<Longrightarrow> length junk = 16 \<Longrightarrow> sa_ok sa \<Longrightarrow> label = None \<or> label = Some (slots m so) \<Longrightarrow>
    pfsn_socket_check_connect now ok junk ty nbio label sa m = (r, m') \<Longrightarrow> kreach (Suc n) m'"
| read: "kreach n m \<Longrightarrow> kreach n (snd (read_next resid m))"
| fault: "kreach n m \<Longrightarrow> kreach n (read_fault i m)"
| ioctl: "kreach n m \<Longrightarrow> arg_ok arg \<Longrightarrow> pfsn_ioctl pcb ok cmd arg m = (e, arg', m') \<Longrightarrow> kreach n m'"
| closed: "kreach n m \<Longrightarrow> kreach n (pfsn_dev_close m)"
| init_label: "kreach n m \<Longrightarrow> kreach n (pfsn_socket_init_label so m)"
| create: "kreach n m \<Longrightarrow> kreach n (pfsn_socket_create so labelled pd uid comm path m)"
| destroy_label: "kreach n m \<Longrightarrow> kreach n (pfsn_socket_destroy_label so m)"
| sysctl: "kreach n m \<Longrightarrow> kreach n (m\<lparr>failmode := mode\<rparr>)"
| unload: "kreach n m \<Longrightarrow> kreach n (pfsn_destroy m)"

lemma kreach_ok: "kreach n m \<Longrightarrow> n < 2 ^ 64 - 1 \<Longrightarrow> kmod_ok n m"
proof (induction rule: kreach.induct)
  case load
  show ?case by (rule init_ok)
next
  case (connect n m junk sa label so now ok ty nbio r m')
  then have "kmod_ok n m" by simp
  from connect_ok [OF this connect.prems connect.hyps(2-5)] show ?case .
next
  case (ioctl n m arg pcb ok cmd e arg' m')
  then show ?case using ioctl_ok by blast
next
  case (sysctl n m mode)
  have "vcache_ok (m\<lparr>failmode := mode\<rparr>) = vcache_ok m" "queue_ok n (m\<lparr>failmode := mode\<rparr>) = queue_ok n m"
    "labels_ok (m\<lparr>failmode := mode\<rparr>) = labels_ok m" by (simp_all add: vcache_ok_def queue_ok_def labels_ok_def)
  then show ?case using sysctl by (simp add: kmod_ok_def)
qed (simp_all add: read_ok fault_ok upcall_set_ok pfsn_dev_close_def labels_keep destroy_ok)


section \<open>The hook and the cache\<close>

lemma connect_eq:
  assumes "vcache_ok m" "slots m so = Some info" "i_path info ! 0 \<noteq> 0" "connect_flow junk ty sa = Some (af, proto, faddr, fport)"
    "\<not> is_loopback af faddr"
  shows "pfsn_socket_check_connect now ok junk ty nbio (Some (slots m so)) sa m =
    (case cached m (flow_of_key af proto faddr fport (i_path info)) of
       Some v \<Rightarrow> (if v = PFSNITCH_V_DENY then EPERM else 0, m)
     | None \<Rightarrow> if upcall_on m \<and> proto = 17 \<and> ntohs_mem fport \<noteq> 53
         then pfsn_upcall now ok af proto faddr fport info nbio m else (0, m))"
proof -
  have v: "v = PFSNITCH_V_DENY \<or> v = PFSNITCH_V_ALLOW"
    if "cached m (flow_of_key af proto faddr fport (i_path info)) = Some v" for v
    using cached_verdict [OF assms(1) that] by blast
  show ?thesis
    using assms v
    by (auto simp: pfsn_socket_check_connect_def lookup_cached Let_def PFSNITCH_V_DENY_def PFSNITCH_V_ALLOW_def split: option.split)
qed

lemma connect_loopback: "connect_flow junk ty sa = Some (af, proto, faddr, fport) \<Longrightarrow> is_loopback af faddr
    \<Longrightarrow> pfsn_socket_check_connect now ok junk ty nbio label sa m = (0, m)"
  by (simp add: pfsn_socket_check_connect_def split: option.split)

text \<open>Asking leaves the question in the queue, or gives the answer for a daemon that cannot be asked.\<close>

lemma upcall_result:
  assumes "queue_ok n m" "0 \<notin> set s" "i_path info = s @ [0]" "pfsn_upcall now ok af proto faddr fport info nb m = (r, m')"
  shows "r = EAGAIN \<and> flow_of_key af proto faddr fport (i_path info) \<in> r_key ` set (reqs m') \<or> r \<in> {0, pfsn_failverdict m}"
proof (cases "s \<noteq> [] \<and> length s < 1024")
  case True
  have p: "path_ok (s @ [0])" using upcall_path(2) assms(2) True by blast
  have f: "pfsn_failverdict (pfsn_req_gc now m) = pfsn_failverdict m"
    by (simp add: pfsn_failverdict_def pfsn_req_gc_def Let_def)
  have e: "pfsn_upcall now ok af proto faddr fport info nb m = (r, m')" by (rule assms(4))
  show ?thesis
    using e question_asked [OF assms(1) p, of af proto faddr fport] assms(3) f
    unfolding upcall_eq [OF assms(2) conjunct1 [OF True] conjunct2 [OF True] assms(3)]
    by (simp add: Let_def split: if_splits) force+
next
  case False
  then show ?thesis using upcall_silent [OF assms(2) False assms(3)] assms(4) by simp
qed


section \<open>The daemon's commands\<close>

text \<open>The module as the device of the daemon's operations, and the module after a sequence of commands.\<close>

definition module_device :: "pcblookup \<Rightarrow> bool \<Rightarrow> kmod \<Rightarrow> device" where
  "module_device pcb ok m =
     \<lparr>dev_query = (\<lambda>cmd q. case pfsn_ioctl pcb ok cmd (AttrArg q) m of (e, arg, m') \<Rightarrow>
        if e = 0 then (case arg of AttrArg q' \<Rightarrow> Inr q' | _ \<Rightarrow> Inr q) else Inl e),
      dev_ctl = (\<lambda>cmd arg. case pfsn_ioctl pcb ok cmd arg m of (e, r) \<Rightarrow> if e = 0 then None else Some e)\<rparr>"

definition module_after :: "pcblookup \<Rightarrow> bool \<Rightarrow> ioctl_call list \<Rightarrow> kmod \<Rightarrow> kmod" where
  "module_after pcb ok calls m = fold (\<lambda>(c, a) m. snd (snd (pfsn_ioctl pcb ok c a m))) calls m"

lemma verdict_struct_sel: "v_version (verdict_struct proto dst dport path allow) = PFSNITCH_ATTR_VERSION"
  "v_af (verdict_struct proto dst dport path allow) = (if is_v4 dst then 4 else 6)"
  "v_proto (verdict_struct proto dst dport path allow) = proto"
  "v_fport (verdict_struct proto dst dport path allow) = swap16 dport"
  "v_faddr (verdict_struct proto dst dport path allow) = pad_to 16 (octets dst)"
  "v_verdict (verdict_struct proto dst dport path allow) = (if allow then PFSNITCH_V_ALLOW else PFSNITCH_V_DENY)"
  "v_path (verdict_struct proto dst dport path allow) = pad_to 1024 (as_bytes path)"
  by (simp_all add: verdict_struct_def)

lemma ioctl_push:
  assumes "proto = 6 \<or> proto = 17"
  shows "pfsn_ioctl pcb ok verdict_push_cmd (VerdictArg (verdict_struct proto dst dport path allow)) m
    = (0, VerdictArg (verdict_struct proto dst dport path allow), pfsn_verdict_push ok (verdict_struct proto dst dport path allow) m)"
  using assms by (auto simp: pfsn_ioctl_def verdict_struct_sel)

lemma ioctl_flush: "pfsn_ioctl pcb ok verdict_flush_cmd arg m = (0, arg, pfsn_verdict_flush m)"
  by (simp add: pfsn_ioctl_def command_numbers)

lemma ioctl_resolve: "pfsn_ioctl pcb ok resolve_cmd (ResolveArg \<lparr>r_version = PFSNITCH_ATTR_VERSION,
      r_verdict = (if allow then PFSNITCH_V_ALLOW else PFSNITCH_V_DENY), r_id = i\<rparr>) m
    = (0, ResolveArg \<lparr>r_version = PFSNITCH_ATTR_VERSION, r_verdict = (if allow then PFSNITCH_V_ALLOW else PFSNITCH_V_DENY), r_id = i\<rparr>,
       pfsn_resolve ok i (if allow then PFSNITCH_V_ALLOW else PFSNITCH_V_DENY) m)"
  by (simp add: pfsn_ioctl_def command_numbers)

lemma ioctl_upcall: "pfsn_ioctl pcb ok upcall_set_cmd (IntArg b) m = (0, IntArg b, m\<lparr>upcall_on := (b \<noteq> 0)\<rparr>)"
  by (simp add: pfsn_ioctl_def command_numbers)

lemma query_attr_sel: "q_version (query_attr t) = PFSNITCH_ATTR_VERSION" "q_proto (query_attr t) = t_proto t"
  "q_af (query_attr t) = (if is_v4 (t_src t) then 4 else 6)" "q_lport (query_attr t) = swap16 (t_sport t)"
  "q_fport (query_attr t) = swap16 (t_dport t)" "q_laddr (query_attr t) = pad_to 16 (octets (t_src t))"
  "q_faddr (query_attr t) = pad_to 16 (octets (t_dst t))" "q_comm (query_attr t) = replicate 24 0" "q_path (query_attr t) = replicate 1024 0"
  by (simp_all add: query_attr_def zeroed_attr_def)

lemma ioctl_query:
  assumes "t_proto t = 6 \<or> t_proto t = 17"
  shows "pfsn_ioctl pcb ok attr_query_cmd (AttrArg (query_attr t)) m = (0, AttrArg (pfsn_lookup pcb m (query_attr t)), m)"
  using assms by (auto simp: pfsn_ioctl_def command_numbers query_attr_sel)

text \<open>Daemon and module speak the same protocol: whatever command the daemon issues, the module takes it, so that no
  handle on a loaded module ever dies of an answer.\<close>

theorem module_accepts_daemon: "fst (run_op (module_device pcb ok m) c k) = k"
proof (cases c)
  case (Query t)
  then show ?thesis
    using ioctl_query [of t pcb ok m] by (cases "t_proto t = 6 \<or> t_proto t = 17") (auto simp: kern_query_def module_device_def Let_def)
next
  case (PushVerdict pr a p path allow)
  then show ?thesis
    using ioctl_push [of pr pcb ok a p path allow m] by (auto simp: push_verdict_def ctl_def module_device_def)
next
  case FlushVerdicts
  then show ?thesis by (simp add: flush_verdicts_def ctl_def module_device_def ioctl_flush)
next
  case (ResolveEvent i allow)
  then show ?thesis by (simp add: kern_resolve_def ctl_def module_device_def ioctl_resolve)
next
  case (SetUpcall on)
  then show ?thesis by (simp add: set_upcall_def ctl_def module_device_def ioctl_upcall)
qed


section \<open>A verdict pushed, an upcall answered\<close>

lemma strlcpy_fresh:
  assumes "0 \<notin> set s" "length s < n"
  shows "strlcpy (replicate n 0) (s @ [0]) = pad_to n s"
proof -
  obtain k where k: "n = Suc (length s + k)" using assms(2) less_natE by blast
  then show ?thesis using assms(1) by (simp add: strlcpy_def pad_to_def Let_def replicate_add [symmetric])
qed

text \<open>The address a program gives for a destination, and the type of socket of a protocol.\<close>

definition sa_of :: "ip_addr \<Rightarrow> u16 \<Rightarrow> sock_addr" where
  "sa_of dst dport = (if is_v4 dst then Inet (swap16 dport) (octets dst) else Inet6 (swap16 dport) (octets dst))"

definition so_of :: "u8 \<Rightarrow> so_type" where
  "so_of proto = (if proto = 6 then SockStream else SockDgram)"

definition af_of :: "ip_addr \<Rightarrow> u8" where
  "af_of dst = (if is_v4 dst then 4 else 6)"

definition dst_key :: "u8 \<Rightarrow> ip_addr \<Rightarrow> u16 \<Rightarrow> bytes \<Rightarrow> vkey" where
  "dst_key proto dst dport path = (af_of dst, proto, octets dst, swap16 dport, path)"

definition loops_back :: "ip_addr \<Rightarrow> bool" where
  "loops_back dst \<longleftrightarrow> is_loopback (af_of dst) (pad_to 16 (octets dst))"

lemma connect_flow_of:
  assumes "proto = 6 \<or> proto = 17" "length junk = 16"
  shows "\<exists>faddr. connect_flow junk (so_of proto) (sa_of dst dport) = Some (af_of dst, proto, faddr, swap16 dport)
    \<and> (0 \<notin> set p \<longrightarrow> flow_of_key (af_of dst) proto faddr (swap16 dport) (p @ [0]) = dst_key proto dst dport p)
    \<and> is_loopback (af_of dst) faddr = loops_back dst \<and> sa_ok (sa_of dst dport) \<and> length faddr = 16"
proof (cases dst)
  case (V4 a b c d)
  then show ?thesis using assms
    by (auto simp: connect_flow_def so_of_def sa_of_def af_of_def flow_of_key_def dst_key_def alen_def loops_back_def
        is_loopback_def pad_to_def)
next
  case (V6 a b c d e f g h)
  then have "length (octets dst) = 16" by (simp add: length_octets)
  then show ?thesis using assms V6
    by (auto simp: connect_flow_def so_of_def sa_of_def af_of_def flow_of_key_def dst_key_def alen_def loops_back_def
        is_loopback_def pad_to_def)
qed

text \<open>What an attempt of the binary gets from the cache.\<close>

lemma connect_cached:
  assumes "vcache_ok m" "slots m so = Some info" "i_path info = p @ [0]" "p \<noteq> []" "0 \<notin> set p" "proto = 6 \<or> proto = 17"
    "length junk = 16" "cached m (dst_key proto dst dport p) = Some v"
  shows "fst (pfsn_socket_check_connect now ok junk (so_of proto) nbio (Some (slots m so)) (sa_of dst dport) m)
    = (if v = PFSNITCH_V_DENY \<and> \<not> loops_back dst then EPERM else 0)"
proof -
  obtain faddr where f: "connect_flow junk (so_of proto) (sa_of dst dport) = Some (af_of dst, proto, faddr, swap16 dport)"
    "flow_of_key (af_of dst) proto faddr (swap16 dport) (i_path info) = dst_key proto dst dport p"
    "is_loopback (af_of dst) faddr = loops_back dst"
    using connect_flow_of [OF assms(6,7), of dst dport p] assms(3,5) by auto
  have "i_path info ! 0 \<noteq> 0" using assms(3-5) by (cases p) auto
  then show ?thesis
    using connect_eq [OF assms(1,2) _ f(1)] connect_loopback [OF f(1)] f(2,3) assms(8) by (cases "loops_back dst") auto
qed

lemma push_key:
  assumes "0 \<notin> set (as_bytes path)" "as_bytes path \<noteq> []" "length (as_bytes path) < 1024"
  shows "pfsn_verdict_push ok (verdict_struct proto dst dport path allow) m =
    pfsn_cache_insert ok (af_of dst) proto (pad_to 16 (octets dst)) (swap16 dport)
      (if allow then PFSNITCH_V_ALLOW else PFSNITCH_V_DENY) (as_bytes path @ [0]) m"
    "flow_of_key (af_of dst) proto (pad_to 16 (octets dst)) (swap16 dport) (as_bytes path @ [0]) = dst_key proto dst dport (as_bytes path)"
proof -
  obtain k where k: "1024 - length (as_bytes path) = Suc k" using assms(3) by (metis Suc_diff_Suc)
  then have p: "pad_to 1024 (as_bytes path) = (as_bytes path @ [0]) @ replicate k 0" by (simp add: pad_to_def)
  have "c_str (take 1024 (pad_to 1024 (as_bytes path))) = as_bytes path"
    using assms(1,3) unfolding p by (simp add: take_Cons')
  then have "strnlen (pad_to 1024 (as_bytes path)) 1024 = length (as_bytes path)" by (simp add: strnlen_def)
  then show "pfsn_verdict_push ok (verdict_struct proto dst dport path allow) m =
    pfsn_cache_insert ok (af_of dst) proto (pad_to 16 (octets dst)) (swap16 dport)
      (if allow then PFSNITCH_V_ALLOW else PFSNITCH_V_DENY) (as_bytes path @ [0]) m"
    using assms(2,3) p by (simp add: pfsn_verdict_push_def verdict_struct_sel af_of_def)
  show "flow_of_key (af_of dst) proto (pad_to 16 (octets dst)) (swap16 dport) (as_bytes path @ [0]) = dst_key proto dst dport (as_bytes path)"
    using assms(1) length_octets [of dst] by (simp add: flow_of_key_def dst_key_def af_of_def alen_def pad_to_def)
qed

text \<open>C36: a verdict the daemon pushes takes effect in the kernel: while the cache has room, after the command every
  \<open>connect\<close> or \<open>sendto\<close> of a socket the binary created to exactly that destination is refused if the verdict is a
  denial, and passes if it is not.\<close>

theorem pushed_verdict_enforced:
  assumes "kreach n m" "n < 2 ^ 64 - 1" "slots m so = Some info" "i_path info = as_bytes path @ [0]"
    "path \<noteq> []" "0 \<notin> set (as_bytes path)" "length path < 1024" "proto = 6 \<or> proto = 17" "\<not> dead k" "vcount m < PFSN_VMAX"
    "length junk = 16"
  shows "fst (pfsn_socket_check_connect now ok junk (so_of proto) nbio (Some (slots m so)) (sa_of dst dport)
      (module_after pcb True (snd (push_verdict (module_device pcb True m) proto dst dport path allow k)) m))
    = (if allow \<or> loops_back dst then 0 else EPERM)"
proof -
  let ?v = "if allow then PFSNITCH_V_ALLOW else PFSNITCH_V_DENY" and ?p = "as_bytes path"
  let ?m = "pfsn_cache_insert True (af_of dst) proto (pad_to 16 (octets dst)) (swap16 dport) ?v (?p @ [0]) m"
  have p: "?p \<noteq> []" "length ?p < 1024" using assms(5,7) by (simp_all add: as_bytes_def)
  have c: "vcache_ok m" using kreach_ok [OF assms(1,2)] by (simp add: kmod_ok_def)
  have ok: "path_ok (?p @ [0])" using upcall_path(2) [OF assms(6) p] .
  have "push_verdict (module_device pcb True m) proto dst dport path allow k
      = (k, [(verdict_push_cmd, VerdictArg (verdict_struct proto dst dport path allow))])"
    using p assms(8,9) ioctl_push [OF assms(8), of pcb True dst dport path allow m]
    by (auto simp: push_verdict_def ctl_def module_device_def)
  then have "module_after pcb True (snd (push_verdict (module_device pcb True m) proto dst dport path allow k)) m = ?m"
    using ioctl_push [OF assms(8), of pcb True dst dport path allow m] push_key(1) [OF assms(6) p] by (simp add: module_after_def)
  moreover have "cached ?m (dst_key proto dst dport ?p) = Some ?v"
    using insert_cached [OF c ok, of True] assms(10) push_key(2) [OF assms(6) p] by simp
  moreover have "vcache_ok ?m" by (rule insert_ok [OF c ok]) simp
  ultimately show ?thesis
    using connect_cached [of ?m so info ?p proto junk dst dport ?v] assms(3,4,6,8,11) p
    by (auto simp: PFSNITCH_V_ALLOW_def PFSNITCH_V_DENY_def)
qed


lemma find_by_id: "distinct (map rq_id xs) \<Longrightarrow> r \<in> set xs \<Longrightarrow> find (\<lambda>x. rq_id x = rq_id r) xs = Some r"
  by (induction xs) auto

lemma resolve_cached:
  assumes "kmod_ok n m" "r \<in> set (reqs m)" "vcount m < PFSN_VMAX"
  shows "cached (pfsn_resolve True (rq_id r) v m) = (cached m)(r_key r \<mapsto> v)"
proof -
  let ?i = "pfsn_cache_insert True (rq_af r) (rq_proto r) (rq_faddr r) (rq_fport r) v (rq_path r) m"
  have "find (\<lambda>x. rq_id x = rq_id r) (reqs m) = Some r"
    by (rule find_by_id [OF _ assms(2)]) (use assms(1) in \<open>simp add: kmod_ok_def queue_ok_def\<close>)
  then have "cached (pfsn_resolve True (rq_id r) v m) = cached ?i"
    by (simp add: pfsn_resolve_def) (rule same_cached, simp)
  moreover have "path_ok (rq_path r)" using assms(1,2) by (auto simp: kmod_ok_def queue_ok_def)
  ultimately show ?thesis
    using insert_cached [of m "rq_path r"] assms(1,3) by (simp add: kmod_ok_def r_key_def)
qed

text \<open>The request that asks a question, as the daemon reads it.\<close>

lemma request_fields:
  assumes "kmod_ok n m" "r \<in> set (reqs m)" "r_key r = dst_key 17 dst dport p" "0 \<notin> set p" "p \<noteq> []" "length p < 1024"
  shows "rq_path r = p @ [0]" "rq_fport r = swap16 dport" "rq_af r = af_of dst" "rq_proto r = 17"
    "(if rq_af r = 4 then Some (V4 (rq_faddr r ! 0) (rq_faddr r ! 1) (rq_faddr r ! 2) (rq_faddr r ! 3))
      else if rq_af r = 6 then Some (v6_of_octets (rq_faddr r)) else None) = Some dst"
proof -
  have r: "path_ok (rq_path r)" "length (rq_faddr r) = 16" using assms(1,2) by (auto simp: kmod_ok_def queue_ok_def)
  have k: "c_str (rq_path r) = p" "take (alen (rq_af r)) (rq_faddr r) = octets dst"
    and f: "rq_fport r = swap16 dport" "rq_af r = af_of dst" "rq_proto r = 17"
    using assms(3) by (auto simp: r_key_def flow_of_key_def dst_key_def)
  show "rq_fport r = swap16 dport" "rq_af r = af_of dst" "rq_proto r = 17" by (fact f)+
  show "rq_path r = p @ [0]" using path_ok_eq [OF r(1) upcall_path(2)] k(1) assms(4-6) by simp
  show "(if rq_af r = 4 then Some (V4 (rq_faddr r ! 0) (rq_faddr r ! 1) (rq_faddr r ! 2) (rq_faddr r ! 3))
      else if rq_af r = 6 then Some (v6_of_octets (rq_faddr r)) else None) = Some dst"
  proof (cases dst)
    case (V4 a b c d)
    then have "take 4 (rq_faddr r) = [a, b, c, d]" using k(2) f(2) by (simp add: af_of_def alen_def)
    then have n: "rq_faddr r ! i = [a, b, c, d] ! i" if "i < 4" for i using nth_take [OF that, of "rq_faddr r"] by simp
    show ?thesis using V4 f(2) n [of 0] n [of 1] n [of 2] n [of 3] by (simp add: af_of_def)
  next
    case V6
    then have "\<not> is_v4 dst" by simp
    then show ?thesis using k(2) f(2) r(2) by (simp add: af_of_def alen_def v6_of_octets_octets)
  qed
qed

lemma request_read:
  assumes "kmod_ok n m" "r \<in> set (reqs m)" "r_key r = dst_key 17 dst dport (as_bytes path)" "0 \<notin> set (as_bytes path)"
    "path \<noteq> []" "length path < 1024" "str_valid path"
  shows "\<exists>e. read_event 1064 0 (req_event r) = Inr (Some e) \<and> ke_id e = rq_id r \<and> ke_proto e = 17 \<and> ke_dst e = dst
    \<and> ke_dport e = dport \<and> ke_path e = path"
proof -
  have p: "as_bytes path \<noteq> []" "length (as_bytes path) < 1024" using assms(5,6) by (simp_all add: as_bytes_def)
  note f = request_fields [OF assms(1-4) p]
  have "cstr (strlcpy (replicate 1024 0) (rq_path r)) = path"
    using takeWhile_pad [OF assms(4)] strlcpy_fresh [OF assms(4) p(2)] from_utf8_lossy_as_bytes [OF assms(7)] f(1)
    by (simp add: cstr_def)
  then show ?thesis using f(2,4,5) unfolding read_event_def by (simp add: sizes req_event_def split: if_splits)
qed

text \<open>A datagram the hook holds has left its question in the queue.\<close>

lemma held_request:
  assumes "kreach n m" "Suc n < 2 ^ 64 - 1" "slots m so = Some info" "i_path info = as_bytes path @ [0]"
    "path \<noteq> []" "0 \<notin> set (as_bytes path)" "length path < 1024" "str_valid path" "length junk = 16"
    "pfsn_socket_check_connect now ok junk SockDgram nbio (Some (slots m so)) (sa_of dst dport) m = (EAGAIN, m1)"
  shows "kmod_ok (Suc n) m1" "vcount m1 = vcount m" "slots m1 = slots m" "\<not> loops_back dst"
    "\<exists>r \<in> set (reqs m1). r_key r = dst_key 17 dst dport (as_bytes path) \<and>
       (\<exists>e. read_event 1064 0 (req_event r) = Inr (Some e) \<and> ke_id e = rq_id r \<and> ke_proto e = 17 \<and> ke_dst e = dst
          \<and> ke_dport e = dport \<and> ke_path e = path)"
proof -
  let ?p = "as_bytes path" and ?k = "dst_key 17 dst dport (as_bytes path)"
  have p: "?p \<noteq> []" "length ?p < 1024" using assms(5,7) by (simp_all add: as_bytes_def)
  have ok: "kmod_ok n m" using kreach_ok [OF assms(1)] assms(2) by simp
  have d: "so_of 17 = SockDgram" by (simp add: so_of_def)
  obtain faddr where f: "connect_flow junk SockDgram (sa_of dst dport) = Some (af_of dst, 17, faddr, swap16 dport)"
    "flow_of_key (af_of dst) 17 faddr (swap16 dport) (i_path info) = ?k"
    "is_loopback (af_of dst) faddr = loops_back dst" "sa_ok (sa_of dst dport)"
    using connect_flow_of [of 17 junk dst dport ?p] assms(4,6,9) d by auto
  have z: "i_path info ! 0 \<noteq> 0" using assms(4,6) p(1) by (cases ?p) auto
  show nl: "\<not> loops_back dst" using connect_loopback [OF f(1)] f(3) assms(10) by (auto simp: EAGAIN_def)
  have c: "vcache_ok m" and q: "queue_ok n m" using ok by (simp_all add: kmod_ok_def)
  have e: "pfsn_upcall now ok (af_of dst) 17 faddr (swap16 dport) info nbio m = (EAGAIN, m1)"
    using connect_eq [OF c assms(3) z f(1), of now ok nbio] f(3) nl assms(10)
    by (auto simp: EAGAIN_def EPERM_def split: option.splits if_splits)
  have "EAGAIN \<noteq> 0 \<and> EAGAIN \<noteq> pfsn_failverdict m" by (simp add: pfsn_failverdict_def EAGAIN_def EPERM_def)
  then obtain r where r: "r \<in> set (reqs m1)" "r_key r = ?k"
    using upcall_result [OF q assms(6,4) e] f(2) by auto
  show ok1: "kmod_ok (Suc n) m1"
    using connect_ok [OF ok assms(2,9) f(4) _ assms(10)] by simp
  show "vcount m1 = vcount m" "slots m1 = slots m" using upcall_frame [OF e] by simp_all
  show "\<exists>r \<in> set (reqs m1). r_key r = ?k \<and>
       (\<exists>e. read_event 1064 0 (req_event r) = Inr (Some e) \<and> ke_id e = rq_id r \<and> ke_proto e = 17 \<and> ke_dst e = dst
          \<and> ke_dport e = dport \<and> ke_path e = path)"
    using request_read [OF ok1 r assms(6,5,7,8)] r by blast
qed

section \<open>Attribution\<close>

lemma strlcpy_zeroed: "0 < n \<Longrightarrow> strlcpy (replicate n 0) b = pad_to n (take (n - 1) (c_str b))"
proof -
  assume n: "0 < n"
  let ?s = "take (n - 1) (c_str b)"
  have "length ?s < n" using n by auto
  then obtain k where k: "n = Suc (length ?s + k)" using less_natE by blast
  have "drop (Suc (length ?s)) (replicate n (0 :: u8)) = replicate k 0" by (subst k) simp
  moreover have "n - length ?s = Suc k" by (subst k) simp
  ultimately show ?thesis by (simp add: strlcpy_def pad_to_def Let_def)
qed

text \<open>The socket of a flow: the one the stack finds, for UDP with a wildcard where there is no exact match.\<close>

definition owner_socket :: "pcblookup \<Rightarrow> tuple \<Rightarrow> nat option" where
  "owner_socket pcb t =
     (let look = pcb (t_proto t = 6) (af_of (t_src t)) (octets (t_dst t)) (swap16 (t_dport t)) (octets (t_src t)) (swap16 (t_sport t)) in
      case look False of Some so \<Rightarrow> so
      | None \<Rightarrow> if t_proto t = 17 then (case look True of Some so \<Rightarrow> so | None \<Rightarrow> None) else None)"

text \<open>C38: the module's answer to a query is the creator of the flow's socket: its process, its command and its binary
  as they were when the socket was created, and nothing for a flow without a socket or a socket without a label.\<close>

theorem query_names_creator:
  assumes "t_proto t = 6 \<or> t_proto t = 17" "is_v4 (t_src t) = is_v4 (t_dst t)"
  shows "fst (kern_query (module_device pcb ok m) k t) = (case Option.bind (owner_socket pcb t) (slots m) of
      None \<Rightarrow> None
    | Some info \<Rightarrow> (let comm = from_utf8_lossy (take 23 (c_str (i_comm info))); path = from_utf8_lossy (take 1023 (c_str (i_path info))) in
        Some \<lparr>a_owner = \<lparr>pid = i_pid info, command = comm, opath = (if path = [] then ''<unknown:'' @ comm @ ''>'' else path)\<rparr>,
              a_confidence = Kernel\<rparr>))"
proof -
  have t: "take (alen (q_af (query_attr t))) (pad_to 16 (octets (t_dst t))) = octets (t_dst t)"
    "take (alen (q_af (query_attr t))) (pad_to 16 (octets (t_src t))) = octets (t_src t)"
    using assms(2) length_octets [of "t_dst t"] length_octets [of "t_src t"] by (simp_all add: query_attr_sel alen_def pad_to_def)
  have s: "cstr (strlcpy (replicate n 0) b) = from_utf8_lossy (take (n - 1) (c_str b))" if "0 < n" for n b
  proof -
    have "0 \<notin> set (take (n - 1) (c_str b))" by (meson in_set_takeD zero_c_str)
    then show ?thesis using takeWhile_pad strlcpy_zeroed [OF that] by (simp add: cstr_def)
  qed
  have z: "(replicate n 0)[0 := 0] = replicate n (0 :: u8)" for n by (cases n) auto
  have f: "PFSNITCH_MATCH_EXACT \<noteq> PFSNITCH_MISS" "PFSNITCH_MATCH_WILDCARD \<noteq> PFSNITCH_MISS"
    by (simp_all add: PFSNITCH_MATCH_EXACT_def PFSNITCH_MATCH_WILDCARD_def PFSNITCH_MISS_def)
  have "fst (kern_query (module_device pcb ok m) k t) = attr_answer (pfsn_lookup pcb m (query_attr t))"
    using assms ioctl_query [OF assms(1), of pcb ok m] by (auto simp: kern_query_def module_device_def Let_def)
  also have "attr_answer (pfsn_lookup pcb m (query_attr t)) = (case Option.bind (owner_socket pcb t) (slots m) of
      None \<Rightarrow> None
    | Some info \<Rightarrow> (let comm = from_utf8_lossy (take 23 (c_str (i_comm info))); path = from_utf8_lossy (take 1023 (c_str (i_path info))) in
        Some \<lparr>a_owner = \<lparr>pid = i_pid info, command = comm, opath = (if path = [] then ''<unknown:'' @ comm @ ''>'' else path)\<rparr>,
              a_confidence = Kernel\<rparr>))"
  proof -
    let ?look = "pcb (t_proto t = 6) (af_of (t_src t)) (octets (t_dst t)) (swap16 (t_dport t)) (octets (t_src t)) (swap16 (t_sport t))"
    let ?q = "query_attr t"
    have sel: "q_proto ?q = t_proto t" "q_af ?q = af_of (t_src t)" "q_fport ?q = swap16 (t_dport t)" "q_lport ?q = swap16 (t_sport t)"
      "q_comm ?q = replicate 24 0" "q_path ?q = replicate 1024 0"
      "take (alen (af_of (t_src t))) (q_faddr ?q) = octets (t_dst t)" "take (alen (af_of (t_src t))) (q_laddr ?q) = octets (t_src t)"
      using t by (simp_all add: query_attr_sel af_of_def)
    have e: "pfsn_lookup pcb m ?q =
      (let q = ?q\<lparr>q_found := PFSNITCH_MISS, q_pid := 0, q_uid := 0, q_comm := replicate 24 0, q_path := replicate 1024 0\<rparr>;
           found = (if ?look False \<noteq> None then PFSNITCH_MATCH_EXACT else PFSNITCH_MATCH_WILDCARD)
       in case Option.bind (owner_socket pcb t) (slots m) of
            Some info \<Rightarrow> q\<lparr>q_found := found, q_pid := i_pid info, q_uid := i_uid info,
                q_comm := strlcpy (q_comm q) (i_comm info), q_path := strlcpy (q_path q) (i_path info)\<rparr>
          | None \<Rightarrow> q\<lparr>q_found := PFSNITCH_MISS\<rparr>)"
    proof -
      define look where "look = ?look"
      from assms(1) show ?thesis
      proof
        assume p: "t_proto t = 6"
        then have "pcb True (af_of (t_src t)) (octets (t_dst t)) (swap16 (t_dport t)) (octets (t_src t)) (swap16 (t_sport t)) = look"
          by (simp add: look_def)
        then show ?thesis
          unfolding pfsn_lookup_def owner_socket_def Let_def by (cases "look False") (simp_all add: sel p z split: option.split)
      next
        assume p: "t_proto t = 17"
        then have "pcb False (af_of (t_src t)) (octets (t_dst t)) (swap16 (t_dport t)) (octets (t_src t)) (swap16 (t_sport t)) = look"
          by (simp add: look_def)
        then show ?thesis
          unfolding pfsn_lookup_def owner_socket_def Let_def
          by (cases "look False"; cases "look True") (simp_all add: sel p z split: option.split)
      qed
    qed
    show ?thesis unfolding e using s [of 24] s [of 1024] f
      by (auto simp: attr_answer_def Let_def split: option.split)
  qed
  finally show ?thesis .
qed


section \<open>Bounds\<close>

text \<open>C37: the module's tables are bounded and in order: at most 2048 requests and 8192 verdicts, as many as the counters
  say; no two requests have the same id or ask the same question, and no two verdicts are for the same binary and
  destination.\<close>

theorem module_bounds:
  assumes "kreach n m" "n < 2 ^ 64 - 1"
  shows "nreq m = length (reqs m) \<and> length (reqs m) \<le> 2048 \<and> distinct (map rq_id (reqs m)) \<and> distinct (map r_key (reqs m))
    \<and> vcount m = (\<Sum>b<1024. length (vtab m b)) \<and> vcount m \<le> 8192 \<and> (\<forall>b. distinct (map v_key (vtab m b)))
    \<and> (\<forall>b b'. \<forall>v \<in> set (vtab m b). \<forall>v' \<in> set (vtab m b'). v_key v = v_key v' \<longrightarrow> b = b')"
proof -
  have k: "vcache_ok m" "queue_ok n m" using kreach_ok [OF assms] by (simp_all add: kmod_ok_def)
  have "b = b'" if "v \<in> set (vtab m b)" "v' \<in> set (vtab m b')" "v_key v = v_key v'" for b b' v v'
    using k(1) that unfolding vcache_ok_def by metis
  then show ?thesis
    using k by (auto simp: vcache_ok_def queue_ok_def PFSN_REQ_MAX_def PFSN_VMAX_def PFSN_VHASH_def)
qed

section \<open>A module to try the properties on\<close>

text \<open>A socket that \<open>/bin/a\<close> has created, with upcalls on; and the module after its first datagram to 8.8.8.8:443.\<close>

definition demo_path :: bytes where
  "demo_path = as_bytes ''/bin/a''"

definition demo_junk :: bytes where
  "demo_junk = replicate 16 0x5a"

definition demo_mod :: kmod where
  "demo_mod = pfsn_socket_create 7 True 77 1001 (as_bytes ''a'') (Some demo_path)
     (snd (snd (pfsn_ioctl (\<lambda>t a f fp l lp w. None) True upcall_set_cmd (IntArg 1) pfsn_init)))"

lemma demo_path_ok: "0 \<notin> set demo_path" "demo_path \<noteq> []" "length demo_path < 1024"
  by (code_simp, code_simp, code_simp)

lemma demo_reach: "kreach 0 demo_mod"
  unfolding demo_mod_def
  by (intro kreach.create kreach.ioctl [OF kreach.load, of "IntArg 1" _ True upcall_set_cmd]) (auto simp: ioctl_upcall)

lemma demo_mod_sel:
  "slots demo_mod 7 = Some \<lparr>i_pid = 77, i_uid = 1001, i_comm = strlcpy (replicate 20 0) (as_bytes ''a''), i_path = demo_path @ [0]\<rparr>"
  "vtab demo_mod = (\<lambda>b. [])" "vcount demo_mod = 0" "reqs demo_mod = []" "nreq demo_mod = 0" "unloading demo_mod = False"
  "upcall_on demo_mod = True" "next_id demo_mod = 1"
  using demo_path_ok by (simp_all add: demo_mod_def ioctl_upcall pfsn_socket_create_def pfsn_init_def)

definition demo_req :: pfsn_req where
  "demo_req = new_req 0 4 17 ([8, 8, 8, 8] @ drop 4 demo_junk) (swap16 443) (the (slots demo_mod 7)) False (demo_path @ [0]) demo_mod"

definition demo_asked :: kmod where
  "demo_asked = demo_mod\<lparr>reqs := [demo_req], nreq := 1, next_id := 2\<rparr>"

lemma demo_flow: "connect_flow demo_junk SockDgram (sa_of (V4 8 8 8 8) 443) = Some (4, 17, [8, 8, 8, 8] @ drop 4 demo_junk, swap16 443)"
  "\<not> is_loopback 4 ([8, 8, 8, 8] @ drop 4 demo_junk)" "(demo_path @ [0]) ! 0 \<noteq> 0" "ntohs_mem (swap16 443) \<noteq> 53"
  by (simp_all add: connect_flow_def sa_of_def is_loopback_def) code_simp

lemma demo_connect:
  "pfsn_socket_check_connect 0 True demo_junk SockDgram False (Some (slots demo_mod 7)) (sa_of (V4 8 8 8 8) 443) demo_mod = (EAGAIN, demo_asked)"
proof -
  have c: "vcache_ok demo_mod" using kreach_ok [OF demo_reach] by (simp add: kmod_ok_def)
  have n: "cached demo_mod k = None" for k by (simp add: cached_def demo_mod_sel)
  have g: "pfsn_req_gc 0 demo_mod = demo_mod" by (simp add: pfsn_req_gc_def demo_mod_sel)
  let ?info = "\<lparr>i_pid = 77, i_uid = 1001, i_comm = strlcpy (replicate 20 0) (as_bytes ''a''), i_path = demo_path @ [0]\<rparr>"
  have z: "i_path ?info ! 0 \<noteq> 0" using demo_flow(3) by simp
  show ?thesis
    unfolding connect_eq [OF c demo_mod_sel(1) z demo_flow(1,2)] using demo_flow(4) demo_path_ok
    by (simp add: n demo_mod_sel upcall_eq [of demo_path] g PFSN_REQ_MAX_def demo_asked_def demo_req_def)
qed

lemma demo_asked_reach: "kreach 1 demo_asked"
  using kreach.connect [OF demo_reach _ _ _ demo_connect] by (simp add: demo_junk_def sa_of_def)


theorem module_bounds_witness: "nreq demo_asked = 1 \<and> length (reqs demo_asked) \<le> 2048"
  using module_bounds [OF demo_asked_reach] by (simp add: demo_asked_def)

theorem pushed_verdict_enforced_witness:
  "fst (pfsn_socket_check_connect 0 True demo_junk SockStream False (Some (slots demo_mod 7)) (sa_of (V4 8 8 8 8) 443)
     (module_after (\<lambda>t a f fp l lp w. None) True
        (snd (push_verdict (module_device (\<lambda>t a f fp l lp w. None) True demo_mod) 6 (V4 8 8 8 8) 443 ''/bin/a'' False \<lparr>k_fd = 3, dead = False\<rparr>)) demo_mod))
   = EPERM"
proof -
  have "\<not> loops_back (V4 8 8 8 8)" by code_simp
  moreover have "length ''/bin/a'' < 1024" "length demo_junk = 16" "so_of 6 = SockStream"
    by (simp_all add: demo_junk_def so_of_def)
  ultimately show ?thesis
    using pushed_verdict_enforced [OF demo_reach _ demo_mod_sel(1), of "''/bin/a''" 6 "\<lparr>k_fd = 3, dead = False\<rparr>" demo_junk
        0 True False "V4 8 8 8 8" 443 "\<lambda>t a f fp l lp w. None" False] demo_path_ok
    by (simp add: demo_path_def demo_mod_sel PFSN_VMAX_def)
qed

theorem query_names_creator_witness:
  "map_option a_owner (fst (kern_query (module_device (\<lambda>t a f fp l lp w. Some (Some 7)) True demo_mod) \<lparr>k_fd = 3, dead = False\<rparr>
      \<lparr>t_proto = 17, t_src = V4 10 0 0 1, t_sport = 5000, t_dst = V4 8 8 8 8, t_dport = 443\<rparr>))
   = Some \<lparr>pid = 77, command = ''a'', opath = ''/bin/a''\<rparr>"
proof -
  let ?t = "\<lparr>t_proto = 17, t_src = V4 10 0 0 1, t_sport = 5000, t_dst = V4 8 8 8 8, t_dport = 443\<rparr>"
  have o: "owner_socket (\<lambda>t a f fp l lp w. Some (Some 7)) ?t = Some 7" by (simp add: owner_socket_def)
  have s: "from_utf8_lossy (take 23 (c_str (strlcpy (replicate 20 0) (as_bytes ''a'')))) = ''a''"
    "from_utf8_lossy (take 1023 (c_str (demo_path @ [0]))) = ''/bin/a''" by (code_simp, code_simp)
  show ?thesis
    using query_names_creator [of ?t "\<lambda>t a f fp l lp w. Some (Some 7)" True demo_mod "\<lparr>k_fd = 3, dead = False\<rparr>"] o s
    by (simp add: demo_mod_sel)
qed

section \<open>Where the module does not do what it means to\<close>

text \<open>Requests nobody answers are swept only when another question is put into the queue.  A queue full of them is never
  swept: the sweep comes after the test for room.\<close>

lemma full_queue_stuck:
  assumes "0 \<notin> set s" "s \<noteq> []" "length s < 1024" "i_path info = s @ [0]" "\<not> unloading m" "PFSN_REQ_MAX \<le> nreq m"
    "\<not> list_ex (r_question af proto faddr fport (s @ [0])) (reqs m)"
  shows "pfsn_upcall now ok af proto faddr fport info nb m = (pfsn_failverdict m, m)"
  using assms by (simp add: upcall_eq [OF assms(1-4)])

text \<open>And a question that has been delivered and forgotten (the daemon forgets them when it turns upcalls off) holds every
  retry with \<open>EAGAIN\<close> for any time, and is not delivered again.\<close>

lemma forgotten_question_holds:
  "\<exists>m. kreach 1 m \<and> read_next 1064 demo_asked = (ReadEvent (req_event demo_req), m) \<and> read_next 1064 m = (ReadSleeps, m)
    \<and> (\<forall>now. pfsn_socket_check_connect now True demo_junk SockDgram False (Some (slots m 7)) (sa_of (V4 8 8 8 8) 443) m = (EAGAIN, m))"
proof -
  let ?r = "demo_req\<lparr>rq_delivered := True\<rparr>"
  let ?m = "demo_asked\<lparr>reqs := [?r]\<rparr>"
  have d: "\<not> rq_delivered demo_req" by (simp add: demo_req_def new_req_def)
  have z: "size_of pfsnitch_event_h = 1064"
    by (simp add: pfsnitch_event_h_def round_up_def)
  have r: "read_next 1064 demo_asked = (ReadEvent (req_event demo_req), ?m)" "read_next 1064 ?m = (ReadSleeps, ?m)"
    using d by (simp_all add: read_next_def z demo_asked_def demo_mod_sel)
  have k: "kreach 1 ?m" using kreach.read [OF demo_asked_reach, of 1064] r(1) by simp
  then have c: "vcache_ok ?m" using kreach_ok by (simp add: kmod_ok_def)
  have s: "slots ?m 7 = Some (the (slots demo_mod 7))" "i_path (the (slots demo_mod 7)) = demo_path @ [0]"
    by (simp_all add: demo_asked_def demo_mod_sel)
  have n: "cached ?m x = None" for x by (simp add: cached_def demo_asked_def demo_mod_sel)
  have q: "r_question 4 17 ([8, 8, 8, 8] @ drop 4 demo_junk) (swap16 443) (demo_path @ [0]) ?r"
    by (simp add: r_question_def demo_req_def new_req_def alen_def)
  have "pfsn_upcall now True 4 17 ([8, 8, 8, 8] @ drop 4 demo_junk) (swap16 443) (the (slots demo_mod 7)) False ?m = (EAGAIN, ?m)" for now
    using q demo_path_ok by (simp add: upcall_eq [of demo_path] s(2) demo_asked_def demo_mod_sel)
  moreover have "upcall_on ?m" by (simp add: demo_asked_def demo_mod_sel)
  ultimately have "pfsn_socket_check_connect now True demo_junk SockDgram False (Some (slots ?m 7)) (sa_of (V4 8 8 8 8) 443) ?m = (EAGAIN, ?m)" for now
    using connect_eq [OF c s(1) _ demo_flow(1,2)] demo_flow s(2) n by simp
  then show ?thesis using k r by blast
qed

text \<open>The exemption of mapped loopback addresses looks at bytes 10 to 12 only: an address anywhere in IPv6 can have them,
  and then no denial holds for it.\<close>

lemma mapped_prefix_exempt: "loops_back (V6 0x2001 0xdb8 0 0 0 0xffff 0x7f00 1)"
  by code_simp

text \<open>The bytes of a stack buffer that nobody wrote reach the reader of the device.\<close>

lemma stack_bytes_reach_reader: "ev_faddr (req_event demo_req) = [8, 8, 8, 8] @ drop 4 demo_junk"
  by (simp add: req_event_def demo_req_def demo_junk_def)

end
