(* ===== verification/Kmod_Daemon.thy ===== *)
theory Kmod_Daemon
  imports Kmod_Safety Daemon_Safety
begin

text \<open>
  The daemon and the kernel module together.  The module takes steps of its own between the daemon's commands: a socket
  is created or closed, a program connects, the reader takes a question (\<open>run_step\<close>); the daemon's commands of a run
  are among them, in the order of its trace (\<open>ioctls\<close>, \<open>commands\<close>).  The locale \<open>verdict_machine\<close> holds what a cache
  of verdicts promises under every interleaving; \<open>Kmod\<close> provides it.  The properties: a reload empties the cache, and
  an answer of the policy or of the user decides the program's retry.
\<close>

section \<open>A cache of verdicts under interleavings\<close>

text \<open>Commands may grant verdicts or clear them all; every other step keeps what the cache shows.\<close>

locale verdict_machine =
  fixes run :: "'c \<Rightarrow> 's \<Rightarrow> 's"
    and view :: "'s \<Rightarrow> 'k \<Rightarrow> 'v option"
    and inv :: "'s \<Rightarrow> bool"
    and grants :: "'c \<Rightarrow> bool"
    and clears :: "'c \<Rightarrow> bool"
  assumes keeps_inv: "inv s \<Longrightarrow> \<not> grants c \<Longrightarrow> inv (run c s)"
    and keeps_view: "\<not> grants c \<Longrightarrow> \<not> clears c \<Longrightarrow> view (run c s) = view s"
    and clears_view: "clears c \<Longrightarrow> view (run c s) = (\<lambda>k. None)"
begin

lemma inv_all: "inv s \<Longrightarrow> \<forall>c \<in> set cs. \<not> grants c \<Longrightarrow> inv (fold run cs s)"
  by (induction cs arbitrary: s) (simp_all add: keeps_inv)

lemma view_all: "\<forall>c \<in> set cs. \<not> grants c \<and> \<not> clears c \<Longrightarrow> view (fold run cs s) = view s"
  by (induction cs arbitrary: s) (simp_all add: keeps_view)

lemma stays_empty: "view s = (\<lambda>k. None) \<Longrightarrow> \<forall>c \<in> set cs. \<not> grants c \<Longrightarrow> view (fold run cs s) = (\<lambda>k. None)"
proof (induction cs arbitrary: s)
  case (Cons c cs)
  then show ?case by (cases "clears c") (simp_all add: keeps_view clears_view)
qed simp

lemma emptied:
  assumes "c \<in> set cs" "clears c" "\<forall>c \<in> set cs. \<not> grants c"
  shows "view (fold run cs s) = (\<lambda>k. None)"
proof -
  obtain as bs where cs: "cs = as @ c # bs" using split_list [OF assms(1)] by blast
  show ?thesis
    using stays_empty [OF clears_view [OF assms(2)], of bs "fold run as s"] assms(3) by (simp add: cs)
qed

end

section \<open>Steps of the module\<close>

text \<open>A command with its argument and whether memory can be had; a connect with the state of the kernel it runs in, its
  socket and whether the socket has a label; a pass of the reader, and its failed copy; the rest as in \<open>Kmod\<close>.\<close>

datatype mod_step =
    Command u64 ioctl_arg bool
  | Connect nat bool bytes so_type bool bool nat sock_addr
  | ReadPass nat
  | ReadFault u64
  | DevClose
  | InitLabel nat
  | CreateSocket nat bool int u32 bytes "bytes option"
  | DestroyLabel nat
  | SetFailmode int

fun run_step :: "pcblookup \<Rightarrow> mod_step \<Rightarrow> kmod \<Rightarrow> kmod" where
  "run_step pcb (Command c a ok) m = snd (snd (pfsn_ioctl pcb ok c a m))"
| "run_step pcb (Connect now ok junk ty nbio labelled so sa) m =
     snd (pfsn_socket_check_connect now ok junk ty nbio (if labelled then Some (slots m so) else None) sa m)"
| "run_step pcb (ReadPass resid) m = snd (read_next resid m)"
| "run_step pcb (ReadFault i) m = read_fault i m"
| "run_step pcb DevClose m = pfsn_dev_close m"
| "run_step pcb (InitLabel so) m = pfsn_socket_init_label so m"
| "run_step pcb (CreateSocket so labelled pd uid comm path) m = pfsn_socket_create so labelled pd uid comm path m"
| "run_step pcb (DestroyLabel so) m = pfsn_socket_destroy_label so m"
| "run_step pcb (SetFailmode mode) m = m\<lparr>failmode := mode\<rparr>"

fun grants_step :: "mod_step \<Rightarrow> bool" where
  "grants_step (Command c a ok) \<longleftrightarrow> c = verdict_push_cmd \<or> c = resolve_cmd"
| "grants_step s \<longleftrightarrow> False"

fun clears_step :: "mod_step \<Rightarrow> bool" where
  "clears_step (Command c a ok) \<longleftrightarrow> c = verdict_flush_cmd"
| "clears_step s \<longleftrightarrow> False"

fun command_of :: "mod_step \<Rightarrow> ioctl_call list" where
  "command_of (Command c a ok) = [(c, a)]"
| "command_of s = []"

definition commands :: "mod_step list \<Rightarrow> ioctl_call list" where
  "commands steps = concat (map command_of steps)"

lemma connect_frame: "vtab (snd (pfsn_socket_check_connect now ok junk ty nbio label sa m)) = vtab m
    \<and> vcount (snd (pfsn_socket_check_connect now ok junk ty nbio label sa m)) = vcount m"
proof -
  have u: "vtab (snd (pfsn_upcall now ok af proto faddr fport info nbio m)) = vtab m
      \<and> vcount (snd (pfsn_upcall now ok af proto faddr fport info nbio m)) = vcount m" for af proto faddr fport info
    using upcall_frame [of now ok af proto faddr fport info nbio m] by (metis prod.collapse)
  show ?thesis
    by (simp add: pfsn_socket_check_connect_def Let_def u split: option.split prod.split)
qed

lemma quiet_ioctl:
  assumes "c \<noteq> verdict_push_cmd" "c \<noteq> resolve_cmd" "c \<noteq> verdict_flush_cmd"
  shows "vtab (snd (snd (pfsn_ioctl pcb ok c a m))) = vtab m \<and> vcount (snd (snd (pfsn_ioctl pcb ok c a m))) = vcount m"
  using assms by (simp add: pfsn_ioctl_def split: ioctl_arg.split)

lemma quiet_step:
  assumes "\<not> grants_step s" "\<not> clears_step s"
  shows "vtab (run_step pcb s m) = vtab m \<and> vcount (run_step pcb s m) = vcount m"
  using assms
  by (cases s) (simp_all add: quiet_ioctl connect_frame read_next_def read_fault_def pfsn_dev_close_def
      pfsn_socket_init_label_def pfsn_socket_destroy_label_def pfsn_socket_create_def Let_def split: option.split)

lemma clear_step:
  assumes "clears_step s"
  shows "run_step pcb s m = pfsn_verdict_flush m"
  using assms by (cases s) (simp_all add: ioctl_flush)

interpretation cache: verdict_machine "run_step pcb" cached vcache_ok grants_step clears_step for pcb
proof
  fix s m
  assume "vcache_ok m" "\<not> grants_step s"
  then show "vcache_ok (run_step pcb s m)"
    using quiet_step [of s pcb m] same_cache [of "run_step pcb s m" m] flush_ok [of m] clear_step [of s pcb m]
    by (cases "clears_step s") simp_all
next
  fix s m
  assume "\<not> grants_step s" "\<not> clears_step s"
  then show "cached (run_step pcb s m) = cached m" using quiet_step same_cached by blast
next
  fix s m
  assume "clears_step s"
  then show "cached (run_step pcb s m) = (\<lambda>k. None)" by (simp add: clear_step flush_cached)
qed

section \<open>The daemon's commands among them\<close>

fun ioctl_of :: "action \<Rightarrow> ioctl_call list" where
  "ioctl_of (Ioctl c a) = [(c, a)]"
| "ioctl_of _ = []"

definition ioctls :: "action list \<Rightarrow> ioctl_call list" where
  "ioctls as = concat (map ioctl_of as)"

text \<open>What the daemon has issued from one state to a later one.\<close>

definition issued :: "daemon \<Rightarrow> daemon \<Rightarrow> ioctl_call list" where
  "issued d d' = ioctls (drop (length (d_trace d)) (d_trace d'))"

lemma issued_emitted: "d_trace d' = d_trace d @ as \<Longrightarrow> issued d d' = ioctls as"
  by (simp add: issued_def)

lemma ioctls_append [simp]: "ioctls (as @ bs) = ioctls as @ ioctls bs"
  by (simp add: ioctls_def)

lemma in_ioctls: "(c, a) \<in> set (ioctls as) \<longleftrightarrow> Ioctl c a \<in> set as"
proof -
  have "(c, a) \<in> set (ioctl_of x) \<longleftrightarrow> x = Ioctl c a" for x by (cases x) auto
  then show ?thesis by (auto simp: ioctls_def)
qed

lemma in_commands: "(c, a) \<in> set (commands steps) \<longleftrightarrow> (\<exists>ok. Command c a ok \<in> set steps)"
proof -
  have "(c, a) \<in> set (command_of s) \<longleftrightarrow> (\<exists>ok. s = Command c a ok)" for s by (cases s) auto
  then show ?thesis by (auto simp: commands_def)
qed

text \<open>C8: an edit of the policy reaches the kernel: however sockets, connects and reads are interleaved with the commands
  of the tick that adopts an edited file, after them the cache holds no verdict, so that nothing is decided by a verdict
  of the old policy, unless the daemon has no live handle on the module.\<close>

theorem reload_empties_cache:
  assumes "1000 \<le> e_clock env - d_last_check d" "e_mtime env (d_disk (tick_seen env d)) \<noteq> d_mtime d"
    "\<not> no_live (tick env d)" "commands steps = issued d (tick env d)"
  shows "cached (fold (run_step pcb) steps m) = Map.empty"
proof -
  obtain as where as: "d_trace (tick env d) = d_trace d @ as" "\<forall>a \<in> set as. \<not> adds_verdict a"
    "Ioctl verdict_flush_cmd NoArg \<in> set as"
    using tick_reloads [OF assms(1) refl assms(2)] assms(3) by (auto simp: flushed_def)
  note c = assms(4) [unfolded issued_emitted [OF as(1)]]
  obtain ok where "Command verdict_flush_cmd NoArg ok \<in> set steps"
    using as(3) in_ioctls in_commands c by metis
  moreover have "\<not> grants_step s" if "s \<in> set steps" for s
  proof (cases s)
    case (Command cm a ok)
    then have "Ioctl cm a \<in> set as" using that in_ioctls in_commands c by metis
    then show ?thesis using as(2) Command by auto
  qed simp_all
  ultimately show ?thesis using cache.emptied [of "Command verdict_flush_cmd NoArg ok" steps] by simp
qed

section \<open>Answers\<close>

text \<open>The module after a run of answers: what was asked about and answered is decided, and what was decided so stays.\<close>

lemma after_Cons: "module_after pcb ok ((c, a) # cs) m = module_after pcb ok cs (snd (snd (pfsn_ioctl pcb ok c a m)))"
  by (simp add: module_after_def)

lemma resolve_frame: "slots (pfsn_resolve ok i v m) = slots m" "vcount (pfsn_resolve ok i v m) \<le> Suc (vcount m)"
  by (simp_all add: pfsn_resolve_def pfsn_cache_insert_def Let_def split: option.split)

lemma resolve_others:
  assumes "r \<in> set (reqs m)" "rq_id r \<noteq> i"
  shows "r \<in> set (reqs (pfsn_resolve ok i v m))"
proof -
  have "r \<noteq> q" if "find (\<lambda>r. rq_id r = i) (reqs m) = Some q" for q using that assms(2) by (auto simp: find_Some_iff)
  then show ?thesis using assms(1) by (auto simp: pfsn_resolve_def in_set_remove1 split: option.split)
qed

lemma resolve_keeps:
  assumes "kmod_ok n m" "cached m k = Some v"
  shows "cached (pfsn_resolve ok i v m) k = Some v"
proof (cases "find (\<lambda>r. rq_id r = i) (reqs m)")
  case None
  then show ?thesis using assms(2) by (simp add: pfsn_resolve_def)
next
  case (Some r)
  let ?i = "pfsn_cache_insert ok (rq_af r) (rq_proto r) (rq_faddr r) (rq_fport r) v (rq_path r) m"
  have "r \<in> set (reqs m)" using Some by (auto simp: find_Some_iff)
  then have p: "path_ok (rq_path r)" using assms(1) by (auto simp: kmod_ok_def queue_ok_def)
  have "cached (pfsn_resolve ok i v m) = cached ?i" using Some by (simp add: pfsn_resolve_def) (rule same_cached, simp)
  moreover have "cached ?i k = Some v" using insert_cached [OF _ p] assms by (simp add: kmod_ok_def)
  ultimately show ?thesis by simp
qed

lemma resolves_decide:
  assumes "kmod_ok n m" "vcount m + length ids \<le> PFSN_VMAX"
    "r \<in> set (reqs m) \<and> rq_id r \<in> set ids \<or> cached m (r_key r) = Some (if allow then PFSNITCH_V_ALLOW else PFSNITCH_V_DENY)"
  shows "kmod_ok n (module_after pcb True (ioctls (resolve_calls allow ids)) m)
    \<and> cached (module_after pcb True (ioctls (resolve_calls allow ids)) m) (r_key r)
        = Some (if allow then PFSNITCH_V_ALLOW else PFSNITCH_V_DENY)"
  using assms
proof (induction ids arbitrary: m)
  case Nil
  then show ?case by (simp add: module_after_def resolve_calls_def ioctls_def)
next
  case (Cons i ids)
  let ?v = "if allow then PFSNITCH_V_ALLOW else PFSNITCH_V_DENY"
  let ?m = "pfsn_resolve True i ?v m"
  have after: "module_after pcb True (ioctls (resolve_calls allow (i # ids))) m
      = module_after pcb True (ioctls (resolve_calls allow ids)) ?m"
    using ioctl_resolve [of pcb True allow i m] by (simp add: resolve_calls_def ioctls_def after_Cons)
  have "kmod_ok n ?m" using resolve_ok [OF Cons.prems(1), of ?v] by simp
  moreover have "vcount ?m + length ids \<le> PFSN_VMAX" using resolve_frame(2) [of True i ?v m] Cons.prems(2) by simp
  moreover have "r \<in> set (reqs ?m) \<and> rq_id r \<in> set ids \<or> cached ?m (r_key r) = Some ?v"
    using Cons.prems(3)
  proof (elim disjE conjE)
    assume r: "r \<in> set (reqs m)" "rq_id r \<in> set (i # ids)"
    show ?thesis
    proof (cases "rq_id r = i")
      case True
      have "cached ?m = (cached m)(r_key r \<mapsto> ?v)"
        using resolve_cached [OF Cons.prems(1) r(1), of ?v] Cons.prems(2) True by simp
      then show ?thesis by simp
    next
      case False
      then show ?thesis using r resolve_others [OF r(1), of i True ?v] by simp
    qed
  next
    assume "cached m (r_key r) = Some ?v"
    then show ?thesis using resolve_keeps [OF Cons.prems(1)] by simp
  qed
  ultimately show ?case unfolding after by (rule Cons.IH)
qed

text \<open>After that, and any steps that bring no other verdict, a program's attempt goes by the answer.\<close>

lemma decided_retry:
  assumes "kmod_ok n m" "vcount m + length ids \<le> PFSN_VMAX" "r \<in> set (reqs m)" "rq_id r \<in> set ids"
    "r_key r = dst_key 17 dst dport pa" "pa \<noteq> []" "0 \<notin> set pa"
    "m' = fold (run_step pcb) later (module_after pcb True (ioctls (resolve_calls allow ids)) m)"
    "\<forall>s \<in> set later. \<not> grants_step s \<and> \<not> clears_step s"
    "slots m' so = Some info" "i_path info = pa @ [0]" "length junk = 16"
  shows "fst (pfsn_socket_check_connect now ok junk SockDgram nbio (Some (slots m' so)) (sa_of dst dport) m')
    = (if allow \<or> loops_back dst then 0 else EPERM)"
proof -
  let ?v = "if allow then PFSNITCH_V_ALLOW else PFSNITCH_V_DENY"
  let ?m = "module_after pcb True (ioctls (resolve_calls allow ids)) m"
  have m: "kmod_ok n ?m" "cached ?m (r_key r) = Some ?v"
    using resolves_decide [OF assms(1,2), of r allow pcb] assms(3,4) by simp_all
  have "vcache_ok m'" unfolding assms(8) by (rule cache.inv_all) (use m(1) assms(9) in \<open>simp_all add: kmod_ok_def\<close>)
  moreover have "cached m' (dst_key 17 dst dport pa) = Some ?v"
    using m(2) unfolding assms(8) cache.view_all [OF assms(9)] assms(5) .
  ultimately show ?thesis
    using connect_cached [of m' so info pa 17 junk dst dport ?v now ok nbio] assms(6,7,10-12)
    by (auto simp: so_of_def PFSNITCH_V_ALLOW_def PFSNITCH_V_DENY_def)
qed


text \<open>The commands of an upcall the policy decides.\<close>

lemma check_id_issues: "\<exists>as. d_trace (snd (check_id env e d)) = d_trace d @ as \<and> ioctls as = []"
  using check_id_cases [of env e d] quiet_trace(1) [of env e d]
  by (auto simp: emit_def ioctls_def)

lemma live_check_id: "live env (snd (check_id env e d)) = live env d"
proof -
  have "d_kern (snd (ident_hash env e d)) = d_kern d" by (simp add: ident_hash_def split: prod.split)
  then have "d_kern (snd (check_id env e d)) = d_kern d"
    using check_id_cases [of env e d] by (auto simp: emit_def)
  then show ?thesis by (simp add: live_def)
qed

lemma upcall_issues:
  assumes "live env d" "ke_path ev \<noteq> []" "upcall_verdict env ev d \<noteq> Ask"
  shows "issued d (drain_upcall env ev d) = ioctls (resolve_calls (upcall_verdict env ev d = Allow) [ke_id ev])"
proof -
  let ?d = "snd (check_id env (ke_path ev) d)" and ?a = "upcall_verdict env ev d = Allow"
  obtain as where as: "d_trace ?d = d_trace d @ as" "ioctls as = []" using check_id_issues by blast
  have "drain_upcall env ev d = kern_answer env (ke_id ev) ?a ?d"
    using assms(2,3) by (cases "upcall_verdict env ev d") (simp_all add: drain_upcall_eq)
  also have "\<dots> = emit (resolve_calls ?a [ke_id ev]) ?d"
    using kern_resolve_live [of env ?d] assms(1) by (simp add: kern_answer_def live_check_id)
  finally have "d_trace (drain_upcall env ev d) = d_trace d @ (as @ resolve_calls ?a [ke_id ev])"
    using as(1) by (simp add: emit_def)
  then show ?thesis using as(2) by (simp add: issued_emitted del: append_assoc)
qed


section \<open>The two together, to try the properties on\<close>

text \<open>A stack that knows no socket.\<close>

definition no_sockets :: pcblookup where
  "no_sockets tcp af faddr fport laddr lport wildcard = None"

text \<open>A daemon with a handle on a device that obeys, and the module after the request of \<open>demo_asked\<close> was denied.\<close>

definition demo_handled :: daemon where
  "demo_handled = (demo_daemon Visibility)\<lparr>d_kern := Some \<lparr>k_fd = 3, dead = False\<rparr>\<rparr>"

definition demo_denied :: kmod where
  "demo_denied = pfsn_resolve True 1 PFSNITCH_V_DENY demo_asked"

lemma demo_handled_sel: "d_kern demo_handled = Some \<lparr>k_fd = 3, dead = False\<rparr>" "d_pol demo_handled = default_policy"
  "d_mode demo_handled = Visibility" "d_trace demo_handled = []" "d_last_check demo_handled = 0" "d_mtime demo_handled = None"
  by (simp_all add: demo_handled_def demo_fields)

lemma demo_live: "live demo_env demo_handled"
  by (simp add: live_def demo_handled_sel demo_env_def)

lemma demo_asked_sel: "reqs demo_asked = [demo_req]" "vcount demo_asked = 0" "slots demo_asked = slots demo_mod"
  "r_key demo_req = dst_key 17 (V4 8 8 8 8) 443 demo_path" "rq_id demo_req = 1"
  using demo_path_ok
  by (simp_all add: demo_asked_def demo_mod_sel demo_req_def dst_key_def flow_of_key_def alen_def af_of_def)

lemma demo_denied_cached: "cached demo_denied (dst_key 17 (V4 8 8 8 8) 443 demo_path) = Some PFSNITCH_V_DENY"
proof -
  have "kmod_ok 1 demo_asked" by (rule kreach_ok [OF demo_asked_reach]) simp
  then show ?thesis
    using resolve_cached [of 1 demo_asked demo_req PFSNITCH_V_DENY] demo_asked_sel by (simp add: demo_denied_def PFSN_VMAX_def)
qed

definition demo_edited :: env where
  "demo_edited = demo_env\<lparr>e_clock := 2000, e_mtime := (\<lambda>dk. Some 7)\<rparr>"

lemma demo_tick: "issued demo_handled (tick demo_edited demo_handled) = [(verdict_flush_cmd, NoArg)]"
  "\<not> no_live (tick demo_edited demo_handled)"
proof -
  have "tick_seen demo_edited demo_handled = demo_handled"
    by (simp add: tick_seen_def seen_flush_def flush_due_def demo_handled_def demo_daemon_def start_def Let_def seen_new_def split: prod.split)
  moreover have "tick_logged demo_edited demo_handled = demo_handled"
    by (simp add: tick_logged_def demo_edited_def demo_handled_def demo_daemon_def start_def Let_def demo_env_def split: prod.split)
  moreover have "d_disk demo_handled = empty_disk" "d_upcall_on demo_handled = False" "d_mode_fallback demo_handled = Visibility"
    by (simp_all add: demo_handled_def demo_daemon_def start_def Let_def split: prod.split)
  moreover have "policy_attribution default_policy \<noteq> KernelModule" "policy_mode default_policy Visibility = Visibility"
    by (simp_all add: policy_attribution_def policy_mode_def default_policy_def)
  ultimately have "\<exists>d'. tick demo_edited demo_handled = d' \<and> d_trace d' = [Ioctl verdict_flush_cmd NoArg] \<and> d_kern d' = d_kern demo_handled"
    by (simp add: tick_def tick_kern_def tick_reload_def reload_policy_def tick_reconcile_def want_upcall_def demo_policy
        demo_handled_sel Let_def with_kern_def flush_verdicts_def ctl_def demo_edited_def emit_def)
      (simp add: demo_env_def)
  then show "issued demo_handled (tick demo_edited demo_handled) = [(verdict_flush_cmd, NoArg)]"
    "\<not> no_live (tick demo_edited demo_handled)"
    by (auto simp: issued_def ioctls_def demo_handled_sel no_live_def)
qed

theorem reload_empties_cache_witness:
  "cached demo_denied \<noteq> Map.empty \<and> cached (fold (run_step no_sockets)
      [Connect 0 True demo_junk SockDgram False True 7 (sa_of (V4 8 8 8 8) 443), Command verdict_flush_cmd NoArg True, ReadPass 1064]
      demo_denied) = Map.empty"
proof -
  let ?steps = "[Connect 0 True demo_junk SockDgram False True 7 (sa_of (V4 8 8 8 8) 443), Command verdict_flush_cmd NoArg True, ReadPass 1064]"
  have "commands ?steps = issued demo_handled (tick demo_edited demo_handled)" by (simp add: demo_tick commands_def)
  then have "cached (fold (run_step no_sockets) ?steps demo_denied) = Map.empty"
    using reload_empties_cache [of demo_edited demo_handled ?steps no_sockets demo_denied] demo_tick(2)
    by (simp add: demo_handled_sel) (simp add: demo_edited_def)
  then show ?thesis using demo_denied_cached by auto
qed

text \<open>The question about 8.8.8.8:443 that waits for the user.\<close>

definition demo_question :: pending where
  "demo_question = \<lparr>pn_host = None, pn_exe = Some ''/bin/a'', pn_dst = V4 8 8 8 8, pn_dport = 443\<rparr>"



section \<open>Where the two do not do what they mean to\<close>

text \<open>An IPv4 destination has two names for a socket of IPv6: the module keeps a mapped address as one of IPv6, the daemon
  compares it as one, and a rule for the IPv4 address does not cover it.\<close>

lemma mapped_address_evades:
  "decide (default_policy\<lparr>deny_dest := {(V4 1 2 3 4, None)}, default_verdict := Some Allow\<rparr>) exe (V4 1 2 3 4) None 443 = Deny"
  "decide (default_policy\<lparr>deny_dest := {(V4 1 2 3 4, None)}, default_verdict := Some Allow\<rparr>) exe (V6 0 0 0 0 0 0xffff 0x0102 0x0304) None 443 = Allow"
  "connect_flow junk SockDgram (sa_of (V6 0 0 0 0 0 0xffff 0x0102 0x0304) 443) = Some (6, 17, replicate 10 0 @ [0xff, 0xff, 1, 2, 3, 4], swap16 443)"
  "\<not> loops_back (V6 0 0 0 0 0 0xffff 0x0102 0x0304)"
proof -
  have o: "octets (V6 0 0 0 0 0 0xffff 0x0102 0x0304) = replicate 10 0 @ [0xff, 0xff, 1, 2, 3, 4]" by code_simp
  then show "connect_flow junk SockDgram (sa_of (V6 0 0 0 0 0 0xffff 0x0102 0x0304) 443)
      = Some (6, 17, replicate 10 0 @ [0xff, 0xff, 1, 2, 3, 4], swap16 443)"
    by (simp add: connect_flow_def sa_of_def)
  show "\<not> loops_back (V6 0 0 0 0 0 0xffff 0x0102 0x0304)" by code_simp
qed (cases exe; simp add: decide_def default_policy_def on_some_def scoped_dest_hit_def scoped_host_hit_def dest_matches_def
      host_matches_def default_or_ask_def port_ok_def)+

end
