(* ===== verification/Service.thy ===== *)
theory Service
  imports Kmod_Daemon Cli
begin

text \<open>
  The scripts around the daemon: the service (\<open>src/rc.d/pfsnitch\<close>) that starts and stops it and loads pf's rules, and the
  watchdog (\<open>src/libexec/pfsnitch-watchdog\<close>) that acts when it has died.  A \<open>host\<close> is what they work on: the rules pf
  holds in the two anchors, the processes, and the kernel module.  A script is a function on it, one definition per shell
  function; the states a script goes through are kept where their order matters.

  What the scripts call is an argument (\<open>service\<close>): what pfctl reads from a file of rules, if it reads it, and what opening
  the module's device returns.  Flushing an anchor succeeds, and \<open>pgrep\<close> tells whether there is a process.
\<close>

section \<open>The machine\<close>

record host =
  h_anchor :: "string list"
  h_udp :: "string list"
  h_pf :: bool
  h_alive :: bool
  h_super :: bool
  h_dog :: bool
  h_module :: kmod

record service =
  c_failmode :: string
  c_failopen :: string
  c_anchor :: string
  c_udpdivert :: string
  c_watchdog :: string
  c_port :: nat
  c_loads :: "string \<Rightarrow> string list option"
  c_open :: "int \<times> int"
  c_pcb :: pcblookup

text \<open>\<open>pfctl -a pfsnitch -s rules | grep -q divert\<close>; \<open>-F rules\<close>; \<open>-f file\<close>.\<close>

definition diverts :: "string list \<Rightarrow> bool" where
  "diverts rs \<longleftrightarrow> list_ex (\<lambda>l. text_contains l ''divert'') rs"

definition flush_anchor :: "host \<Rightarrow> host" where
  "flush_anchor h = h\<lparr>h_anchor := []\<rparr>"

definition load_rules :: "service \<Rightarrow> string \<Rightarrow> host \<Rightarrow> bool \<times> host" where
  "load_rules c file h = (case c_loads c file of None \<Rightarrow> (False, h) | Some rs \<Rightarrow> (True, h\<lparr>h_anchor := rs\<rparr>))"

definition load_udp :: "service \<Rightarrow> host \<Rightarrow> host" where
  "load_udp c h = (case c_loads c (c_udpdivert c) of None \<Rightarrow> h | Some rs \<Rightarrow> h\<lparr>h_udp := rs\<rparr>)"

text \<open>\<open>pfsnitch kernel-reset\<close>.  The command's own descriptor is the last that is closed.\<close>

definition kernel_reset :: "service \<Rightarrow> host \<Rightarrow> host" where
  "kernel_reset c h = (case cmd_kernel_reset (module_device (c_pcb c) True (h_module h)) (fst (c_open c)) (snd (c_open c)) of
      [] \<Rightarrow> h
    | calls \<Rightarrow> h\<lparr>h_module := pfsn_dev_close (module_after (c_pcb c) True calls (h_module h))\<rparr>)"

section \<open>The service\<close>

definition pfsnitch_failsafe :: "service \<Rightarrow> host \<Rightarrow> host" where
  "pfsnitch_failsafe c h =
     (if c_failmode c = ''closed'' then flush_anchor h
      else case load_rules c (c_failopen c) h of (True, h') \<Rightarrow> h' | (False, h') \<Rightarrow> flush_anchor h')"

text \<open>The rows of \<open>sockstat\<close>, by columns.\<close>

definition pfsnitch_divert_squatters :: "service \<Rightarrow> string list list \<Rightarrow> string list list" where
  "pfsnitch_divert_squatters c rows =
     filter (\<lambda>r. length r \<ge> 6 \<and> r ! 4 = ''div4'' \<and> ends_with (r ! 5) (CHR '':'' # show_nat (c_port c))) rows"

definition pfsnitch_prestart :: "service \<Rightarrow> bool \<Rightarrow> string list list \<Rightarrow> host \<Rightarrow> bool \<times> host" where
  "pfsnitch_prestart c ipdivert rows h =
     (let h = h\<lparr>h_pf := True\<rparr> in
      if \<not> ipdivert then (False, h)
      else if pfsnitch_divert_squatters c rows \<noteq> [] then (False, h)
      else (True, flush_anchor h))"

text \<open>\<open>pkill\<close> of the daemon, and what \<open>daemon(8)\<close> with \<open>-r\<close> does a second later.\<close>

definition pkill_child :: "host \<Rightarrow> host" where
  "pkill_child h = h\<lparr>h_alive := False\<rparr>"

definition respawn :: "host \<Rightarrow> host" where
  "respawn h = (if h_super h then h\<lparr>h_alive := True\<rparr> else h)"

definition pfsnitch_poststart :: "service \<Rightarrow> host \<Rightarrow> bool \<times> host" where
  "pfsnitch_poststart c h =
     (if \<not> h_alive h then (False, pfsnitch_failsafe c h)
      else case load_rules c (c_anchor c) h of
        (False, h) \<Rightarrow> (False, pfsnitch_failsafe c (pkill_child h))
      | (True, h) \<Rightarrow>
          let h = load_udp c h;
              h = h\<lparr>h_module := (h_module h)\<lparr>failmode := (if c_failmode c = ''closed'' then 1 else 0)\<rparr>\<rparr>;
              h = (if c_watchdog c = ''YES'' then h\<lparr>h_dog := True\<rparr> else h)
          in (True, h))"

text \<open>\<open>start\<close>: the states it goes through, and whether it succeeded; \<open>up\<close> tells whether the daemon comes up in the time
  that is waited for it.\<close>

definition service_start :: "service \<Rightarrow> bool \<Rightarrow> string list list \<Rightarrow> bool \<Rightarrow> host \<Rightarrow> bool \<times> host list" where
  "service_start c ipdivert rows up h =
     (case pfsnitch_prestart c ipdivert rows h of
        (False, h1) \<Rightarrow> (False, [h1])
      | (True, h1) \<Rightarrow> let h2 = h1\<lparr>h_super := True, h_alive := up\<rparr> in
          case pfsnitch_poststart c h2 of (ok, h3) \<Rightarrow> (ok, [h1, h2, h3]))"

text \<open>\<open>stop\<close>, one function for each step that changes something; \<open>found\<close> tells whether the supervisor's number was found.\<close>

definition pfsnitch_stop :: "bool \<Rightarrow> (host \<Rightarrow> host) list" where
  "pfsnitch_stop found = [flush_anchor, \<lambda>h. h\<lparr>h_dog := False\<rparr>, \<lambda>h. if found then h\<lparr>h_super := False\<rparr> else h, pkill_child]"

definition pfsnitch_poststop :: "service \<Rightarrow> (host \<Rightarrow> host) list" where
  "pfsnitch_poststop c = [flush_anchor, kernel_reset c]"

fun visits :: "(host \<Rightarrow> host) list \<Rightarrow> host \<Rightarrow> host list" where
  "visits [] h = []"
| "visits (f # fs) h = f h # visits fs (f h)"

definition service_stop :: "service \<Rightarrow> bool \<Rightarrow> host \<Rightarrow> host list" where
  "service_stop c found = visits (pfsnitch_stop found @ pfsnitch_poststop c)"

definition pfsnitch_reload :: "service \<Rightarrow> host \<Rightarrow> bool \<times> host" where
  "pfsnitch_reload c h =
     (if \<not> h_alive h then (False, h)
      else case load_rules c (c_anchor c) h of (False, h) \<Rightarrow> (False, h) | (True, h) \<Rightarrow> (True, load_udp c h))"

definition pfsnitch_load_anchor :: "service \<Rightarrow> host \<Rightarrow> bool \<times> host" where
  "pfsnitch_load_anchor c h =
     (if h_alive h then
        (case load_rules c (c_anchor c) h of (False, h) \<Rightarrow> (False, h) | (True, h) \<Rightarrow> (True, load_udp c h))
      else (False, pfsnitch_failsafe c h))"

section \<open>The watchdog\<close>

record dog =
  misses :: nat
  kreset :: bool
  stranded :: nat

definition THRESHOLD :: nat where "THRESHOLD = 3"
definition STRANDED_THRESHOLD :: nat where "STRANDED_THRESHOLD = 3"

definition dog_init :: dog where
  "dog_init = \<lparr>misses = 0, kreset = False, stranded = 0\<rparr>"

text \<open>The service hands its fail mode to the watchdog; the two files are the watchdog's defaults.\<close>

definition dog_service :: "service \<Rightarrow> service" where
  "dog_service c = c\<lparr>c_failopen := ''/usr/local/etc/pfsnitch/failopen.conf'', c_anchor := ''/usr/local/etc/pfsnitch/anchor.conf''\<rparr>"

definition dog_anchor :: "service \<Rightarrow> host \<Rightarrow> host" where
  "dog_anchor c h =
     (if c_failmode c = ''closed'' then
        (if list_ex (\<lambda>l. l \<noteq> []) (h_anchor h) then flush_anchor h else h)
      else if diverts (h_anchor h) then
        (case load_rules c (c_failopen c) h of (True, h') \<Rightarrow> h' | (False, h') \<Rightarrow> flush_anchor h')
      else h)"

text \<open>One pass of its loop; \<open>alive\<close> is what \<open>pgrep\<close> finds.\<close>

definition dog_poll :: "service \<Rightarrow> bool \<Rightarrow> host \<times> dog \<Rightarrow> host \<times> dog" where
  "dog_poll c alive hs = (case hs of (h, s) \<Rightarrow>
     if alive then
       (let s = s\<lparr>misses := 0, kreset := False\<rparr> in
        if diverts (h_anchor h) then (h, s\<lparr>stranded := 0\<rparr>)
        else let s = s\<lparr>stranded := stranded s + 1\<rparr> in
          if STRANDED_THRESHOLD \<le> stranded s then (snd (load_rules c (c_anchor c) h), s\<lparr>stranded := 0\<rparr>)
          else (h, s))
     else
       (let s = s\<lparr>stranded := 0, misses := misses s + 1\<rparr> in
        if THRESHOLD \<le> misses s then
          (let h = (if kreset s then h else kernel_reset c h); s = s\<lparr>kreset := True\<rparr>
           in (dog_anchor c h, s\<lparr>misses := 0\<rparr>))
        else (h, s)))"

section \<open>The watchdog when the daemon is dead, and when it is alive\<close>

lemma reset_module:
  assumes "0 \<le> fst (c_open c)"
  shows "\<not> upcall_on (h_module (kernel_reset c h)) \<and> cached (h_module (kernel_reset c h)) = Map.empty"
proof -
  let ?dev = "module_device (c_pcb c) True (h_module h)" and ?k = "\<lparr>k_fd = fst (c_open c), dead = False\<rparr>"
  have "set_upcall ?dev False ?k = (?k, [(upcall_set_cmd, IntArg 0)])" "flush_verdicts ?dev ?k = (?k, [(verdict_flush_cmd, NoArg)])"
    by (simp_all add: set_upcall_def flush_verdicts_def ctl_def module_device_def ioctl_upcall ioctl_flush)
  then have "cmd_kernel_reset ?dev (fst (c_open c)) (snd (c_open c)) = [(upcall_set_cmd, IntArg 0), (verdict_flush_cmd, NoArg)]"
    using assms by (simp add: cmd_kernel_reset_def kern_open_def)
  then have "h_module (kernel_reset c h) = pfsn_dev_close (pfsn_verdict_flush ((h_module h)\<lparr>upcall_on := False\<rparr>))"
    by (simp add: kernel_reset_def after_Cons ioctl_upcall ioctl_flush) (simp add: module_after_def)
  moreover have "cached (pfsn_dev_close m) = cached m" for m by (rule same_cached) (simp add: pfsn_dev_close_def)
  ultimately show ?thesis by (simp add: flush_cached) (simp add: pfsn_dev_close_def)
qed

lemma reset_frame: "h_anchor (kernel_reset c h) = h_anchor h" "h_udp (kernel_reset c h) = h_udp h"
  by (simp_all add: kernel_reset_def split: list.split)

lemma load_frame: "h_module (snd (load_rules c f h)) = h_module h" "h_udp (snd (load_rules c f h)) = h_udp h"
  by (simp_all add: load_rules_def split: option.split)

lemma flush_frame: "h_module (flush_anchor h) = h_module h" "h_udp (flush_anchor h) = h_udp h" "h_anchor (flush_anchor h) = []"
  by (simp_all add: flush_anchor_def)

lemma dog_anchor_frame: "h_module (dog_anchor c h) = h_module h" "h_udp (dog_anchor c h) = h_udp h"
  using load_frame [of c "c_failopen c" h] by (auto simp: dog_anchor_def flush_frame split: prod.split bool.split)

text \<open>What the anchor is to hold without the daemon.\<close>

definition failopen_plain :: "service \<Rightarrow> bool" where
  "failopen_plain c \<longleftrightarrow> (\<forall>rs. c_loads c (c_failopen c) = Some rs \<longrightarrow> \<not> diverts rs)"

definition settled :: "service \<Rightarrow> host \<Rightarrow> bool" where
  "settled c h \<longleftrightarrow> \<not> diverts (h_anchor h) \<and> (c_failmode c = ''closed'' \<longrightarrow> list_all (\<lambda>l. l = []) (h_anchor h))"

lemma diverts_blank: "list_all (\<lambda>l. l = []) rs \<Longrightarrow> \<not> diverts rs"
  by (auto simp: diverts_def list_ex_iff list_all_iff)

lemma diverts_Nil [simp]: "\<not> diverts []"
  by (simp add: diverts_def)

lemma anchor_settles: "failopen_plain c \<Longrightarrow> settled c (dog_anchor c h)"
  using diverts_blank [of "h_anchor h"]
  by (auto simp: settled_def dog_anchor_def failopen_plain_def load_rules_def flush_anchor_def list_ex_iff list_all_iff
      split: option.split)

lemma anchor_settled: "settled c h \<Longrightarrow> dog_anchor c h = h"
  by (auto simp: settled_def dog_anchor_def list_ex_iff list_all_iff)

text \<open>Three passes from a daemon that was there, and every pass after that.\<close>

definition reset_done :: "host \<times> dog \<Rightarrow> bool" where
  "reset_done hs \<longleftrightarrow> kreset (snd hs) \<and> \<not> upcall_on (h_module (fst hs)) \<and> cached (h_module (fst hs)) = Map.empty"

lemma dead_stays:
  assumes "settled c (fst hs)" "reset_done hs"
  shows "fst (dog_poll c False hs) = fst hs \<and> reset_done (dog_poll c False hs)"
  using assms by (cases hs) (auto simp: dog_poll_def reset_done_def anchor_settled Let_def)

lemma dead_rest:
  assumes "settled c (fst hs)" "reset_done hs"
  shows "fst ((dog_poll c False ^^ n) hs) = fst hs \<and> reset_done ((dog_poll c False ^^ n) hs)"
proof (induction n)
  case (Suc n)
  then show ?case using dead_stays [of c "(dog_poll c False ^^ n) hs"] assms by simp
qed (simp add: assms)

text \<open>C14: a dead daemon leaves what was configured: at the third pass of the watchdog that does not find the daemon, and at
  every one after it, pf diverts nothing to the socket nobody holds: the anchor is empty with the fail mode closed, holds
  the open rules if it diverted before and they can be read, and is left alone otherwise; and the module asks nobody and
  decides nothing by a verdict nobody can revise.\<close>

theorem dead_daemon_fails_as_configured:
  assumes "3 \<le> n" "failopen_plain c" "0 \<le> fst (c_open c)"
  shows "let h1 = fst (dog_poll c True (h, s)); h' = fst (fold (dog_poll c) (True # replicate n False) (h, s)) in
    \<not> diverts (h_anchor h') \<and> \<not> upcall_on (h_module h') \<and> cached (h_module h') = Map.empty
    \<and> (if c_failmode c = ''closed'' then list_all (\<lambda>l. l = []) (h_anchor h')
       else if diverts (h_anchor h1) then h_anchor h' = (case c_loads c (c_failopen c) of Some rs \<Rightarrow> rs | None \<Rightarrow> [])
       else h_anchor h' = h_anchor h1)"
proof -
  obtain h1 s1 where p: "dog_poll c True (h, s) = (h1, s1)" by fastforce
  have s1: "misses s1 = 0" "\<not> kreset s1"
    using p by (auto simp: dog_poll_def Let_def split: if_splits)
  let ?g = "dog_anchor c (kernel_reset c h1)"
  have three: "(dog_poll c False ^^ 3) (h1, s1) = (?g, s1\<lparr>misses := 0, stranded := 0, kreset := True\<rparr>)"
    using s1 by (simp add: dog_poll_def THRESHOLD_def numeral_3_eq_3)
  obtain k where n: "n = k + 3" using assms(1) by (metis le_Suc_ex add.commute)
  have g: "settled c ?g" by (rule anchor_settles [OF assms(2)])
  moreover have r: "reset_done (?g, s1\<lparr>misses := 0, stranded := 0, kreset := True\<rparr>)"
    using reset_module [OF assms(3)] by (simp add: reset_done_def dog_anchor_frame)
  ultimately have "fst (fold (dog_poll c) (True # replicate n False) (h, s)) = ?g"
    using dead_rest [of c "(?g, s1\<lparr>misses := 0, stranded := 0, kreset := True\<rparr>)" k] by (simp add: p n funpow_add three)
  moreover have "if c_failmode c = ''closed'' then list_all (\<lambda>l. l = []) (h_anchor ?g)
       else if diverts (h_anchor h1) then h_anchor ?g = (case c_loads c (c_failopen c) of Some rs \<Rightarrow> rs | None \<Rightarrow> [])
       else h_anchor ?g = h_anchor h1"
    using g by (auto simp: settled_def dog_anchor_def load_rules_def flush_anchor_def reset_frame split: option.split)
  ultimately show ?thesis using g r by (simp add: p settled_def reset_done_def)
qed

lemma live_stays: "diverts (h_anchor (fst hs)) \<Longrightarrow> fst (dog_poll c True hs) = fst hs"
  by (cases hs) (simp add: dog_poll_def)

lemma live_rest: "diverts (h_anchor (fst hs)) \<Longrightarrow> fst ((dog_poll c True ^^ n) hs) = fst hs"
  by (induction n) (simp_all add: live_stays)


text \<open>A live daemon gets its packets back: after the watchdog has found the daemon three times, pf diverts to it,
  if the rules can be read.\<close>

theorem live_daemon_gets_its_packets:
  assumes "3 \<le> n" "c_loads c (c_anchor c) = Some rs" "diverts rs"
  shows "let h' = fst (fold (dog_poll c) (replicate n True) (h, s)) in
    diverts (h_anchor h') \<and> (diverts (h_anchor h) \<longrightarrow> h_anchor h' = h_anchor h) \<and> (\<not> diverts (h_anchor h) \<longrightarrow> h_anchor h' = rs)"
proof -
  obtain k where n: "n = k + 3" using assms(1) by (metis le_Suc_ex add.commute)
  let ?h3 = "(dog_poll c True ^^ 3) (h, s)"
  have "h_anchor (fst ?h3) = (if diverts (h_anchor h) then h_anchor h else rs)"
    using assms(2,3) by (auto simp: numeral_3_eq_3 dog_poll_def STRANDED_THRESHOLD_def load_rules_def Let_def)
  moreover from this have "diverts (h_anchor (fst ?h3))" using assms(3) by simp
  ultimately show ?thesis
    using live_rest [where hs = ?h3 and c = c and n = k] assms(3) by (simp add: n funpow_add Let_def)
qed

section \<open>The order of the service's steps\<close>

text \<open>pf diverts only while there is a daemon.\<close>

definition served :: "host \<Rightarrow> bool" where
  "served h \<longleftrightarrow> (diverts (h_anchor h) \<longrightarrow> h_alive h)"

lemma failsafe_plain: "failopen_plain c \<Longrightarrow> \<not> diverts (h_anchor (pfsnitch_failsafe c h))"
  by (auto simp: pfsnitch_failsafe_def failopen_plain_def load_rules_def flush_anchor_def split: option.split)

lemma failsafe_closed: "c_failmode c = ''closed'' \<Longrightarrow> h_anchor (pfsnitch_failsafe c h) = []"
  by (simp add: pfsnitch_failsafe_def flush_anchor_def)

lemma load_udp_frame: "h_anchor (load_udp c h) = h_anchor h" "h_alive (load_udp c h) = h_alive h"
  by (simp_all add: load_udp_def split: option.split)

lemma poststart_cases:
  "pfsnitch_poststart c h = (ok, h') \<Longrightarrow>
     if ok then h_alive h' \<and> c_loads c (c_anchor c) = Some (h_anchor h') \<and> (c_watchdog c = ''YES'' \<longrightarrow> h_dog h')
     else \<exists>x. h' = pfsnitch_failsafe c x"
  by (auto simp: pfsnitch_poststart_def Let_def load_rules_def load_udp_frame split: if_splits option.splits)

lemma stop_visits: "h' \<in> set (service_stop c found h) \<Longrightarrow> h_anchor h' = []"
  by (auto simp: service_stop_def pfsnitch_stop_def pfsnitch_poststop_def flush_anchor_def pkill_child_def reset_frame)


section \<open>A service to try the properties on\<close>

definition demo_service :: service where
  "demo_service = \<lparr>c_failmode = ''open'', c_failopen = ''open.conf'', c_anchor = ''anchor.conf'', c_udpdivert = ''udp.conf'',
     c_watchdog = ''YES'', c_port = 8668,
     c_loads = (\<lambda>f. if f = ''open.conf'' then Some [''pass out all'']
       else if f = ''anchor.conf'' then Some [''pass out divert-to 8668'', ''pass out all''] else None),
     c_open = (3, 0), c_pcb = no_sockets\<rparr>"

text \<open>The host while the daemon runs, and after it has died.\<close>

definition demo_host :: host where
  "demo_host = \<lparr>h_anchor = [''pass out divert-to 8668'', ''pass out all''], h_udp = [''pass out divert-to 8668''], h_pf = True,
     h_alive = True, h_super = True, h_dog = True, h_module = demo_denied\<rparr>"

lemma demo_plain: "failopen_plain demo_service" "diverts (h_anchor demo_host)"
  by (simp_all add: failopen_plain_def demo_service_def demo_host_def diverts_def)

theorem dead_daemon_fails_as_configured_witness:
  "h_anchor (fst (fold (dog_poll demo_service) [True, False, False, False, False] (demo_host, dog_init))) = [''pass out all'']
   \<and> cached (h_module demo_host) \<noteq> Map.empty
   \<and> cached (h_module (fst (fold (dog_poll demo_service) [True, False, False, False, False] (demo_host, dog_init)))) = Map.empty"
proof -
  have "[True, False, False, False, False] = True # replicate 4 False" by (simp add: numeral_eq_Suc)
  moreover have "fst (dog_poll demo_service True (demo_host, dog_init)) = demo_host" 
    using live_stays [of "(demo_host, dog_init)" demo_service] demo_plain(2) by simp
  moreover have "c_loads demo_service (c_failopen demo_service) = Some [''pass out all'']" "c_failmode demo_service \<noteq> ''closed''"
    "c_open demo_service = (3, 0)" by (simp_all add: demo_service_def)
  moreover have "cached (h_module demo_host) \<noteq> Map.empty" using demo_denied_cached by (auto simp: demo_host_def)
  ultimately show ?thesis
    using dead_daemon_fails_as_configured [of 4 demo_service demo_host dog_init] demo_plain by (simp only: Let_def) simp
qed

theorem live_daemon_gets_its_packets_witness:
  "diverts (h_anchor (fst (fold (dog_poll demo_service) (replicate 3 True) (demo_host\<lparr>h_anchor := []\<rparr>, dog_init))))"
  using live_daemon_gets_its_packets [of 3 demo_service "h_anchor demo_host" "demo_host\<lparr>h_anchor := []\<rparr>" dog_init] demo_plain(2)
  unfolding Let_def by (simp add: demo_service_def demo_host_def)


section \<open>Where the scripts do not do what they mean to\<close>

text \<open>A start whose rules cannot be loaded kills the daemon to avoid a half state, but not its supervisor, which brings it
  back: the daemon runs, nothing is diverted to it, and no watchdog was started to see it.\<close>

lemma start_leaves_half_state:
  assumes "failopen_plain c" "c_loads c (c_anchor c) = None" "h_alive h" "h_super h" "\<not> h_dog h"
  shows "\<exists>h'. pfsnitch_poststart c h = (False, h') \<and> h_alive (respawn h') \<and> \<not> h_dog h' \<and> \<not> diverts (h_anchor h')"
proof -
  let ?h = "pfsnitch_failsafe c (pkill_child h)"
  have "h_super ?h" "\<not> h_dog ?h"
    using assms(4,5) by (auto simp: pfsnitch_failsafe_def load_rules_def flush_anchor_def pkill_child_def split: option.split)
  moreover have "pfsnitch_poststart c h = (False, ?h)" using assms(2,3) by (simp add: pfsnitch_poststart_def load_rules_def)
  ultimately show ?thesis using failsafe_plain [OF assms(1)] by (simp add: respawn_def)
qed

text \<open>The service's own files are not handed to the watchdog, which loads the files of its defaults instead.\<close>

lemma settings_not_passed:
  "c_failopen (dog_service c) = ''/usr/local/etc/pfsnitch/failopen.conf''" "c_anchor (dog_service c) = ''/usr/local/etc/pfsnitch/anchor.conf''"
  by (simp_all add: dog_service_def)

text \<open>After a crash of a daemon that had retired the UDP rules nobody puts them back: the module lets UDP pass to a divert
  path that is not there, the watchdog does not touch those rules, and the daemon that is started next loads them only
  when it turns its own upcalls off.\<close>

lemma polls_keep_udp: "h_udp (fst (fold (dog_poll c) ps (h, s))) = h_udp h"
proof (induction ps arbitrary: h s)
  case (Cons p ps)
  have "h_udp (fst (dog_poll c p (h, s))) = h_udp h"
    by (simp add: dog_poll_def Let_def load_frame dog_anchor_frame reset_frame)
  then show ?case using Cons [of "fst (dog_poll c p (h, s))" "snd (dog_poll c p (h, s))"] by simp
qed simp

lemma crash_leaves_udp_ungoverned:
  assumes "vcache_ok m" "slots m so = Some info" "i_path info ! 0 \<noteq> 0" "connect_flow junk SockDgram sa = Some (af, 17, faddr, fport)"
    "cached m (flow_of_key af 17 faddr fport (i_path info)) = None"
  shows "pfsn_socket_check_connect now ok junk SockDgram nbio (Some (slots m so)) sa (pfsn_dev_close m) = (0, pfsn_dev_close m)"
    "h_udp (fst (fold (dog_poll c) ps (h, s))) = h_udp h"
    "udp_rule (d_trace (start env fallback prompt_env dk)) False = False" "\<not> d_upcall_on (start env fallback prompt_env dk)"
    "\<not> want_upcall d \<Longrightarrow> \<not> d_upcall_on d \<Longrightarrow> tick_reconcile env d = d"
proof -
  let ?m = "pfsn_dev_close m"
  have m: "vcache_ok ?m" "slots ?m so = Some info" "\<not> upcall_on ?m" "slots ?m = slots m"
    using assms(1,2) same_cache [of ?m m] by (simp_all add: pfsn_dev_close_def)
  have "cached ?m = cached m" by (rule same_cached) (simp add: pfsn_dev_close_def)
  then show "pfsn_socket_check_connect now ok junk SockDgram nbio (Some (slots m so)) sa ?m = (0, ?m)"
    using connect_eq [OF m(1,2) assms(3,4), of now ok nbio] connect_loopback [OF assms(4)] m(3,4) assms(5)
    by (cases "is_loopback af faddr") simp_all
  show "h_udp (fst (fold (dog_poll c) ps (h, s))) = h_udp h" by (rule polls_keep_udp)
  show "\<not> d_upcall_on (start env fallback prompt_env dk)" by (simp add: start_def Let_def split: prod.split)
  show "\<not> want_upcall d \<Longrightarrow> \<not> d_upcall_on d \<Longrightarrow> tick_reconcile env d = d" by (simp add: tick_reconcile_def)
  show "udp_rule (d_trace (start env fallback prompt_env dk)) False = False"
    by (auto simp: start_def kern_backend_def open_kern_def Let_def split: sum.split prod.split)
qed

end
