(* ===== verification/Prompt_Script.thy ===== *)
theory Prompt_Script
  imports Daemon
begin

text \<open>
  The prompt (\<open>src/libexec/pfsnitch-prompt*\<close>) and how it gets its answer (\<open>src/bin/pfsnitch-answer\<close>).  A prompt mints a nonce,
  publishes it with its request in files that every prompt uses, and waits for an answer that carries the nonce; a
  frontend answers with the nonce it finds.  Several prompts may be open at once: \<open>pstep\<close> interleaves the steps of their
  scripts and the clicks of the user.  What was clicked, and what was shown then, is kept beside the files.

  A pass of the loop that waits is one step, and so is each of the two parts of opening and the cleaning up.  The random
  bytes, the passing of time and the user are arguments.  Of the backends, \<open>file\<close> is what is below; \<open>eww\<close> also shows a
  window, through a shell in the user's session (\<open>eww_update\<close>); \<open>tty\<close> reads a line from a terminal; \<open>deny\<close> prints a timeout.
\<close>

section \<open>The scripts\<close>

text \<open>\<open>$(cat f)\<close> drops the newlines at the end; \<open>${x%% *}\<close> and \<open>${x#* }\<close>.\<close>

definition cat_file :: "string \<Rightarrow> string" where
  "cat_file t = rev (dropWhile (\<lambda>c. c = newline) (rev t))"

definition before_space :: "string \<Rightarrow> string" where
  "before_space s = takeWhile (\<lambda>c. c \<noteq> CHR '' '') s"

definition after_space :: "string \<Rightarrow> string" where
  "after_space s = (case dropWhile (\<lambda>c. c \<noteq> CHR '' '') s of [] \<Rightarrow> s | c # r \<Rightarrow> r)"

definition VERDICTS :: "string list" where
  "VERDICTS = [''allow-conn'', ''allow-app'', ''block-conn'', ''block'', ''block-app'']"

text \<open>\<open>od -An -N8 -tx1 /dev/urandom | tr -d ' \n'\<close>, for the eight bytes that are read.\<close>

definition mint :: "bytes \<Rightarrow> string" where
  "mint bs = concat (map (\<lambda>b. [digit_char (unat b div 16), digit_char (unat b mod 16)]) bs)"

text \<open>One pass of the loop of \<open>pf_wait\<close>: the verdict, if there is one, and what is left of the answer's file.\<close>

definition pf_poll :: "string \<Rightarrow> string option \<Rightarrow> string option \<times> string option" where
  "pf_poll nonce f = (case f of
      None \<Rightarrow> (None, None)
    | Some t \<Rightarrow>
        if t = [] then (None, f)
        else let line = cat_file t; got = before_space line; ans = after_space line in
          if got = nonce then (if ans \<in> set VERDICTS then Some ans else None, None)
          else (None, f))"

text \<open>\<open>pf_wait\<close>, for the contents it finds at its passes.\<close>

fun pf_wait :: "string \<Rightarrow> string option list \<Rightarrow> string" where
  "pf_wait nonce [] = ''timeout''"
| "pf_wait nonce (f # fs) = (case fst (pf_poll nonce f) of Some v \<Rightarrow> v | None \<Rightarrow> pf_wait nonce fs)"

text \<open>\<open>pfsnitch-answer\<close>: its exit code and what it writes, for the contents of the nonce's file.\<close>

definition pfsnitch_answer :: "string \<Rightarrow> string option \<Rightarrow> int \<times> string option" where
  "pfsnitch_answer v nonce =
     (if v \<notin> set VERDICTS then (64, None)
      else let n = (case nonce of None \<Rightarrow> [] | Some t \<Rightarrow> cat_file t)
        in (0, Some ((if n = [] then ''none'' else n) @ '' '' @ v @ [newline])))"

text \<open>Whatever a backend prints, the daemon understands it.\<close>

lemma wait_answers: "pf_wait nonce fs \<in> insert ''timeout'' (set VERDICTS)"
  by (induction fs) (auto simp: pf_poll_def Let_def split: option.split)

lemma answers_parse: "v \<in> insert ''timeout'' (set VERDICTS) \<Longrightarrow> \<exists>a. parse_answer v = Some a"
proof -
  have "parse_answer ''timeout'' = Some Timeout" "map parse_answer VERDICTS = map Some [AllowConn, AllowApp, Block, Block, BlockApp]"
    by (code_simp, code_simp)
  then show "v \<in> insert ''timeout'' (set VERDICTS) \<Longrightarrow> \<exists>a. parse_answer v = Some a" by (auto simp: VERDICTS_def)
qed

section \<open>The files, the open prompts, the user\<close>

datatype phase =
    Minted string
  | Waiting string nat
  | Settled string string
  | Printed string string

record desk =
  p_nonce :: "string option"
  p_pending :: "nat option"
  p_answer :: "string option"
  p_prompts :: "nat \<Rightarrow> phase option"
  p_clicks :: "(string option \<times> nat option \<times> string) list"

fun nonce_of :: "phase \<Rightarrow> string" where
  "nonce_of (Minted n) = n"
| "nonce_of (Waiting n k) = n"
| "nonce_of (Settled n v) = n"
| "nonce_of (Printed n v) = n"

definition desk_init :: desk where
  "desk_init = \<lparr>p_nonce = None, p_pending = None, p_answer = None, p_prompts = (\<lambda>p. None), p_clicks = []\<rparr>"

text \<open>\<open>pf_init\<close> in its two parts: the old answer goes and the nonce is written; then the request is published.\<close>

definition init_nonce :: "nat \<Rightarrow> string \<Rightarrow> desk \<Rightarrow> desk" where
  "init_nonce p n s = s\<lparr>p_answer := None, p_nonce := Some n, p_prompts := (p_prompts s)(p \<mapsto> Minted n)\<rparr>"

definition init_pending :: "nat \<Rightarrow> string \<Rightarrow> nat \<Rightarrow> desk \<Rightarrow> desk" where
  "init_pending p n limit s = s\<lparr>p_pending := Some p, p_prompts := (p_prompts s)(p \<mapsto> Waiting n limit)\<rparr>"

definition wait_pass :: "nat \<Rightarrow> string \<Rightarrow> nat \<Rightarrow> desk \<Rightarrow> desk" where
  "wait_pass p n k s = (case pf_poll n (p_answer s) of
      (Some v, f) \<Rightarrow> s\<lparr>p_answer := f, p_prompts := (p_prompts s)(p \<mapsto> Settled n v)\<rparr>
    | (None, f) \<Rightarrow> s\<lparr>p_answer := f, p_prompts := (p_prompts s)(p \<mapsto> Waiting n k)\<rparr>)"

definition pf_cleanup :: "nat \<Rightarrow> string \<Rightarrow> string \<Rightarrow> desk \<Rightarrow> desk" where
  "pf_cleanup p n v s = s\<lparr>p_pending := None, p_nonce := None, p_prompts := (p_prompts s)(p \<mapsto> Printed n v)\<rparr>"

definition click :: "string \<Rightarrow> desk \<Rightarrow> desk" where
  "click v s = (case pfsnitch_answer v (p_nonce s) of
      (code, None) \<Rightarrow> s
    | (code, Some t) \<Rightarrow> s\<lparr>p_answer := Some t, p_clicks := p_clicks s @ [(p_nonce s, p_pending s, v)]\<rparr>)"

text \<open>A nonce is new: none of the prompts so far has it.\<close>

inductive pstep :: "desk \<Rightarrow> desk \<Rightarrow> bool" where
  init: "p_prompts s p = None \<Longrightarrow> length bs = 8 \<Longrightarrow> \<forall>q ph. p_prompts s q = Some ph \<longrightarrow> nonce_of ph \<noteq> mint bs \<Longrightarrow>
    pstep s (init_nonce p (mint bs) s)"
| publish: "p_prompts s p = Some (Minted n) \<Longrightarrow> pstep s (init_pending p n limit s)"
| pass: "p_prompts s p = Some (Waiting n (Suc k)) \<Longrightarrow> pstep s (wait_pass p n k s)"
| expire: "p_prompts s p = Some (Waiting n 0) \<Longrightarrow> pstep s (s\<lparr>p_prompts := (p_prompts s)(p \<mapsto> Settled n ''timeout'')\<rparr>)"
| cleanup: "p_prompts s p = Some (Settled n v) \<Longrightarrow> pstep s (pf_cleanup p n v s)"
| answer: "pstep s (click v s)"

inductive preach :: "desk \<Rightarrow> bool" where
  empty: "preach desk_init"
| step: "preach s \<Longrightarrow> pstep s s' \<Longrightarrow> preach s'"

section \<open>Nonces\<close>

definition hexlike :: "string \<Rightarrow> bool" where
  "hexlike n \<longleftrightarrow> length n = 16 \<and> CHR '' '' \<notin> set n \<and> newline \<notin> set n"

lemma digit_plain: "d < 16 \<Longrightarrow> digit_char d \<noteq> CHR '' '' \<and> digit_char d \<noteq> newline"
proof -
  have "\<forall>d \<in> set [0..<16]. digit_char d \<noteq> CHR '' '' \<and> digit_char d \<noteq> newline" by code_simp
  then show "d < 16 \<Longrightarrow> digit_char d \<noteq> CHR '' '' \<and> digit_char d \<noteq> newline" by simp
qed

lemma mint_hexlike: "length bs = 8 \<Longrightarrow> hexlike (mint bs)"
proof -
  have b: "unat b div 16 < 16" for b :: u8
  proof -
    have "unat b < 2 ^ LENGTH(8)" by (rule unsigned_less)
    then have "unat b < 16 * 16" by simp
    then show ?thesis by (simp only: less_mult_imp_div_less)
  qed
  have "length (mint bs) = 2 * length bs" by (induction bs) (simp_all add: mint_def)
  moreover have "c \<noteq> CHR '' '' \<and> c \<noteq> newline" if c: "c \<in> set (mint bs)" for c
  proof -
    have "\<exists>b \<in> set bs. c = digit_char (unat b div 16) \<or> c = digit_char (unat b mod 16)" using c by (simp add: mint_def)
    then obtain b :: u8 where "c = digit_char (unat b div 16) \<or> c = digit_char (unat b mod 16)" by blast
    then show ?thesis using digit_plain [of "unat b div 16"] digit_plain [of "unat b mod 16"] b [of b] by auto
  qed
  ultimately show "length bs = 8 \<Longrightarrow> hexlike (mint bs)" by (auto simp: hexlike_def)
qed

lemma verdict_plain: "v \<in> set VERDICTS \<Longrightarrow> v \<noteq> [] \<and> newline \<notin> set v"
proof -
  have "\<forall>v \<in> set VERDICTS. v \<noteq> [] \<and> newline \<notin> set v" by code_simp
  then show "v \<in> set VERDICTS \<Longrightarrow> v \<noteq> [] \<and> newline \<notin> set v" by blast
qed

lemma cat_line: "newline \<notin> set l \<Longrightarrow> cat_file (l @ [newline]) = l"
proof -
  assume l: "newline \<notin> set l"
  then have "dropWhile (\<lambda>c. c = newline) (rev l) = rev l" by (cases "rev l") (auto simp: dropWhile_eq_self_iff)
  then show ?thesis by (simp add: cat_file_def)
qed

lemma cat_hex: "hexlike n \<Longrightarrow> cat_file n = n"
proof -
  assume n: "hexlike n"
  then have "rev n \<noteq> []" "hd (rev n) \<in> set n" by (auto simp: hexlike_def) (metis hd_in_set length_0_conv list.set_sel(1) rev_is_Nil_conv set_rev zero_neq_numeral)
  then have "dropWhile (\<lambda>c. c = newline) (rev n) = rev n" using n by (auto simp: dropWhile_eq_self_iff hexlike_def)
  then show ?thesis by (simp add: cat_file_def)
qed

lemma split_answer: "CHR '' '' \<notin> set n \<Longrightarrow> before_space (n @ '' '' @ v) = n \<and> after_space (n @ '' '' @ v) = v"
proof -
  assume n: "CHR '' '' \<notin> set n"
  then have "dropWhile (\<lambda>c. c \<noteq> CHR '' '') (n @ '' '' @ v) = '' '' @ v" "takeWhile (\<lambda>c. c \<noteq> CHR '' '') (n @ '' '' @ v) = n"
    by (induction n) auto
  then show ?thesis by (simp add: before_space_def after_space_def)
qed

text \<open>What a click writes, and what a prompt makes of it.\<close>

lemma answer_text:
  assumes "v \<in> set VERDICTS" "\<forall>m. f = Some m \<longrightarrow> hexlike m"
  shows "pfsnitch_answer v f = (0, Some ((case f of None \<Rightarrow> ''none'' | Some m \<Rightarrow> m) @ '' '' @ v @ [newline]))"
  using assms cat_hex by (auto simp: pfsnitch_answer_def Let_def hexlike_def split: option.split)

lemma poll_click:
  assumes "v \<in> set VERDICTS" "\<forall>m. f = Some m \<longrightarrow> hexlike m" "hexlike n" "snd (pfsnitch_answer v f) = Some t"
  shows "pf_poll n (Some t) = (if f = Some n then (Some v, None) else (None, Some t))"
proof -
  define m where "m = (case f of None \<Rightarrow> ''none'' | Some m \<Rightarrow> m)"
  have t: "t = (m @ '' '' @ v) @ [newline]" using answer_text [OF assms(1,2)] assms(4) by (simp add: m_def)
  have m: "CHR '' '' \<notin> set m" "newline \<notin> set m"
    using assms(2) by (auto simp: m_def hexlike_def newline_def split: option.split)
  have c: "cat_file t = m @ '' '' @ v"
    unfolding t by (rule cat_line) (use m(2) verdict_plain [OF assms(1)] in \<open>auto simp: newline_def\<close>)
  have e: "m = n \<longleftrightarrow> f = Some n" using assms(3) by (auto simp: m_def hexlike_def split: option.split)
  have p: "before_space (cat_file t) = m" "after_space (cat_file t) = v" using split_answer [OF m(1)] by (simp_all only: c)
  have "t \<noteq> []" by (simp add: t)
  then show ?thesis using assms(1) e by (simp add: pf_poll_def Let_def p)
qed

section \<open>Consent\<close>

definition desk_ok :: "desk \<Rightarrow> bool" where
  "desk_ok s \<longleftrightarrow>
     (\<forall>p ph. p_prompts s p = Some ph \<longrightarrow> hexlike (nonce_of ph))
   \<and> (\<forall>p q ph ph'. p_prompts s p = Some ph \<longrightarrow> p_prompts s q = Some ph' \<longrightarrow> nonce_of ph = nonce_of ph' \<longrightarrow> p = q)
   \<and> (\<forall>m. p_nonce s = Some m \<longrightarrow> hexlike m)
   \<and> (\<forall>t. p_answer s = Some t \<longrightarrow> (\<exists>f shown v. (f, shown, v) \<in> set (p_clicks s) \<and> v \<in> set VERDICTS
        \<and> (\<forall>m. f = Some m \<longrightarrow> hexlike m) \<and> snd (pfsnitch_answer v f) = Some t))
   \<and> (\<forall>p n v. p_prompts s p \<in> {Some (Settled n v), Some (Printed n v)} \<longrightarrow> v \<noteq> ''timeout'' \<longrightarrow>
        (\<exists>shown. (Some n, shown, v) \<in> set (p_clicks s)))"

lemma desk_okI:
  assumes "\<And>p ph. p_prompts s p = Some ph \<Longrightarrow> hexlike (nonce_of ph)"
    "\<And>p q ph ph'. p_prompts s p = Some ph \<Longrightarrow> p_prompts s q = Some ph' \<Longrightarrow> nonce_of ph = nonce_of ph' \<Longrightarrow> p = q"
    "\<And>m. p_nonce s = Some m \<Longrightarrow> hexlike m"
    "\<And>t. p_answer s = Some t \<Longrightarrow> \<exists>f shown v. (f, shown, v) \<in> set (p_clicks s) \<and> v \<in> set VERDICTS
        \<and> (\<forall>m. f = Some m \<longrightarrow> hexlike m) \<and> snd (pfsnitch_answer v f) = Some t"
    "\<And>p n v. p_prompts s p \<in> {Some (Settled n v), Some (Printed n v)} \<Longrightarrow> v \<noteq> ''timeout'' \<Longrightarrow>
        \<exists>shown. (Some n, shown, v) \<in> set (p_clicks s)"
  shows "desk_ok s"
  unfolding desk_ok_def using assms by blast

text \<open>A prompt that moves on with its nonce keeps the nonces apart.\<close>

lemma same_nonce:
  assumes "desk_ok s" "p_prompts s p = Some ph" "nonce_of ph' = nonce_of ph" "p_prompts s' = (p_prompts s)(p \<mapsto> ph')"
  shows "\<And>q x. p_prompts s' q = Some x \<Longrightarrow> hexlike (nonce_of x)"
    "\<And>q r x y. p_prompts s' q = Some x \<Longrightarrow> p_prompts s' r = Some y \<Longrightarrow> nonce_of x = nonce_of y \<Longrightarrow> q = r"
proof -
  have n: "hexlike (nonce_of ph)" and d: "\<And>q r x y. p_prompts s q = Some x \<Longrightarrow> p_prompts s r = Some y \<Longrightarrow> nonce_of x = nonce_of y \<Longrightarrow> q = r"
    using assms(1,2) unfolding desk_ok_def by blast+
  have h: "\<And>q x. p_prompts s q = Some x \<Longrightarrow> hexlike (nonce_of x)" using assms(1) unfolding desk_ok_def by blast
  show "hexlike (nonce_of x)" if "p_prompts s' q = Some x" for q x
    using that n h assms(3,4) by (auto split: if_splits)
  show "q = r" if "p_prompts s' q = Some x" "p_prompts s' r = Some y" "nonce_of x = nonce_of y" for q r x y
  proof -
    note t = that
    have old: "\<exists>z. p_prompts s q' = Some z \<and> nonce_of z = nonce_of w" if "p_prompts s' q' = Some w" for q' w
      using that assms(2-4) by (cases "q' = p") auto
    obtain z z' where "p_prompts s q = Some z" "nonce_of z = nonce_of x" "p_prompts s r = Some z'" "nonce_of z' = nonce_of y"
      using old [of q x] old [of r y] t(1,2) by blast
    then show ?thesis using d [of q z r z'] t(3) by simp
  qed
qed

lemma init_nonce_ok:
  assumes "desk_ok s" "length bs = 8" "p_prompts s p = None" "\<forall>q ph. p_prompts s q = Some ph \<longrightarrow> nonce_of ph \<noteq> mint bs"
  shows "desk_ok (init_nonce p (mint bs) s)"
proof -
  let ?s = "init_nonce p (mint bs) s"
  have p: "p_prompts ?s = (p_prompts s)(p \<mapsto> Minted (mint bs))" "p_nonce ?s = Some (mint bs)" "p_answer ?s = None"
    "p_clicks ?s = p_clicks s" by (simp_all add: init_nonce_def)
  have h: "\<And>q x. p_prompts s q = Some x \<Longrightarrow> hexlike (nonce_of x)"
    and d: "\<And>q r x y. p_prompts s q = Some x \<Longrightarrow> p_prompts s r = Some y \<Longrightarrow> nonce_of x = nonce_of y \<Longrightarrow> q = r"
    and c: "\<And>q n v. p_prompts s q \<in> {Some (Settled n v), Some (Printed n v)} \<Longrightarrow> v \<noteq> ''timeout'' \<Longrightarrow>
        \<exists>shown. (Some n, shown, v) \<in> set (p_clicks s)"
    using assms(1) unfolding desk_ok_def by blast+
  show ?thesis
  proof (rule desk_okI)
    show "hexlike (nonce_of x)" if "p_prompts ?s q = Some x" for q x
      using that h mint_hexlike [OF assms(2)] by (auto simp: p(1) split: if_splits)
    show "q = r" if "p_prompts ?s q = Some x" "p_prompts ?s r = Some y" "nonce_of x = nonce_of y" for q r x y
    proof (cases "q = p \<or> r = p")
      case True
      then show ?thesis using that assms(4) unfolding p(1) by (cases "q = p"; cases "r = p") fastforce+
    next
      case False
      then show ?thesis using that d [of q x r y] by (simp add: p(1))
    qed
    show "\<exists>shown. (Some n, shown, v) \<in> set (p_clicks ?s)"
      if "p_prompts ?s q \<in> {Some (Settled n v), Some (Printed n v)}" "v \<noteq> ''timeout''" for q n v
      using that c [of q n v] by (auto simp: p split: if_splits)
  qed (simp_all add: p mint_hexlike assms(2))
qed

lemma pass_ok:
  assumes "desk_ok s" "p_prompts s p = Some (Waiting n (Suc k))"
  shows "desk_ok (wait_pass p n k s)"
proof -
  have n: "hexlike n" using assms unfolding desk_ok_def by fastforce
  obtain r f where r: "pf_poll n (p_answer s) = (r, f)" by fastforce
  have poll: "(f = None \<or> f = p_answer s) \<and> (\<forall>v. r = Some v \<longrightarrow> (\<exists>shown. (Some n, shown, v) \<in> set (p_clicks s)))"
  proof (cases "p_answer s")
    case None
    then show ?thesis using r by (auto simp: pf_poll_def)
  next
    case (Some t)
    then obtain g shown v where g: "(g, shown, v) \<in> set (p_clicks s)" "v \<in> set VERDICTS" "\<forall>m. g = Some m \<longrightarrow> hexlike m"
      "snd (pfsnitch_answer v g) = Some t" using assms(1) unfolding desk_ok_def by blast
    then show ?thesis using poll_click [OF g(2,3) n g(4)] r Some by (auto split: if_splits)
  qed
  let ?ph = "case r of Some v \<Rightarrow> Settled n v | None \<Rightarrow> Waiting n k"
  have s: "wait_pass p n k s = s\<lparr>p_answer := f, p_prompts := (p_prompts s)(p \<mapsto> ?ph)\<rparr>"
    by (simp add: wait_pass_def r split: option.split)
  note same = same_nonce [OF assms, of ?ph "wait_pass p n k s"]
  show ?thesis
  proof (rule desk_okI)
    show "hexlike (nonce_of x)" if "p_prompts (wait_pass p n k s) q = Some x" for q x
      by (rule same(1) [OF _ _ that]) (simp_all add: s split: option.split)
    show "q = r" if "p_prompts (wait_pass p n k s) q = Some x" "p_prompts (wait_pass p n k s) r = Some y" "nonce_of x = nonce_of y" for q r x y
      by (rule same(2) [OF _ _ that]) (simp_all add: s split: option.split)
  next
    show "hexlike m" if "p_nonce (wait_pass p n k s) = Some m" for m
      using that assms(1) by (simp add: s desk_ok_def)
  next
    show "\<exists>f shown v. (f, shown, v) \<in> set (p_clicks (wait_pass p n k s)) \<and> v \<in> set VERDICTS
        \<and> (\<forall>m. f = Some m \<longrightarrow> hexlike m) \<and> snd (pfsnitch_answer v f) = Some t"
      if "p_answer (wait_pass p n k s) = Some t" for t
    proof -
      have "p_answer s = Some t" using that poll by (auto simp: s)
      then show ?thesis using assms(1) by (simp add: s desk_ok_def)
    qed
  next
    show "\<exists>shown. (Some m, shown, v) \<in> set (p_clicks (wait_pass p n k s))"
      if "p_prompts (wait_pass p n k s) q \<in> {Some (Settled m v), Some (Printed m v)}" "v \<noteq> ''timeout''" for q m v
      using that poll assms(1) by (auto simp: s desk_ok_def split: if_splits option.splits)
  qed
qed

text \<open>The steps that only move a prompt on with its nonce: publishing, giving up, cleaning up.\<close>

lemma moved_ok:
  assumes "desk_ok s" "p_prompts s p = Some ph" "nonce_of ph' = nonce_of ph" "p_prompts s' = (p_prompts s)(p \<mapsto> ph')"
    "p_nonce s' \<in> {p_nonce s, None}" "p_answer s' = p_answer s" "p_clicks s' = p_clicks s"
    "\<And>n v. ph' \<in> {Settled n v, Printed n v} \<Longrightarrow> v \<noteq> ''timeout'' \<Longrightarrow> ph = Settled n v"
  shows "desk_ok s'"
proof -
  note same = same_nonce [OF assms(1-4)]
  have c: "\<And>q n v. p_prompts s q \<in> {Some (Settled n v), Some (Printed n v)} \<Longrightarrow> v \<noteq> ''timeout'' \<Longrightarrow>
        \<exists>shown. (Some n, shown, v) \<in> set (p_clicks s)"
    and o: "\<And>m. p_nonce s = Some m \<Longrightarrow> hexlike m"
    and a: "\<And>t. p_answer s = Some t \<Longrightarrow> \<exists>f shown v. (f, shown, v) \<in> set (p_clicks s) \<and> v \<in> set VERDICTS
        \<and> (\<forall>m. f = Some m \<longrightarrow> hexlike m) \<and> snd (pfsnitch_answer v f) = Some t"
    using assms(1) unfolding desk_ok_def by blast+
  show ?thesis
  proof (rule desk_okI)
    show "hexlike m" if "p_nonce s' = Some m" for m using that assms(5) o by auto
    show "\<exists>f shown v. (f, shown, v) \<in> set (p_clicks s') \<and> v \<in> set VERDICTS
        \<and> (\<forall>m. f = Some m \<longrightarrow> hexlike m) \<and> snd (pfsnitch_answer v f) = Some t" if "p_answer s' = Some t" for t
      using that a assms(6,7) by simp
    show "\<exists>shown. (Some n, shown, v) \<in> set (p_clicks s')"
      if t: "p_prompts s' q \<in> {Some (Settled n v), Some (Printed n v)}" "v \<noteq> ''timeout''" for q n v
    proof (cases "q = p")
      case True
      then have "ph = Settled n v" using t assms(4,8) by (auto split: if_splits)
      then show ?thesis using c [of p n v] assms(2,7) t(2) by simp
    next
      case False
      then show ?thesis using c [of q n v] assms(4,7) t by simp
    qed
  qed (use same in blast)+
qed

lemma click_ok:
  assumes "desk_ok s"
  shows "desk_ok (click v s)"
proof (cases "v \<in> set VERDICTS")
  case False
  then show ?thesis using assms by (simp add: click_def pfsnitch_answer_def)
next
  case True
  have h: "\<forall>m. p_nonce s = Some m \<longrightarrow> hexlike m" using assms unfolding desk_ok_def by blast
  have c: "\<And>q n v. p_prompts s q \<in> {Some (Settled n v), Some (Printed n v)} \<Longrightarrow> v \<noteq> ''timeout'' \<Longrightarrow>
        \<exists>shown. (Some n, shown, v) \<in> set (p_clicks s)" using assms unfolding desk_ok_def by blast
  obtain t where t: "pfsnitch_answer v (p_nonce s) = (0, Some t)" using answer_text [OF True h] by blast
  then have s: "click v s = s\<lparr>p_answer := Some t, p_clicks := p_clicks s @ [(p_nonce s, p_pending s, v)]\<rparr>" by (simp add: click_def)
  show ?thesis
  proof (rule desk_okI)
    show "\<exists>f shown w. (f, shown, w) \<in> set (p_clicks (click v s)) \<and> w \<in> set VERDICTS
        \<and> (\<forall>m. f = Some m \<longrightarrow> hexlike m) \<and> snd (pfsnitch_answer w f) = Some u" if "p_answer (click v s) = Some u" for u
      using that h t True by (intro exI [of _ "p_nonce s"] exI [of _ "p_pending s"] exI [of _ v]) (simp add: s)
    show "\<exists>shown. (Some n, shown, w) \<in> set (p_clicks (click v s))"
      if "p_prompts (click v s) q \<in> {Some (Settled n w), Some (Printed n w)}" "w \<noteq> ''timeout''" for q n w
    proof -
      have "\<exists>shown. (Some n, shown, w) \<in> set (p_clicks s)" using that c [of q n w] by (simp add: s)
      then show ?thesis by (auto simp: s)
    qed
    show "hexlike (nonce_of ph)" if "p_prompts (click v s) q = Some ph" for q ph
      using that assms unfolding desk_ok_def s by simp
    show "q = r" if "p_prompts (click v s) q = Some x" "p_prompts (click v s) r = Some y" "nonce_of x = nonce_of y" for q r x y
      using that assms unfolding desk_ok_def s by simp
    show "hexlike m" if "p_nonce (click v s) = Some m" for m using that h by (simp add: s)
  qed
qed

lemma preach_ok: "preach s \<Longrightarrow> desk_ok s"
proof (induction rule: preach.induct)
  case empty
  show ?case by (simp add: desk_ok_def desk_init_def)
next
  case (step s s')
  from step.hyps(2) step.IH show ?case
  proof cases
    case (init p bs)
    then show ?thesis using init_nonce_ok [OF step.IH] by simp
  next
    case (publish p n limit)
    then show ?thesis using moved_ok [OF step.IH, of p "Minted n" "Waiting n limit" s'] by (simp add: init_pending_def)
  next
    case (pass p n k)
    then show ?thesis using pass_ok [OF step.IH] by simp
  next
    case (expire p n)
    then show ?thesis using moved_ok [OF step.IH, of p "Waiting n 0" "Settled n ''timeout''" s'] by simp
  next
    case (cleanup p n v)
    then show ?thesis using moved_ok [OF step.IH, of p "Settled n v" "Printed n v" s'] by (simp add: pf_cleanup_def)
  next
    case (answer v)
    then show ?thesis using click_ok [OF step.IH] by simp
  qed
qed

text \<open>C16: no click is taken for another prompt: in any interleaving of open prompts and clicks, a prompt that prints a
  verdict other than a timeout prints what the user clicked while the nonce's file held the nonce of this very prompt,
  which no other prompt has.\<close>

theorem consent_not_misapplied:
  assumes "preach s" "p_prompts s p \<in> {Some (Settled n v), Some (Printed n v)}" "v \<noteq> ''timeout''"
  shows "(\<exists>shown. (Some n, shown, v) \<in> set (p_clicks s))
    \<and> (\<forall>q ph. p_prompts s q = Some ph \<and> nonce_of ph = n \<longrightarrow> q = p)"
proof -
  have ok: "desk_ok s" by (rule preach_ok [OF assms(1)])
  then have "\<exists>shown. (Some n, shown, v) \<in> set (p_clicks s)" using assms(2,3) unfolding desk_ok_def by blast
  moreover have "q = p" if "p_prompts s q = Some ph" "nonce_of ph = n" for q ph
    using that assms(2) ok unfolding desk_ok_def by (metis insert_iff nonce_of.simps(3,4) singletonD)
  ultimately show ?thesis by blast
qed

text \<open>And a click on the prompt that minted last is taken at the next pass.\<close>

lemma click_taken:
  assumes "desk_ok s" "p_prompts s p = Some (Waiting n (Suc k))" "p_nonce s = Some n" "v \<in> set VERDICTS"
  shows "p_prompts (wait_pass p n k (click v s)) p = Some (Settled n v) \<and> p_answer (wait_pass p n k (click v s)) = None"
proof -
  have h: "\<forall>m. Some n = Some m \<longrightarrow> hexlike m" "hexlike n" using assms(1,3) unfolding desk_ok_def by blast+
  obtain t where t: "pfsnitch_answer v (Some n) = (0, Some t)" using answer_text [OF assms(4) h(1)] by blast
  then have "pf_poll n (Some t) = (Some v, None)" using poll_click [OF assms(4) h, of t] by simp
  then show ?thesis using assms(3) t by (simp add: wait_pass_def click_def)
qed

section \<open>Choosing and running a backend\<close>

text \<open>\<open>pfsnitch-prompt\<close>: the backend, for the environment's choice, what runs, and which backends can be executed; what
  it prints when there is none.\<close>

definition prompt_backend :: "string option \<Rightarrow> bool \<Rightarrow> bool \<Rightarrow> string" where
  "prompt_backend choice hyprland someone =
     (let b = (case choice of Some (c # cs) \<Rightarrow> c # cs | _ \<Rightarrow> ''auto'') in
      if b = ''auto'' then (if hyprland then ''eww'' else if someone then ''tty'' else ''file'') else b)"

definition pfsnitch_prompt :: "(string \<Rightarrow> string option) \<Rightarrow> string option \<Rightarrow> bool \<Rightarrow> bool \<Rightarrow> string" where
  "pfsnitch_prompt run choice hyprland someone =
     (case run (''/usr/local/libexec/pfsnitch-prompt-'' @ prompt_backend choice hyprland someone) of
        None \<Rightarrow> ''timeout'' @ [newline]
      | Some out \<Rightarrow> out)"

text \<open>The answers of the terminal: the line that was read, if one was in time.\<close>

definition tty_answer :: "string option \<Rightarrow> string" where
  "tty_answer reply = (case reply of
      None \<Rightarrow> ''timeout''
    | Some r \<Rightarrow>
        if r \<in> {''c'', ''C'', ''allow-conn''} then ''allow-conn''
        else if r \<in> {''a'', ''A'', ''allow-app''} then ''allow-app''
        else if r \<in> {''b'', ''block''} then ''block-conn''
        else if r \<in> {''B'', ''block-app''} then ''block-app''
        else ''timeout'')"

lemma tty_answers: "tty_answer reply \<in> insert ''timeout'' (set VERDICTS)"
  by (simp add: tty_answer_def VERDICTS_def split: option.split)

text \<open>\<open>${n:-default}\<close>.\<close>

definition arg_or :: "string list \<Rightarrow> nat \<Rightarrow> string \<Rightarrow> string" where
  "arg_or args n d = (if n < length args \<and> args ! n \<noteq> [] then args ! n else d)"

definition pf_scope_warning :: "string list \<Rightarrow> string" where
  "pf_scope_warning args =
     (let scp = arg_or args 7 ''unknown'' in
      if scp = ''none'' then ''UNATTRIBUTED: approving this allows '' @ arg_or args 3 ''?'' @ '' port '' @ arg_or args 4 ''?'' @ '' for EVERY application''
      else if scp = ''port'' then ''WEAK MATCH: identified by local port only - '' @ arg_or args 2 ''?'' @ '' may not be the sender''
      else [])"

text \<open>What is published for the frontends, and the line the terminal shows.\<close>

definition jesc :: "string \<Rightarrow> string" where
  "jesc v = cat_file (concat (map (\<lambda>c. if c = backslash then [backslash, backslash] else if c = quote_char then [backslash, quote_char] else [c]) v))"

definition pending_json :: "string \<Rightarrow> string list \<Rightarrow> string" where
  "pending_json nonce args =
     (let field = (\<lambda>x v. [quote_char] @ x @ [quote_char] @ '':'' @ [quote_char] @ jesc v @ [quote_char])
      in ''{'' @ field ''nonce'' nonce @ '','' @ field ''idstate'' (arg_or args 6 ''ok'') @ '','' @ field ''scope'' (arg_or args 7 ''unknown'')
        @ '','' @ field ''exe'' (arg_or args 0 ''?'') @ '','' @ field ''pid'' (arg_or args 1 ''?'') @ '','' @ field ''command'' (arg_or args 2 ''?'')
        @ '','' @ field ''dst'' (arg_or args 3 ''?'') @ '','' @ field ''dport'' (arg_or args 4 ''?'') @ '','' @ field ''hostname'' (arg_or args 5 ''-'')
        @ ''}'' @ [newline])"

definition pf_describe :: "string list \<Rightarrow> string" where
  "pf_describe args =
     (let host = arg_or args 5 ''-'' in
      arg_or args 2 ''?'' @ '' (pid '' @ arg_or args 1 ''?'' @ '') -> ''
      @ (if host = ''-'' \<or> host = [] then arg_or args 3 ''?'' else host @ '' ['' @ arg_or args 3 ''?'' @ '']'')
      @ '' port '' @ arg_or args 4 ''?'')"

text \<open>A control character is not escaped: a host name with a newline, which a name server can send, gives a string no reader
  of JSON takes.\<close>

lemma newline_in_json: "newline \<in> set (jesc (CHR ''x'' # newline # ''y''))"
  by code_simp

definition apostrophe :: char where "apostrophe = CHR 0x27"

definition sh_quote :: "string \<Rightarrow> string" where
  "sh_quote v = apostrophe # v @ [apostrophe]"

text \<open>The command line with which \<open>eww\<close> is told the request, and the one \<open>su -c\<close> is given for it.\<close>

definition eww_update :: "string list \<Rightarrow> string" where
  "eww_update args = ''eww update'' @ concat (map (\<lambda>(x, v). '' '' @ x @ ''='' @ sh_quote v)
     [(''lf_exe'', arg_or args 0 ''?''), (''lf_pid'', arg_or args 1 ''?''), (''lf_cmd'', arg_or args 2 ''?''),
      (''lf_dst'', arg_or args 3 ''?''), (''lf_dport'', arg_or args 4 ''?''), (''lf_host'', arg_or args 5 ''-''),
      (''lf_idstate'', arg_or args 6 ''ok''), (''lf_scope'', arg_or args 7 ''unknown''), (''lf_scopewarn'', pf_scope_warning args)])"

definition asuser :: "string \<Rightarrow> string \<Rightarrow> string \<Rightarrow> string \<Rightarrow> string \<Rightarrow> string" where
  "asuser path home xdg dbus cmd = ''env PATH='' @ sh_quote path @ '' HOME='' @ sh_quote home @ '' XDG_RUNTIME_DIR='' @ sh_quote xdg
     @ '' DBUS_SESSION_BUS_ADDRESS='' @ sh_quote dbus @ '' WAYLAND_DISPLAY=wayland-1 '' @ cmd"

text \<open>What of a command line a shell reads as its own syntax: everything outside single quotes.\<close>

fun unquoted :: "bool \<Rightarrow> string \<Rightarrow> string" where
  "unquoted q [] = []"
| "unquoted q (c # cs) = (if c = apostrophe then unquoted (\<not> q) cs else if q then unquoted q cs else c # unquoted q cs)"

lemma unquoted_plain: "apostrophe \<notin> set s \<Longrightarrow> unquoted q (s @ r) = (if q then [] else s) @ unquoted q r"
  by (induction s) auto

lemma unquoted_quote: "apostrophe \<notin> set v \<Longrightarrow> unquoted False (sh_quote v @ r) = unquoted False r"
  by (simp add: sh_quote_def unquoted_plain)

text \<open>As long as no argument has an apostrophe, none of them is read as syntax.\<close>

lemma update_is_quoted:
  assumes "\<forall>a \<in> set args. apostrophe \<notin> set a"
  shows "unquoted False (eww_update args)
    = ''eww update lf_exe= lf_pid= lf_cmd= lf_dst= lf_dport= lf_host= lf_idstate= lf_scope= lf_scopewarn=''"
proof -
  have a: "apostrophe \<notin> set (arg_or args n d)" if "apostrophe \<notin> set d" for n d
    using that assms by (auto simp: arg_or_def)
  have w: "apostrophe \<notin> set (pf_scope_warning args)"
    using a [of "''?''"] by (simp add: pf_scope_warning_def Let_def) (simp add: apostrophe_def)
  have d: "apostrophe \<notin> set ''?''" "apostrophe \<notin> set ''-''" "apostrophe \<notin> set ''ok''" "apostrophe \<notin> set ''unknown''"
    by (simp_all add: apostrophe_def)
  note q = unquoted_quote [unfolded apostrophe_def]
  have last: "unquoted False (sh_quote (pf_scope_warning args)) = []" using unquoted_quote [OF w, of "[]"] by simp
  have a': "CHR 0x27 \<notin> set (arg_or args n ''?'')" "CHR 0x27 \<notin> set (arg_or args n ''-'')"
    "CHR 0x27 \<notin> set (arg_or args n ''ok'')" "CHR 0x27 \<notin> set (arg_or args n ''unknown'')" for n
    using a [OF d(1)] a [OF d(2)] a [OF d(3)] a [OF d(4)] by (simp_all add: apostrophe_def)
  show ?thesis by (simp add: eww_update_def q a' last apostrophe_def)
qed

section \<open>Two prompts at once\<close>

definition nonce_a :: string where "nonce_a = mint (replicate 8 0)"
definition nonce_b :: string where "nonce_b = mint (replicate 8 1)"

lemma demo_nonces: "nonce_a \<noteq> nonce_b" "hexlike nonce_a" "hexlike nonce_b"
proof -
  show "nonce_a \<noteq> nonce_b" by code_simp
  show "hexlike nonce_a" "hexlike nonce_b" unfolding nonce_a_def nonce_b_def by (rule mint_hexlike, simp)+
qed

text \<open>The request of prompt 0 is on the screen; prompt 1 has minted its nonce, and has not published its request.\<close>

definition demo_between :: desk where
  "demo_between = init_nonce 1 nonce_b (init_pending 0 nonce_a 120 (init_nonce 0 nonce_a desk_init))"

lemma demo_between_reach: "preach demo_between"
proof -
  have "preach (init_nonce 0 nonce_a desk_init)" unfolding nonce_a_def
    by (rule preach.step [OF preach.empty pstep.init]) (simp_all add: desk_init_def)
  then have "preach (init_pending 0 nonce_a 120 (init_nonce 0 nonce_a desk_init))"
    by (rule preach.step [OF _ pstep.publish]) (simp add: init_nonce_def)
  then show ?thesis unfolding demo_between_def nonce_b_def
    by (rule preach.step [OF _ pstep.init])
      (use demo_nonces(1) in \<open>auto simp: init_pending_def init_nonce_def desk_init_def nonce_b_def split: if_splits\<close>)
qed

text \<open>Now the user allows what the screen shows, and prompt 1 takes the answer.\<close>

definition demo_crossed :: desk where
  "demo_crossed = wait_pass 1 nonce_b 119 (init_pending 1 nonce_b (Suc 119) (click ''allow-app'' demo_between))"

lemma demo_click: "p_answer (click ''allow-app'' demo_between) = Some (nonce_b @ '' allow-app'' @ [newline])"
  "p_prompts (click ''allow-app'' demo_between) = p_prompts demo_between"
  "p_clicks (click ''allow-app'' demo_between) = [(Some nonce_b, Some 0, ''allow-app'')]"
proof -
  have n: "p_nonce demo_between = Some nonce_b" "p_clicks demo_between = []" "p_pending demo_between = Some 0"
    by (simp_all add: demo_between_def init_nonce_def init_pending_def desk_init_def)
  have "pfsnitch_answer ''allow-app'' (Some nonce_b) = (0, Some (nonce_b @ '' allow-app'' @ [newline]))"
    using answer_text [of "''allow-app''" "Some nonce_b"] demo_nonces(3) by (simp add: VERDICTS_def)
  then show "p_answer (click ''allow-app'' demo_between) = Some (nonce_b @ '' allow-app'' @ [newline])"
    "p_prompts (click ''allow-app'' demo_between) = p_prompts demo_between"
    "p_clicks (click ''allow-app'' demo_between) = [(Some nonce_b, Some 0, ''allow-app'')]"
    by (simp_all add: click_def n)
qed

lemma demo_crossed_reach: "preach demo_crossed" "p_prompts demo_crossed 1 = Some (Settled nonce_b ''allow-app'')"
  "p_clicks demo_crossed = [(Some nonce_b, Some 0, ''allow-app'')]"
proof -
  let ?s = "init_pending 1 nonce_b (Suc 119) (click ''allow-app'' demo_between)"
  have "preach (click ''allow-app'' demo_between)" by (rule preach.step [OF demo_between_reach pstep.answer])
  then have "preach ?s"
    by (rule preach.step [OF _ pstep.publish]) (unfold demo_click(2), simp add: demo_between_def init_nonce_def)
  then show "preach demo_crossed" unfolding demo_crossed_def
    by (rule preach.step [OF _ pstep.pass]) (simp add: init_pending_def)
  have "pf_poll nonce_b (Some (nonce_b @ '' allow-app'' @ [newline])) = (Some ''allow-app'', None)" by code_simp
  then show "p_prompts demo_crossed 1 = Some (Settled nonce_b ''allow-app'')"
    "p_clicks demo_crossed = [(Some nonce_b, Some 0, ''allow-app'')]"
    using demo_click(1,3) by (simp_all add: demo_crossed_def wait_pass_def init_pending_def)
qed

theorem consent_not_misapplied_witness: "\<exists>shown. (Some nonce_b, shown, ''allow-app'') \<in> set (p_clicks demo_crossed)"
  using consent_not_misapplied [OF demo_crossed_reach(1), of 1 nonce_b "''allow-app''"] demo_crossed_reach(2) by simp

section \<open>Where the scripts do not do what they mean to\<close>

text \<open>The nonce of a new prompt is written before its request is published: a click on the request that is still shown
  carries the new nonce, and consents to a connection the user has not seen.\<close>

lemma consent_crosses_prompts:
  "\<exists>s n. preach s \<and> p_prompts s 1 = Some (Settled n ''allow-app'') \<and> p_clicks s = [(Some n, Some 0, ''allow-app'')]"
  using demo_crossed_reach by blast

text \<open>A prompt that opens removes the answer to another that has not been taken yet, and replaces its nonce.\<close>

lemma opening_drops_answer: "p_answer (init_nonce q m s) = None" "p_nonce (init_nonce q m s) = Some m"
  by (simp_all add: init_nonce_def)

text \<open>A prompt that ends removes the nonce of every other: after that no click reaches the prompt that is still open.\<close>

lemma cleanup_strands_others:
  assumes "desk_ok s" "p_prompts s q = Some (Waiting m (Suc k))" "p \<noteq> q" "v' \<in> set VERDICTS"
  shows "p_prompts (wait_pass q m k (click v' (pf_cleanup p n v s))) q = Some (Waiting m k)"
proof -
  have h: "hexlike m" using assms(1,2) unfolding desk_ok_def by fastforce
  obtain t where t: "pfsnitch_answer v' None = (0, Some t)" using answer_text [OF assms(4), of None] by blast
  then have "pf_poll m (Some t) = (None, Some t)" using poll_click [OF assms(4) _ h, of None t] by simp
  then show ?thesis using t by (simp add: wait_pass_def click_def pf_cleanup_def)
qed

text \<open>An apostrophe in an argument ends the quoting of \<open>eww_update\<close>, and what follows is run by the user's shell.  A name
  server can send one: the name of a response reaches the prompt as it is.\<close>

definition hostile_name :: string where
  "hostile_name = CHR ''x'' # apostrophe # ''; id; '' @ [apostrophe]"

definition hostile :: bytes where
  "hostile = enc_response [0, 0] 0x8180 [0, 0, 0, 0] [0, 1, 0, 1] [0, 1, 0, 0, 0, 60] [as_bytes hostile_name] [V4 1 2 3 4] []"

lemma response_runs_command:
  "parse_response hostile = Ret (Some (hostile_name, [V4 1 2 3 4]))"
  "prompt_args False (Some ''/bin/a'') 7 ''a'' (V4 1 2 3 4) 443 hostile_name ''exact'' ! 5 = hostile_name"
  "text_contains (unquoted False (asuser ''/bin'' ''/home/u'' [] []
     (eww_update (prompt_args False (Some ''/bin/a'') 7 ''a'' (V4 1 2 3 4) 443 hostile_name ''exact'')))) ''; id; ''"
  by (code_simp, simp add: prompt_args_def hostile_name_def, code_simp)

end
