(* ===== verification/Spec2Isabelle.thy ===== *)
theory Spec2Isabelle
  imports Policy_File Divert Dns Procinfo Identity Seen Kernattr Fmt Daemon_Safety Cli_Safety Restart System
    Procstat_Layout Procstat_Mem Bitfield Source_Tests Kmod_Daemon
    Service Prompt_Script
begin

text \<open>
  A verification development for pfsnitch, an application firewall for FreeBSD.

  The program.  pf diverts outgoing connection attempts to the daemon (\<open>src/main.rs\<close>, \<open>run\<close>).  For each packet the
  daemon parses the headers (\<open>divert.rs\<close>), names the process that owns the socket, from the kernel module
  (\<open>kernattr.rs\<close>) or from a scan of the process table (\<open>procinfo.rs\<close>), names the host from the DNS answers it has
  seen go by (\<open>dns.rs\<close>), compares the binary with the one that was approved (\<open>identity.rs\<close>), decides by the policy
  (\<open>policy.rs\<close>), and sends the packet on, drops it and asks the user, or drops it and answers with a reset.
  Answers are written to the policy file.  In enforcement the kernel module (\<open>kmod/mac_pfsnitch.c\<close>) may hold the sockets
  instead and ask the daemon through upcalls; it keeps the verdicts the daemon gives it.  The same program run with a command (\<open>main\<close>, \<open>cmd_*\<close>) lists and edits the policy file.

  The theories, in the order of their dependence.

  \<^item> \<open>Prelude\<close>: an evaluation that may panic (\<open>eval\<close>, for Rust's index and slice operations), bounded reads of lists,
    hash maps as association lists, and the locale \<open>bounded_map\<close> of a map that is emptied when it has outgrown a limit.
  \<^item> \<open>Rust_Str\<close>, \<open>Fmt\<close>: Rust's strings as the list of their UTF-8 bytes, with the operations the program uses
    (trimming, splitting, lines, lossy and strict decoding, case, numbers, padding) and the program's JSON escapes.
  \<^item> \<open>Ip_Addr\<close>: IPv4 and IPv6 addresses, their parser and printer, and that they invert each other.
  \<^item> \<open>Policy\<close>: the \<open>Policy\<close> of \<open>policy.rs\<close> as a record of sets, the loader (\<open>load\<close>), \<open>decide\<close>, and \<open>record_answer\<close> for
    \<open>record\<close>.  \<open>rules_of\<close> reads a policy as a set of rules and \<open>deny_overrides\<close> is what a set of rules means.
  \<^item> \<open>Policy_File\<close>: the file operations of \<open>policy.rs\<close> on a disk that may refuse any operation on any path.  The loader is
    shown to be a sequence of edits, one per line, which carries the proofs of every operation that rewrites lines
    (locale \<open>line_filter\<close>, interpreted for \<open>remove_rule\<close>, \<open>remove_app\<close> and \<open>clear_rules\<close>).
  \<^item> \<open>Divert\<close>: headers, checksums, the reset, and the system calls of the divert socket with the operating system as an
    argument.
  \<^item> \<open>C_Layout\<close>: C's layout rules as \<open>repr(C)\<close> follows them (sizes, alignments, offsets; \<open>packed\<close>, \<open>align\<close>, unions), with the
    proof that members are aligned, inside their type and, in a structure, apart.
  \<^item> \<open>Procstat_Sys\<close>, \<open>Procstat_Layout\<close>: the constants and the types of \<open>procstat_sys.rs\<close>, one definition each under the
    type's name with the prefix \<open>c_\<close>, and its layout assertions, all of which the types uphold.
  \<^item> \<open>Procstat_Mem\<close>: the two walks of \<open>procinfo.rs\<close> (\<open>snapshot\<close>, \<open>daemon_running\<close>) as they are written, with raw pointers into a
    memory that libprocstat fills; they are shown to read mapped memory only, to end, to give back every resource,
    and to compute what \<open>Procinfo\<close> says on what the library reports (contract \<open>reports\<close>).
  \<^item> \<open>Bitfield\<close>: the bit fields of \<open>procstat_sys.rs\<close> on a storage and on a raw pointer, the accessors of its two
    descriptors, and its arrays without a length.
  \<^item> \<open>Dns\<close>, \<open>Procinfo\<close>, \<open>Identity\<close>, \<open>Seen\<close>: the name cache, attribution, hashes, and the table of times, each with the state
    it keeps as a record.
  \<^item> \<open>Kernattr\<close>: the structures exchanged with the module, laid out in bytes and compared with
    \<open>kmod/pfsnitch_ioctl.h\<close>, and the operations on the control device (locale \<open>control_command\<close> for what all commands
    share) and on the event reader.
  \<^item> \<open>Kmod\<close>: the kernel module: the identity in a socket's label, the hash table of verdicts, the queue of questions, the
    connect hook (\<open>pfsn_socket_check_connect\<close>), and the device (\<open>pfsn_ioctl\<close>, \<open>pfsn_read\<close>), each operation a function on the
    record \<open>kmod\<close> of the module's variables.
  \<^item> \<open>Kmod_Safety\<close>: the table as a map from a binary and a destination to a verdict (\<open>cached\<close>), the invariant of the states
    the module can be in (\<open>kreach\<close>), what the hook and a query answer, and that the module takes every command of
    \<open>Kernattr\<close>.
  \<^item> \<open>Kmod_Daemon\<close>: the daemon's commands among the module's own steps, in any interleaving (locale \<open>verdict_machine\<close>,
    interpreted on the module): a reload empties the cache, an answer decides the retry.
  \<^item> \<open>Service\<close>: the scripts that start, stop and watch the daemon (\<open>rc.d/pfsnitch\<close>, \<open>libexec/pfsnitch-watchdog\<close>) on a \<open>host\<close>: pf's
    anchors, the processes and the module.  A dead daemon leaves what was configured, and pf never comes to divert to one
    that is not there.
  \<^item> \<open>Prompt_Script\<close>: the prompt (\<open>libexec/pfsnitch-prompt*\<close>, \<open>bin/pfsnitch-answer\<close>) with its nonces, any number of prompts and
    clicks interleaved (\<open>pstep\<close>), and what its command lines mean to a shell.
  \<^item> \<open>Daemon\<close>: the variables of \<open>run\<close> as the record \<open>daemon\<close>, one function per part of the loop (\<open>drain_answer\<close>,
    \<open>drain_upcall\<close>, \<open>tick\<close>, \<open>packet\<close>, \<open>shutdown\<close>), and the loop as the step relation \<open>dstep\<close> with \<open>reachable\<close>.  What the daemon
    does to the outside is appended to \<open>d_trace\<close>.  The locale \<open>loop_invariant\<close> turns preservation by each part into an
    invariant of the reachable states.
  \<^item> \<open>Daemon_Safety\<close>: what the daemon guarantees, and where it does not do what it means to.
  \<^item> \<open>System\<close>: the threads.  A state holds the main thread's \<open>daemon\<close> and its place in the loop, the prompts that run, the
    readers, and the two channels; \<open>sstep\<close> lets any thread take its next step.  Every interleaving is a run of the loop
    of \<open>Daemon\<close> (so its invariants hold), the channels and the socket lose and reorder nothing, and a signal ends the
    program.
  \<^item> \<open>Cli\<close>, \<open>Cli_Safety\<close>: the commands as functions of the arguments, of what the system reports and of the disk, and
    what they guarantee.
  \<^item> \<open>Source_Tests\<close>: the repository's unit tests with the model's functions in the place of the code's; the model passes
    them.
  \<^item> \<open>Restart\<close> and this theory: the policy in memory against the policy file over answers and a restart.

  Conventions.  A fallible operation returns a sum with the error on the left, or an option where the code does.  A
  Rust operation that can panic returns \<open>Panic\<close>; the properties on parsing show that no input reaches it.  Machine
  integers that are computed with have their width (\<open>u8\<close> to \<open>u64\<close>); lengths and clocks in milliseconds are naturals.
  The recursions on packets and DNS messages are total functions with a proof of termination, so no fuel is needed:
  a name follows at most sixteen pointers and otherwise moves forward in the message, and at most eight extension
  headers are looked at.  The two loops over pointers of foreign memory (\<open>c_string\<close>, \<open>walk_files\<close>) are partial
  functions; for a library that keeps its contract they return.  The caches have the bounds of the code: 2048 hashes, 4096 names, 16384 settled verdicts.

  What the code uses of the outside is an argument: the operating system's answers to system calls (\<open>os\<close>, \<open>errno\<close>),
  the module's replies (\<open>device\<close>; \<open>module_device\<close> is the one that \<open>Kmod\<close> gives), libprocstat's report (\<open>procstat\<close>), the output of \<open>sha256\<close>, the clocks and the time stamps of
  files (\<open>env\<close>), the prompt's output, and what pfctl reads from a file of rules (\<open>service\<close>).  In \<open>Daemon\<close> the prompts are the open prompts in \<open>d_prompts\<close>, an answer may arrive for any of them at any step, and
  an upcall at any step; \<open>System\<close> has the threads and the channels these come from.

  Not modelled.  Messages on standard error, the usage text among them, and the closing of descriptors when a value
  is dropped.  The steps of \<open>System\<close> are whole handlers of the main thread and single sends of the others: that is
  what the threads share, since they meet only in the channels, the shutdown flag and the files.  \<open>to_lowercase\<close> is
  modelled on ASCII, which is all that occurs in host names, hashes and modes that are compared.  Of
  \<open>src/procstat_sys.rs\<close> only the declarations of the library's functions remain, which have no body there, and the
  debug assertions, which a release build does not check.  Of the kernel module the locks are left out: each operation
  is one step, except that the reader's copy may fail after its pass (\<open>read_fault\<close>); the stack's lookup of sockets, the
  time, whether memory can be had, the path of a process and the unwritten bytes of a stack buffer are arguments, and
  what it prints, the network's epochs and its registration with the framework are not modelled.  Its request ids
  are 64 bits wide and taken not to come round (\<open>kreach n\<close> counts the runs of the hook).  Of the scripts their messages, the
  log, pid files and permissions are left out, and flushing an anchor is taken to succeed.  The programs that try the
  module (\<open>kmod/kquery.c\<close>, \<open>kmod/tests\<close>), the widgets (\<open>contrib\<close>), \<open>bin/pfsnitch-panic\<close> and \<open>install.sh\<close> are around the system
  and have no state it depends on.
\<close>

section \<open>Across the components\<close>



text \<open>And a response of a name server can write rules: a label may hold a newline, the daemon records the name as it
  is, and what follows the newline is a directive for the daemon that starts next.\<close>

definition spoofed_name :: string where
  "spoofed_name = ''x'' @ newline # ''allow-app /bin/evil'' @ newline # ''#''"

definition spoofed :: bytes where
  "spoofed = enc_response [0, 0] 0x8180 [0, 0, 0, 0] [0, 1, 0, 1] [0, 1, 0, 0, 0, 60] [as_bytes spoofed_name] [V4 1 2 3 4] []"

lemma spoofed_read: "parse_response spoofed = Ret (Some (spoofed_name, [V4 1 2 3 4]))"
  by code_simp

lemma response_adds_rule:
  "let d = learn_packet demo_env (Some ''/bin/b'') (Some spoofed_name)
       \<lparr>f_proto = 6, f_src = V4 10 0 0 1, f_dst = V4 1 2 3 4, f_sport = 5000, f_dport = 443, f_syn_only = True\<rparr> (demo_daemon Visibility)
   in ''/bin/evil'' \<notin> allow_app (d_pol d) \<and> ''/bin/evil'' \<in> allow_app (d_pol (start demo_env Visibility None (d_disk d)))"
proof -
  have d: "d_disk (demo_daemon m) = empty_disk" for m
    by (simp add: demo_daemon_def start_def Let_def split: prod.split)
  have s: "d_pol (start env0 m pe dk) = fst (policy_load dk POLICY_PATH)" for env0 m pe dk
    by (simp add: start_def Let_def split: prod.split)
  let ?r = "policy_record empty_disk POLICY_PATH default_policy AllowConn (Some ''/bin/b'') (V4 1 2 3 4) (Some spoofed_name) 443 Learned"
  have "''/bin/evil'' \<notin> allow_app (fst ?r) \<and> ''/bin/evil'' \<in> allow_app (fst (policy_load (snd ?r) POLICY_PATH))"
    by code_simp
  then show ?thesis
    by (cases ?r) (simp add: learn_packet_def Let_def pol_record_def d s demo_fields)
qed

end
